(* ===== verification/Go_Prelude.thy ===== *)
theory Go_Prelude
  imports Main "HOL-Library.Word"
begin

text \<open>
  The generic layer of the development: the fact collections the component theories
  extend, and the lemmas on lists, maps and options they share.  Nothing here models a
  source file; the names of the types are the ones the component theories use for Go's
  own types.

  \<^item> \<open>gostring\<close>: a Go \<open>string\<close> or \<open>[]byte\<close>, one \<open>char\<close> per byte (so \<open>length\<close> is Go's \<open>len\<close>);
  \<^item> \<open>u64\<close>: a \<open>uint64\<close> counter, with wrap-around;
  \<^item> \<open>millis\<close>, \<open>nanos\<close>: Unix times and durations as unbounded integers.
\<close>

type_synonym gostring = string
type_synonym u64 = "64 word"
type_synonym millis = int
type_synonym nanos = int

named_theorems frame_simps "what an operation leaves unchanged"
named_theorems inv_intros "invariant preservation, one rule per operation"

section \<open>Lists\<close>

text \<open>The last \<open>n\<close> elements of a list: what a bounded history retains.\<close>

text \<open>A 64-bit signed value after its arithmetic wrapped.\<close>

definition wrap64 :: "int \<Rightarrow> int" where
  "wrap64 i = sint (word_of_int i :: 64 word)"

definition lastn :: "nat \<Rightarrow> 'a list \<Rightarrow> 'a list" where
  "lastn n xs = drop (length xs - n) xs"

lemma length_lastn [simp]: "length (lastn n xs) = min n (length xs)"
  by (auto simp: lastn_def)

lemma lastn_all [simp]: "length xs \<le> n \<Longrightarrow> lastn n xs = xs"
  by (simp add: lastn_def)

lemma lastn_snoc_full:
  assumes "length xs \<ge> n" and "0 < n"
  shows "lastn n (xs @ [x]) = tl (lastn n xs) @ [x]"
proof -
  have "Suc (length xs) - n = Suc (length xs - n)" using assms by simp
  then show ?thesis using assms by (simp add: lastn_def drop_Suc tl_drop)
qed

lemma lastn_snoc_room: "length xs < n \<Longrightarrow> lastn n (xs @ [x]) = lastn n xs @ [x]"
  by (simp add: lastn_def)

lemma set_lastn: "set (lastn n xs) \<subseteq> set xs"
  by (simp add: lastn_def set_drop_subset)

lemma sum_list_filter_split:
  "sum_list (map f xs) = sum_list (map f (filter P xs)) + (sum_list (map f (filter (\<lambda>x. \<not> P x) xs)) :: nat)"
  by (induction xs) auto

lemma distinct_map_filter [intro]: "distinct (map f xs) \<Longrightarrow> distinct (map f (filter P xs))"
  by (induction xs) auto

lemma set_map_filter: "f ` set (filter P xs) = {k. \<exists>x \<in> set xs. P x \<and> f x = k}"
  by auto

lemma distinct_map_imp_eq:
  "distinct (map f xs) \<Longrightarrow> x \<in> set xs \<Longrightarrow> y \<in> set xs \<Longrightarrow> f x = f y \<Longrightarrow> x = y"
  by (induction xs) (auto simp: image_iff)

lemma filter_filter_notin:
  "filter (\<lambda>x. f x \<notin> A) (filter (\<lambda>x. f x \<notin> B) xs) = filter (\<lambda>x. f x \<notin> A \<union> B) xs"
  by (simp add: conj_commute)

section \<open>Counting maps\<close>

text \<open>\<open>m[k] += n\<close> on a Go map from keys to \<open>uint64\<close>, kept as an association list: a missing key
  counts from zero.\<close>

fun bump :: "'k \<Rightarrow> u64 \<Rightarrow> ('k \<times> u64) list \<Rightarrow> ('k \<times> u64) list" where
  "bump k n [] = [(k, n)]"
| "bump k n ((j, c) # m) = (if j = k then (j, c + n) # m else (j, c) # bump k n m)"

definition count_of :: "('k \<times> u64) list \<Rightarrow> 'k \<Rightarrow> u64" where
  "count_of m k = (case map_of m k of None \<Rightarrow> 0 | Some c \<Rightarrow> c)"

lemma count_of_Nil [simp]: "count_of [] k = 0"
  by (simp add: count_of_def)

lemma count_of_Cons [simp]: "count_of ((j, c) # m) k = (if j = k then c else count_of m k)"
  by (simp add: count_of_def)

lemma count_of_bump [simp]: "count_of (bump k n m) j = (if j = k then count_of m k + n else count_of m j)"
  by (induction k n m rule: bump.induct) auto

lemma keys_bump [simp]: "fst ` set (bump k n m) = insert k (fst ` set m)"
  by (induction k n m rule: bump.induct) (simp_all add: insert_commute)

lemma distinct_bump [intro]: "distinct (map fst m) \<Longrightarrow> distinct (map fst (bump k n m))"
  by (induction k n m rule: bump.induct) auto

lemma bump_nonempty [simp]: "bump k n m \<noteq> []"
  by (cases "(k, n, m)" rule: bump.cases) simp_all

end
