(* ===== verification/Go_Text.thy ===== *)
theory Go_Text
  imports Go_Prelude
begin

text \<open>
  The parts of Go's \<open>strings\<close>, \<open>bytes\<close>, \<open>unicode/utf8\<close> and \<open>encoding/hex\<close> packages the
  modelled source calls, on byte strings.
\<close>

section \<open>Bytes\<close>

definition ord :: "char \<Rightarrow> nat" where
  "ord c = of_char c"

lemma ord_lt [simp]: "ord c < 256"
  by (simp add: ord_def)

lemma ord_inject [simp]: "ord c = ord d \<longleftrightarrow> c = d"
  by (simp add: ord_def)

lemma ord_Char [simp]:
  "ord (Char b0 b1 b2 b3 b4 b5 b6 b7) = of_char (Char b0 b1 b2 b3 b4 b5 b6 b7)"
  by (simp add: ord_def)

lemma ord_char_of [simp]: "n < 256 \<Longrightarrow> ord (char_of n) = n"
  by (simp add: ord_def)

definition between :: "nat \<Rightarrow> char \<Rightarrow> nat \<Rightarrow> bool" where
  "between lo c hi \<longleftrightarrow> lo \<le> ord c \<and> ord c \<le> hi"

definition is_digit :: "char \<Rightarrow> bool" where "is_digit c = between 48 c 57"
definition is_upper :: "char \<Rightarrow> bool" where "is_upper c = between 65 c 90"
definition is_lower :: "char \<Rightarrow> bool" where "is_lower c = between 97 c 122"
definition is_alnum :: "char \<Rightarrow> bool" where
  "is_alnum c \<longleftrightarrow> is_digit c \<or> is_upper c \<or> is_lower c"
definition is_lower_hex :: "char \<Rightarrow> bool" where
  "is_lower_hex c \<longleftrightarrow> is_digit c \<or> between 97 c 102"
definition is_any_hex :: "char \<Rightarrow> bool" where
  "is_any_hex c \<longleftrightarrow> is_digit c \<or> between 97 c 102 \<or> between 65 c 70"

lemmas byte_class_defs =
  between_def is_digit_def is_upper_def is_lower_def is_alnum_def is_lower_hex_def is_any_hex_def

definition lower_char :: "char \<Rightarrow> char" where
  "lower_char c = (if is_upper c then char_of (ord c + 32) else c)"

text \<open>\<open>strings.ToLower\<close> on the ASCII range; other bytes are kept.\<close>

definition to_lower :: "gostring \<Rightarrow> gostring" where
  "to_lower s = map lower_char s"

section \<open>Lower-case hexadecimal\<close>

definition hex_digit :: "nat \<Rightarrow> char" where
  "hex_digit n = (if n < 10 then char_of (48 + n) else char_of (87 + n))"

definition unhex_digit :: "char \<Rightarrow> nat" where
  "unhex_digit c = (if is_digit c then ord c - 48 else if between 97 c 102 then ord c - 87 else ord c - 55)"

definition hex_byte :: "8 word \<Rightarrow> gostring" where
  "hex_byte w = [hex_digit (unat w div 16), hex_digit (unat w mod 16)]"

definition hex_bytes :: "8 word list \<Rightarrow> gostring" where
  "hex_bytes bs = concat (map hex_byte bs)"

lemma hex_digit_is_lower_hex: "n < 16 \<Longrightarrow> is_lower_hex (hex_digit n)"
  by (auto simp: hex_digit_def byte_class_defs)

lemma unhex_hex_digit [simp]: "n < 16 \<Longrightarrow> unhex_digit (hex_digit n) = n"
  by (auto simp: hex_digit_def unhex_digit_def byte_class_defs)

lemma lower_hex_any_hex: "is_lower_hex c \<Longrightarrow> is_any_hex c"
  by (auto simp: byte_class_defs)

lemma unat_byte_nibbles: "unat (w :: 8 word) div 16 < 16" "unat w mod 16 < 16"
  using unsigned_less [of w, where ?'a = nat] by (auto simp: less_mult_imp_div_less)

lemma length_hex_bytes [simp]: "length (hex_bytes bs) = 2 * length bs"
  by (induction bs) (auto simp: hex_bytes_def hex_byte_def)

lemma hex_bytes_lower_hex: "c \<in> set (hex_bytes bs) \<Longrightarrow> is_lower_hex c"
  using unat_byte_nibbles by (auto simp: hex_bytes_def hex_byte_def intro: hex_digit_is_lower_hex)

section \<open>Trimming\<close>

text \<open>The UTF-8 encodings of \<open>unicode.IsSpace\<close>'s code points.\<close>

definition space_runes :: "gostring list" where
  "space_runes =
     [[CHR 0x09], [CHR 0x0A], [CHR 0x0B], [CHR 0x0C], [CHR 0x0D], [CHR 0x20],
      [CHR 0xC2, CHR 0x85], [CHR 0xC2, CHR 0xA0], [CHR 0xE1, CHR 0x9A, CHR 0x80],
      [CHR 0xE2, CHR 0x80, CHR 0x80], [CHR 0xE2, CHR 0x80, CHR 0x81], [CHR 0xE2, CHR 0x80, CHR 0x82],
      [CHR 0xE2, CHR 0x80, CHR 0x83], [CHR 0xE2, CHR 0x80, CHR 0x84], [CHR 0xE2, CHR 0x80, CHR 0x85],
      [CHR 0xE2, CHR 0x80, CHR 0x86], [CHR 0xE2, CHR 0x80, CHR 0x87], [CHR 0xE2, CHR 0x80, CHR 0x88],
      [CHR 0xE2, CHR 0x80, CHR 0x89], [CHR 0xE2, CHR 0x80, CHR 0x8A], [CHR 0xE2, CHR 0x80, CHR 0xA8],
      [CHR 0xE2, CHR 0x80, CHR 0xA9], [CHR 0xE2, CHR 0x80, CHR 0xAF], [CHR 0xE2, CHR 0x81, CHR 0x9F],
      [CHR 0xE3, CHR 0x80, CHR 0x80]]"

text \<open>Removing leading runes of a set, each given by its encoding: the loop of \<open>TrimLeftFunc\<close>,
  run until no rune of the set is a prefix.  The fuel is the length of the string.\<close>

definition strip_rune :: "gostring list \<Rightarrow> gostring \<Rightarrow> gostring option" where
  "strip_rune rs s = (case filter (\<lambda>r. r \<noteq> [] \<and> take (length r) s = r) rs of
     [] \<Rightarrow> None | r # _ \<Rightarrow> Some (drop (length r) s))"

fun trim_left :: "nat \<Rightarrow> gostring list \<Rightarrow> gostring \<Rightarrow> gostring" where
  "trim_left 0 rs s = s"
| "trim_left (Suc n) rs s = (case strip_rune rs s of None \<Rightarrow> s | Some t \<Rightarrow> trim_left n rs t)"

definition trim_runes :: "gostring list \<Rightarrow> gostring \<Rightarrow> gostring" where
  "trim_runes rs s =
     (let l = trim_left (length s) rs s
      in rev (trim_left (length l) (map rev rs) (rev l)))"

definition trim_space :: "gostring \<Rightarrow> gostring" where
  "trim_space s = trim_runes space_runes s"

text \<open>\<open>strings.TrimRight(s, "/")\<close> and \<open>strings.TrimPrefix\<close>.\<close>

definition trim_right_char :: "char \<Rightarrow> gostring \<Rightarrow> gostring" where
  "trim_right_char c s = rev (dropWhile (\<lambda>x. x = c) (rev s))"

definition trim_prefix :: "gostring \<Rightarrow> gostring \<Rightarrow> gostring" where
  "trim_prefix p s = (if take (length p) s = p then drop (length p) s else s)"

definition has_prefix :: "gostring \<Rightarrow> gostring \<Rightarrow> bool" where
  "has_prefix p s \<longleftrightarrow> take (length p) s = p"

section \<open>UTF-8\<close>

text \<open>The length of the well-formed UTF-8 sequence a string starts with, 0 when it starts with
  none: no overlong form, no surrogate, nothing above U+10FFFF.\<close>

definition cont :: "char \<Rightarrow> bool" where "cont c = between 128 c 191"

fun utf8_head :: "gostring \<Rightarrow> nat" where
  "utf8_head [] = 0"
| "utf8_head (a # s) =
     (if ord a < 128 then 1
      else case s of [] \<Rightarrow> 0 | b # s2 \<Rightarrow>
        if between 194 a 223 then (if cont b then 2 else 0)
        else case s2 of [] \<Rightarrow> 0 | c # s3 \<Rightarrow>
          if ord a = 224 then (if between 160 b 191 \<and> cont c then 3 else 0)
          else if ord a = 237 then (if between 128 b 159 \<and> cont c then 3 else 0)
          else if between 225 a 239 then (if cont b \<and> cont c then 3 else 0)
          else case s3 of [] \<Rightarrow> 0 | d # _ \<Rightarrow>
            if ord a = 240 then (if between 144 b 191 \<and> cont c \<and> cont d then 4 else 0)
            else if between 241 a 243 then (if cont b \<and> cont c \<and> cont d then 4 else 0)
            else if ord a = 244 then (if between 128 b 143 \<and> cont c \<and> cont d then 4 else 0)
            else 0)"

fun utf8_valid_fuel :: "nat \<Rightarrow> gostring \<Rightarrow> bool" where
  "utf8_valid_fuel 0 s = (s = [])"
| "utf8_valid_fuel (Suc n) s =
     (s = [] \<or> (let k = utf8_head s in 0 < k \<and> utf8_valid_fuel n (drop k s)))"

definition utf8_valid :: "gostring \<Rightarrow> bool" where
  "utf8_valid s = utf8_valid_fuel (length s) s"

text \<open>What \<open>encoding/json\<close> does with a string that is not valid UTF-8: each byte that starts no
  sequence becomes U+FFFD.\<close>

fun to_valid_utf8_fuel :: "nat \<Rightarrow> gostring \<Rightarrow> gostring" where
  "to_valid_utf8_fuel 0 s = []"
| "to_valid_utf8_fuel (Suc n) s =
     (if s = [] then []
      else let k = utf8_head s
        in if k = 0 then [CHR 0xEF, CHR 0xBF, CHR 0xBD] @ to_valid_utf8_fuel n (tl s)
           else take k s @ to_valid_utf8_fuel n (drop k s))"

definition to_valid_utf8 :: "gostring \<Rightarrow> gostring" where
  "to_valid_utf8 s = to_valid_utf8_fuel (length s) s"

text \<open>A string of ASCII bytes is valid and left alone.\<close>

definition ascii :: "gostring \<Rightarrow> bool" where
  "ascii s \<longleftrightarrow> list_all (\<lambda>c. ord c < 128) s"

lemma to_valid_utf8_fuel_ascii: "ascii s \<Longrightarrow> length s \<le> n \<Longrightarrow> to_valid_utf8_fuel n s = s"
proof (induction n arbitrary: s)
  case 0 then show ?case by simp
next
  case (Suc n) then show ?case by (cases s) (auto simp: ascii_def)
qed

lemma to_valid_utf8_ascii [simp]: "ascii s \<Longrightarrow> to_valid_utf8 s = s"
  by (simp add: to_valid_utf8_def to_valid_utf8_fuel_ascii)

lemma to_valid_utf8_fuel_valid:
  "utf8_valid_fuel m s \<Longrightarrow> length s \<le> n \<Longrightarrow> to_valid_utf8_fuel n s = s"
proof (induction n arbitrary: m s)
  case 0 then show ?case by simp
next
  case (Suc n)
  show ?case
  proof (cases "s = []")
    case False
    with Suc.prems obtain m' where "m = Suc m'" "0 < utf8_head s" "utf8_valid_fuel m' (drop (utf8_head s) s)"
      by (cases m) (auto simp: Let_def)
    moreover have "length (drop (utf8_head s) s) \<le> n" using Suc.prems(2) \<open>0 < utf8_head s\<close> False by simp
    ultimately have "to_valid_utf8_fuel n (drop (utf8_head s) s) = drop (utf8_head s) s"
      by (intro Suc.IH)
    with False \<open>0 < utf8_head s\<close> show ?thesis by (simp add: Let_def)
  qed simp
qed

lemma to_valid_utf8_valid: "utf8_valid s \<Longrightarrow> to_valid_utf8 s = s"
  by (simp add: utf8_valid_def to_valid_utf8_def to_valid_utf8_fuel_valid)

section \<open>Decimal integers\<close>

fun digits_of :: "nat \<Rightarrow> gostring" where
  "digits_of n = (if n < 10 then [char_of (48 + n)] else digits_of (n div 10) @ [char_of (48 + n mod 10)])"

declare digits_of.simps [simp del]

definition show_int :: "int \<Rightarrow> gostring" where
  "show_int i = (if i < 0 then CHR ''-'' # digits_of (nat (- i)) else digits_of (nat i))"

definition digit_val :: "char \<Rightarrow> nat" where "digit_val c = ord c - 48"

definition nat_of_digits :: "gostring \<Rightarrow> nat" where
  "nat_of_digits s = foldl (\<lambda>n c. 10 * n + digit_val c) 0 s"

text \<open>\<open>strconv.ParseInt(s, 10, 64)\<close>: a sign, then at least one digit, in range.\<close>

datatype parse_int_result = PInt int | PSyntax | PRange

definition parse_int64 :: "gostring \<Rightarrow> parse_int_result" where
  "parse_int64 s =
     (let (neg, ds) = (case s of [] \<Rightarrow> (False, []) | c # t \<Rightarrow>
             if c = CHR ''-'' then (True, t) else if c = CHR ''+'' then (False, t) else (False, s))
      in if ds = [] \<or> \<not> list_all is_digit ds then PSyntax
         else let n = int (nat_of_digits ds)
           in if neg then (if n \<le> 2 ^ 63 then PInt (- n) else PRange)
              else (if n < 2 ^ 63 then PInt n else PRange))"

lemma digit_char [simp]: "(n :: nat) < 10 \<Longrightarrow> is_digit (char_of (48 + n))"
  by (simp add: byte_class_defs)

lemma digits_of_digits: "list_all is_digit (digits_of n)"
proof (induction n rule: digits_of.induct)
  case (1 n)
  then show ?case by (subst digits_of.simps) auto
qed

lemma digits_of_nonempty [simp]: "digits_of n \<noteq> []"
  by (subst digits_of.simps) simp

lemma nat_of_digits_of [simp]: "nat_of_digits (digits_of n) = n"
proof (induction n rule: digits_of.induct)
  case (1 n)
  show ?case
  proof (cases "n < 10")
    case True
    then show ?thesis by (subst digits_of.simps) (simp add: nat_of_digits_def digit_val_def)
  next
    case False
    then have "nat_of_digits (digits_of (n div 10)) = n div 10" by (rule "1.IH")
    then show ?thesis using False
      by (subst digits_of.simps) (simp add: nat_of_digits_def digit_val_def)
  qed
qed

lemma digits_of_hd: "hd (digits_of n) \<noteq> CHR ''-''" "hd (digits_of n) \<noteq> CHR ''+''"
proof -
  have "is_digit (hd (digits_of n))"
    using digits_of_digits [of n] digits_of_nonempty [of n] by (cases "digits_of n") auto
  then show "hd (digits_of n) \<noteq> CHR ''-''" "hd (digits_of n) \<noteq> CHR ''+''"
    by (auto simp: byte_class_defs ord_def)
qed

lemma parse_show_int: "- (2 ^ 63) \<le> i \<Longrightarrow> i < 2 ^ 63 \<Longrightarrow> parse_int64 (show_int i) = PInt i"
proof (cases "i < 0")
  case True
  assume "- (2 ^ 63) \<le> i" "i < 2 ^ 63"
  with True show ?thesis
    using digits_of_digits [of "nat (- i)"] by (simp add: show_int_def parse_int64_def Let_def)
next
  case False
  assume "- (2 ^ 63) \<le> i" "i < 2 ^ 63"
  obtain c t where ct: "digits_of (nat i) = c # t" by (cases "digits_of (nat i)") auto
  then have "c \<noteq> CHR ''-''" "c \<noteq> CHR ''+''" using digits_of_hd [of "nat i"] by auto
  moreover have "list_all is_digit (c # t)" using digits_of_digits [of "nat i"] ct by simp
  moreover have "nat_of_digits (c # t) = nat i" using nat_of_digits_of [of "nat i"] ct by simp
  ultimately show ?thesis
    using False \<open>i < 2 ^ 63\<close> ct by (simp add: show_int_def parse_int64_def Let_def)
qed

end
