(* ===== verification/Identifiers.thy ===== *)
theory Identifiers
  imports Go_Text
begin

text \<open>
  Event identifiers and event names: \<open>ids.go\<close>, \<open>event_names.go\<close>,
  \<open>internal/uuidv7/uuidv7.go\<close> and the size rule of \<open>event_size.go\<close>.  The random bytes of
  \<open>crypto/rand\<close> and the clock are arguments; a failed read of the random source is \<open>None\<close>.
  The intake checks return the error and the new value of the two statistics they touch.
\<close>

unbundle bit_operations_syntax

section \<open>UUIDv7\<close>

definition byte_at :: "nat \<Rightarrow> 64 word \<Rightarrow> 8 word" where
  "byte_at k w = ucast (drop_bit k w)"

text \<open>\<open>NewAt\<close>: the 48 low bits of the Unix milliseconds, then the random bytes with the version
  and variant bits forced, printed in the 8-4-4-4-12 groups.  A \<open>crypto/rand\<close> read fills all
  sixteen bytes or fails.\<close>

definition uuid_bytes :: "8 word list \<Rightarrow> int \<Rightarrow> 8 word list" where
  "uuid_bytes b now_ms =
     (let millis = (of_int now_ms :: 64 word);
          b = b[0 := byte_at 40 millis];
          b = b[1 := byte_at 32 millis];
          b = b[2 := byte_at 24 millis];
          b = b[3 := byte_at 16 millis];
          b = b[4 := byte_at 8 millis];
          b = b[5 := byte_at 0 millis];
          b = b[6 := (b ! 6 AND 0x0f) OR 0x70]
      in b[8 := (b ! 8 AND 0x3f) OR 0x80])"

definition uuid_format :: "8 word list \<Rightarrow> gostring" where
  "uuid_format b =
     hex_bytes (take 4 b) @ ''-'' @ hex_bytes (take 2 (drop 4 b)) @ ''-'' @
     hex_bytes (take 2 (drop 6 b)) @ ''-'' @ hex_bytes (take 2 (drop 8 b)) @ ''-'' @
     hex_bytes (take 6 (drop 10 b))"

definition NewAt :: "8 word list option \<Rightarrow> int \<Rightarrow> gostring option" where
  "NewAt rnd now_ms = map_option (\<lambda>b. uuid_format (uuid_bytes b now_ms)) rnd"

text \<open>The byte walk shared by \<open>IsValid\<close> and \<open>validEventID\<close>: hyphens at 8, 13, 18 and 23, a digit
  of the given class elsewhere.\<close>

fun uuid_shape :: "(char \<Rightarrow> bool) \<Rightarrow> nat \<Rightarrow> gostring \<Rightarrow> bool" where
  "uuid_shape digit i [] = True"
| "uuid_shape digit i (c # s) =
     ((if i \<in> {8, 13, 18, 23} then c = CHR ''-'' else digit c) \<and> uuid_shape digit (Suc i) s)"

definition isHex :: "char \<Rightarrow> bool" where
  "isHex ch \<longleftrightarrow> between 48 ch 57 \<or> between 97 ch 102 \<or> between 65 ch 70"

definition IsValid :: "gostring \<Rightarrow> bool" where
  "IsValid value \<longleftrightarrow>
     length value = 36 \<and> uuid_shape isHex 0 value \<and> value ! 14 = CHR ''7'' \<and>
     value ! 19 \<in> {CHR ''8'', CHR ''9'', CHR ''a'', CHR ''A'', CHR ''b'', CHR ''B''}"

definition validEventID :: "gostring \<Rightarrow> bool" where
  "validEventID i \<longleftrightarrow>
     length i = 36 \<and> uuid_shape (\<lambda>c. between 48 c 57 \<or> between 97 c 102) 0 i \<and>
     (i ! 14 = CHR ''4'' \<or> i ! 14 = CHR ''5'' \<or> i ! 14 = CHR ''7'') \<and>
     (i ! 19 = CHR ''8'' \<or> i ! 19 = CHR ''9'' \<or> i ! 19 = CHR ''a'' \<or> i ! 19 = CHR ''b'')"

section \<open>Intake checks\<close>

datatype intake_error = ErrInvalidEventID | ErrEventNameRequired | ErrReservedEventName | ErrEventTooLarge

text \<open>The two statistics an intake refusal writes: \<open>dropped\<close> and \<open>lastError\<close>.\<close>

record intake_stats =
  in_dropped :: u64
  in_last_error :: "intake_error option"

definition refuse :: "intake_error \<Rightarrow> intake_stats \<Rightarrow> intake_stats" where
  "refuse e st = st\<lparr>in_dropped := in_dropped st + 1, in_last_error := Some e\<rparr>"

definition validateHostEventID :: "gostring \<Rightarrow> intake_stats \<Rightarrow> (intake_error + gostring) \<times> intake_stats" where
  "validateHostEventID i st =
     (let i = to_lower (trim_space i)
      in if i = [] \<or> validEventID i then (Inr i, st)
         else (Inl ErrInvalidEventID, refuse ErrInvalidEventID st))"

definition event_name_cutset :: "gostring list" where
  "event_name_cutset = [[CHR 0x20], [CHR 0x09], [CHR 0x0A], [CHR 0x0B], [CHR 0x0C], [CHR 0x0D]]"

definition normalizeEventName :: "gostring \<Rightarrow> gostring" where
  "normalizeEventName name = trim_runes event_name_cutset name"

definition reserved_event_names :: "gostring list" where
  "reserved_event_names =
     [''experiment_exposure'', ''experiment_outcome'', ''governed_action_result'',
      ''app_runtime_ping'', ''monitor_evaluation_recorded'', ''llm_usage'',
      ''support_assistant_feedback'', ''ad_impression_revenue'', ''session_started'', ''session_ended'']"

definition validateHostEventName :: "gostring \<Rightarrow> intake_stats \<Rightarrow> intake_error option \<times> intake_stats" where
  "validateHostEventName name st =
     (let name = normalizeEventName name;
          err = (if name = [] then Some ErrEventNameRequired
                 else if trim_prefix ''app.'' name \<in> set reserved_event_names then Some ErrReservedEventName
                 else None)
      in (err, case err of None \<Rightarrow> st | Some e \<Rightarrow> refuse e st))"

definition maxEventBytes :: nat where "maxEventBytes = 2048"

definition eventExceedsSizeLimit :: "gostring \<Rightarrow> bool" where
  "eventExceedsSizeLimit raw \<longleftrightarrow> length (trim_space raw) > maxEventBytes"

definition refuseOversizeEvent :: "intake_stats \<Rightarrow> intake_error \<times> intake_stats" where
  "refuseOversizeEvent st = (ErrEventTooLarge, refuse ErrEventTooLarge st)"

section \<open>Lemmas\<close>

lemma length_uuid_bytes [simp]: "length (uuid_bytes b ms) = length b"
  by (simp add: uuid_bytes_def Let_def)

lemma uuid_shape_append:
  "uuid_shape d i (s @ t) \<longleftrightarrow> uuid_shape d i s \<and> uuid_shape d (i + length s) t"
  by (induction s arbitrary: i) auto

lemma uuid_shape_digits:
  "\<forall>c \<in> set s. d c \<Longrightarrow> \<forall>k \<in> {i..<i + length s}. k \<notin> {8, 13, 18, 23} \<Longrightarrow> uuid_shape d i s"
  by (induction s arbitrary: i) auto

lemma uuid_shape_mono: "uuid_shape d i s \<Longrightarrow> (\<And>c. d c \<Longrightarrow> e c) \<Longrightarrow> uuid_shape e i s"
  by (induction s arbitrary: i) auto

lemma uuid_shape_hex_bytes:
  assumes "\<forall>k \<in> {i..<i + 2 * length bs}. k \<notin> {8, 13, 18, 23}"
  shows "uuid_shape (\<lambda>c. between 48 c 57 \<or> between 97 c 102) i (hex_bytes bs)"
proof (rule uuid_shape_digits)
  show "\<forall>c \<in> set (hex_bytes bs). between 48 c 57 \<or> between 97 c 102"
    using hex_bytes_lower_hex by (auto simp: is_lower_hex_def is_digit_def)
  show "\<forall>k \<in> {i..<i + length (hex_bytes bs)}. k \<notin> {8, 13, 18, 23}" using assms by simp
qed

lemma length_uuid_format: "length b = 16 \<Longrightarrow> length (uuid_format b) = 36"
  by (simp add: uuid_format_def)

lemma uuid_format_shape:
  "length b = 16 \<Longrightarrow> uuid_shape (\<lambda>c. between 48 c 57 \<or> between 97 c 102) 0 (uuid_format b)"
  unfolding uuid_format_def uuid_shape_append
  by (auto intro!: uuid_shape_hex_bytes)

text \<open>The printed digits of byte \<open>6\<close> stand at 14 and 15, those of byte \<open>8\<close> at 19 and 20.\<close>

lemma hex_bytes_nth:
  "i < length bs \<Longrightarrow> hex_bytes bs ! (2 * i) = hex_digit (unat (bs ! i) div 16)"
  "i < length bs \<Longrightarrow> hex_bytes bs ! (Suc (2 * i)) = hex_digit (unat (bs ! i) mod 16)"
proof (induction bs arbitrary: i)
  case (Cons b bs)
  { case 1 then show ?case using Cons.IH by (cases i) (auto simp: hex_bytes_def hex_byte_def) }
  { case 2 then show ?case using Cons.IH by (cases i) (auto simp: hex_bytes_def hex_byte_def) }
qed auto

lemma list16_cases:
  assumes "length b = (16 :: nat)"
  obtains b0 b1 b2 b3 b4 b5 b6 b7 b8 b9 b10 b11 b12 b13 b14 b15
  where "b = [b0, b1, b2, b3, b4, b5, b6, b7, b8, b9, b10, b11, b12, b13, b14, b15]"
  using assms by (auto simp: length_Suc_conv eval_nat_numeral)

lemma uuid_format_nth:
  assumes "length b = 16"
  shows "uuid_format b ! 14 = hex_digit (unat (b ! 6) div 16)"
    and "uuid_format b ! 19 = hex_digit (unat (b ! 8) div 16)"
  using assms by (rule list16_cases, simp add: uuid_format_def hex_bytes_def hex_byte_def)+

lemma version_nibble: "unat (((w :: 8 word) AND 0x0f) OR 0x70) div 16 = 7"
proof -
  have "drop_bit 4 ((w AND 0x0f) OR 0x70) = (7 :: 8 word)" by (simp add: drop_bit_or drop_bit_and)
  then have "unat (drop_bit 4 ((w AND 0x0f) OR 0x70)) = 7" by simp
  then show ?thesis by (simp add: drop_bit_eq_div unat_div)
qed

lemma variant_nibble:
  "unat (((w :: 8 word) AND 0x3f) OR 0x80) div 16 \<in> {8, 9, 10, 11}"
proof -
  have "drop_bit 6 ((w AND 0x3f) OR 0x80) = (2 :: 8 word)" by (simp add: drop_bit_or drop_bit_and)
  then have "unat (drop_bit 6 ((w AND 0x3f) OR 0x80)) = 2" by simp
  then have "unat ((w AND 0x3f) OR 0x80) div 64 = 2" by (simp add: drop_bit_eq_div unat_div)
  then show ?thesis by auto
qed

lemma uuid_bytes_nth:
  assumes "length b = 16"
  shows "uuid_bytes b ms ! 6 = (b ! 6 AND 0x0f) OR 0x70"
    and "uuid_bytes b ms ! 8 = (b ! 8 AND 0x3f) OR 0x80"
  using assms by (simp_all add: uuid_bytes_def Let_def)

lemma hex_digit_values:
  "hex_digit 7 = CHR ''7''" "hex_digit 8 = CHR ''8''" "hex_digit 9 = CHR ''9''"
  "hex_digit 10 = CHR ''a''" "hex_digit 11 = CHR ''b''"
  by code_simp+

lemma uuid_version_variant:
  assumes "length b = 16"
  shows "uuid_format (uuid_bytes b ms) ! 14 = CHR ''7''"
    and "uuid_format (uuid_bytes b ms) ! 19 \<in> {CHR ''8'', CHR ''9'', CHR ''a'', CHR ''b''}"
proof -
  show "uuid_format (uuid_bytes b ms) ! 14 = CHR ''7''"
    using assms by (simp add: uuid_format_nth uuid_bytes_nth version_nibble hex_digit_values)
  have "hex_digit n \<in> {CHR ''8'', CHR ''9'', CHR ''a'', CHR ''b''}" if "n \<in> {8, 9, 10, 11}" for n
    using that by (elim insertE emptyE) (simp_all add: hex_digit_values)
  from this [OF variant_nibble [of "b ! 8"]]
  show "uuid_format (uuid_bytes b ms) ! 19 \<in> {CHR ''8'', CHR ''9'', CHR ''a'', CHR ''b''}"
    using assms by (simp only: uuid_format_nth uuid_bytes_nth length_uuid_bytes)
qed

section \<open>Properties\<close>

text \<open>C21. Every identifier \<open>NewAt\<close> mints passes both the package's own \<open>IsValid\<close> and the intake
  check \<open>validEventID\<close>, whatever the random bytes and the clock.\<close>

theorem NewAt_valid:
  assumes "length rnd = 16" and "NewAt (Some rnd) ms = Some i"
  shows "IsValid i \<and> validEventID i"
proof -
  let ?b = "uuid_bytes rnd ms"
  have i: "i = uuid_format ?b" and len: "length ?b = 16" using assms by (auto simp: NewAt_def)
  have shape: "uuid_shape (\<lambda>c. between 48 c 57 \<or> between 97 c 102) 0 i"
    using len by (simp add: i uuid_format_shape)
  then have "uuid_shape isHex 0 i"
    by (rule uuid_shape_mono) (auto simp: isHex_def)
  then show ?thesis
    using shape uuid_version_variant [OF assms(1), of ms] length_uuid_format [OF len]
    by (auto simp: IsValid_def validEventID_def i)
qed

theorem NewAt_valid_witness:
  "\<exists>i. NewAt (Some (replicate 16 255)) 1700000000000 = Some i \<and> IsValid i \<and> validEventID i"
  using NewAt_valid [of "replicate 16 255" 1700000000000] by (simp add: NewAt_def)

end
