(* ===== verification/Batch_Outcomes.thy ===== *)
theory Batch_Outcomes
  imports Go_Text
begin

text \<open>
  The outcome of a published batch and what the client keeps of it: \<open>batch_result.go\<close> (the
  wire decode and its public form), \<open>metrics.go\<close> (the statistics collector) and
  \<open>rejection_history.go\<close> (the bounded ring of rejected events and its warning budget).

  Each atomic counter is a 64-bit word; the collector's maps are association lists, the nil
  map being the empty list, which no operation here tells from an empty map.  Error values are
  kept as the text their \<open>Error\<close> method gives, except the rejection diagnostic, whose three quoted fields
  stay apart (\<open>Diagnostic\<close>): its formatting verb is not modelled.  Emitting a log line is an
  output, listed in the result of \<open>warnRejections\<close>.
\<close>

section \<open>Batch results\<close>

type_synonym EventStatus = gostring

definition EventStatusAccepted :: EventStatus where "EventStatusAccepted = ''accepted''"
definition EventStatusDuplicate :: EventStatus where "EventStatusDuplicate = ''duplicate''"
definition EventStatusSuppressedNoConsent :: EventStatus where
  "EventStatusSuppressedNoConsent = ''suppressed_no_consent''"
definition EventStatusSuppressedAdRevenueConsent :: EventStatus where
  "EventStatusSuppressedAdRevenueConsent = ''suppressed_ad_revenue_consent''"
definition EventStatusRejected :: EventStatus where "EventStatusRejected = ''rejected''"

lemmas status_defs = EventStatusAccepted_def EventStatusDuplicate_def EventStatusSuppressedNoConsent_def
  EventStatusSuppressedAdRevenueConsent_def EventStatusRejected_def

record batchEventStatusWire =
  w_event_id :: gostring
  w_status :: gostring
  w_code :: gostring
  w_message :: gostring

record batchResult =
  responseMalformed :: bool
  Accepted :: int
  Rejected :: int
  Duplicates :: int
  Events :: "batchEventStatusWire list"

record BatchEventStatus =
  EventID :: gostring
  Status :: EventStatus
  Code :: gostring
  Message :: gostring

record BatchResult =
  pub_Accepted :: int
  pub_Rejected :: int
  pub_Duplicates :: int
  pub_Events :: "BatchEventStatus list"

definition event_toPublic :: "batchEventStatusWire \<Rightarrow> BatchEventStatus" where
  "event_toPublic e = \<lparr>EventID = w_event_id e, Status = w_status e, Code = w_code e, Message = w_message e\<rparr>"

definition toPublic :: "batchResult \<Rightarrow> BatchResult" where
  "toPublic r = \<lparr>pub_Accepted = Accepted r, pub_Rejected = Rejected r, pub_Duplicates = Duplicates r,
     pub_Events = map event_toPublic (Events r)\<rparr>"

section \<open>Statistics\<close>

datatype error_text = NoError | ErrorText gostring | Diagnostic gostring gostring gostring

record statsCollector =
  enqueued :: u64
  dropped :: u64
  published :: u64
  failedBatches :: u64
  unparsedBatchResponses :: u64
  unparsedConsentResponses :: u64
  accepted :: u64
  rejected :: u64
  duplicates :: u64
  spooled :: u64
  spoolResent :: u64
  spoolEvicted :: u64
  spoolExpired :: u64
  spoolPersistFailed :: u64
  spoolForeignMerged :: u64
  consentRecorded :: u64
  consentFailed :: u64
  consentOutboxEvicted :: u64
  consentOutboxPersistFailed :: u64
  consentOutboxUnreadable :: u64
  expDrops :: "(gostring \<times> u64) list"
  outcomeDrops :: "(gostring \<times> u64) list"
  lastError :: error_text
  lastConsentError :: error_text
  byStatus :: "(EventStatus \<times> u64) list"

definition empty_stats :: statsCollector where
  "empty_stats = \<lparr>enqueued = 0, dropped = 0, published = 0, failedBatches = 0, unparsedBatchResponses = 0,
     unparsedConsentResponses = 0, accepted = 0, rejected = 0, duplicates = 0, spooled = 0, spoolResent = 0,
     spoolEvicted = 0, spoolExpired = 0, spoolPersistFailed = 0, spoolForeignMerged = 0, consentRecorded = 0,
     consentFailed = 0, consentOutboxEvicted = 0, consentOutboxPersistFailed = 0, consentOutboxUnreadable = 0,
     expDrops = [], outcomeDrops = [], lastError = NoError, lastConsentError = NoError, byStatus = []\<rparr>"

text \<open>The public snapshot: the counters as they are, each map copied, or nil when it is empty.\<close>

record Stats =
  st_Enqueued :: u64
  st_Dropped :: u64
  st_Published :: u64
  st_FailedBatches :: u64
  st_UnparsedBatchResponses :: u64
  st_UnparsedConsentResponses :: u64
  st_Accepted :: u64
  st_Rejected :: u64
  st_Duplicates :: u64
  st_ByStatus :: "(EventStatus \<times> u64) list option"
  st_ExperimentExposureDrops :: "(gostring \<times> u64) list option"
  st_ExperimentOutcomeDrops :: "(gostring \<times> u64) list option"
  st_LastError :: error_text
  st_Spooled :: u64
  st_SpoolResent :: u64
  st_SpoolEvicted :: u64
  st_SpoolExpired :: u64
  st_SpoolPersistFailed :: u64
  st_SpoolForeignMerged :: u64
  st_ConsentRecorded :: u64
  st_ConsentFailed :: u64
  st_ConsentOutboxEvicted :: u64
  st_ConsentOutboxPersistFailed :: u64
  st_ConsentOutboxUnreadable :: u64
  st_LastConsentError :: error_text

definition copy_map :: "('k \<times> u64) list \<Rightarrow> ('k \<times> u64) list option" where
  "copy_map m = (if length m > 0 then Some m else None)"

definition snapshot :: "statsCollector \<Rightarrow> Stats" where
  "snapshot s = \<lparr>st_Enqueued = enqueued s, st_Dropped = dropped s, st_Published = published s,
     st_FailedBatches = failedBatches s, st_UnparsedBatchResponses = unparsedBatchResponses s,
     st_UnparsedConsentResponses = unparsedConsentResponses s, st_Accepted = accepted s,
     st_Rejected = rejected s, st_Duplicates = duplicates s, st_ByStatus = copy_map (byStatus s),
     st_ExperimentExposureDrops = copy_map (expDrops s),
     st_ExperimentOutcomeDrops = copy_map (outcomeDrops s), st_LastError = lastError s,
     st_Spooled = spooled s, st_SpoolResent = spoolResent s, st_SpoolEvicted = spoolEvicted s,
     st_SpoolExpired = spoolExpired s, st_SpoolPersistFailed = spoolPersistFailed s,
     st_SpoolForeignMerged = spoolForeignMerged s, st_ConsentRecorded = consentRecorded s,
     st_ConsentFailed = consentFailed s, st_ConsentOutboxEvicted = consentOutboxEvicted s,
     st_ConsentOutboxPersistFailed = consentOutboxPersistFailed s,
     st_ConsentOutboxUnreadable = consentOutboxUnreadable s, st_LastConsentError = lastConsentError s\<rparr>"

definition recordExperimentExposureDrop :: "gostring \<Rightarrow> int \<Rightarrow> statsCollector \<Rightarrow> statsCollector" where
  "recordExperimentExposureDrop reason n s = s\<lparr>expDrops := bump reason (of_int n) (expDrops s)\<rparr>"

definition recordExperimentOutcomeDrop :: "gostring \<Rightarrow> int \<Rightarrow> statsCollector \<Rightarrow> statsCollector" where
  "recordExperimentOutcomeDrop reason n s = s\<lparr>outcomeDrops := bump reason (of_int n) (outcomeDrops s)\<rparr>"

text \<open>The conversions to \<open>uint64\<close> wrap: the server's counts are signed JSON integers.\<close>

definition recordBatch :: "batchResult \<Rightarrow> int \<Rightarrow> statsCollector \<Rightarrow> statsCollector" where
  "recordBatch r batch_size s =
     (let s = s\<lparr>published := published s + of_int batch_size,
                accepted := accepted s + of_int (Accepted r),
                rejected := rejected s + of_int (Rejected r),
                duplicates := duplicates s + of_int (Duplicates r)\<rparr>
      in if length (Events r) = 0 then s
         else s\<lparr>byStatus := fold (\<lambda>e m. bump (w_status e) 1 m) (Events r) (byStatus s)\<rparr>)"

definition recordFailure :: "gostring \<Rightarrow> statsCollector \<Rightarrow> statsCollector" where
  "recordFailure err s = s\<lparr>failedBatches := failedBatches s + 1, lastError := ErrorText err\<rparr>"

definition setLastError :: "error_text \<Rightarrow> statsCollector \<Rightarrow> statsCollector" where
  "setLastError message s = s\<lparr>lastError := message\<rparr>"

definition setLastConsentError :: "error_text \<Rightarrow> statsCollector \<Rightarrow> statsCollector" where
  "setLastConsentError message s = s\<lparr>lastConsentError := message\<rparr>"

section \<open>Rejection history\<close>

record rejectionHistory =
  entries :: "BatchEventStatus list"
  rh_next :: nat
  warnedCodes :: "gostring list"
  warningCount :: nat

definition empty_history :: rejectionHistory where
  "empty_history = \<lparr>entries = [], rh_next = 0, warnedCodes = [], warningCount = 0\<rparr>"

definition Rejections :: "rejectionHistory \<Rightarrow> BatchEventStatus list" where
  "Rejections h = drop (rh_next h) (entries h) @ take (rh_next h) (entries h)"

text \<open>\<open>strings.ReplaceAll\<close> with a non-empty old string, and the two secrets the diagnostic redacts.\<close>

fun replace_fuel :: "nat \<Rightarrow> gostring \<Rightarrow> gostring \<Rightarrow> gostring \<Rightarrow> gostring" where
  "replace_fuel 0 old new s = s"
| "replace_fuel (Suc n) old new s =
     (case s of [] \<Rightarrow> []
      | c # t \<Rightarrow> if take (length old) s = old then new @ replace_fuel n old new (drop (length old) s)
               else c # replace_fuel n old new t)"

definition replace_all :: "gostring \<Rightarrow> gostring \<Rightarrow> gostring \<Rightarrow> gostring" where
  "replace_all old new s = replace_fuel (length s) old new s"

definition clean_secret :: "gostring list \<Rightarrow> gostring \<Rightarrow> gostring" where
  "clean_secret secrets value =
     fold (\<lambda>secret v. if secret \<noteq> [] then replace_all secret ''[REDACTED]'' v else v) secrets value"

definition rejectionDiagnostic :: "gostring list \<Rightarrow> BatchEventStatus \<Rightarrow> error_text" where
  "rejectionDiagnostic secrets e =
     Diagnostic (clean_secret secrets (EventID e)) (clean_secret secrets (Code e)) (clean_secret secrets (Message e))"

definition history_capacity :: "int \<Rightarrow> nat" where
  "history_capacity configured = (if configured \<le> 0 then 64 else nat configured)"

definition retain_one :: "nat \<Rightarrow> BatchEventStatus \<Rightarrow> rejectionHistory \<Rightarrow> rejectionHistory" where
  "retain_one capacity entry h =
     (if length (entries h) < capacity then h\<lparr>entries := entries h @ [entry]\<rparr>
      else h\<lparr>entries := (entries h)[rh_next h := entry], rh_next := (rh_next h + 1) mod capacity\<rparr>)"

definition rejected_events :: "batchResult \<Rightarrow> BatchEventStatus list" where
  "rejected_events r = map event_toPublic (filter (\<lambda>e. w_status e = EventStatusRejected) (Events r))"

text \<open>The loop skips every event that is not rejected; the last rejection of the batch becomes
  the collector's last error.\<close>

definition retainRejections ::
  "int \<Rightarrow> gostring list \<Rightarrow> batchResult \<Rightarrow> rejectionHistory \<Rightarrow> statsCollector \<Rightarrow> rejectionHistory \<times> statsCollector"
where
  "retainRejections configured secrets r h st =
     (let es = rejected_events r
      in (fold (retain_one (history_capacity configured)) es h,
          if es = [] then st else setLastError (rejectionDiagnostic secrets (last es)) st))"

text \<open>The warning budget: with a configured logger every rejection is reported; on the default
  channel the first ten, and after them the first of each new code up to 64 codes.\<close>

definition warn_one :: "bool \<Rightarrow> BatchEventStatus \<Rightarrow> rejectionHistory \<times> BatchEventStatus list
    \<Rightarrow> rejectionHistory \<times> BatchEventStatus list" where
  "warn_one defaultChannel entry hw =
     (let (h, warnings) = hw;
          emit = (\<not> defaultChannel \<or> warningCount h < 10);
          new_code = (defaultChannel \<and> Code entry \<notin> set (warnedCodes h) \<and> length (warnedCodes h) < 64);
          h = (if new_code then h\<lparr>warnedCodes := Code entry # warnedCodes h\<rparr> else h);
          emit = (emit \<or> new_code)
      in if emit then (if defaultChannel then h\<lparr>warningCount := warningCount h + 1\<rparr> else h, warnings @ [entry])
         else (h, warnings))"

definition warnRejections ::
  "bool \<Rightarrow> bool \<Rightarrow> gostring list \<Rightarrow> BatchResult \<Rightarrow> rejectionHistory \<Rightarrow> rejectionHistory \<times> error_text list" where
  "warnRejections has_callback has_logger secrets r h =
     (if has_callback then (h, [])
      else let (h', ws) = fold (warn_one (\<not> has_logger))
                 (filter (\<lambda>e. Status e = EventStatusRejected) (pub_Events r)) (h, [])
           in (h', map (rejectionDiagnostic secrets) ws))"

section \<open>The ring as a list\<close>

text \<open>The ring's invariant: it fills from the front, and only a full ring has a moving index.\<close>

definition ring_ok :: "nat \<Rightarrow> rejectionHistory \<Rightarrow> bool" where
  "ring_ok capacity h \<longleftrightarrow>
     length (entries h) \<le> capacity \<and> rh_next h < capacity \<and>
     (length (entries h) < capacity \<longrightarrow> rh_next h = 0)"

lemma history_capacity_pos [simp]: "0 < history_capacity n"
  by (simp add: history_capacity_def)

lemma ring_ok_empty [simp]: "0 < capacity \<Longrightarrow> ring_ok capacity empty_history"
  by (simp add: ring_ok_def empty_history_def)

lemma Rejections_empty [simp]: "Rejections empty_history = []"
  by (simp add: Rejections_def empty_history_def)

lemma retain_one_ok [inv_intros]:
  "ring_ok capacity h \<Longrightarrow> ring_ok capacity (retain_one capacity e h)"
  by (auto simp: ring_ok_def retain_one_def)

lemma ring_overwrite:
  assumes "length xs = n" and "i < n"
  shows "drop ((i + 1) mod n) (xs[i := e]) @ take ((i + 1) mod n) (xs[i := e])
       = tl (drop i xs @ take i xs) @ [e]"
proof (cases "i + 1 = n")
  case True
  then have "drop i xs = [xs ! i]" using assms by (metis Cons_nth_drop_Suc Suc_eq_plus1 drop_all le_refl)
  then show ?thesis using True assms
    by (simp add: upd_conv_take_nth_drop)
next
  case False
  then have i: "Suc i < n" using assms by simp
  moreover have "drop i xs = xs ! i # drop (Suc i) xs" using assms by (simp add: Cons_nth_drop_Suc)
  ultimately show ?thesis using assms
    by (simp add: take_Suc_conv_app_nth)
qed

lemma Rejections_retain_one:
  assumes "ring_ok capacity h"
  shows "Rejections (retain_one capacity e h) =
    (if length (Rejections h) < capacity then Rejections h @ [e] else tl (Rejections h) @ [e])"
proof (cases "length (entries h) < capacity")
  case True
  with assms show ?thesis by (simp add: retain_one_def Rejections_def ring_ok_def)
next
  case False
  with assms show ?thesis
    using ring_overwrite [of "entries h" capacity "rh_next h" e]
    by (simp add: retain_one_def Rejections_def ring_ok_def)
qed

lemma lastn_lastn_snoc:
  assumes "0 < n"
  shows "(if length (lastn n xs) < n then lastn n xs @ [x] else tl (lastn n xs) @ [x]) = lastn n (xs @ [x])"
  using assms by (cases "length xs < n") (simp_all add: lastn_snoc_room lastn_snoc_full)

lemma retain_fold:
  "ring_ok capacity h \<Longrightarrow> Rejections h = lastn capacity xs \<Longrightarrow>
   ring_ok capacity (fold (retain_one capacity) es h) \<and>
   Rejections (fold (retain_one capacity) es h) = lastn capacity (xs @ es)"
proof (induction es arbitrary: h xs)
  case (Cons e es)
  have pos: "0 < capacity" using Cons.prems(1) by (simp add: ring_ok_def)
  have "Rejections (retain_one capacity e h) = lastn capacity (xs @ [e])"
    by (simp only: Rejections_retain_one [OF Cons.prems(1)] Cons.prems(2) lastn_lastn_snoc [OF pos])
  from Cons.IH [OF retain_one_ok [OF Cons.prems(1)] this] show ?case by simp
qed simp

section \<open>The warning budget\<close>

definition budget_ok :: "rejectionHistory \<Rightarrow> bool" where
  "budget_ok h \<longleftrightarrow> length (warnedCodes h) \<le> 64 \<and> distinct (warnedCodes h) \<and>
     warningCount h \<le> 10 + length (warnedCodes h)"

lemma budget_ok_empty [simp]: "budget_ok empty_history"
  by (simp add: budget_ok_def empty_history_def)

lemma warn_one_ok:
  "budget_ok (fst hw) \<Longrightarrow> budget_ok (fst (warn_one dc e hw))"
  by (cases hw) (auto simp: warn_one_def budget_ok_def Let_def)

lemma warn_one_count:
  "warningCount (fst hw) = warningCount h0 + length (snd hw) \<Longrightarrow>
   warningCount (fst (warn_one True e hw)) = warningCount h0 + length (snd (warn_one True e hw))"
  by (cases hw) (auto simp: warn_one_def Let_def)

lemma warn_fold_ok: "budget_ok (fst hw) \<Longrightarrow> budget_ok (fst (fold (warn_one dc) es hw))"
  by (induction es arbitrary: hw) (simp_all add: warn_one_ok del: split_paired_All)

lemma warn_fold_count:
  "warningCount (fst hw) = warningCount h0 + length (snd hw) \<Longrightarrow>
   warningCount (fst (fold (warn_one True) es hw)) = warningCount h0 + length (snd (fold (warn_one True) es hw))"
  by (induction es arbitrary: hw) (simp_all add: warn_one_count)

lemma warn_one_logger: "warn_one False e (h, ws) = (h, ws @ [e])"
  by (simp add: warn_one_def)

lemma warn_fold_logger: "fold (warn_one False) es (h, ws) = (h, ws @ es)"
  by (induction es arbitrary: ws) (auto simp: warn_one_logger)

section \<open>Properties\<close>

definition retain_all ::
  "int \<Rightarrow> gostring list \<Rightarrow> batchResult list \<Rightarrow> rejectionHistory \<times> statsCollector \<Rightarrow> rejectionHistory \<times> statsCollector"
where
  "retain_all configured secrets rs hs = fold (\<lambda>r (h, st). retainRejections configured secrets r h st) rs hs"

lemma retain_all_fst:
  "fst (retain_all n secrets rs (h, st)) =
   fold (retain_one (history_capacity n)) (concat (map rejected_events rs)) h"
  by (induction rs arbitrary: h st) (simp_all add: retain_all_def retainRejections_def Let_def)

text \<open>C22. The rejection ring is a bounded history: after any sequence of settled batches,
  \<open>Rejections\<close> returns the most recent rejections, oldest first, as many as the configured
  capacity keeps, and nothing else.\<close>

theorem Rejections_last_capacity:
  "Rejections (fst (retain_all n secrets rs (empty_history, st))) =
   lastn (history_capacity n) (concat (map rejected_events rs))"
  using retain_fold [of "history_capacity n" empty_history "[]" "concat (map rejected_events rs)"]
  by (simp add: retain_all_fst)

definition warn_all ::
  "gostring list \<Rightarrow> BatchResult list \<Rightarrow> rejectionHistory \<times> error_text list \<Rightarrow> rejectionHistory \<times> error_text list"
where
  "warn_all secrets rs hl =
     fold (\<lambda>r (h, log). let (h', out) = warnRejections False False secrets r h in (h', log @ out)) rs hl"

lemma warn_all_bound:
  "budget_ok h \<Longrightarrow> length log = warningCount h \<Longrightarrow>
   budget_ok (fst (warn_all secrets rs (h, log))) \<and>
   length (snd (warn_all secrets rs (h, log))) = warningCount (fst (warn_all secrets rs (h, log)))"
proof (induction rs arbitrary: h log)
  case (Cons r rs)
  obtain h' ws where w: "fold (warn_one True) (filter (\<lambda>e. Status e = EventStatusRejected) (pub_Events r)) (h, []) = (h', ws)"
    by (cases "fold (warn_one True) (filter (\<lambda>e. Status e = EventStatusRejected) (pub_Events r)) (h, [])")
  have "budget_ok h'" using warn_fold_ok [of "(h, [])" True] Cons.prems(1) w by (metis fst_conv)
  moreover have "warningCount h' = warningCount h + length ws"
    using warn_fold_count [of "(h, [])" h] w by (metis add.right_neutral fst_conv list.size(3) snd_conv)
  ultimately show ?case
    using Cons.IH [of h' "log @ map (rejectionDiagnostic secrets) ws"] Cons.prems w
    by (simp add: warn_all_def warnRejections_def)
qed (simp add: warn_all_def)

text \<open>The default log channel is bounded: over any sequence of settled batches a client without a
  logger reports at most 74 rejections (ten, plus one for each of at most 64 codes).\<close>

theorem default_channel_bounded:
  "length (snd (warn_all secrets rs (empty_history, []))) \<le> 74"
proof -
  have "length ([] :: error_text list) = warningCount empty_history" by (simp add: empty_history_def)
  from warn_all_bound [OF budget_ok_empty this, of secrets rs] show ?thesis
    by (auto simp: budget_ok_def)
qed

lemma fold_bump_count:
  "count_of (fold (\<lambda>e m. bump (w_status e) 1 m) es m) s =
   count_of m s + of_nat (length (filter (\<lambda>e. w_status e = s) es))"
  by (induction es arbitrary: m) auto

text \<open>The per-status breakdown counts every reported event of a batch, whatever its status, and
  touches no other status; the aggregate counters take the server's own totals.\<close>

theorem recordBatch_counts:
  "count_of (byStatus (recordBatch r n s)) status =
     count_of (byStatus s) status + of_nat (length (filter (\<lambda>e. w_status e = status) (Events r))) \<and>
   published (recordBatch r n s) = published s + of_int n \<and>
   accepted (recordBatch r n s) = accepted s + of_int (Accepted r) \<and>
   failedBatches (recordBatch r n s) = failedBatches s \<and> lastError (recordBatch r n s) = lastError s"
  by (simp add: recordBatch_def Let_def fold_bump_count)

end
