(* ===== verification/Event_Queue.thy ===== *)
theory Event_Queue
  imports Go_Prelude
begin

text \<open>
  The bounded in-memory queue of \<open>queue.go\<close>: a buffered channel with non-blocking sends and
  receives, and the highest experiment sequence number a destructive drain has discarded
  (\<open>drainedFactSeq\<close>).  Channel operations are atomic; the drain loop runs until the
  non-blocking receive finds the channel empty.  The events are those of the channel; only
  their experiment sequence number matters here, so the queue is generic in the event and
  takes that number as a function.
\<close>

section \<open>The queue\<close>

record 'e boundedQueue =
  ch :: "'e list"
  ch_cap :: nat
  drainedFactSeq :: u64

definition newBoundedQueue :: "nat \<Rightarrow> 'e boundedQueue" where
  "newBoundedQueue n = \<lparr>ch = [], ch_cap = n, drainedFactSeq = 0\<rparr>"

definition enqueue :: "'e boundedQueue \<Rightarrow> 'e \<Rightarrow> bool \<times> 'e boundedQueue" where
  "enqueue q event =
     (if length (ch q) < ch_cap q then (True, q\<lparr>ch := ch q @ [event]\<rparr>) else (False, q))"

text \<open>The compare-and-swap loop of one drained event: with no competing drain it swaps once, when
  the event's sequence is above the recorded one.\<close>

definition raise_seq :: "u64 \<Rightarrow> u64 \<Rightarrow> u64" where
  "raise_seq seen seq = (if seq > seen then seq else seen)"

function drain_loop :: "('e \<Rightarrow> u64) \<Rightarrow> 'e boundedQueue \<Rightarrow> 'e list \<Rightarrow> 'e list \<times> 'e boundedQueue" where
  "drain_loop seq q visited =
     (case ch q of
        [] \<Rightarrow> (visited, q)
      | event # rest \<Rightarrow>
          drain_loop seq (q\<lparr>ch := rest, drainedFactSeq := raise_seq (drainedFactSeq q) (seq event)\<rparr>)
            (visited @ [event]))"
  by pat_completeness auto
termination
  by (relation "measure (\<lambda>(seq, q, visited). length (ch q))") auto

declare drain_loop.simps [simp del]

text \<open>\<open>drainAllVisit\<close> returns the number of drained events; the visited events, in the order the
  callback sees them, stand for the calls of \<open>visit\<close>.\<close>

definition drainAllVisit :: "('e \<Rightarrow> u64) \<Rightarrow> 'e boundedQueue \<Rightarrow> nat \<times> 'e list \<times> 'e boundedQueue" where
  "drainAllVisit seq q = (let (visited, q') = drain_loop seq q [] in (length visited, visited, q'))"

definition drainAll :: "('e \<Rightarrow> u64) \<Rightarrow> 'e boundedQueue \<Rightarrow> nat \<times> 'e boundedQueue" where
  "drainAll seq q = (let (n, _, q') = drainAllVisit seq q in (n, q'))"

text \<open>\<open>drainInto\<close> appends queued events until the batch holds \<open>limit\<close> of them.\<close>

function drainInto :: "'e boundedQueue \<Rightarrow> 'e list \<Rightarrow> nat \<Rightarrow> 'e list \<times> 'e boundedQueue" where
  "drainInto q events limit =
     (if length events < limit then
        (case ch q of
           [] \<Rightarrow> (events, q)
         | event # rest \<Rightarrow> drainInto (q\<lparr>ch := rest\<rparr>) (events @ [event]) limit)
      else (events, q))"
  by pat_completeness auto
termination
  by (relation "measure (\<lambda>(q, events, limit). length (ch q))") auto

declare drainInto.simps [simp del]

section \<open>The contract of a bounded queue\<close>

text \<open>What the client relies on: a send is refused exactly when the queue is full, otherwise it
  goes to the back; a drain takes from the front, in order, and loses nothing.\<close>

locale bounded_buffer =
  fixes put :: "'q \<Rightarrow> 'e \<Rightarrow> bool \<times> 'q"
    and take_into :: "'q \<Rightarrow> 'e list \<Rightarrow> nat \<Rightarrow> 'e list \<times> 'q"
    and contents :: "'q \<Rightarrow> 'e list"
    and room :: "'q \<Rightarrow> nat"
  assumes put_contents: "contents (snd (put q e)) = (if length (contents q) < room q then contents q @ [e] else contents q)"
    and put_result: "fst (put q e) \<longleftrightarrow> length (contents q) < room q"
    and put_room: "room (snd (put q e)) = room q"
    and take_events: "fst (take_into q es n) = es @ take (n - length es) (contents q)"
    and take_contents: "contents (snd (take_into q es n)) = drop (n - length es) (contents q)"
    and take_room: "room (snd (take_into q es n)) = room q"
begin

fun put_all :: "'q \<Rightarrow> 'e list \<Rightarrow> 'q" where
  "put_all q [] = q"
| "put_all q (e # es) = put_all (snd (put q e)) es"

lemma put_all_contents:
  "length (contents q) \<le> room q \<Longrightarrow>
   contents (put_all q es) = take (room q) (contents q @ es) \<and> room (put_all q es) = room q"
  by (induction es arbitrary: q) (auto simp: put_contents put_room take_Cons' diff_diff_left)

lemma put_then_take:
  assumes "length (contents q) \<le> room q"
  shows "fst (take_into (put_all q es) [] n) @ contents (snd (take_into (put_all q es) [] n))
       = take (room q) (contents q @ es)"
proof -
  have "fst (take_into p [] n) @ contents (snd (take_into p [] n)) = contents p" for p
    by (simp add: take_events take_contents)
  then show ?thesis using put_all_contents [OF assms] by simp
qed

end

section \<open>The queue meets it\<close>

lemma drain_loop_eq:
  "drain_loop seq q visited =
   (visited @ ch q, q\<lparr>ch := [], drainedFactSeq := fold (\<lambda>e m. raise_seq m (seq e)) (ch q) (drainedFactSeq q)\<rparr>)"
proof (induction seq q visited rule: drain_loop.induct)
  case (1 seq q visited)
  then show ?case by (subst drain_loop.simps) (cases "ch q"; simp)
qed

lemma drainInto_eq:
  "drainInto q events limit =
   (events @ take (limit - length events) (ch q), q\<lparr>ch := drop (limit - length events) (ch q)\<rparr>)"
proof (induction q events limit rule: drainInto.induct)
  case (1 q events limit)
  show ?case
  proof (cases "length events < limit")
    case True
    then obtain k where k: "limit - length events = Suc k" by (metis Suc_diff_Suc)
    then have "limit - Suc (length events) = k" by simp
    with 1 True k show ?thesis by (subst drainInto.simps) (cases "ch q"; simp)
  next
    case False
    then show ?thesis by (subst drainInto.simps) simp
  qed
qed

interpretation q: bounded_buffer enqueue drainInto ch ch_cap
  by unfold_locales (auto simp: enqueue_def drainInto_eq)

section \<open>Properties\<close>

definition enqueue_all :: "'e boundedQueue \<Rightarrow> 'e list \<Rightarrow> 'e boundedQueue" where
  "enqueue_all q es = fold (\<lambda>e q. snd (enqueue q e)) es q"

lemma enqueue_all_put_all: "enqueue_all q es = q.put_all q es"
  by (induction es arbitrary: q) (auto simp: enqueue_all_def)

text \<open>C23. Sending into a queue that is within its capacity and then draining keeps first-in
  first-out order: what a drain of any limit hands out, followed by what stays queued, is the
  prior content and then the sent events, cut at the capacity (the sends past it are refused).\<close>

theorem queue_fifo:
  assumes "length (ch q) \<le> ch_cap q"
  shows "(let (batch, q') = drainInto (enqueue_all q es) [] limit in batch @ ch q')
       = take (ch_cap q) (ch q @ es)"
  using q.put_then_take [OF assms, of es limit] by (simp add: enqueue_all_put_all case_prod_beta)

theorem queue_fifo_witness:
  "(let (batch, q') = drainInto (enqueue_all (newBoundedQueue 3) [10, 20, 30, 40 :: nat]) [] 2 in batch @ ch q')
   = [10, 20, 30]"
  using queue_fifo [of "newBoundedQueue 3" "[10, 20, 30, 40 :: nat]" 2]
  by (simp add: newBoundedQueue_def)

lemma fold_raise_ge:
  "m \<le> fold (\<lambda>e m. raise_seq m (seq e)) es m \<and> (\<forall>e \<in> set es. seq e \<le> fold (\<lambda>e m. raise_seq m (seq e)) es m)"
proof (induction es arbitrary: m)
  case (Cons e es)
  have "m \<le> raise_seq m (seq e)" "seq e \<le> raise_seq m (seq e)" by (auto simp: raise_seq_def)
  with Cons.IH [of "raise_seq m (seq e)"] show ?case by force
qed simp

text \<open>A destructive drain empties the queue, visits every queued event once and in order, and
  leaves \<open>drainedFactSeq\<close> no lower than before and at least every drained fact's sequence.\<close>

theorem drainAll_complete:
  "let (count, visited, q') = drainAllVisit seq q in
     count = length (ch q) \<and> visited = ch q \<and> ch q' = [] \<and>
     drainedFactSeq q \<le> drainedFactSeq q' \<and> (\<forall>e \<in> set (ch q). seq e \<le> drainedFactSeq q')"
  using fold_raise_ge [of "drainedFactSeq q" seq "ch q"] by (simp add: drainAllVisit_def drain_loop_eq)

theorem drainAll_complete_witness:
  "9 \<le> drainedFactSeq (snd (snd (drainAllVisit of_nat \<lparr>ch = [3, 9, 5 :: nat], ch_cap = 4, drainedFactSeq = 7\<rparr>)))"
  using drainAll_complete [of of_nat "\<lparr>ch = [3, 9, 5 :: nat], ch_cap = 4, drainedFactSeq = 7\<rparr>"]
  by (simp add: Let_def case_prod_beta)

end
