(* ===== verification/Consent_Actor.thy ===== *)
theory Consent_Actor
  imports Go_Text
begin

text \<open>
  The consent actor rule of \<open>consent_actor.go\<close> and the actor/scope tuple a persisted decision is
  keyed by (\<open>consentActorDigest\<close> of \<open>consent_record.go\<close>).  SHA-256 is an argument \<open>sha\<close> of the
  digest: the lemma about it is about the bytes that are hashed.
\<close>

datatype Source = SourceClient | SourceServer | SourceBackend

definition consentKindAnon :: gostring where "consentKindAnon = ''anon''"
definition consentKindUserVerified :: gostring where "consentKindUserVerified = ''user_verified''"

lemmas kind_defs = consentKindAnon_def consentKindUserVerified_def

record consentActor =
  actor_identifier :: gostring
  kind :: gostring

definition no_actor :: consentActor where "no_actor = \<lparr>actor_identifier = [], kind = []\<rparr>"

definition selectConsentActor :: "Source \<Rightarrow> gostring \<Rightarrow> gostring \<Rightarrow> consentActor \<times> bool" where
  "selectConsentActor source userID anonymousID =
     (if source = SourceClient then
        (if anonymousID = [] then (no_actor, userID \<noteq> [])
         else (\<lparr>actor_identifier = anonymousID, kind = consentKindAnon\<rparr>, False))
      else if userID \<noteq> [] then (\<lparr>actor_identifier = userID, kind = consentKindUserVerified\<rparr>, False)
      else if anonymousID \<noteq> [] then (\<lparr>actor_identifier = anonymousID, kind = consentKindAnon\<rparr>, False)
      else (no_actor, False))"

definition validConsentKind :: "gostring \<Rightarrow> bool" where
  "validConsentKind k \<longleftrightarrow> k = consentKindAnon \<or> k = consentKindUserVerified"

text \<open>The configuration fields the rule and the digest read.\<close>

record actor_config =
  cfg_Source :: Source
  cfg_WorkspaceKey :: gostring
  cfg_AppKey :: gostring
  cfg_EnvironmentKey :: gostring
  cfg_UserID :: gostring
  cfg_AnonymousID :: gostring

definition configured_actor :: "actor_config \<Rightarrow> consentActor \<times> bool" where
  "configured_actor cfg = selectConsentActor (cfg_Source cfg) (cfg_UserID cfg) (cfg_AnonymousID cfg)"

definition consentFloorUserScoped :: "actor_config \<Rightarrow> bool" where
  "consentFloorUserScoped cfg =
     (let (actor, refused) = configured_actor cfg in refused \<or> kind actor = consentKindUserVerified)"

text \<open>The digest's input: each field as \<open>length:field\<close> and a newline.\<close>

definition digest_field :: "gostring \<Rightarrow> gostring" where
  "digest_field f = digits_of (length f) @ '':'' @ f @ [CHR 0x0A]"

definition digest_fields :: "actor_config \<Rightarrow> gostring list" where
  "digest_fields cfg =
     [cfg_WorkspaceKey cfg, cfg_AppKey cfg, cfg_EnvironmentKey cfg, cfg_UserID cfg, cfg_AnonymousID cfg,
      kind (fst (configured_actor cfg))]"

definition consentActorDigest :: "(gostring \<Rightarrow> gostring) \<Rightarrow> actor_config \<Rightarrow> gostring" where
  "consentActorDigest sha cfg = sha (concat (map digest_field (digest_fields cfg)))"

section \<open>Lemmas\<close>

lemma digits_colon_split:
  assumes "list_all is_digit a" "list_all is_digit b" and "a @ CHR '':'' # s = b @ CHR '':'' # t"
  shows "a = b \<and> s = t"
proof -
  have nd: "\<not> is_digit (CHR '':'')" by (simp add: byte_class_defs ord_def)
  have tw: "takeWhile is_digit (c @ CHR '':'' # u) = c" if "list_all is_digit c" for c u
    using that nd by (simp add: list_all_iff)
  have "a = takeWhile is_digit (a @ CHR '':'' # s)" using tw assms(1) by simp
  also have "\<dots> = b" using tw assms(2,3) by simp
  finally show ?thesis using assms(3) by simp
qed

lemma digits_of_inject: "digits_of m = digits_of n \<longleftrightarrow> m = n"
  by (metis nat_of_digits_of)

lemma digest_field_append_inject:
  "digest_field f @ s = digest_field g @ t \<Longrightarrow> f = g \<and> s = t"
proof -
  assume "digest_field f @ s = digest_field g @ t"
  then have "digits_of (length f) @ CHR '':'' # (f @ CHR 0x0A # s) = digits_of (length g) @ CHR '':'' # (g @ CHR 0x0A # t)"
    by (simp add: digest_field_def)
  from digits_colon_split [OF digits_of_digits digits_of_digits this]
  show ?thesis by (auto simp: digits_of_inject)
qed

lemma digest_fields_inject:
  "length fs = length gs \<Longrightarrow> concat (map digest_field fs) = concat (map digest_field gs) \<Longrightarrow> fs = gs"
  by (induction fs gs rule: list_induct2) (auto dest: digest_field_append_inject)

section \<open>Properties\<close>

text \<open>A self-asserted user is never a consent key: a client source's actor is the anonymous
  identifier or none, a verified user is selected only by a server or backend source, an
  admissible actor always carries a non-empty identifier and a valid kind, and a refusal comes
  without one.\<close>

theorem selectConsentActor_sound:
  "let (actor, refused) = selectConsentActor source userID anonymousID in
     (kind actor = consentKindUserVerified \<longrightarrow> source \<noteq> SourceClient \<and> actor_identifier actor = userID) \<and>
     (source = SourceClient \<longrightarrow> actor_identifier actor = anonymousID) \<and>
     (actor_identifier actor \<noteq> [] \<longleftrightarrow> validConsentKind (kind actor)) \<and>
     (refused \<longleftrightarrow> source = SourceClient \<and> userID \<noteq> [] \<and> anonymousID = []) \<and>
     (refused \<longrightarrow> actor = no_actor)"
  by (auto simp: selectConsentActor_def validConsentKind_def kind_defs no_actor_def)

theorem selectConsentActor_sound_witness:
  "(SourceBackend \<noteq> SourceClient \<and> ''u1'' = ''u1'') \<and>
   selectConsentActor SourceBackend ''u1'' ''a1''
     = (\<lparr>actor_identifier = ''u1'', kind = consentKindUserVerified\<rparr>, False) \<and>
   selectConsentActor SourceClient ''u1'' [] = (no_actor, True)"
proof -
  have b: "selectConsentActor SourceBackend ''u1'' ''a1''
     = (\<lparr>actor_identifier = ''u1'', kind = consentKindUserVerified\<rparr>, False)"
    by (simp add: selectConsentActor_def)
  have c: "selectConsentActor SourceClient ''u1'' [] = (no_actor, True)"
    by (simp add: selectConsentActor_def)
  show ?thesis
    using selectConsentActor_sound [of SourceBackend "''u1''" "''a1''"] b c by simp
qed

text \<open>Two configurations have the same persisted-decision key only when every scope and identity
  field and the selected actor's kind agree, for any hash that does not collide on the two
  inputs: the length prefixes leave no concatenation ambiguity.\<close>

theorem consentActorDigest_separates:
  assumes "inj_on sha {concat (map digest_field (digest_fields c1)), concat (map digest_field (digest_fields c2))}"
    and "consentActorDigest sha c1 = consentActorDigest sha c2"
  shows "cfg_WorkspaceKey c1 = cfg_WorkspaceKey c2 \<and> cfg_AppKey c1 = cfg_AppKey c2 \<and>
    cfg_EnvironmentKey c1 = cfg_EnvironmentKey c2 \<and> cfg_UserID c1 = cfg_UserID c2 \<and>
    cfg_AnonymousID c1 = cfg_AnonymousID c2 \<and>
    kind (fst (configured_actor c1)) = kind (fst (configured_actor c2))"
proof -
  have "concat (map digest_field (digest_fields c1)) = concat (map digest_field (digest_fields c2))"
    using assms(2) unfolding consentActorDigest_def by (rule inj_onD [OF assms(1)]) simp_all
  then have "digest_fields c1 = digest_fields c2"
    by (rule digest_fields_inject [rotated]) (simp add: digest_fields_def)
  then show ?thesis by (simp add: digest_fields_def)
qed

theorem consentActorDigest_separates_witness:
  "let c = \<lparr>cfg_Source = SourceClient, cfg_WorkspaceKey = ''w'', cfg_AppKey = ''a'', cfg_EnvironmentKey = ''e'',
            cfg_UserID = [], cfg_AnonymousID = ''n''\<rparr>
   in cfg_AppKey c = cfg_AppKey (c\<lparr>cfg_Source := SourceServer\<rparr>) \<and>
      kind (fst (configured_actor c)) = kind (fst (configured_actor (c\<lparr>cfg_Source := SourceServer\<rparr>)))"
proof -
  let ?c = "\<lparr>cfg_Source = SourceClient, cfg_WorkspaceKey = ''w'', cfg_AppKey = ''a'', cfg_EnvironmentKey = ''e'',
            cfg_UserID = [], cfg_AnonymousID = ''n''\<rparr>"
  have "consentActorDigest id ?c = consentActorDigest id (?c\<lparr>cfg_Source := SourceServer\<rparr>)"
    by (simp add: consentActorDigest_def digest_fields_def configured_actor_def selectConsentActor_def)
  from consentActorDigest_separates [OF _ this] show ?thesis by (simp add: Let_def)
qed

end
