(* ===== verification/Go_Json.thy ===== *)
theory Go_Json
  imports Go_Text
begin

text \<open>
  The parts of Go's \<open>encoding/json\<close> the modelled source calls: the scanner and decoder of a
  document, the raw text of an object's members (\<open>json.RawMessage\<close>), and the encoder of the
  flat structures the client persists.

  A document is parsed to a tree.  Objects keep their members in order with duplicates, each
  with the text its value was written as.  The parser takes fuel; \<open>parse_value_fuel\<close> shows that
  twice the length of the input is enough, so \<open>parse_json\<close> never runs out.
\<close>

datatype json =
    JNull
  | JBool bool
  | JNum gostring
  | JStr gostring
  | JArr "json list"
  | JObj "(gostring \<times> gostring \<times> json) list"

definition quote :: char where "quote = CHR 0x22"
definition backslash :: char where "backslash = CHR 0x5C"

definition json_ws :: "char \<Rightarrow> bool" where
  "json_ws c \<longleftrightarrow> c = CHR 0x20 \<or> c = CHR 0x09 \<or> c = CHR 0x0A \<or> c = CHR 0x0D"

definition skip_ws :: "gostring \<Rightarrow> gostring" where
  "skip_ws s = dropWhile json_ws s"

section \<open>Strings\<close>

text \<open>The text up to the closing quote; a backslash takes the next byte with it.\<close>

fun str_span :: "gostring \<Rightarrow> (gostring \<times> gostring) option" where
  "str_span [] = None"
| "str_span (c # s) =
     (if c = quote then Some ([], s)
      else if c = backslash then
        (case s of [] \<Rightarrow> None | e # t \<Rightarrow> map_option (\<lambda>(a, r). (c # e # a, r)) (str_span t))
      else map_option (\<lambda>(a, r). (c # a, r)) (str_span s))"

definition utf8_encode :: "nat \<Rightarrow> gostring" where
  "utf8_encode r =
     (if r < 128 then [char_of r]
      else if r < 2048 then [char_of (192 + r div 64), char_of (128 + r mod 64)]
      else if r < 65536 then
        [char_of (224 + r div 4096), char_of (128 + r div 64 mod 64), char_of (128 + r mod 64)]
      else [char_of (240 + r div 262144), char_of (128 + r div 4096 mod 64),
            char_of (128 + r div 64 mod 64), char_of (128 + r mod 64)])"

definition replacement :: gostring where "replacement = [CHR 0xEF, CHR 0xBF, CHR 0xBD]"

definition hex4 :: "gostring \<Rightarrow> nat option" where
  "hex4 s = (if length s = 4 \<and> list_all is_any_hex s
             then Some (foldl (\<lambda>n c. 16 * n + unhex_digit c) 0 s) else None)"

text \<open>A \<open>\u\<close> escape that names a low surrogate, as the second half of a pair.\<close>

definition low_escape :: "gostring \<Rightarrow> nat option" where
  "low_escape s =
     (if take 2 s = [backslash, CHR ''u''] then
        (case hex4 (take 4 (drop 2 s)) of
           Some r \<Rightarrow> if 56320 \<le> r \<and> r < 57344 then Some r else None
         | None \<Rightarrow> None)
      else None)"

definition simple_escape :: "char \<Rightarrow> char option" where
  "simple_escape e =
     (if e \<in> {quote, backslash, CHR ''/''} then Some e
      else if e = CHR ''b'' then Some (CHR 0x08) else if e = CHR ''f'' then Some (CHR 0x0C)
      else if e = CHR ''n'' then Some (CHR 0x0A) else if e = CHR ''r'' then Some (CHR 0x0D)
      else if e = CHR ''t'' then Some (CHR 0x09) else None)"

text \<open>Unescaping: control bytes are refused, an unpaired surrogate becomes U+FFFD.\<close>

fun unescape :: "nat \<Rightarrow> gostring \<Rightarrow> gostring option" where
  "unescape 0 s = (if s = [] then Some [] else None)"
| "unescape (Suc n) s =
     (case s of
        [] \<Rightarrow> Some []
      | c # t \<Rightarrow>
          if ord c < 32 then None
          else if c \<noteq> backslash then map_option (Cons c) (unescape n t)
          else case t of
            [] \<Rightarrow> None
          | e # u \<Rightarrow>
              if e = CHR ''u'' then
                (case hex4 (take 4 u) of
                   None \<Rightarrow> None
                 | Some r \<Rightarrow>
                     let u' = drop 4 u
                     in if 55296 \<le> r \<and> r < 57344 then
                          (case (if r < 56320 then low_escape u' else None) of
                             Some r2 \<Rightarrow>
                               map_option (append (utf8_encode (65536 + (r - 55296) * 1024 + (r2 - 56320))))
                                 (unescape n (drop 6 u'))
                           | None \<Rightarrow> map_option (append replacement) (unescape n u'))
                        else map_option (append (utf8_encode r)) (unescape n u'))
              else
                (case simple_escape e of
                   None \<Rightarrow> None
                 | Some x \<Rightarrow> map_option (Cons x) (unescape n u)))"

definition unquote :: "gostring \<Rightarrow> gostring option" where
  "unquote s = map_option to_valid_utf8 (unescape (length s) s)"

section \<open>Numbers and literals\<close>

definition num_char :: "char \<Rightarrow> bool" where
  "num_char c \<longleftrightarrow> is_digit c \<or> c = CHR ''-'' \<or> c = CHR ''+'' \<or> c = CHR ''.'' \<or> c = CHR ''e'' \<or> c = CHR ''E''"

definition digits1 :: "gostring \<Rightarrow> gostring option" where
  "digits1 s = (case s of [] \<Rightarrow> None | c # _ \<Rightarrow> if is_digit c then Some (dropWhile is_digit s) else None)"

definition num_exp :: "gostring \<Rightarrow> bool" where
  "num_exp s =
     (case s of
        [] \<Rightarrow> True
      | c # t \<Rightarrow>
          (c = CHR ''e'' \<or> c = CHR ''E'') \<and>
          digits1 (case t of [] \<Rightarrow> [] | x # u \<Rightarrow> if x = CHR ''+'' \<or> x = CHR ''-'' then u else t) = Some [])"

definition num_frac :: "gostring \<Rightarrow> bool" where
  "num_frac s =
     (case s of
        [] \<Rightarrow> True
      | c # t \<Rightarrow>
          if c = CHR ''.'' then (case digits1 t of None \<Rightarrow> False | Some u \<Rightarrow> num_exp u) else num_exp s)"

definition valid_number :: "gostring \<Rightarrow> bool" where
  "valid_number s =
     (let s = (case s of [] \<Rightarrow> [] | c # t \<Rightarrow> if c = CHR ''-'' then t else s)
      in case s of
           [] \<Rightarrow> False
         | c # t \<Rightarrow> if c = CHR ''0'' then num_frac t
                    else if is_digit c then num_frac (dropWhile is_digit t) else False)"

definition literal_span :: "gostring \<Rightarrow> (json \<times> gostring) option" where
  "literal_span s =
     (if has_prefix ''true'' s then Some (JBool True, drop 4 s)
      else if has_prefix ''false'' s then Some (JBool False, drop 5 s)
      else if has_prefix ''null'' s then Some (JNull, drop 4 s)
      else let w = takeWhile num_char s
        in if valid_number w then Some (JNum w, drop (length w) s) else None)"

section \<open>Documents\<close>

definition max_depth :: nat where "max_depth = 10000"

text \<open>The text of a value that starts at \<open>s\<close> and leaves \<open>r\<close>.\<close>

definition text_between :: "gostring \<Rightarrow> gostring \<Rightarrow> gostring" where
  "text_between s r = take (length (skip_ws s) - length r) (skip_ws s)"

fun parse_value :: "nat \<Rightarrow> nat \<Rightarrow> gostring \<Rightarrow> (json \<times> gostring) option"
and parse_elems :: "nat \<Rightarrow> nat \<Rightarrow> gostring \<Rightarrow> (json list \<times> gostring) option"
and parse_members :: "nat \<Rightarrow> nat \<Rightarrow> gostring \<Rightarrow> ((gostring \<times> gostring \<times> json) list \<times> gostring) option"
where
  "parse_value 0 d s = None"
| "parse_value (Suc n) d s =
     (case skip_ws s of
        [] \<Rightarrow> None
      | c # t \<Rightarrow>
          if c = CHR ''{'' then
            (if d \<ge> max_depth then None
             else case skip_ws t of
               [] \<Rightarrow> None
             | c2 # t2 \<Rightarrow> if c2 = CHR ''}'' then Some (JObj [], t2)
                          else map_option (\<lambda>(ms, r). (JObj ms, r)) (parse_members n (Suc d) t))
          else if c = CHR ''['' then
            (if d \<ge> max_depth then None
             else case skip_ws t of
               [] \<Rightarrow> None
             | c2 # t2 \<Rightarrow> if c2 = CHR '']'' then Some (JArr [], t2)
                          else map_option (\<lambda>(vs, r). (JArr vs, r)) (parse_elems n (Suc d) t))
          else if c = quote then
            (case str_span t of
               None \<Rightarrow> None
             | Some (q, r) \<Rightarrow> map_option (\<lambda>v. (JStr v, r)) (unquote q))
          else literal_span (c # t))"
| "parse_elems 0 d s = None"
| "parse_elems (Suc n) d s =
     (case parse_value n d s of
        None \<Rightarrow> None
      | Some (v, r) \<Rightarrow>
          (case skip_ws r of
             [] \<Rightarrow> None
           | c # t \<Rightarrow>
               if c = CHR '','' then map_option (\<lambda>(vs, r'). (v # vs, r')) (parse_elems n d t)
               else if c = CHR '']'' then Some ([v], t)
               else None))"
| "parse_members 0 d s = None"
| "parse_members (Suc n) d s =
     (case skip_ws s of
        [] \<Rightarrow> None
      | c # t \<Rightarrow>
          if c \<noteq> quote then None
          else case str_span t of
            None \<Rightarrow> None
          | Some (q, r) \<Rightarrow>
              (case (unquote q, skip_ws r) of
                 (Some k, c2 # r2) \<Rightarrow>
                   if c2 \<noteq> CHR '':'' then None
                   else (case parse_value n d r2 of
                      None \<Rightarrow> None
                    | Some (v, r3) \<Rightarrow>
                        (case skip_ws r3 of
                           [] \<Rightarrow> None
                         | c4 # r4 \<Rightarrow>
                             if c4 = CHR '','' then
                               map_option (\<lambda>(ms, r'). ((k, text_between r2 r3, v) # ms, r')) (parse_members n d r4)
                             else if c4 = CHR ''}'' then Some ([(k, text_between r2 r3, v)], r4)
                             else None))
               | _ \<Rightarrow> None))"

definition fuel_for :: "gostring \<Rightarrow> nat" where "fuel_for s = 2 * length s + 2"

definition parse_json :: "gostring \<Rightarrow> json option" where
  "parse_json s =
     (case parse_value (fuel_for s) 0 s of
        Some (v, r) \<Rightarrow> if skip_ws r = [] then Some v else None
      | None \<Rightarrow> None)"

section \<open>Struct decoding\<close>

text \<open>A struct field matches its name byte for byte or, failing that, up to ASCII case (the two
  non-ASCII code points that fold to ASCII letters are not modelled: no member name the client
  writes or reads has one).  Of several matching members the last wins, as each overwrites the
  field.\<close>

definition field_match :: "gostring \<Rightarrow> gostring \<Rightarrow> bool" where
  "field_match name key \<longleftrightarrow> to_lower key = to_lower name"

definition field :: "gostring \<Rightarrow> (gostring \<times> gostring \<times> json) list \<Rightarrow> (gostring \<times> json) list" where
  "field name ms = map snd (filter (\<lambda>m. field_match name (fst m)) ms)"

text \<open>Decoding one scalar field: \<open>null\<close> leaves the zero value, a value of another kind fails the
  whole decode.\<close>

definition decode_field :: "(json \<Rightarrow> 'a option) \<Rightarrow> 'a \<Rightarrow> gostring \<Rightarrow> (gostring \<times> gostring \<times> json) list \<Rightarrow> 'a option" where
  "decode_field dec zero name ms =
     fold (\<lambda>(_, v) acc. case acc of None \<Rightarrow> None
             | Some old \<Rightarrow> if v = JNull then Some old else dec v)
       (field name ms) (Some zero)"

definition as_string :: "json \<Rightarrow> gostring option" where
  "as_string v = (case v of JStr s \<Rightarrow> Some s | _ \<Rightarrow> None)"

definition as_bool :: "json \<Rightarrow> bool option" where
  "as_bool v = (case v of JBool b \<Rightarrow> Some b | _ \<Rightarrow> None)"

definition as_int :: "json \<Rightarrow> int option" where
  "as_int v = (case v of JNum t \<Rightarrow> (case parse_int64 t of PInt i \<Rightarrow> Some i | _ \<Rightarrow> None) | _ \<Rightarrow> None)"

text \<open>Fields of a string, of a pointer (an option, which \<open>null\<close> makes nil), of a slice and of a struct.\<close>

definition dstring :: "gostring \<Rightarrow> (gostring \<times> gostring \<times> json) list \<Rightarrow> gostring option" where
  "dstring k ms = decode_field as_string [] k ms"

definition dpointer :: "(json \<Rightarrow> 'a option) \<Rightarrow> gostring \<Rightarrow> (gostring \<times> gostring \<times> json) list \<Rightarrow> 'a option option" where
  "dpointer dec name ms =
     fold (\<lambda>(_, v) acc. case acc of None \<Rightarrow> None
             | Some old \<Rightarrow> if v = JNull then Some None else map_option Some (dec v))
       (field name ms) (Some None)"

definition as_list :: "'a \<Rightarrow> (json \<Rightarrow> 'a option) \<Rightarrow> json \<Rightarrow> 'a list option" where
  "as_list zero dec v =
     (case v of JArr vs \<Rightarrow> those (map (\<lambda>v. if v = JNull then Some zero else dec v) vs) | _ \<Rightarrow> None)"

definition as_struct :: "((gostring \<times> gostring \<times> json) list \<Rightarrow> 'a option) \<Rightarrow> json \<Rightarrow> 'a option" where
  "as_struct dec v = (case v of JObj ms \<Rightarrow> dec ms | _ \<Rightarrow> None)"

text \<open>A raw field takes the text of its value, \<open>null\<close> included; absent, it is empty.\<close>

definition raw_field :: "gostring \<Rightarrow> (gostring \<times> gostring \<times> json) list \<Rightarrow> gostring" where
  "raw_field name ms = (case rev (field name ms) of [] \<Rightarrow> [] | (t, _) # _ \<Rightarrow> t)"

section \<open>Encoding\<close>

text \<open>String escaping of \<open>json.Marshal\<close>, HTML escaping on.\<close>

definition esc_u :: "nat \<Rightarrow> gostring" where
  "esc_u n = [backslash, CHR ''u'', CHR ''0'', CHR ''0'', hex_digit (n div 16), hex_digit (n mod 16)]"

definition escape_byte :: "char \<Rightarrow> gostring" where
  "escape_byte c =
     (if c = quote \<or> c = backslash then [backslash, c]
      else if ord c = 8 then [backslash, CHR ''b''] else if ord c = 12 then [backslash, CHR ''f'']
      else if ord c = 10 then [backslash, CHR ''n''] else if ord c = 13 then [backslash, CHR ''r'']
      else if ord c = 9 then [backslash, CHR ''t'']
      else if ord c < 32 \<or> c = CHR ''<'' \<or> c = CHR ''>'' \<or> c = CHR ''&'' then esc_u (ord c)
      else [c])"

fun escape_fuel :: "nat \<Rightarrow> gostring \<Rightarrow> gostring" where
  "escape_fuel 0 s = []"
| "escape_fuel (Suc n) s =
     (case s of
        [] \<Rightarrow> []
      | c # t \<Rightarrow>
          if ord c < 128 then escape_byte c @ escape_fuel n t
          else let k = utf8_head s
            in if k = 0 then [backslash] @ ''ufffd'' @ escape_fuel n t
               else if take 3 s = [CHR 0xE2, CHR 0x80, CHR 0xA8] then [backslash] @ ''u2028'' @ escape_fuel n (drop 3 s)
               else if take 3 s = [CHR 0xE2, CHR 0x80, CHR 0xA9] then [backslash] @ ''u2029'' @ escape_fuel n (drop 3 s)
               else take k s @ escape_fuel n (drop k s))"

definition enc_string :: "gostring \<Rightarrow> gostring" where
  "enc_string s = [quote] @ escape_fuel (length s) s @ [quote]"

definition enc_bool :: "bool \<Rightarrow> gostring" where
  "enc_bool b = (if b then ''true'' else ''false'')"

text \<open>An object from its members' names and value texts; \<open>omitempty\<close> members are left out by
  the caller.\<close>

fun enc_members :: "(gostring \<times> gostring) list \<Rightarrow> gostring" where
  "enc_members [] = ''}''"
| "enc_members [(k, t)] = [quote] @ k @ [quote] @ '':'' @ t @ ''}''"
| "enc_members ((k, t) # ms) = [quote] @ k @ [quote] @ '':'' @ t @ '','' @ enc_members ms"

definition enc_object :: "(gostring \<times> gostring) list \<Rightarrow> gostring" where
  "enc_object ms = CHR ''{'' # enc_members ms"

end
