(* ===== verification/Json_Facts.thy ===== *)
theory Json_Facts
  imports Go_Json
begin

text \<open>
  What the components need to know of the JSON model: every parser consumes input, the fuel of
  \<open>parse_json\<close> is enough, a value is read the same way whatever delimited text follows it, and
  an encoded object parses back to its members with the texts they were given.
\<close>

lemmas quote_simps = quote_def backslash_def

section \<open>White space\<close>

lemma skip_ws_append: "skip_ws s \<noteq> [] \<Longrightarrow> skip_ws (s @ t) = skip_ws s @ t"
  by (induction s) (auto simp: skip_ws_def)

lemma length_skip_ws: "length (skip_ws s) \<le> length s"
  by (simp add: skip_ws_def length_dropWhile_le)

lemma skip_ws_Cons: "skip_ws s = c # t \<Longrightarrow> length t < length s"
  using length_skip_ws [of s] by simp

lemma skip_ws_id: "skip_ws (skip_ws s) = skip_ws s"
  by (induction s) (simp_all add: skip_ws_def)

section \<open>Spans\<close>

lemma str_span_length: "str_span s = Some (q, r) \<Longrightarrow> length r < length s"
proof (induction s arbitrary: q r rule: str_span.induct)
  case (2 c s)
  show ?case
  proof (cases "c = quote")
    case True with 2(3) show ?thesis by simp
  next
    case q: False
    show ?thesis
    proof (cases "c = backslash")
      case True
      with 2(3) q show ?thesis
        by (cases s) (auto dest!: 2(1) [OF q True])
    next
      case False
      with 2(3) q show ?thesis by (auto dest!: 2(2))
    qed
  qed
qed simp

lemma str_span_append: "str_span s = Some (q, r) \<Longrightarrow> str_span (s @ t) = Some (q, r @ t)"
proof (induction s arbitrary: q r rule: str_span.induct)
  case (2 c s)
  show ?case
  proof (cases "c = quote")
    case True with 2(3) show ?thesis by simp
  next
    case q: False
    show ?thesis
    proof (cases "c = backslash")
      case True
      with 2(3) q show ?thesis
        by (cases s) (auto dest!: 2(1) [OF q True])
    next
      case False
      with 2(3) q show ?thesis by (auto dest!: 2(2))
    qed
  qed
qed simp

definition plain :: "gostring \<Rightarrow> bool" where
  "plain s \<longleftrightarrow> list_all (\<lambda>c. 32 \<le> ord c \<and> ord c < 128 \<and> c \<noteq> quote \<and> c \<noteq> backslash) s"

lemma str_span_plain: "plain k \<Longrightarrow> str_span (k @ quote # r) = Some (k, r)"
  by (induction k) (auto simp: plain_def)

lemma unescape_plain: "plain k \<Longrightarrow> length k \<le> n \<Longrightarrow> unescape n k = Some k"
proof (induction n arbitrary: k)
  case (Suc n)
  then show ?case by (cases k) (auto simp: plain_def)
qed simp

lemma unquote_plain [simp]: "plain k \<Longrightarrow> unquote k = Some k"
proof -
  assume p: "plain k"
  then have "ascii k" by (auto simp: plain_def ascii_def list_all_iff)
  then show ?thesis using p by (simp add: unquote_def unescape_plain)
qed

text \<open>The text after a value must not continue a number.\<close>

definition delimited :: "gostring \<Rightarrow> bool" where
  "delimited t \<longleftrightarrow> t = [] \<or> \<not> num_char (hd t)"

lemma valid_number_nonempty: "valid_number w \<Longrightarrow> w \<noteq> []"
  by (auto simp: valid_number_def)

lemma literal_length: "literal_span s = Some (v, r) \<Longrightarrow> length r < length s"
proof -
  have "has_prefix p s \<Longrightarrow> p \<noteq> [] \<Longrightarrow> s \<noteq> []" for p by (cases s) (auto simp: has_prefix_def)
  then show "literal_span s = Some (v, r) \<Longrightarrow> length r < length s"
    by (cases s) (auto simp: literal_span_def Let_def split: if_splits dest!: valid_number_nonempty)
qed

lemma has_prefix_append: "has_prefix p s \<Longrightarrow> has_prefix p (s @ t)"
  by (metis append_take_drop_id has_prefix_def take_append append_Nil2 append_eq_append_conv length_take take_all_iff linorder_linear min.absorb2 diff_is_0_eq take_0)

lemma not_prefix_first: "s \<noteq> [] \<Longrightarrow> p \<noteq> [] \<Longrightarrow> hd s \<noteq> hd p \<Longrightarrow> \<not> has_prefix p (s @ t)"
  by (cases s; cases p) (auto simp: has_prefix_def)

lemma valid_number_hd: "valid_number w \<Longrightarrow> hd w = CHR ''-'' \<or> is_digit (hd w)"
  by (cases w) (auto simp: valid_number_def Let_def byte_class_defs split: if_splits)

lemma number_hd_distinct:
  "c = CHR ''-'' \<or> is_digit c \<Longrightarrow> c \<noteq> CHR ''t'' \<and> c \<noteq> CHR ''f'' \<and> c \<noteq> CHR ''n''"
  by (auto simp: byte_class_defs ord_def)

lemma literal_append:
  assumes "literal_span s = Some (v, r)" and "r = [] \<Longrightarrow> delimited t"
  shows "literal_span (s @ t) = Some (v, r @ t)"
proof -
  consider (t) "has_prefix ''true'' s" | (f) "\<not> has_prefix ''true'' s" "has_prefix ''false'' s"
    | (n) "\<not> has_prefix ''true'' s" "\<not> has_prefix ''false'' s" "has_prefix ''null'' s"
    | (num) "valid_number (takeWhile num_char s)" "v = JNum (takeWhile num_char s)"
        "r = drop (length (takeWhile num_char s)) s"
    using assms(1) by (auto simp: literal_span_def Let_def split: if_splits)
  then show ?thesis
  proof cases
    case num
    let ?w = "takeWhile num_char s"
    have ne: "?w \<noteq> []" using num(1) by (rule valid_number_nonempty)
    then have s: "s \<noteq> []" "hd s = hd ?w" by (cases s; simp split: if_splits)+
    have r: "r = dropWhile num_char s" by (simp add: num(3) dropWhile_eq_drop)
    have "takeWhile num_char (s @ t) = ?w"
    proof (cases "r = []")
      case True
      then have "\<forall>c \<in> set s. num_char c" by (simp add: r dropWhile_eq_Nil_conv)
      then have "?w = s" by (metis takeWhile_eq_all_conv)
      have "takeWhile num_char t = []"
        using assms(2) [OF True] by (cases t) (auto simp: delimited_def)
      then have "takeWhile num_char (s @ t) = s"
        using \<open>\<forall>c \<in> set s. num_char c\<close> by (simp add: takeWhile_append)
      then show ?thesis by (simp only: \<open>?w = s\<close>)
    next
      case False
      then obtain c where "c \<in> set s" "\<not> num_char c" by (auto simp: r dropWhile_eq_Nil_conv)
      then show ?thesis by (simp add: takeWhile_append1)
    qed
    moreover have "drop (length ?w) (s @ t) = r @ t"
      using length_takeWhile_le [of num_char s] by (simp add: num(3))
    moreover have "\<not> has_prefix p (s @ t)" if "p \<in> {''true'', ''false'', ''null''}" for p
      using that number_hd_distinct [OF valid_number_hd [OF num(1)]] s
      by (intro not_prefix_first) auto
    ultimately show ?thesis using num by (simp add: literal_span_def Let_def)
  next
    case t
    then have "4 \<le> length s" by (cases "4 \<le> length s") (auto simp: has_prefix_def dest: arg_cong [where f = length])
    with t assms(1) show ?thesis by (simp add: literal_span_def has_prefix_append)
  next
    case f
    then have l: "5 \<le> length s" by (cases "5 \<le> length s") (auto simp: has_prefix_def dest: arg_cong [where f = length])
    with f have "\<not> has_prefix ''true'' (s @ t)" by (simp add: has_prefix_def)
    with f l assms(1) show ?thesis by (simp add: literal_span_def has_prefix_append)
  next
    case n
    then have l: "4 \<le> length s" by (cases "4 \<le> length s") (auto simp: has_prefix_def dest: arg_cong [where f = length])
    have "s \<noteq> [] \<and> hd s = CHR ''n''" using n(3) by (cases s) (auto simp: has_prefix_def)
    then have "\<not> has_prefix ''true'' (s @ t)" "\<not> has_prefix ''false'' (s @ t)"
      using not_prefix_first [of s "''true''" t] not_prefix_first [of s "''false''" t] by auto
    with n l assms(1) show ?thesis by (simp add: literal_span_def has_prefix_append)
  qed
qed

section \<open>Inversion of the parser\<close>

text \<open>One equation per function with the fuel kept, and the shapes a successful parse can have.\<close>

lemma parse_value_SucE:
  assumes "parse_value (Suc n) d s = Some (v, r)"
  obtains (empty_obj) t where "skip_ws s = CHR ''{'' # t" "d < max_depth" "skip_ws t = CHR ''}'' # r" "v = JObj []"
  | (obj) t ms c2 t2 where "skip_ws s = CHR ''{'' # t" "d < max_depth" "skip_ws t = c2 # t2" "c2 \<noteq> CHR ''}''"
      "parse_members n (Suc d) t = Some (ms, r)" "v = JObj ms"
  | (empty_arr) t where "skip_ws s = CHR ''['' # t" "d < max_depth" "skip_ws t = CHR '']'' # r" "v = JArr []"
  | (arr) t vs c2 t2 where "skip_ws s = CHR ''['' # t" "d < max_depth" "skip_ws t = c2 # t2" "c2 \<noteq> CHR '']''"
      "parse_elems n (Suc d) t = Some (vs, r)" "v = JArr vs"
  | (str) t q w where "skip_ws s = quote # t" "str_span t = Some (q, r)" "unquote q = Some w" "v = JStr w"
  | (lit) c t where "skip_ws s = c # t" "c \<noteq> CHR ''{''" "c \<noteq> CHR ''[''" "c \<noteq> quote"
      "literal_span (c # t) = Some (v, r)"
proof -
  obtain c t where s: "skip_ws s = c # t" using assms by (cases "skip_ws s") auto
  consider "c = CHR ''{''" | "c = CHR ''[''" | "c = quote"
    | "c \<noteq> CHR ''{''" "c \<noteq> CHR ''[''" "c \<noteq> quote" by blast
  then show ?thesis
  proof cases
    case 1
    then obtain c2 t2 where "skip_ws t = c2 # t2" "d < max_depth"
      using assms s by (cases "skip_ws t") (auto split: if_splits)
    with 1 s assms show ?thesis
      by (cases "c2 = CHR ''}''") (auto intro: empty_obj obj)
  next
    case 2
    then obtain c2 t2 where "skip_ws t = c2 # t2" "d < max_depth"
      using assms s by (cases "skip_ws t") (auto split: if_splits)
    with 2 s assms show ?thesis
      by (cases "c2 = CHR '']''") (auto intro: empty_arr arr)
  next
    case 3
    with s assms show ?thesis by (auto intro: str simp: quote_def split: option.splits)
  next
    case 4
    with s assms show ?thesis by (auto intro: lit)
  qed
qed

lemma parse_elems_SucE:
  assumes "parse_elems (Suc n) d s = Some (vs, r)"
  obtains (last) v r' where "parse_value n d s = Some (v, r')" "skip_ws r' = CHR '']'' # r" "vs = [v]"
  | (more) v r' t vs' where "parse_value n d s = Some (v, r')" "skip_ws r' = CHR '','' # t"
      "parse_elems n d t = Some (vs', r)" "vs = v # vs'"
proof -
  obtain v r' where v: "parse_value n d s = Some (v, r')" using assms by (auto split: option.splits)
  obtain c t where c: "skip_ws r' = c # t" using assms v by (cases "skip_ws r'") auto
  show ?thesis using assms v c by (auto split: if_splits intro: last more)
qed

lemma parse_members_SucE:
  assumes "parse_members (Suc n) d s = Some (ms, r)"
  obtains t q u k r2 v r3 where "skip_ws s = quote # t" "str_span t = Some (q, u)" "unquote q = Some k"
      "skip_ws u = CHR '':'' # r2" "parse_value n d r2 = Some (v, r3)"
      "skip_ws r3 = CHR ''}'' # r \<and> ms = [(k, text_between r2 r3, v)] \<or>
       (\<exists>r4 ms'. skip_ws r3 = CHR '','' # r4 \<and> parse_members n d r4 = Some (ms', r) \<and>
                ms = (k, text_between r2 r3, v) # ms')"
proof -
  obtain t where t: "skip_ws s = quote # t" using assms by (cases "skip_ws s") (auto split: if_splits)
  obtain q u where q: "str_span t = Some (q, u)" using assms t by (auto split: option.splits)
  obtain k where k: "unquote q = Some k" using assms t q by (cases "unquote q") auto
  obtain c r2 where c: "skip_ws u = c # r2" using assms t q k by (cases "skip_ws u") auto
  have colon: "c = CHR '':''" using assms t q k c by (auto split: if_splits)
  obtain v r3 where v: "parse_value n d r2 = Some (v, r3)"
    using assms t q k c colon by (auto split: option.splits)
  obtain c4 r4 where c4: "skip_ws r3 = c4 # r4" using assms t q k c colon v by (cases "skip_ws r3") auto
  have "skip_ws r3 = CHR ''}'' # r \<and> ms = [(k, text_between r2 r3, v)] \<or>
       (\<exists>r4 ms'. skip_ws r3 = CHR '','' # r4 \<and> parse_members n d r4 = Some (ms', r) \<and>
                ms = (k, text_between r2 r3, v) # ms')"
    using assms t q k c colon v c4 by (auto split: if_splits)
  with t q k c colon v show ?thesis by (intro that) auto
qed

section \<open>Progress\<close>

lemma parse_progress:
  "(\<forall>d s v r. parse_value n d s = Some (v, r) \<longrightarrow> length r < length s) \<and>
   (\<forall>d s vs r. parse_elems n d s = Some (vs, r) \<longrightarrow> length r < length s) \<and>
   (\<forall>d s ms r. parse_members n d s = Some (ms, r) \<longrightarrow> length r < length s)"
proof (induction n)
  case (Suc n)
  note IH = Suc.IH [THEN conjunct1, rule_format] Suc.IH [THEN conjunct2, THEN conjunct1, rule_format]
    Suc.IH [THEN conjunct2, THEN conjunct2, rule_format]
  have "length r < length s" if "parse_value (Suc n) d s = Some (v, r)" for d s v r
    using that
  proof (cases rule: parse_value_SucE)
    case (lit c t)
    then show ?thesis using literal_length [OF lit(5)] skip_ws_Cons [OF lit(1)] by simp
  next
    case (str t q w)
    then show ?thesis using str_span_length [OF str(2)] skip_ws_Cons [OF str(1)] by simp
  qed (auto dest!: IH skip_ws_Cons)
  moreover have "length r < length s" if "parse_elems (Suc n) d s = Some (vs, r)" for d s vs r
    using that by (cases rule: parse_elems_SucE) (auto dest!: IH skip_ws_Cons)
  moreover have "length r < length s" if "parse_members (Suc n) d s = Some (ms, r)" for d s ms r
    using that by (cases rule: parse_members_SucE) (auto dest!: IH skip_ws_Cons str_span_length)
  ultimately show ?case by blast
qed simp

lemmas parse_value_progress = parse_progress [THEN conjunct1, rule_format]
lemmas parse_elems_progress = parse_progress [THEN conjunct2, THEN conjunct1, rule_format]
lemmas parse_members_progress = parse_progress [THEN conjunct2, THEN conjunct2, rule_format]

section \<open>The fuel is enough\<close>

lemma parse_fuel:
  "(\<forall>d s x m. parse_value n d s = Some x \<longrightarrow> 2 * length s < m \<longrightarrow> parse_value m d s = Some x) \<and>
   (\<forall>d s x m. parse_elems n d s = Some x \<longrightarrow> 2 * length s + 1 < m \<longrightarrow> parse_elems m d s = Some x) \<and>
   (\<forall>d s x m. parse_members n d s = Some x \<longrightarrow> 2 * length s + 1 < m \<longrightarrow> parse_members m d s = Some x)"
proof (induction n)
  case (Suc n)
  note IH = Suc.IH [THEN conjunct1, rule_format] Suc.IH [THEN conjunct2, THEN conjunct1, rule_format]
    Suc.IH [THEN conjunct2, THEN conjunct2, rule_format]
  have "parse_value m d s = Some x" if p: "parse_value (Suc n) d s = Some x" and m: "2 * length s < m" for d s x m
  proof -
    obtain k where k: "m = Suc k" "2 * length s \<le> k" using m by (cases m) auto
    obtain v r where x: "x = (v, r)" by (cases x)
    from p [unfolded x] show ?thesis
    proof (cases rule: parse_value_SucE)
      case (obj t ms c2 t2)
      have "parse_members k (Suc d) t = Some (ms, r)" using IH(3) [OF obj(5)] skip_ws_Cons [OF obj(1)] k by simp
      with obj show ?thesis by (simp add: k x)
    next
      case (arr t vs c2 t2)
      have "parse_elems k (Suc d) t = Some (vs, r)" using IH(2) [OF arr(5)] skip_ws_Cons [OF arr(1)] k by simp
      with arr show ?thesis by (simp add: k x)
    qed (simp_all add: k x quote_def)
  qed
  moreover have "parse_elems m d s = Some x" if p: "parse_elems (Suc n) d s = Some x" and m: "2 * length s + 1 < m" for d s x m
  proof -
    obtain k where k: "m = Suc k" "2 * length s < k" using m by (cases m) auto
    obtain vs r where x: "x = (vs, r)" by (cases x)
    from p [unfolded x] show ?thesis
    proof (cases rule: parse_elems_SucE)
      case (more v r' t vs')
      have "length t < length s - 1"
        using parse_value_progress [OF more(1)] skip_ws_Cons [OF more(2)] by simp
      then have "parse_elems k d t = Some (vs', r)" using IH(2) [OF more(3)] k by simp
      with more IH(1) [OF more(1)] k show ?thesis by (simp add: x)
    next
      case (last v r')
      with IH(1) [OF last(1)] k show ?thesis by (simp add: x)
    qed
  qed
  moreover have "parse_members m d s = Some x" if p: "parse_members (Suc n) d s = Some x" and m: "2 * length s + 1 < m" for d s x m
  proof -
    obtain k where k: "m = Suc k" "2 * length s < k" using m by (cases m) auto
    obtain ms r where x: "x = (ms, r)" by (cases x)
    from p [unfolded x] show ?thesis
    proof (cases rule: parse_members_SucE)
      case (1 t q u key r2 v r3)
      have l: "length r2 < length s - 1"
        using skip_ws_Cons [OF 1(1)] str_span_length [OF 1(2)] skip_ws_Cons [OF 1(4)] by simp
      have v: "parse_value k d r2 = Some (v, r3)" using IH(1) [OF 1(5)] l k by simp
      from 1(6) show ?thesis
      proof (elim disjE exE conjE)
        assume "skip_ws r3 = CHR ''}'' # r" "ms = [(key, text_between r2 r3, v)]"
        with 1 v show ?thesis by (simp add: k x)
      next
        fix r4 ms' assume a: "skip_ws r3 = CHR '','' # r4" "parse_members n d r4 = Some (ms', r)"
          "ms = (key, text_between r2 r3, v) # ms'"
        have "length r4 < length s - 1"
          using skip_ws_Cons [OF a(1)] parse_value_progress [OF 1(5)] l by simp
        then have "parse_members k d r4 = Some (ms', r)" using IH(3) [OF a(2)] k by simp
        with 1 v a show ?thesis by (simp add: k x)
      qed
    qed
  qed
  ultimately show ?case by blast
qed simp

lemmas parse_value_fuel = parse_fuel [THEN conjunct1, rule_format]
lemmas parse_members_fuel = parse_fuel [THEN conjunct2, THEN conjunct2, rule_format]

section \<open>Values in context\<close>

lemma skip_ws_Cons_append: "skip_ws s = c # t \<Longrightarrow> skip_ws (s @ u) = c # t @ u"
  using skip_ws_append [of s u] by simp

lemma skip_nonempty: "skip_ws r = c # t \<Longrightarrow> r \<noteq> []"
  by (auto simp: skip_ws_def)

lemma text_between_append:
  assumes "parse_value n d s = Some (v, r)"
  shows "text_between (s @ t) (r @ t) = text_between s r"
proof -
  obtain m where m: "n = Suc m" using assms by (cases n) auto
  have ne: "skip_ws s \<noteq> []" using assms m by (cases "skip_ws s") auto
  have "length r \<le> length (skip_ws s)"
  proof -
    have "parse_value n d (skip_ws s) = Some (v, r)" using assms m by (simp add: skip_ws_id)
    from parse_value_progress [OF this] show ?thesis by simp
  qed
  then show ?thesis using skip_ws_append [OF ne, of t] by (simp add: text_between_def)
qed

lemma parse_append:
  "(\<forall>d s v r t. parse_value n d s = Some (v, r) \<longrightarrow> (r = [] \<longrightarrow> delimited t) \<longrightarrow> parse_value n d (s @ t) = Some (v, r @ t)) \<and>
   (\<forall>d s vs r t. parse_elems n d s = Some (vs, r) \<longrightarrow> parse_elems n d (s @ t) = Some (vs, r @ t)) \<and>
   (\<forall>d s ms r t. parse_members n d s = Some (ms, r) \<longrightarrow> parse_members n d (s @ t) = Some (ms, r @ t))"
proof (induction n)
  case (Suc n)
  note IHv = Suc.IH [THEN conjunct1, rule_format]
  note IHe = Suc.IH [THEN conjunct2, THEN conjunct1, rule_format]
  note IHm = Suc.IH [THEN conjunct2, THEN conjunct2, rule_format]
  have "parse_value (Suc n) d (s @ t) = Some (v, r @ t)"
    if p: "parse_value (Suc n) d s = Some (v, r)" and del: "r = [] \<longrightarrow> delimited t" for d s v r t
    using p
  proof (cases rule: parse_value_SucE)
    case (empty_obj u)
    then show ?thesis by (simp add: skip_ws_Cons_append)
  next
    case (obj u ms c2 t2)
    then show ?thesis by (simp add: skip_ws_Cons_append IHm)
  next
    case (empty_arr u)
    then show ?thesis by (simp add: skip_ws_Cons_append)
  next
    case (arr u vs c2 t2)
    then show ?thesis by (simp add: skip_ws_Cons_append IHe)
  next
    case (str u q w)
    then show ?thesis by (simp add: skip_ws_Cons_append str_span_append quote_def)
  next
    case (lit c u)
    have "literal_span (c # u @ t) = Some (v, r @ t)"
      using literal_append [OF lit(5), of t] del by simp
    with lit show ?thesis by (simp add: skip_ws_Cons_append)
  qed
  moreover have "parse_elems (Suc n) d (s @ t) = Some (vs, r @ t)"
    if p: "parse_elems (Suc n) d s = Some (vs, r)" for d s vs r t
    using p
  proof (cases rule: parse_elems_SucE)
    case (last v r')
    then show ?thesis using IHv [OF last(1), of t] skip_nonempty [OF last(2)]
      by (simp add: skip_ws_Cons_append)
  next
    case (more v r' u vs')
    then show ?thesis using IHv [OF more(1), of t] skip_nonempty [OF more(2)]
      by (simp add: skip_ws_Cons_append IHe)
  qed
  moreover have "parse_members (Suc n) d (s @ t) = Some (ms, r @ t)"
    if p: "parse_members (Suc n) d s = Some (ms, r)" for d s ms r t
    using p
  proof (cases rule: parse_members_SucE)
    case (1 u q w k r2 v r3)
    have ne: "r3 \<noteq> []" using 1(6) by (auto dest: skip_nonempty)
    have v: "parse_value n d (r2 @ t) = Some (v, r3 @ t)" using IHv [OF 1(5)] ne by simp
    have tb: "text_between (r2 @ t) (r3 @ t) = text_between r2 r3"
      using 1(5) by (rule text_between_append)
    from 1(6) show ?thesis
    proof (elim disjE exE conjE)
      assume "skip_ws r3 = CHR ''}'' # r" "ms = [(k, text_between r2 r3, v)]"
      then show ?thesis
        using 1(1-4) v tb by (simp add: skip_ws_Cons_append str_span_append)
    next
      fix r4 ms' assume "skip_ws r3 = CHR '','' # r4" "parse_members n d r4 = Some (ms', r)"
        "ms = (k, text_between r2 r3, v) # ms'"
      then show ?thesis
        using 1(1-4) v tb by (simp add: skip_ws_Cons_append str_span_append IHm)
    qed
  qed
  ultimately show ?case by blast
qed simp

lemmas parse_value_append = parse_append [THEN conjunct1, rule_format]

section \<open>Encoded objects parse back\<close>

text \<open>\<open>value_text d t v\<close>: \<open>t\<close> is the text of the value \<open>v\<close> at nesting depth \<open>d\<close>, with no white
  space around it.\<close>

definition value_text :: "nat \<Rightarrow> gostring \<Rightarrow> json \<Rightarrow> bool" where
  "value_text d t v \<longleftrightarrow> skip_ws t = t \<and> parse_value (fuel_for t) d t = Some (v, [])"

lemma value_textI: "parse_value n d t = Some (v, []) \<Longrightarrow> skip_ws t = t \<Longrightarrow> value_text d t v"
  unfolding value_text_def by (metis parse_value_fuel fuel_for_def less_add_same_cancel1 zero_less_numeral)

lemma value_text_then:
  assumes "value_text d t v" and "delimited u" and "2 * length (t @ u) < n"
  shows "parse_value n d (t @ u) = Some (v, u)"
proof -
  have "parse_value (fuel_for t) d (t @ u) = Some (v, u)"
    using parse_value_append [of "fuel_for t" d t v "[]" u] assms by (simp add: value_text_def)
  then show ?thesis using assms(3) by (rule parse_value_fuel)
qed

lemma value_text_between: "value_text d t v \<Longrightarrow> text_between (t @ u) u = t"
proof -
  assume v: "value_text d t v"
  then have "t \<noteq> []" by (auto simp: value_text_def fuel_for_def skip_ws_def)
  then have "skip_ws t \<noteq> []" using v by (simp add: value_text_def)
  from skip_ws_append [OF this, of u] v show ?thesis by (simp add: text_between_def value_text_def)
qed

lemma delimited_comma [simp]: "delimited (CHR '','' # s)" "delimited (CHR ''}'' # s)" "delimited []"
  by (auto simp: delimited_def num_char_def byte_class_defs)

lemma skip_ws_punct [simp]:
  "skip_ws (CHR ''}'' # s) = CHR ''}'' # s" "skip_ws (CHR '','' # s) = CHR '','' # s"
  "skip_ws (CHR '':'' # s) = CHR '':'' # s" "skip_ws (CHR ''{'' # s) = CHR ''{'' # s"
  "skip_ws (quote # s) = quote # s"
  by (auto simp: skip_ws_def json_ws_def quote_def)

type_synonym member_text = "gostring \<times> gostring \<times> json"

definition member_ok :: "nat \<Rightarrow> member_text \<Rightarrow> bool" where
  "member_ok d m \<longleftrightarrow> plain (fst m) \<and> value_text d (fst (snd m)) (snd (snd m))"

definition member_pair :: "member_text \<Rightarrow> gostring \<times> gostring" where
  "member_pair m = (fst m, fst (snd m))"

lemma parse_enc_members:
  "ms \<noteq> [] \<Longrightarrow> list_all (member_ok d) ms \<Longrightarrow> 2 * length (enc_members (map member_pair ms) @ u) + 1 < n \<Longrightarrow>
   parse_members n d (enc_members (map member_pair ms) @ u) = Some (ms, u)"
proof (induction ms arbitrary: n)
  case (Cons m ms)
  obtain k t v where m: "m = (k, t, v)" by (cases m)
  obtain n' where n: "n = Suc n'" using Cons.prems(3) by (cases n) auto
  have pk: "plain k" and vt: "value_text d t v" using Cons.prems(2) by (auto simp: member_ok_def m)
  show ?case
  proof (cases "ms = []")
    case True
    have "parse_value n' d (t @ CHR ''}'' # u) = Some (v, CHR ''}'' # u)"
      using Cons.prems(3) True by (intro value_text_then [OF vt]) (auto simp: m member_pair_def n)
    then show ?thesis using pk value_text_between [OF vt, of "CHR ''}'' # u"]
      by (simp add: True m member_pair_def n str_span_plain)
  next
    case False
    let ?rest = "enc_members (map member_pair ms) @ u"
    obtain m' ms' where ms: "ms = m' # ms'" using False by (cases ms) auto
    have enc: "enc_members (map member_pair (m # ms)) @ u = quote # k @ quote # CHR '':'' # t @ CHR '','' # ?rest"
      by (simp add: m ms member_pair_def)
    have v: "parse_value n' d (t @ CHR '','' # ?rest) = Some (v, CHR '','' # ?rest)"
      using Cons.prems(3) unfolding enc by (intro value_text_then [OF vt]) (auto simp: n)
    have "parse_members n' d ?rest = Some (ms, u)"
      using Cons.prems False unfolding enc by (intro Cons.IH) (auto simp: n)
    with v show ?thesis using pk value_text_between [OF vt, of "CHR '','' # ?rest"]
      unfolding enc by (simp add: n m str_span_plain)
  qed
qed simp

theorem parse_enc_object:
  assumes "ms \<noteq> []" and "list_all (member_ok 1) ms"
  shows "parse_json (enc_object (map member_pair ms)) = Some (JObj ms)"
proof -
  let ?e = "enc_members (map member_pair ms)"
  obtain m ms' where ms: "ms = m # ms'" using assms(1) by (cases ms) auto
  obtain e' where e: "?e = quote # e'" by (cases ms'; cases m) (auto simp: ms member_pair_def)
  obtain n where n: "fuel_for (enc_object (map member_pair ms)) = Suc n" "2 * length ?e + 1 < n"
    by (simp add: fuel_for_def enc_object_def)
  have "parse_members n 1 ?e = Some (ms, [])"
    using parse_enc_members [OF assms, of "[]" n] n(2) by simp
  moreover have "skip_ws ?e = quote # e'" by (simp add: e)
  ultimately show ?thesis
    by (simp add: parse_json_def n(1)) (simp add: enc_object_def max_depth_def quote_def skip_ws_def json_ws_def)
qed

end
