(* ===== verification/Go_Time.thy ===== *)
theory Go_Time
  imports Go_Text "HOL-Library.Monad_Syntax"
begin

text \<open>
  The parts of Go's \<open>time\<close> package the modelled source calls.  An instant is the number of
  nanoseconds since the Unix epoch, a duration a number of nanoseconds, both unbounded.
  \<open>time.Parse\<close> with the layouts \<open>RFC3339\<close> and \<open>RFC3339Nano\<close> accepts the same texts (the
  parser takes a fraction after the seconds whether or not the layout has one), so both are
  \<open>parse_rfc3339\<close>.
\<close>

section \<open>Durations and instants\<close>

definition Millisecond :: nanos where "Millisecond = 1000000"
definition Second :: nanos where "Second = 1000 * Millisecond"
definition Minute :: nanos where "Minute = 60 * Second"
definition Hour :: nanos where "Hour = 60 * Minute"

lemmas duration_defs = Millisecond_def Second_def Minute_def Hour_def

definition unix_milli :: "nanos \<Rightarrow> millis" where "unix_milli t = t div Millisecond"
definition duration_ms :: "nanos \<Rightarrow> millis" where
  "duration_ms d = (if d < 0 then - ((- d) div Millisecond) else d div Millisecond)"

lemma unix_milli_mono: "s \<le> t \<Longrightarrow> unix_milli s \<le> unix_milli t"
  by (simp add: unix_milli_def Millisecond_def zdiv_mono1)

section \<open>The civil calendar\<close>

definition leap :: "int \<Rightarrow> bool" where
  "leap y \<longleftrightarrow> y mod 4 = 0 \<and> (y mod 100 \<noteq> 0 \<or> y mod 400 = 0)"

definition days_in :: "int \<Rightarrow> int \<Rightarrow> int" where
  "days_in m y = (if m = 2 then (if leap y then 29 else 28)
                  else if m \<in> {4, 6, 9, 11} then 30 else 31)"

text \<open>Days from the epoch to a proleptic Gregorian date, counting years from March.\<close>

definition days_civil :: "int \<Rightarrow> int \<Rightarrow> int \<Rightarrow> int" where
  "days_civil y m d =
     (let y' = (if m \<le> 2 then y - 1 else y);
          era = y' div 400;
          yoe = y' mod 400;
          doy = (153 * (if m > 2 then m - 3 else m + 9) + 2) div 5 + d - 1;
          doe = yoe * 365 + yoe div 4 - yoe div 100 + doy
      in era * 146097 + doe - 719468)"

section \<open>Parsing\<close>

definition take_digits :: "nat \<Rightarrow> gostring \<Rightarrow> (int \<times> gostring) option" where
  "take_digits k s =
     (if k \<le> length s \<and> list_all is_digit (take k s)
      then Some (int (nat_of_digits (take k s)), drop k s) else None)"

definition expect :: "char \<Rightarrow> gostring \<Rightarrow> gostring option" where
  "expect c s = (case s of [] \<Rightarrow> None | x # t \<Rightarrow> if x = c then Some t else None)"

text \<open>The hour field takes one digit when a second one does not follow.\<close>

definition take_hour :: "gostring \<Rightarrow> (int \<times> gostring) option" where
  "take_hour s = (case take_digits 2 s of Some r \<Rightarrow> Some r | None \<Rightarrow> take_digits 1 s)"

definition check :: "bool \<Rightarrow> unit option" where
  "check b = (if b then Some () else None)"

definition parse_date :: "gostring \<Rightarrow> ((int \<times> int \<times> int) \<times> gostring) option" where
  "parse_date s = do {
     (y, s) \<leftarrow> take_digits 4 s;
     s \<leftarrow> expect (CHR ''-'') s;
     (m, s) \<leftarrow> take_digits 2 s;
     _ \<leftarrow> check (1 \<le> m \<and> m \<le> 12);
     s \<leftarrow> expect (CHR ''-'') s;
     (d, s) \<leftarrow> take_digits 2 s;
     _ \<leftarrow> check (1 \<le> d \<and> d \<le> days_in m y);
     Some ((y, m, d), s) }"

text \<open>A fraction is a point or comma and at least one digit; digits past the ninth are dropped.\<close>

definition take_fraction :: "gostring \<Rightarrow> int \<times> gostring" where
  "take_fraction s =
     (case s of
        c # t \<Rightarrow>
          if (c = CHR ''.'' \<or> c = CHR '','') \<and> t \<noteq> [] \<and> is_digit (hd t) then
            (let ds = takeWhile is_digit t; used = take 9 ds
             in (int (nat_of_digits used) * 10 ^ (9 - length used), drop (length ds) t))
          else (0, s)
      | [] \<Rightarrow> (0, s))"

definition take_zone :: "gostring \<Rightarrow> (int \<times> gostring) option" where
  "take_zone s =
     (case s of [] \<Rightarrow> None
      | c # t \<Rightarrow>
          if c = CHR ''Z'' then Some (0, t)
          else do {
            (h, t) \<leftarrow> take_digits 2 t;
            t \<leftarrow> expect (CHR '':'') t;
            (m, t) \<leftarrow> take_digits 2 t;
            _ \<leftarrow> check (h \<le> 24 \<and> m \<le> 60 \<and> (c = CHR ''+'' \<or> c = CHR ''-''));
            Some ((if c = CHR ''-'' then - ((h * 60 + m) * 60) else (h * 60 + m) * 60), t) })"

definition parse_rfc3339 :: "gostring \<Rightarrow> nanos option" where
  "parse_rfc3339 s = do {
     ((y, mo, d), s) \<leftarrow> parse_date s;
     s \<leftarrow> expect (CHR ''T'') s;
     (h, s) \<leftarrow> take_hour s;
     _ \<leftarrow> check (h < 24);
     s \<leftarrow> expect (CHR '':'') s;
     (mi, s) \<leftarrow> take_digits 2 s;
     _ \<leftarrow> check (mi < 60);
     s \<leftarrow> expect (CHR '':'') s;
     (sec, s) \<leftarrow> take_digits 2 s;
     _ \<leftarrow> check (sec < 60);
     (let (frac, s) = take_fraction s in do {
       (off, s) \<leftarrow> take_zone s;
       _ \<leftarrow> check (s = []);
       Some (((days_civil y mo d * 24 + h) * 60 + mi) * Minute + (sec - off) * Second + frac) }) }"

definition parse_date_only :: "gostring \<Rightarrow> (int \<times> int \<times> int) option" where
  "parse_date_only s = do { (ymd, s) \<leftarrow> parse_date s; _ \<leftarrow> check (s = []); Some ymd }"

text \<open>The empty text is no instant.\<close>

lemma parse_rfc3339_Nil [simp]: "parse_rfc3339 [] = None"
  by (simp add: parse_rfc3339_def parse_date_def take_digits_def)

lemma parse_date_only_Nil [simp]: "parse_date_only [] = None"
  by (simp add: parse_date_only_def parse_date_def take_digits_def)

end
