(* ===== verification/Spool_Format.thy ===== *)
theory Spool_Format
  imports Json_Facts Go_Time
begin

text \<open>
  The entries of the disk spool and their file: the delivery clocks of \<open>analytics_retry.go\<close>, the
  record types, the writer and the reader of \<open>spool.go\<close>, and the identifier grammar of
  \<open>experiment_applications.go\<close>.

  The file is a byte string: a header line, then one JSON object per line.  An entry's clocks
  are values here; in the client they sit behind a pointer the batch in flight shares, which
  matters to no operation of this theory.  The parser of a stored experiment application
  (\<open>parseStoredApplication\<close>) is an argument \<open>app_of\<close>: the identifier of the application a text
  holds, if it holds one.
\<close>

section \<open>Delivery clocks\<close>

record eventDelivery =
  intakeMS :: millis
  ambiguousMS :: millis

definition spoolRetryAgeCap :: nanos where "spoolRetryAgeCap = 7 * 24 * Hour"
definition analyticsDedupWindow :: nanos where "analyticsDedupWindow = 15 * Minute"

lemma retry_caps_ms [simp]:
  "duration_ms spoolRetryAgeCap = 604800000" "duration_ms analyticsDedupWindow = 900000"
  by (simp_all add: duration_ms_def spoolRetryAgeCap_def analyticsDedupWindow_def duration_defs)

definition delivery_expired :: "eventDelivery option \<Rightarrow> nanos \<Rightarrow> bool" where
  "delivery_expired d now =
     (case d of
        None \<Rightarrow> True
      | Some d \<Rightarrow>
          if intakeMS d \<le> 0 then True
          else let ms = unix_milli now
            in if intakeMS d > ms \<or> ms - intakeMS d \<ge> duration_ms spoolRetryAgeCap then True
               else let first = ambiguousMS d
                 in first < 0 \<or> (first \<noteq> 0 \<and> (first < intakeMS d \<or> first > ms \<or>
                                       ms - first \<ge> duration_ms analyticsDedupWindow)))"

section \<open>Entries and lines\<close>

record spoolEventWire =
  IntakeUnixMS :: int
  AmbiguousUnixMS :: int
  Raw :: gostring
  Application :: gostring
  ApplicationID :: gostring
  ApplicationExtra :: bool
  InternalFact :: bool
  DropID :: gostring

definition empty_wire :: spoolEventWire where
  "empty_wire = \<lparr>IntakeUnixMS = 0, AmbiguousUnixMS = 0, Raw = [], Application = [], ApplicationID = [],
     ApplicationExtra = False, InternalFact = False, DropID = []\<rparr>"

record spoolHeaderWire =
  h_version :: int
  h_max_events :: int
  h_max_bytes :: int
  h_retry_after :: int

record spoolEntry =
  e_delivery :: "eventDelivery option"
  e_id :: gostring
  e_raw :: gostring
  e_expFactEpoch :: u64
  e_internalFact :: bool
  e_application :: bool
  e_applicationID :: gostring
  e_applicationExtra :: bool

definition spoolEntryExpired :: "spoolEntry \<Rightarrow> nanos \<Rightarrow> bool" where
  "spoolEntryExpired e now \<longleftrightarrow> e_id e = [] \<or> delivery_expired (e_delivery e) now"

definition entry_wire :: "spoolEntry \<Rightarrow> spoolEventWire" where
  "entry_wire e =
     (let w = empty_wire\<lparr>Raw := e_raw e, InternalFact := e_internalFact e,
                ApplicationID := e_applicationID e, ApplicationExtra := e_applicationExtra e\<rparr>;
          w = (if e_application e then w\<lparr>Raw := [], Application := e_raw e\<rparr> else w)
      in case e_delivery e of
           None \<Rightarrow> w
         | Some d \<Rightarrow> w\<lparr>IntakeUnixMS := intakeMS d, AmbiguousUnixMS := ambiguousMS d\<rparr>)"

text \<open>The envelope identifier: a member \<open>event_id\<close> holding a string; the decode's error is ignored,
  so a member of another kind leaves what was decoded before it.\<close>

definition lenient_string :: "gostring \<Rightarrow> json option \<Rightarrow> gostring" where
  "lenient_string name v =
     (case v of
        Some (JObj ms) \<Rightarrow> fold (\<lambda>(_, x) acc. case x of JStr s \<Rightarrow> s | _ \<Rightarrow> acc) (field name ms) []
      | _ \<Rightarrow> [])"

definition trim_json_space :: "gostring \<Rightarrow> gostring" where
  "trim_json_space s = trim_space s"

definition spoolEntryFromWire :: "(gostring \<Rightarrow> gostring option) \<Rightarrow> spoolEventWire \<Rightarrow> spoolEntry" where
  "spoolEntryFromWire app_of w =
     (let d = Some \<lparr>intakeMS = IntakeUnixMS w, ambiguousMS = AmbiguousUnixMS w\<rparr>
      in if length (Application w) \<noteq> 0 then
           (let emptyRaw = (length (Raw w) = 0 \<or> trim_json_space (Raw w) = ''null'')
            in \<lparr>e_delivery = d,
                e_id = (case app_of (Application w) of
                          Some i \<Rightarrow> if emptyRaw \<and> InternalFact w then i else []
                        | None \<Rightarrow> []),
                e_raw = Application w, e_expFactEpoch = 0, e_internalFact = InternalFact w,
                e_application = True, e_applicationID = [], e_applicationExtra = False\<rparr>)
         else
           \<lparr>e_delivery = d, e_id = lenient_string ''event_id'' (parse_json (Raw w)), e_raw = Raw w,
            e_expFactEpoch = 0, e_internalFact = InternalFact w, e_application = False,
            e_applicationID = ApplicationID w, e_applicationExtra = ApplicationExtra w\<rparr>)"

section \<open>Encoding a line\<close>

text \<open>\<open>json.Marshal\<close> of a \<open>RawMessage\<close>: \<open>null\<close> when nil, otherwise the compacted text, HTML
  characters escaped, or an error when it is not JSON.\<close>

fun compact :: "bool \<Rightarrow> gostring \<Rightarrow> gostring" where
  "compact ins [] = []"
| "compact ins (c # s) =
     (if \<not> ins then (if json_ws c then compact False s else c # compact (c = quote) s)
      else if c = backslash then (case s of [] \<Rightarrow> [c] | e # t \<Rightarrow> c # e # compact True t)
      else if c = CHR ''<'' \<or> c = CHR ''>'' \<or> c = CHR ''&'' then esc_u (ord c) @ compact True s
      else if take 3 (c # s) = [CHR 0xE2, CHR 0x80, CHR 0xA8] then [backslash] @ ''u2028'' @ compact True (drop 2 s)
      else if take 3 (c # s) = [CHR 0xE2, CHR 0x80, CHR 0xA9] then [backslash] @ ''u2029'' @ compact True (drop 2 s)
      else c # compact (c \<noteq> quote) s)"

definition marshal_raw :: "gostring \<Rightarrow> gostring option" where
  "marshal_raw raw =
     (if raw = [] then Some ''null''
      else if parse_json raw = None then None else Some (compact False raw))"

definition omit :: "bool \<Rightarrow> gostring \<Rightarrow> gostring \<Rightarrow> (gostring \<times> gostring) list" where
  "omit absent name t = (if absent then [] else [(name, t)])"

definition marshal_wire :: "spoolEventWire \<Rightarrow> gostring option" where
  "marshal_wire w = do {
     raw \<leftarrow> marshal_raw (Raw w);
     app \<leftarrow> marshal_raw (Application w);
     Some (enc_object
       ([(''intake_unix_ms'', show_int (IntakeUnixMS w))] @
        omit (AmbiguousUnixMS w = 0) ''ambiguous_unix_ms'' (show_int (AmbiguousUnixMS w)) @
        [(''raw'', raw)] @
        omit (Application w = []) ''application'' app @
        omit (ApplicationID w = []) ''application_id'' (enc_string (ApplicationID w)) @
        omit (\<not> ApplicationExtra w) ''application_extra'' (enc_bool True) @
        omit (\<not> InternalFact w) ''internal_fact'' (enc_bool True) @
        omit (DropID w = []) ''drop'' (enc_string (DropID w)))) }"

definition spoolRecordVersionLines :: int where "spoolRecordVersionLines = 3"

definition marshal_header :: "spoolHeaderWire \<Rightarrow> gostring" where
  "marshal_header h =
     enc_object
       ([(''version'', show_int (h_version h))] @
        omit (h_max_events h = 0) ''max_events'' (show_int (h_max_events h)) @
        omit (h_max_bytes h = 0) ''max_bytes'' (show_int (h_max_bytes h)) @
        omit (h_retry_after h = 0) ''retry_after_until_ms'' (show_int (h_retry_after h)))"

section \<open>Decoding a line\<close>

text \<open>\<open>json.Unmarshal\<close> into the line's struct: an object, or \<open>null\<close>, which changes nothing.\<close>

definition members_of :: "gostring \<Rightarrow> (gostring \<times> gostring \<times> json) list option" where
  "members_of line =
     (case parse_json line of Some (JObj ms) \<Rightarrow> Some ms | Some JNull \<Rightarrow> Some [] | _ \<Rightarrow> None)"

definition unmarshal_wire :: "gostring \<Rightarrow> spoolEventWire option" where
  "unmarshal_wire line = do {
     ms \<leftarrow> members_of line;
     intake \<leftarrow> decode_field as_int 0 ''intake_unix_ms'' ms;
     ambiguous \<leftarrow> decode_field as_int 0 ''ambiguous_unix_ms'' ms;
     appid \<leftarrow> decode_field as_string [] ''application_id'' ms;
     extra \<leftarrow> decode_field as_bool False ''application_extra'' ms;
     internal \<leftarrow> decode_field as_bool False ''internal_fact'' ms;
     drp \<leftarrow> decode_field as_string [] ''drop'' ms;
     Some \<lparr>IntakeUnixMS = intake, AmbiguousUnixMS = ambiguous, Raw = raw_field ''raw'' ms,
       Application = raw_field ''application'' ms, ApplicationID = appid, ApplicationExtra = extra,
       InternalFact = internal, DropID = drp\<rparr> }"

definition unmarshal_header :: "gostring \<Rightarrow> spoolHeaderWire option" where
  "unmarshal_header line = do {
     ms \<leftarrow> members_of line;
     version \<leftarrow> decode_field as_int 0 ''version'' ms;
     max_events \<leftarrow> decode_field as_int 0 ''max_events'' ms;
     max_bytes \<leftarrow> decode_field as_int 0 ''max_bytes'' ms;
     retry \<leftarrow> decode_field as_int 0 ''retry_after_until_ms'' ms;
     Some \<lparr>h_version = version, h_max_events = max_events, h_max_bytes = max_bytes, h_retry_after = retry\<rparr> }"

section \<open>The document\<close>

definition newline :: char where "newline = CHR 0x0A"

fun split_lines :: "gostring \<Rightarrow> gostring list" where
  "split_lines [] = [[]]"
| "split_lines (c # s) =
     (if c = newline then [] # split_lines s
      else case split_lines s of [] \<Rightarrow> [[c]] | l # ls \<Rightarrow> (c # l) # ls)"

datatype spoolRecord = LiveRecord spoolEntry | DropRecord gostring

record spoolDocument =
  doc_records :: "spoolRecord list"
  doc_retryAfterUntilMS :: int
  doc_tornTail :: bool
  doc_ok :: bool

definition unreadable_document :: spoolDocument where
  "unreadable_document = \<lparr>doc_records = [], doc_retryAfterUntilMS = 0, doc_tornTail = False, doc_ok = False\<rparr>"

text \<open>One data line: blank and unreadable lines are passed over, and so is a line with neither a
  drop nor a payload.\<close>

definition parse_line :: "(gostring \<Rightarrow> gostring option) \<Rightarrow> gostring \<Rightarrow> spoolRecord option" where
  "parse_line app_of line =
     (if length (trim_space line) = 0 then None
      else case unmarshal_wire line of
        None \<Rightarrow> None
      | Some w \<Rightarrow>
          if DropID w \<noteq> [] then Some (DropRecord (DropID w))
          else if length (Raw w) = 0 \<and> length (Application w) = 0 then None
          else Some (LiveRecord (spoolEntryFromWire app_of w)))"

definition parseSpoolDocument :: "(gostring \<Rightarrow> gostring option) \<Rightarrow> gostring \<Rightarrow> spoolDocument" where
  "parseSpoolDocument app_of data =
     (if length data = 0 then unreadable_document
      else
        let lines = split_lines data;
            (torn, lines) =
              (if last lines = [] then (Some False, butlast lines)
               else if length lines > 1 then (Some True, butlast lines)
               else (None, lines))
        in case torn of
             None \<Rightarrow> unreadable_document
           | Some tornTail \<Rightarrow>
               (case lines of
                  [] \<Rightarrow> unreadable_document\<lparr>doc_tornTail := tornTail\<rparr>
                | hline # rest \<Rightarrow>
                    (case unmarshal_header hline of
                       None \<Rightarrow> unreadable_document\<lparr>doc_tornTail := tornTail\<rparr>
                     | Some h \<Rightarrow>
                         if h_version h \<noteq> spoolRecordVersionLines then unreadable_document\<lparr>doc_tornTail := tornTail\<rparr>
                         else \<lparr>doc_records = List.map_filter (parse_line app_of) rest,
                               doc_retryAfterUntilMS = h_retry_after h, doc_tornTail = tornTail, doc_ok = True\<rparr>)))"

text \<open>The survivors, as the code computes them: entries in order with an alive flag, and the index
  each identifier currently lives at.\<close>

definition kill :: "gostring \<Rightarrow> (spoolEntry \<times> bool) list \<times> (gostring \<Rightarrow> nat option)
    \<Rightarrow> (spoolEntry \<times> bool) list \<times> (gostring \<Rightarrow> nat option)" where
  "kill i st = (let (ordered, at) = st in
     case at i of None \<Rightarrow> (ordered, at)
     | Some k \<Rightarrow> (ordered[k := (fst (ordered ! k), False)], at(i := None)))"

fun live_step :: "spoolRecord \<Rightarrow> (spoolEntry \<times> bool) list \<times> (gostring \<Rightarrow> nat option)
    \<Rightarrow> (spoolEntry \<times> bool) list \<times> (gostring \<Rightarrow> nat option)" where
  "live_step (DropRecord i) st = kill i st"
| "live_step (LiveRecord e) st =
     (let (ordered, at) =
        (if e_id e \<noteq> [] then
           (let (ordered, at) = kill (e_id e) st in (ordered, at(e_id e := Some (length ordered))))
         else st)
      in (ordered @ [(e, True)], at))"

definition live_records :: "spoolRecord list \<Rightarrow> spoolEntry list" where
  "live_records rs = map fst (filter snd (fst (fold live_step rs ([], \<lambda>_. None))))"

definition live :: "spoolDocument \<Rightarrow> spoolEntry list" where
  "live doc = live_records (doc_records doc)"

section \<open>Rendering\<close>

fun marshal_lines :: "spoolEntry list \<Rightarrow> gostring option" where
  "marshal_lines [] = Some []"
| "marshal_lines (e # es) = do {
     line \<leftarrow> marshal_wire (entry_wire e);
     rest \<leftarrow> marshal_lines es;
     Some (line @ newline # rest) }"

fun marshal_drops :: "gostring list \<Rightarrow> gostring option" where
  "marshal_drops [] = Some []"
| "marshal_drops (i # is) = do {
     line \<leftarrow> marshal_wire (empty_wire\<lparr>DropID := i\<rparr>);
     rest \<leftarrow> marshal_drops is;
     Some (line @ newline # rest) }"

definition render_document :: "int \<Rightarrow> int \<Rightarrow> int \<Rightarrow> spoolEntry list \<Rightarrow> gostring option" where
  "render_document max_events max_bytes retry es = do {
     rest \<leftarrow> marshal_lines es;
     Some (marshal_header \<lparr>h_version = spoolRecordVersionLines, h_max_events = max_events,
             h_max_bytes = max_bytes, h_retry_after = retry\<rparr> @ newline # rest) }"

section \<open>Application identifiers\<close>

definition validApplicationID :: "gostring \<Rightarrow> bool" where
  "validApplicationID i \<longleftrightarrow> length i = 32 \<and> list_all is_lower_hex i"

definition validStoredApplicationID :: "gostring \<Rightarrow> bool" where
  "validStoredApplicationID i \<longleftrightarrow>
     (has_prefix ''eap1_e_'' i \<or> has_prefix ''eap1_o_'' i) \<and> validApplicationID (drop 7 i)"

definition experiment_fact_names :: "gostring list" where
  "experiment_fact_names = [''experiment_exposure'', ''experiment_outcome'']"

text \<open>The fact a wire holds is sealed: its identifier and seal are present, and it is an exposure or
  an outcome.\<close>

definition sealed_fact :: "gostring \<Rightarrow> bool" where
  "sealed_fact raw =
     (case members_of raw of
        None \<Rightarrow> False
      | Some ms \<Rightarrow>
          (case (decode_field as_string [] ''event_id'' ms, decode_field as_string [] ''event_name'' ms,
                 decode_field as_string [] ''attestation_seal'' ms) of
             (Some i, Some name, Some seal) \<Rightarrow> i \<noteq> [] \<and> seal \<noteq> [] \<and> name \<in> set experiment_fact_names
           | _ \<Rightarrow> False))"

definition sealedApplicationReplacements :: "spoolEventWire list \<Rightarrow> gostring list" where
  "sealedApplicationReplacements ws =
     map ApplicationID
       (filter (\<lambda>w. \<not> (length (Application w) \<noteq> 0 \<or> \<not> InternalFact w \<or> \<not> validStoredApplicationID (ApplicationID w))
                 \<and> sealed_fact (Raw w)) ws)"

end
