(* ===== verification/Json_Encode.thy ===== *)
theory Json_Encode
  imports Json_Facts
begin

text \<open>
  The texts \<open>encoding/json\<close> writes for numbers, booleans, plain strings, objects and arrays, each shown
  to parse back to its value wherever it stands in a document.
\<close>

section \<open>Scalars\<close>

lemma num_char_digit: "is_digit c \<Longrightarrow> num_char c"
  by (simp add: num_char_def)

lemma not_ws_num: "is_digit c \<or> c = CHR ''-'' \<Longrightarrow> \<not> json_ws c"
  by (auto simp: json_ws_def byte_class_defs)

lemma digits_hd_nonzero: "0 < n \<Longrightarrow> hd (digits_of n) \<noteq> CHR ''0''"
proof (induction n rule: digits_of.induct)
  case (1 n)
  show ?case
  proof (cases "n < 10")
    case True
    have "char_of (48 + n) \<noteq> CHR ''0''"
    proof
      assume "char_of (48 + n) = CHR ''0''"
      then have "ord (char_of (48 + n)) = ord CHR ''0''" by simp
      then show False using True 1(2) by simp
    qed
    with True show ?thesis by (subst digits_of.simps) simp
  next
    case False
    with 1 have "hd (digits_of (n div 10)) \<noteq> CHR ''0''" by simp
    with False show ?thesis by (subst digits_of.simps) simp
  qed
qed

lemma dropWhile_digits: "dropWhile is_digit (digits_of n) = []"
  using digits_of_digits [of n] by (simp add: dropWhile_eq_Nil_conv list_all_iff)

lemma valid_number_digits: "valid_number (digits_of n)"
proof (cases "n = 0")
  case True
  then show ?thesis by (subst digits_of.simps) (simp add: valid_number_def num_frac_def char_of_def, code_simp)
next
  case False
  obtain c t where c: "digits_of n = c # t" by (cases "digits_of n") auto
  have "is_digit c" "list_all is_digit t" using digits_of_digits [of n] c by auto
  moreover have "c \<noteq> CHR ''0''" using digits_hd_nonzero [of n] False c by simp
  moreover have "c \<noteq> CHR ''-''" using digits_of_hd(1) [of n] c by simp
  moreover have "dropWhile is_digit t = []"
  proof -
    have "\<forall>x \<in> set t. is_digit x" using \<open>list_all is_digit t\<close> by (simp only: list_all_iff)
    then show ?thesis by (simp only: dropWhile_eq_Nil_conv)
  qed
  ultimately show ?thesis
    by (simp add: c valid_number_def num_frac_def del: dropWhile_eq_Nil_conv)
qed

lemma valid_number_show_int: "valid_number (show_int i)"
proof (cases "i < 0")
  case True
  obtain c t where c: "digits_of (nat (- i)) = c # t" by (cases "digits_of (nat (- i))") auto
  have "c \<noteq> CHR ''-''" using digits_of_hd(1) [of "nat (- i)"] c by simp
  with True valid_number_digits [of "nat (- i)"] c show ?thesis
    by (simp add: show_int_def valid_number_def Let_def)
qed (simp add: show_int_def valid_number_digits)

lemma show_int_nonempty [simp]: "show_int i \<noteq> []"
  by (simp add: show_int_def)

lemma quote_neq [simp]: "quote \<noteq> CHR ''{''" "quote \<noteq> CHR ''[''"
  by (simp_all add: quote_def)

lemma show_int_chars: "\<forall>c \<in> set (show_int i). is_digit c \<or> c = CHR ''-''"
  using digits_of_digits by (auto simp: show_int_def list_all_iff)

lemma takeWhile_show_int: "takeWhile num_char (show_int i) = show_int i"
proof -
  have "num_char c" if "c \<in> set (show_int i)" for c
    using show_int_chars [of i] that by (metis num_char_def)
  then show ?thesis by (simp only: takeWhile_eq_all_conv) simp
qed

lemma literal_show_int: "literal_span (show_int i) = Some (JNum (show_int i), [])"
proof -
  have ne: "show_int i \<noteq> []" by (simp add: show_int_def)
  then have hd: "is_digit (hd (show_int i)) \<or> hd (show_int i) = CHR ''-''"
    using show_int_chars [of i] by (cases "show_int i") auto
  from hd have "hd (show_int i) \<noteq> CHR ''t''" "hd (show_int i) \<noteq> CHR ''f''" "hd (show_int i) \<noteq> CHR ''n''"
    by (auto simp: byte_class_defs)
  then have "\<not> has_prefix ''true'' (show_int i)" "\<not> has_prefix ''false'' (show_int i)"
    "\<not> has_prefix ''null'' (show_int i)"
    using ne by (cases "show_int i", simp_all add: has_prefix_def)+
  then show ?thesis using valid_number_show_int [of i] by (simp add: literal_span_def takeWhile_show_int)
qed

lemma value_text_show_int: "value_text d (show_int i) (JNum (show_int i))"
proof (rule value_textI)
  obtain c t where c: "show_int i = c # t" by (cases "show_int i") auto
  then have k: "is_digit c \<or> c = CHR ''-''" using show_int_chars [of i] by auto
  then show ws: "skip_ws (show_int i) = show_int i" by (simp add: skip_ws_def c not_ws_num)
  have "c \<noteq> CHR ''{''" "c \<noteq> CHR ''[''" "c \<noteq> quote" using k by (auto simp: byte_class_defs quote_def)
  then show "parse_value (Suc 0) d (show_int i) = Some (JNum (show_int i), [])"
    using ws literal_show_int [of i] by (simp add: c)
qed

lemma value_text_true: "value_text d ''true'' (JBool True)"
  by (rule value_textI [where n = "Suc 0"])
     (simp_all add: skip_ws_def json_ws_def quote_def literal_span_def has_prefix_def)

lemma value_text_null: "value_text d ''null'' JNull"
  by (rule value_textI [where n = "Suc 0"])
     (simp_all add: skip_ws_def json_ws_def quote_def literal_span_def has_prefix_def)

text \<open>A clean string needs no escape: identifiers are.\<close>

definition clean :: "gostring \<Rightarrow> bool" where
  "clean s \<longleftrightarrow> plain s \<and> list_all (\<lambda>c. c \<noteq> CHR ''<'' \<and> c \<noteq> CHR ''>'' \<and> c \<noteq> CHR ''&'') s"

lemma escape_clean: "clean s \<Longrightarrow> length s \<le> n \<Longrightarrow> escape_fuel n s = s"
proof (induction n arbitrary: s)
  case (Suc n)
  then show ?case by (cases s) (auto simp: clean_def plain_def escape_byte_def)
qed simp

lemma enc_string_clean: "clean s \<Longrightarrow> enc_string s = quote # s @ [quote]"
  by (simp add: enc_string_def escape_clean)

lemma value_text_clean: "clean s \<Longrightarrow> value_text d (enc_string s) (JStr s)"
proof (rule value_textI [where n = "Suc 0"])
  assume c: "clean s"
  then have "plain s" by (simp add: clean_def)
  then show "parse_value (Suc 0) d (enc_string s) = Some (JStr s, [])"
    using str_span_plain [of s "[]"] c by (simp add: enc_string_clean)
  show "skip_ws (enc_string s) = enc_string s" using c by (simp add: enc_string_clean)
qed

section \<open>Nested values\<close>

lemma value_text_object:
  assumes "ms \<noteq> []" and "list_all (member_ok (Suc d)) ms" and "d < max_depth"
  shows "value_text d (enc_object (map member_pair ms)) (JObj ms)"
proof (rule value_textI)
  let ?e = "enc_members (map member_pair ms)"
  let ?n = "2 * length ?e + 2"
  obtain m ms' where ms: "ms = m # ms'" using assms(1) by (cases ms) auto
  obtain e' where e: "?e = quote # e'" by (cases ms'; cases m) (auto simp: ms member_pair_def)
  have "parse_members ?n (Suc d) ?e = Some (ms, [])"
    using parse_enc_members [OF assms(1,2), of "[]" ?n] by simp
  moreover have "skip_ws ?e = quote # e'" by (simp add: e)
  ultimately show "parse_value (Suc ?n) d (enc_object (map member_pair ms)) = Some (JObj ms, [])"
    using assms(3) by (simp add: enc_object_def) (simp add: quote_def)
  show "skip_ws (enc_object (map member_pair ms)) = enc_object (map member_pair ms)" by (simp add: enc_object_def)
qed

text \<open>An array from its elements' texts.\<close>

fun enc_elems :: "gostring list \<Rightarrow> gostring" where
  "enc_elems [] = '']''"
| "enc_elems [t] = t @ '']''"
| "enc_elems (t # ts) = t @ '','' @ enc_elems ts"

definition enc_array :: "gostring list \<Rightarrow> gostring" where "enc_array ts = CHR ''['' # enc_elems ts"

lemma bracket_simps [simp]: "delimited (CHR '']'' # s)" "skip_ws (CHR '']'' # s) = CHR '']'' # s" "skip_ws (CHR ''['' # s) = CHR ''['' # s"
  by (auto simp: delimited_def num_char_def byte_class_defs skip_ws_def json_ws_def)

lemma parse_enc_elems:
  "ts \<noteq> [] \<Longrightarrow> list_all (\<lambda>(t, v). value_text d t v) ts \<Longrightarrow> 2 * length (enc_elems (map fst ts) @ u) + 1 < n \<Longrightarrow>
   parse_elems n d (enc_elems (map fst ts) @ u) = Some (map snd ts, u)"
proof (induction ts arbitrary: n)
  case (Cons x ts)
  obtain t v where x: "x = (t, v)" by (cases x)
  obtain n' where n: "n = Suc n'" using Cons.prems(3) by (cases n) auto
  have vt: "value_text d t v" using Cons.prems(2) by (simp add: x)
  show ?case
  proof (cases "ts = []")
    case True
    have "parse_value n' d (t @ CHR '']'' # u) = Some (v, CHR '']'' # u)"
      using Cons.prems(3) True by (intro value_text_then [OF vt]) (auto simp: x n)
    then show ?thesis by (simp add: True x n)
  next
    case False
    let ?rest = "enc_elems (map fst ts) @ u"
    have enc: "enc_elems (map fst (x # ts)) @ u = t @ CHR '','' # ?rest" using False by (cases ts) (auto simp: x)
    have v: "parse_value n' d (t @ CHR '','' # ?rest) = Some (v, CHR '','' # ?rest)"
      using Cons.prems(3) unfolding enc by (intro value_text_then [OF vt]) (auto simp: n)
    have "parse_elems n' d ?rest = Some (map snd ts, u)"
      using Cons.prems False unfolding enc by (intro Cons.IH) (auto simp: n)
    then show ?thesis unfolding enc using v by (simp add: n x)
  qed
qed simp

lemma value_text_array:
  assumes "list_all (\<lambda>(t, v). value_text (Suc d) t v) ts" and "d < max_depth"
  shows "value_text d (enc_array (map fst ts)) (JArr (map snd ts))"
proof (rule value_textI)
  let ?e = "enc_elems (map fst ts)"
  let ?n = "2 * length ?e + 2"
  show "parse_value (Suc ?n) d (enc_array (map fst ts)) = Some (JArr (map snd ts), [])"
  proof (cases "ts = []")
    case True
    then show ?thesis using assms(2) by (simp add: enc_array_def eval_nat_numeral)
  next
    case False
    then obtain t v ts' where ts: "ts = (t, v) # ts'" by (cases ts) auto
    have p: "parse_elems ?n (Suc d) ?e = Some (map snd ts, [])"
      using parse_enc_elems [OF False assms(1), of "[]" ?n] by simp
    have vt: "value_text (Suc d) t v" using assms(1) by (simp add: ts)
    then obtain c t' where t: "t = c # t'" "skip_ws t = t" by (cases t) (auto simp: value_text_def fuel_for_def skip_ws_def)
    then have ws: "\<not> json_ws c" using length_dropWhile_le [of json_ws t'] by (auto simp: skip_ws_def split: if_splits)
    have nb: "c \<noteq> CHR '']''"
    proof
      assume c: "c = CHR '']''"
      have "literal_span (CHR '']'' # t') = None"
        by (simp add: literal_span_def has_prefix_def num_char_def byte_class_defs valid_number_def)
      then have "parse_value (Suc m) (Suc d) t = None" for m
        using t(2) by (simp add: t(1) c quote_def)
      then show False using vt by (simp add: value_text_def fuel_for_def)
    qed
    have e: "skip_ws ?e = c # tl ?e" using ws by (cases ts') (auto simp: ts t skip_ws_def)
    show ?thesis using p assms(2) nb by (simp add: enc_array_def e)
  qed
  show "skip_ws (enc_array (map fst ts)) = enc_array (map fst ts)" by (simp add: enc_array_def)
qed

lemma value_text_parse: "value_text 0 t v \<Longrightarrow> parse_json t = Some v"
  by (simp add: value_text_def parse_json_def skip_ws_def)

end
