(* ===== verification/Spool_Format_Facts.thy ===== *)
theory Spool_Format_Facts
  imports Spool_Format Json_Encode
begin

text \<open>
  Facts about the spool file: the survivors of a document are those of an append log in which
  the last line for an identifier wins, a rendered document reads back to the entries that were
  rendered, and a line torn by a crash costs that line only.
\<close>

section \<open>The log semantics of a document\<close>

definition log_step :: "spoolRecord \<Rightarrow> spoolEntry list \<Rightarrow> spoolEntry list" where
  "log_step r L =
     (case r of
        DropRecord i \<Rightarrow> if i = [] then L else filter (\<lambda>x. e_id x \<noteq> i) L
      | LiveRecord e \<Rightarrow> (if e_id e = [] then L else filter (\<lambda>x. e_id x \<noteq> e_id e) L) @ [e])"

definition log_entries :: "spoolRecord list \<Rightarrow> spoolEntry list" where
  "log_entries rs = fold log_step rs []"

definition live_sim :: "(spoolEntry \<times> bool) list \<times> (gostring \<Rightarrow> nat option) \<Rightarrow> spoolEntry list \<Rightarrow> bool" where
  "live_sim st L \<longleftrightarrow>
     L = map fst (filter snd (fst st)) \<and>
     (\<forall>i k. snd st i = Some k \<longleftrightarrow>
        i \<noteq> [] \<and> k < length (fst st) \<and> snd (fst st ! k) \<and> e_id (fst (fst st ! k)) = i)"

lemma filter_kill_one:
  assumes "k < length xs" and "snd (xs ! k)"
    and "\<And>j. j < length xs \<Longrightarrow> snd (xs ! j) \<Longrightarrow> P (fst (xs ! j)) \<longleftrightarrow> j = k"
  shows "map fst (filter snd (xs[k := (a, False)])) = filter (\<lambda>x. \<not> P x) (map fst (filter snd xs))"
proof -
  let ?A = "take k xs" and ?B = "drop (Suc k) xs"
  have xs: "xs = ?A @ xs ! k # ?B" using assms(1) by (simp add: id_take_nth_drop)
  have upd: "xs[k := (a, False)] = ?A @ (a, False) # ?B" using assms(1) by (rule upd_conv_take_nth_drop)
  have A: "\<not> P (fst y)" if "y \<in> set ?A" "snd y" for y
  proof -
    obtain j where "j < k" "y = xs ! j" using \<open>y \<in> set ?A\<close> assms(1) by (auto simp: in_set_conv_nth)
    then show ?thesis using assms that by fastforce
  qed
  have B: "\<not> P (fst y)" if "y \<in> set ?B" "snd y" for y
  proof -
    obtain j where "j < length ?B" "y = ?B ! j" using \<open>y \<in> set ?B\<close> by (auto simp: in_set_conv_nth)
    then have "y = xs ! (Suc k + j)" "Suc k + j < length xs" by auto
    then show ?thesis using assms(3) [of "Suc k + j"] that by auto
  qed
  have keep: "filter (\<lambda>x. \<not> P x) (map fst (filter snd ys)) = map fst (filter snd ys)"
    if "\<And>y. y \<in> set ys \<Longrightarrow> snd y \<Longrightarrow> \<not> P (fst y)" for ys
    using that by (induction ys) auto
  have "filter (\<lambda>x. \<not> P x) (map fst (filter snd xs))
      = filter (\<lambda>x. \<not> P x) (map fst (filter snd ?A)) @ filter (\<lambda>x. \<not> P x) (map fst (filter snd ?B))"
    using assms by (subst xs) (simp add: filter_append)
  then show ?thesis using keep [of ?A] keep [of ?B] A B by (simp add: upd)
qed

lemma kill_sim:
  assumes "live_sim st L"
  shows "live_sim (kill i st) (if i = [] then L else filter (\<lambda>x. e_id x \<noteq> i) L) \<and> snd (kill i st) i = None
    \<and> length (fst (kill i st)) = length (fst st)"
proof (cases "snd st i")
  case None
  have "filter (\<lambda>x. e_id x \<noteq> i) L = L" if "i \<noteq> []"
  proof -
    have "e_id x \<noteq> i" if "x \<in> set L" for x
    proof -
      from that assms obtain y where "y \<in> set (fst st)" "snd y" "x = fst y" by (auto simp: live_sim_def)
      then obtain k where "k < length (fst st)" "fst st ! k = y" by (auto simp: in_set_conv_nth)
      with assms \<open>snd y\<close> \<open>x = fst y\<close> None \<open>i \<noteq> []\<close> show ?thesis
        unfolding live_sim_def by (metis option.distinct(1))
    qed
    then show ?thesis by (simp add: filter_id_conv)
  qed
  with None assms show ?thesis by (simp add: kill_def case_prod_beta)
next
  case (Some k)
  with assms have k: "i \<noteq> []" "k < length (fst st)" "snd (fst st ! k)" "e_id (fst (fst st ! k)) = i"
    by (auto simp: live_sim_def)
  have uniq: "e_id (fst (fst st ! j)) = i \<longleftrightarrow> j = k" if "j < length (fst st)" "snd (fst st ! j)" for j
    using that assms Some k by (auto simp: live_sim_def) (metis option.inject)
  have "map fst (filter snd ((fst st)[k := (fst (fst st ! k), False)])) = filter (\<lambda>x. e_id x \<noteq> i) L"
    using filter_kill_one [of k "fst st" "\<lambda>x. e_id x = i", OF k(2,3) uniq] assms by (simp add: live_sim_def)
  moreover have "((snd st)(i := None)) j = Some l \<longleftrightarrow>
      (j \<noteq> [] \<and> l < length (fst st) \<and> snd (((fst st)[k := (fst (fst st ! k), False)]) ! l) \<and>
       e_id (fst (((fst st)[k := (fst (fst st ! k), False)]) ! l)) = j)" for j l
    using assms k uniq by (cases "l = k") (auto simp: live_sim_def)
  ultimately show ?thesis using Some k by (simp add: kill_def live_sim_def case_prod_beta)
qed

lemma append_sim:
  assumes "live_sim (ordered, at) L" and "e_id e \<noteq> [] \<Longrightarrow> at (e_id e) = None"
  shows "live_sim (ordered @ [(e, True)], if e_id e \<noteq> [] then at(e_id e := Some (length ordered)) else at) (L @ [e])"
proof -
  have fresh: False if "e_id e \<noteq> []" "k < length ordered" "snd (ordered ! k)" "e_id (fst (ordered ! k)) = e_id e" for k
    using that assms unfolding live_sim_def by (metis fst_conv option.distinct(1) snd_conv)
  show ?thesis
    using assms fresh unfolding live_sim_def by (auto simp: nth_append less_Suc_eq split: if_splits)
qed

lemma live_step_sim: "live_sim st L \<Longrightarrow> live_sim (live_step r st) (log_step r L)"
proof (cases r)
  case (DropRecord i)
  then show "live_sim st L \<Longrightarrow> live_sim (live_step r st) (log_step r L)"
    using kill_sim by (simp add: log_step_def)
next
  case (LiveRecord e)
  assume sim: "live_sim st L"
  show ?thesis
  proof (cases "e_id e = []")
    case True
    then show ?thesis using append_sim [of "fst st" "snd st" L e] sim
      by (simp add: LiveRecord log_step_def case_prod_beta)
  next
    case False
    from kill_sim [OF sim, of "e_id e"] False
    show ?thesis using append_sim [of "fst (kill (e_id e) st)" "snd (kill (e_id e) st)" _ e]
      by (simp add: LiveRecord log_step_def case_prod_beta)
  qed
qed

lemma live_records_log: "live_records rs = log_entries rs"
proof -
  have "live_sim (fold live_step rs st) (fold log_step rs L)" if "live_sim st L" for st L
    using that
  proof (induction rs arbitrary: st L)
    case (Cons r rs)
    show ?case using Cons.IH [OF live_step_sim [OF Cons.prems]] by (simp only: fold_simps)
  qed (simp only: fold_simps)
  moreover have "live_sim ([], \<lambda>_. None) []" by (simp add: live_sim_def)
  ultimately have "live_sim (fold live_step rs ([], \<lambda>_. None)) (fold log_step rs [])" by blast
  then show ?thesis unfolding live_sim_def live_records_def log_entries_def by (elim conjE) (rule sym)
qed

lemma log_entries_append: "log_entries (rs @ qs) = fold log_step qs (log_entries rs)"
  by (simp add: log_entries_def)

lemma log_live_fresh:
  "distinct (map e_id (L @ es)) \<Longrightarrow> fold log_step (map LiveRecord es) L = L @ es"
proof (induction es arbitrary: L)
  case (Cons e es)
  have "e_id x \<noteq> e_id e" if "x \<in> set L" for x
  proof -
    have "e_id x \<in> e_id ` set L" using that by (rule imageI)
    then show ?thesis using Cons.prems by auto
  qed
  then have "filter (\<lambda>x. e_id x \<noteq> e_id e) L = L" by (intro filter_True) blast
  then have "log_step (LiveRecord e) L = L @ [e]" by (simp add: log_step_def)
  moreover have "fold log_step (map LiveRecord es) (L @ [e]) = (L @ [e]) @ es"
    using Cons.prems by (intro Cons.IH) simp
  ultimately show ?case by simp
qed simp

lemma log_drops:
  "[] \<notin> set is \<Longrightarrow> fold log_step (map DropRecord is) L = filter (\<lambda>x. e_id x \<notin> set is) L"
proof (induction "is" arbitrary: L)
  case (Cons i "is")
  then show ?case by (auto simp: log_step_def intro!: filter_cong)
qed simp

section \<open>Lines\<close>

lemma split_lines_nonempty [simp]: "split_lines s \<noteq> []"
  by (induction s) (auto split: list.splits)

lemma split_lines_append: "split_lines (a @ newline # b) = split_lines a @ split_lines b"
proof (induction a)
  case (Cons c a)
  then show ?case by (cases "split_lines a") (auto split: list.splits)
qed simp

lemma split_lines_single: "newline \<notin> set l \<Longrightarrow> split_lines l = [l]"
  by (induction l) auto

lemma split_lines_join:
  "\<forall>l \<in> set ls. newline \<notin> set l \<Longrightarrow>
   split_lines (concat (map (\<lambda>l. l @ [newline]) ls) @ t) = ls @ split_lines t"
  by (induction ls) (auto simp: split_lines_append split_lines_single)

section \<open>A line reads back\<close>

text \<open>The canonical text of a payload: the text of one JSON value that the encoder would leave as
  it is, without a line break.\<close>

definition canonical :: "gostring \<Rightarrow> bool" where
  "canonical t \<longleftrightarrow>
     (case parse_json t of None \<Rightarrow> False | Some v \<Rightarrow> value_text 1 t v) \<and> compact False t = t \<and> newline \<notin> set t"

definition int64 :: "int \<Rightarrow> bool" where
  "int64 i \<longleftrightarrow> - (2 ^ 63) \<le> i \<and> i < 2 ^ 63"

definition payload_text :: "gostring \<Rightarrow> gostring" where
  "payload_text t = (if t = [] then ''null'' else t)"

definition payload_json :: "gostring \<Rightarrow> json" where
  "payload_json t = (if t = [] then JNull else the (parse_json t))"

definition payload_ok :: "gostring \<Rightarrow> bool" where
  "payload_ok t \<longleftrightarrow> t = [] \<or> canonical t"

lemma payload_value: "payload_ok t \<Longrightarrow> value_text 1 (payload_text t) (payload_json t)"
  by (auto simp: payload_ok_def payload_text_def payload_json_def canonical_def value_text_null split: option.splits)

lemma marshal_payload: "payload_ok t \<Longrightarrow> marshal_raw t = Some (payload_text t)"
  by (auto simp: payload_ok_def payload_text_def canonical_def marshal_raw_def split: option.splits)

definition wire_ok :: "spoolEventWire \<Rightarrow> bool" where
  "wire_ok w \<longleftrightarrow> int64 (IntakeUnixMS w) \<and> int64 (AmbiguousUnixMS w) \<and> payload_ok (Raw w) \<and>
     payload_ok (Application w) \<and> clean (ApplicationID w) \<and> clean (DropID w)"

definition present :: "bool \<Rightarrow> gostring \<Rightarrow> gostring \<Rightarrow> json \<Rightarrow> member_text list" where
  "present absent k t v = (if absent then [] else [(k, t, v)])"

definition wire_members :: "spoolEventWire \<Rightarrow> member_text list" where
  "wire_members w =
     [(''intake_unix_ms'', show_int (IntakeUnixMS w), JNum (show_int (IntakeUnixMS w)))] @
     present (AmbiguousUnixMS w = 0) ''ambiguous_unix_ms'' (show_int (AmbiguousUnixMS w)) (JNum (show_int (AmbiguousUnixMS w))) @
     [(''raw'', payload_text (Raw w), payload_json (Raw w))] @
     present (Application w = []) ''application'' (payload_text (Application w)) (payload_json (Application w)) @
     present (ApplicationID w = []) ''application_id'' (enc_string (ApplicationID w)) (JStr (ApplicationID w)) @
     present (\<not> ApplicationExtra w) ''application_extra'' ''true'' (JBool True) @
     present (\<not> InternalFact w) ''internal_fact'' ''true'' (JBool True) @
     present (DropID w = []) ''drop'' (enc_string (DropID w)) (JStr (DropID w))"

lemma map_pair_present: "map member_pair (present a k t v) = omit a k t"
  by (simp add: present_def omit_def member_pair_def)

lemma list_all_present: "list_all P (present a k t v) \<longleftrightarrow> a \<or> P (k, t, v)"
  by (simp add: present_def)

lemma field_append: "field n (a @ b) = field n a @ field n b"
  by (simp add: field_def)

lemma field_Nil: "field n [] = []"
  by (simp add: field_def)

lemma field_Cons: "field n ((k, t, v) # ms) = (if field_match n k then (t, v) # field n ms else field n ms)"
  by (simp add: field_def)

lemma field_present: "field n (present a k t v) = (if a \<or> \<not> field_match n k then [] else [(t, v)])"
  by (simp add: field_def present_def)

lemmas field_simps' = field_append field_Nil field_Cons field_present

lemma marshal_wire_members:
  "wire_ok w \<Longrightarrow> marshal_wire w = Some (enc_object (map member_pair (wire_members w)))"
  by (simp add: wire_ok_def marshal_wire_def marshal_payload wire_members_def map_pair_present member_pair_def
      enc_bool_def omit_def payload_text_def)

lemma plain_names:
  "plain ''intake_unix_ms''" "plain ''ambiguous_unix_ms''" "plain ''raw''" "plain ''application''"
  "plain ''application_id''" "plain ''application_extra''" "plain ''internal_fact''" "plain ''drop''"
  "plain ''version''" "plain ''max_events''" "plain ''max_bytes''" "plain ''retry_after_until_ms''"
  by code_simp+

lemma parse_wire_members:
  assumes "wire_ok w"
  shows "parse_json (enc_object (map member_pair (wire_members w))) = Some (JObj (wire_members w))"
proof (rule parse_enc_object)
  show "wire_members w \<noteq> []" by (simp add: wire_members_def)
  show "list_all (member_ok 1) (wire_members w)"
    using assms
    by (simp add: wire_members_def list_all_present member_ok_def wire_ok_def plain_names payload_value [simplified]
        value_text_show_int value_text_true value_text_clean)
qed

lemma to_lower_names:
  "to_lower ''intake_unix_ms'' = ''intake_unix_ms''" "to_lower ''ambiguous_unix_ms'' = ''ambiguous_unix_ms''"
  "to_lower ''raw'' = ''raw''" "to_lower ''application'' = ''application''"
  "to_lower ''application_id'' = ''application_id''" "to_lower ''application_extra'' = ''application_extra''"
  "to_lower ''internal_fact'' = ''internal_fact''" "to_lower ''drop'' = ''drop''"
  "to_lower ''version'' = ''version''" "to_lower ''max_events'' = ''max_events''"
  "to_lower ''max_bytes'' = ''max_bytes''" "to_lower ''retry_after_until_ms'' = ''retry_after_until_ms''"
  by code_simp+

lemma as_int_show: "int64 i \<Longrightarrow> as_int (JNum (show_int i)) = Some i"
  by (simp add: as_int_def int64_def parse_show_int)

lemma unmarshal_marshal_wire:
  assumes "wire_ok w"
  shows "unmarshal_wire (enc_object (map member_pair (wire_members w))) = Some (w\<lparr>Raw := payload_text (Raw w)\<rparr>)"
proof -
  have m: "members_of (enc_object (map member_pair (wire_members w))) = Some (wire_members w)"
    by (simp add: members_of_def parse_wire_members [OF assms])
  have "decode_field as_int 0 ''intake_unix_ms'' (wire_members w) = Some (IntakeUnixMS w)"
    "decode_field as_int 0 ''ambiguous_unix_ms'' (wire_members w) = Some (AmbiguousUnixMS w)"
    "decode_field as_string [] ''application_id'' (wire_members w) = Some (ApplicationID w)"
    "decode_field as_bool False ''application_extra'' (wire_members w) = Some (ApplicationExtra w)"
    "decode_field as_bool False ''internal_fact'' (wire_members w) = Some (InternalFact w)"
    "decode_field as_string [] ''drop'' (wire_members w) = Some (DropID w)"
    "raw_field ''raw'' (wire_members w) = payload_text (Raw w)"
    "raw_field ''application'' (wire_members w) = Application w"
    using assms
    by (simp_all add: decode_field_def raw_field_def wire_members_def field_simps' field_match_def to_lower_names
        as_int_show wire_ok_def as_string_def as_bool_def payload_text_def)
  then show ?thesis by (simp add: unmarshal_wire_def m)
qed

section \<open>A document reads back\<close>

lemma enc_members_last: "\<exists>x. enc_members ms = x @ ''}''"
proof (induction ms rule: enc_members.induct)
  case (3 k t m ms)
  then obtain x where "enc_members (m # ms) = x @ ''}''" by blast
  then show ?case by (intro exI [of _ "[quote] @ k @ [quote] @ '':'' @ t @ '','' @ x"]) simp
qed auto

lemma set_enc_members:
  "c \<in> set (enc_members ms) \<Longrightarrow> c \<in> {quote, CHR '':'', CHR '','', CHR ''}''} \<or> (\<exists>(k, t) \<in> set ms. c \<in> set k \<union> set t)"
  by (induction ms rule: enc_members.induct) auto

lemma trim_space_object: "trim_space (enc_object ms) = enc_object ms"
proof -
  obtain x where x: "enc_members ms = x @ ''}''" using enc_members_last by blast
  have left: "trim_left n space_runes (CHR ''{'' # s) = CHR ''{'' # s" for n s
    by (cases n) (simp_all add: strip_rune_def space_runes_def)
  have right: "trim_left n (map rev space_runes) (CHR ''}'' # s) = CHR ''}'' # s" for n s
    by (cases n) (simp_all add: strip_rune_def space_runes_def)
  show ?thesis
    by (simp add: trim_space_def trim_runes_def enc_object_def left right x)
qed

lemma newline_show_int [simp]: "newline \<notin> set (show_int i)"
  using show_int_chars [of i] by (auto simp: newline_def byte_class_defs)

lemma newline_neq: "c \<noteq> CHR 0x0A \<Longrightarrow> newline \<noteq> c"
  by (auto simp: newline_def)

lemma newline_null: "newline \<notin> set ''null''"
  by (simp add: newline_def)

lemma newline_clean: "clean s \<Longrightarrow> newline \<notin> set (enc_string s)"
proof
  assume "clean s" "newline \<in> set (enc_string s)"
  then have "newline \<in> set s" by (simp add: enc_string_clean newline_def quote_def)
  then have "32 \<le> ord newline" using \<open>clean s\<close> by (simp add: clean_def plain_def list_all_iff)
  then show False by (simp add: newline_def)
qed

lemma newline_payload: "payload_ok t \<Longrightarrow> newline \<notin> set (payload_text t)"
  using newline_null unfolding payload_ok_def payload_text_def canonical_def by presburger

lemma newline_object:
  assumes "list_all (\<lambda>m. newline \<notin> set (fst m) \<and> newline \<notin> set (fst (snd m))) ms"
  shows "newline \<notin> set (enc_object (map member_pair ms))"
proof
  assume "newline \<in> set (enc_object (map member_pair ms))"
  then have "newline \<in> set (enc_members (map member_pair ms))" by (simp add: enc_object_def newline_def)
  moreover have "newline \<notin> {quote, CHR '':'', CHR '','', CHR ''}''}" by (simp add: newline_def quote_def)
  ultimately obtain m where "m \<in> set ms" "newline \<in> set (fst m) \<union> set (fst (snd m))"
    using set_enc_members [of newline "map member_pair ms"] by (auto simp: member_pair_def)
  with assms show False by (auto simp: list_all_iff)
qed

lemma newline_wire:
  assumes "wire_ok w" shows "newline \<notin> set (enc_object (map member_pair (wire_members w)))"
proof (rule newline_object)
  have "newline \<notin> set (payload_text (Raw w))" "newline \<notin> set (payload_text (Application w))"
    "newline \<notin> set (enc_string (ApplicationID w))" "newline \<notin> set (enc_string (DropID w))"
    using assms by (simp_all add: wire_ok_def newline_clean newline_payload)
  then show "list_all (\<lambda>m. newline \<notin> set (fst m) \<and> newline \<notin> set (fst (snd m))) (wire_members w)"
    by (simp add: wire_members_def list_all_present newline_neq)
qed

section \<open>Entries and headers\<close>

definition reload :: "spoolEntry \<Rightarrow> spoolEntry" where
  "reload e = e\<lparr>e_expFactEpoch := 0,
     e_delivery := Some (case e_delivery e of Some d \<Rightarrow> d | None \<Rightarrow> \<lparr>intakeMS = 0, ambiguousMS = 0\<rparr>)\<rparr>"

definition entry_ok :: "(gostring \<Rightarrow> gostring option) \<Rightarrow> spoolEntry \<Rightarrow> bool" where
  "entry_ok app_of e \<longleftrightarrow>
     (case e_delivery e of None \<Rightarrow> True | Some d \<Rightarrow> int64 (intakeMS d) \<and> int64 (ambiguousMS d)) \<and>
     canonical (e_raw e) \<and> clean (e_applicationID e) \<and>
     (if e_application e then
        app_of (e_raw e) = Some (e_id e) \<and> e_internalFact e \<and> e_applicationID e = [] \<and> \<not> e_applicationExtra e
      else lenient_string ''event_id'' (parse_json (e_raw e)) = e_id e)"

lemma canonical_nonempty: "canonical t \<Longrightarrow> t \<noteq> []"
  by (auto simp: canonical_def parse_json_def fuel_for_def skip_ws_def split: option.splits)

lemma int64_zero [simp]: "int64 0"
  by (simp add: int64_def)

lemma clean_Nil [simp]: "clean []"
  by (simp add: clean_def plain_def)

lemma wire_ok_entry: "entry_ok app_of e \<Longrightarrow> wire_ok (entry_wire e)"
  by (simp add: entry_ok_def wire_ok_def entry_wire_def empty_wire_def payload_ok_def Let_def split: option.splits if_splits)

lemma entry_wire_back:
  assumes "entry_ok app_of e"
  shows "spoolEntryFromWire app_of ((entry_wire e)\<lparr>Raw := payload_text (Raw (entry_wire e))\<rparr>) = reload e"
proof -
  have "trim_json_space ''null'' = ''null''" by code_simp
  moreover have "e_raw e \<noteq> []" using assms by (intro canonical_nonempty) (simp add: entry_ok_def)
  ultimately show ?thesis using assms
    by (cases "e_delivery e"; cases "e_application e")
       (simp_all add: entry_ok_def entry_wire_def empty_wire_def spoolEntryFromWire_def payload_text_def reload_def Let_def)
qed

definition entry_line :: "spoolEntry \<Rightarrow> gostring" where
  "entry_line e = enc_object (map member_pair (wire_members (entry_wire e)))"

definition drop_line :: "gostring \<Rightarrow> gostring" where
  "drop_line i = enc_object (map member_pair (wire_members (empty_wire\<lparr>DropID := i\<rparr>)))"

lemma entry_drop_none: "DropID (entry_wire e) = []"
  by (simp add: entry_wire_def empty_wire_def Let_def split: option.splits)

lemma entry_payload: "e_raw e \<noteq> [] \<Longrightarrow> Raw (entry_wire e) \<noteq> [] \<or> Application (entry_wire e) \<noteq> []"
  by (simp add: entry_wire_def empty_wire_def Let_def split: option.splits)

lemma enc_object_nonempty [simp]: "enc_object ms \<noteq> []"
  by (simp add: enc_object_def)

lemma parse_entry_line: "entry_ok app_of e \<Longrightarrow> parse_line app_of (entry_line e) = Some (LiveRecord (reload e))"
  using unmarshal_marshal_wire [OF wire_ok_entry, of app_of e] entry_wire_back [of app_of e]
  by (simp add: parse_line_def entry_line_def trim_space_object entry_drop_none payload_text_def)

lemma wire_ok_drop: "clean i \<Longrightarrow> wire_ok (empty_wire\<lparr>DropID := i\<rparr>)"
  by (simp add: wire_ok_def empty_wire_def payload_ok_def)

lemma parse_drop_line: "clean i \<Longrightarrow> i \<noteq> [] \<Longrightarrow> parse_line app_of (drop_line i) = Some (DropRecord i)"
  using unmarshal_marshal_wire [OF wire_ok_drop, of i]
  by (simp add: parse_line_def drop_line_def trim_space_object)

definition unlines :: "gostring list \<Rightarrow> gostring" where
  "unlines ls = concat (map (\<lambda>l. l @ [newline]) ls)"

lemma marshal_lines_unlines:
  "list_all (entry_ok app_of) es \<Longrightarrow> marshal_lines es = Some (unlines (map entry_line es))"
  by (induction es) (auto simp: unlines_def entry_line_def dest!: wire_ok_entry marshal_wire_members)

lemma marshal_drops_unlines:
  "list_all clean is \<Longrightarrow> marshal_drops is = Some (unlines (map drop_line is))"
  by (induction "is") (auto simp: unlines_def drop_line_def dest!: wire_ok_drop marshal_wire_members)

lemma parse_entry_lines:
  "list_all (entry_ok app_of) es \<Longrightarrow>
   List.map_filter (parse_line app_of) (map entry_line es) = map LiveRecord (map reload es)"
  by (induction es) (auto simp: map_filter_simps parse_entry_line)

lemma parse_drop_lines:
  "list_all clean is \<Longrightarrow> [] \<notin> set is \<Longrightarrow>
   List.map_filter (parse_line app_of) (map drop_line is) = map DropRecord is"
  by (induction "is") (auto simp: map_filter_simps parse_drop_line)

lemma newline_entry_line: "entry_ok app_of e \<Longrightarrow> newline \<notin> set (entry_line e)"
  unfolding entry_line_def by (intro newline_wire wire_ok_entry)

lemma newline_drop_line: "clean i \<Longrightarrow> newline \<notin> set (drop_line i)"
  unfolding drop_line_def by (intro newline_wire wire_ok_drop)

text \<open>The header.\<close>

definition header_ok :: "spoolHeaderWire \<Rightarrow> bool" where
  "header_ok h \<longleftrightarrow> int64 (h_version h) \<and> int64 (h_max_events h) \<and> int64 (h_max_bytes h) \<and> int64 (h_retry_after h)"

definition header_members :: "spoolHeaderWire \<Rightarrow> member_text list" where
  "header_members h =
     (let int_member = (\<lambda>k i. (k, show_int i, JNum (show_int i))) in
     [int_member ''version'' (h_version h)] @
     (if h_max_events h = 0 then [] else [int_member ''max_events'' (h_max_events h)]) @
     (if h_max_bytes h = 0 then [] else [int_member ''max_bytes'' (h_max_bytes h)]) @
     (if h_retry_after h = 0 then [] else [int_member ''retry_after_until_ms'' (h_retry_after h)]))"

lemma marshal_header_members: "marshal_header h = enc_object (map member_pair (header_members h))"
  by (simp add: marshal_header_def header_members_def member_pair_def omit_def)

lemma parse_header_members: "parse_json (marshal_header h) = Some (JObj (header_members h))"
  unfolding marshal_header_members
  by (rule parse_enc_object) (simp_all add: header_members_def member_ok_def plain_names value_text_show_int)

lemma unmarshal_marshal_header: "header_ok h \<Longrightarrow> unmarshal_header (marshal_header h) = Some h"
proof -
  assume ok: "header_ok h"
  have "decode_field as_int 0 ''version'' (header_members h) = Some (h_version h)"
    "decode_field as_int 0 ''max_events'' (header_members h) = Some (h_max_events h)"
    "decode_field as_int 0 ''max_bytes'' (header_members h) = Some (h_max_bytes h)"
    "decode_field as_int 0 ''retry_after_until_ms'' (header_members h) = Some (h_retry_after h)"
    using ok by (simp_all add: decode_field_def header_members_def field_simps' field_match_def to_lower_names
        as_int_show header_ok_def)
  then show ?thesis by (simp add: unmarshal_header_def members_of_def parse_header_members)
qed

lemma newline_header: "newline \<notin> set (marshal_header h)"
  unfolding marshal_header_members by (rule newline_object) (simp add: header_members_def newline_neq)

section \<open>Documents\<close>

lemma split_unlines:
  "\<forall>l \<in> set ls. newline \<notin> set l \<Longrightarrow> split_lines (unlines ls @ t) = ls @ split_lines t"
  unfolding unlines_def by (rule split_lines_join)

lemma unlines_Cons: "unlines (l # ls) = l @ newline # unlines ls"
  by (simp add: unlines_def)

lemma unlines_append: "unlines (a @ b) = unlines a @ unlines b"
  by (simp add: unlines_def)

text \<open>What the reader makes of the complete lines of a file.\<close>

definition read_lines :: "(gostring \<Rightarrow> gostring option) \<Rightarrow> gostring list \<Rightarrow> bool \<Rightarrow> spoolDocument" where
  "read_lines app_of ls torn =
     (case ls of
        [] \<Rightarrow> unreadable_document\<lparr>doc_tornTail := torn\<rparr>
      | hline # rest \<Rightarrow>
          (case unmarshal_header hline of
             None \<Rightarrow> unreadable_document\<lparr>doc_tornTail := torn\<rparr>
           | Some h \<Rightarrow>
               if h_version h \<noteq> spoolRecordVersionLines then unreadable_document\<lparr>doc_tornTail := torn\<rparr>
               else \<lparr>doc_records = List.map_filter (parse_line app_of) rest,
                     doc_retryAfterUntilMS = h_retry_after h, doc_tornTail = torn, doc_ok = True\<rparr>))"

lemma parse_complete: "parseSpoolDocument app_of (d @ [newline]) = read_lines app_of (split_lines d) False"
  using split_lines_append [of d "[]"] by (simp add: parseSpoolDocument_def read_lines_def)

lemma parse_torn:
  "f \<noteq> [] \<Longrightarrow> newline \<notin> set f \<Longrightarrow>
   parseSpoolDocument app_of (d @ newline # f) = read_lines app_of (split_lines d) True"
  using split_lines_append [of d f]
  by (simp add: parseSpoolDocument_def read_lines_def split_lines_single Suc_le_eq)

lemma read_lines_append:
  "doc_ok (read_lines app_of ls torn) \<Longrightarrow>
   read_lines app_of (ls @ new) torn =
   (read_lines app_of ls torn)\<lparr>doc_records := doc_records (read_lines app_of ls torn) @ List.map_filter (parse_line app_of) new\<rparr>"
  by (auto simp: read_lines_def unreadable_document_def map_filter_def split: list.splits option.splits if_splits)

lemma parse_append_lines:
  assumes "\<forall>l \<in> set new. newline \<notin> set l"
  shows "parseSpoolDocument app_of (d @ newline # unlines new) = read_lines app_of (split_lines d @ new) False"
proof (cases new rule: rev_cases)
  case Nil
  then show ?thesis using parse_complete [of app_of d] by (simp add: unlines_def)
next
  case (snoc ls l)
  have "d @ newline # unlines new = (d @ newline # unlines ls @ l) @ [newline]"
    by (simp add: snoc unlines_append) (simp add: unlines_def)
  moreover have "split_lines (d @ newline # unlines ls @ l) = split_lines d @ new"
    using assms by (simp add: split_lines_append split_unlines split_lines_single snoc)
  ultimately show ?thesis by (simp only: parse_complete)
qed

lemma parse_render:
  assumes "list_all (entry_ok app_of) es" and "int64 max_events" "int64 max_bytes" "int64 retry"
    and "render_document max_events max_bytes retry es = Some data"
  shows "parseSpoolDocument app_of data =
    \<lparr>doc_records = map LiveRecord (map reload es), doc_retryAfterUntilMS = retry, doc_tornTail = False, doc_ok = True\<rparr>"
proof -
  let ?h = "\<lparr>h_version = spoolRecordVersionLines, h_max_events = max_events, h_max_bytes = max_bytes, h_retry_after = retry\<rparr>"
  have ok: "header_ok ?h" using assms by (simp add: header_ok_def spoolRecordVersionLines_def int64_def)
  have data: "data = marshal_header ?h @ newline # unlines (map entry_line es)"
    using assms(5) marshal_lines_unlines [OF assms(1)] by (simp add: render_document_def)
  have "\<forall>l \<in> set (map entry_line es). newline \<notin> set l"
    using assms(1) newline_entry_line by (auto simp: list_all_iff)
  then have "parseSpoolDocument app_of data = read_lines app_of (marshal_header ?h # map entry_line es) False"
    by (simp add: data parse_append_lines split_lines_single newline_header)
  then show ?thesis
    by (simp add: read_lines_def unmarshal_marshal_header [OF ok] parse_entry_lines [OF assms(1), simplified])
qed

lemma render_total:
  "list_all (entry_ok app_of) es \<Longrightarrow> render_document max_events max_bytes retry es \<noteq> None"
  by (simp add: render_document_def marshal_lines_unlines)

text \<open>A concrete entry the witnesses use.\<close>

definition sample_entry :: "gostring \<Rightarrow> spoolEntry" where
  "sample_entry i = \<lparr>e_delivery = Some \<lparr>intakeMS = 1700000000000, ambiguousMS = 0\<rparr>, e_id = i,
     e_raw = enc_object [(''event_id'', enc_string i)], e_expFactEpoch = 0, e_internalFact = False,
     e_application = False, e_applicationID = [], e_applicationExtra = False\<rparr>"

lemma sample_entries_ok: "list_all (entry_ok (\<lambda>_. None)) [sample_entry ''a'', sample_entry ''b'']"
proof -
  have "canonical (e_raw (sample_entry ''a''))" "canonical (e_raw (sample_entry ''b''))"
    "lenient_string ''event_id'' (parse_json (e_raw (sample_entry ''a''))) = ''a''"
    "lenient_string ''event_id'' (parse_json (e_raw (sample_entry ''b''))) = ''b''"
    unfolding canonical_def value_text_def by code_simp+
  then show ?thesis by (simp add: entry_ok_def sample_entry_def int64_def)
qed

lemma sample_entries_distinct: "distinct (map e_id [sample_entry ''a'', sample_entry ''b''])"
  by (simp add: sample_entry_def)

section \<open>Properties\<close>

text \<open>C19. The survivors of a spool document are those of an append log: a live record replaces every
  earlier record of its identifier, a drop record removes them, and a record without an identifier
  is kept.  The code's alive flags and identifier index compute exactly this.\<close>

theorem live_is_log: "live doc = log_entries (doc_records doc)"
  by (simp add: live_def live_records_log)

text \<open>C20. A document rendered from entries with distinct identifiers reads back to those entries, in
  order and with their clocks, and to the retry deadline it was rendered with.\<close>

theorem spool_document_roundtrip:
  assumes "list_all (entry_ok app_of) es" and "distinct (map e_id es)"
    and "int64 max_events" and "int64 max_bytes" and "int64 retry"
  shows "\<exists>data. render_document max_events max_bytes retry es = Some data \<and>
    live (parseSpoolDocument app_of data) = map reload es \<and>
    doc_retryAfterUntilMS (parseSpoolDocument app_of data) = retry \<and>
    doc_ok (parseSpoolDocument app_of data) \<and> \<not> doc_tornTail (parseSpoolDocument app_of data)"
proof -
  obtain data where d: "render_document max_events max_bytes retry es = Some data"
    using render_total [OF assms(1)] by fastforce
  have "log_entries (map LiveRecord (map reload es)) = map reload es"
    using log_live_fresh [of "[]" "map reload es"] assms(2) by (simp add: log_entries_def reload_def comp_def)
  with d show ?thesis
    by (simp add: parse_render [OF assms(1,3,4,5) d] live_def live_records_log del: map_map)
qed

theorem spool_document_roundtrip_witness:
  "\<exists>data. render_document 2000 1048576 77 [sample_entry ''a'', sample_entry ''b''] = Some data \<and>
    live (parseSpoolDocument (\<lambda>_. None) data) = map reload [sample_entry ''a'', sample_entry ''b''] \<and>
    doc_retryAfterUntilMS (parseSpoolDocument (\<lambda>_. None) data) = 77 \<and>
    doc_ok (parseSpoolDocument (\<lambda>_. None) data) \<and> \<not> doc_tornTail (parseSpoolDocument (\<lambda>_. None) data)"
  by (rule spool_document_roundtrip [OF sample_entries_ok sample_entries_distinct]) (simp_all add: int64_def)

text \<open>Appending to a readable document is the log's update: the appended entries supersede the
  survivors that carry their identifiers, and every appended drop removes its identifier.\<close>

theorem spool_append_reads_back:
  assumes "doc_ok (parseSpoolDocument app_of (d @ [newline]))"
    and "list_all (entry_ok app_of) es" and "list_all clean drops" and "[] \<notin> set drops"
    and "marshal_lines es = Some el" and "marshal_drops drops = Some dl"
  shows "live (parseSpoolDocument app_of (d @ [newline] @ el @ dl)) =
    filter (\<lambda>e. e_id e \<notin> set drops)
      (fold log_step (map LiveRecord (map reload es)) (live (parseSpoolDocument app_of (d @ [newline]))))"
proof -
  let ?new = "map entry_line es @ map drop_line drops"
  have el: "el @ dl = unlines ?new"
    using assms(2,3,5,6) by (simp add: marshal_lines_unlines marshal_drops_unlines unlines_append)
  have nl: "\<forall>l \<in> set ?new. newline \<notin> set l"
    using assms(2,3) newline_entry_line newline_drop_line by (auto simp: list_all_iff)
  have "List.map_filter (parse_line app_of) ?new = map LiveRecord (map reload es) @ map DropRecord drops"
    using parse_entry_lines [OF assms(2)] parse_drop_lines [OF assms(3,4)] by (simp add: map_filter_def)
  then show ?thesis
    using parse_append_lines [OF nl, of app_of d] read_lines_append [of app_of "split_lines d" False ?new] assms(1,4)
    by (simp add: el live_def live_records_log log_entries_append log_drops parse_complete)
qed

theorem spool_append_reads_back_witness:
  "live (parseSpoolDocument (\<lambda>_. None)
     (marshal_header \<lparr>h_version = 3, h_max_events = 2000, h_max_bytes = 1048576, h_retry_after = 0\<rparr> @ [newline] @
        the (marshal_lines [sample_entry ''a'', sample_entry ''b'']) @ the (marshal_drops [''a'']))) =
   [reload (sample_entry ''b'')]"
proof -
  let ?d = "marshal_header \<lparr>h_version = 3, h_max_events = 2000, h_max_bytes = 1048576, h_retry_after = 0\<rparr>"
  have "unmarshal_header ?d = Some \<lparr>h_version = 3, h_max_events = 2000, h_max_bytes = 1048576, h_retry_after = 0\<rparr>"
    by (rule unmarshal_marshal_header) (simp add: header_ok_def int64_def)
  then have doc: "parseSpoolDocument (\<lambda>_. None) (?d @ [newline]) =
      \<lparr>doc_records = [], doc_retryAfterUntilMS = 0, doc_tornTail = False, doc_ok = True\<rparr>"
    by (simp add: parse_complete split_lines_single newline_header read_lines_def spoolRecordVersionLines_def
        map_filter_simps)
  have clean: "list_all clean [''a'']" by code_simp
  note el = marshal_lines_unlines [OF sample_entries_ok]
  note dl = marshal_drops_unlines [OF clean]
  have "live (parseSpoolDocument (\<lambda>_. None) (?d @ [newline] @ unlines (map entry_line [sample_entry ''a'', sample_entry ''b''])
      @ unlines (map drop_line [''a'']))) =
    filter (\<lambda>e. e_id e \<notin> set [''a''])
      (fold log_step (map LiveRecord (map reload [sample_entry ''a'', sample_entry ''b'']))
        (live (parseSpoolDocument (\<lambda>_. None) (?d @ [newline]))))"
    by (rule spool_append_reads_back [OF _ sample_entries_ok clean _ el dl]) (simp_all add: doc)
  then show ?thesis
    by (simp only: el dl option.sel doc) (simp add: live_def live_records_def log_step_def reload_def sample_entry_def)
qed

text \<open>A write torn by a crash costs only its own line: a document followed by an unterminated
  fragment reads as the document, marked torn.\<close>

theorem spool_torn_tail:
  assumes "f \<noteq> []" and "newline \<notin> set f"
  shows "parseSpoolDocument app_of (d @ [newline] @ f) =
    (parseSpoolDocument app_of (d @ [newline]))\<lparr>doc_tornTail := True\<rparr>"
  using parse_torn [OF assms, of app_of d] parse_complete [of app_of d]
  by (auto simp: read_lines_def unreadable_document_def split: list.splits option.splits)

theorem spool_torn_tail_witness:
  "doc_tornTail (parseSpoolDocument (\<lambda>_. None) (''x'' @ [newline] @ ''half a rec''))"
  using spool_torn_tail [of "''half a rec''" "\<lambda>_. None" "''x''"] by (simp add: newline_def)

end
