(* ===== verification/Spool_Disk.thy ===== *)
theory Spool_Disk
  imports Spool_Format_Facts
begin

text \<open>
  The spool directory as the disk spool sees it: the record file (\<open>spool.json\<close>), the withdrawal
  marker (\<open>spool.withdrawn.json\<close>) and the wipe-owed marker, with the file operations of
  \<open>spool.go\<close>, \<open>consent_record.go\<close> and \<open>remote_config.go\<close> (\<open>writePrivateFileAtomic\<close>, \<open>syncDir\<close>).

  Every call on the file system takes its outcome from the front of an explicit list; an empty
  list is a disk on which everything succeeds.  A failed call may or may not have had its effect
  (a rename that landed before the directory sync failed, an unlink reported as failed), and a
  failed append may have written any prefix.  Another process may change the directory between
  two operations: the theorems quantify over the directory's contents.
\<close>

section \<open>Outcomes\<close>

datatype fs_outcome = FsOk | FsFailBefore | FsFailAfter | FsShort nat

record fsys =
  f_spool :: "gostring option"
  f_private :: bool
  f_withdrawn :: "gostring option"
  f_wipe :: bool
  f_outcomes :: "fs_outcome list"

definition next_outcome :: "fsys \<Rightarrow> fs_outcome \<times> fsys" where
  "next_outcome d = (case f_outcomes d of [] \<Rightarrow> (FsOk, d) | x # xs \<Rightarrow> (x, d\<lparr>f_outcomes := xs\<rparr>))"

definition landed :: "fs_outcome \<Rightarrow> bool" where
  "landed x \<longleftrightarrow> x = FsOk \<or> x = FsFailAfter"

definition call :: "(fsys \<Rightarrow> fsys) \<Rightarrow> fsys \<Rightarrow> bool \<times> fsys" where
  "call act d = (let (x, d) = next_outcome d in (x = FsOk, if landed x then act d else d))"

section \<open>The operations\<close>

text \<open>Each returns whether it succeeded.  Removing a file that is not there succeeds.\<close>

definition removeRecordFile :: "fsys \<Rightarrow> bool \<times> fsys" where
  "removeRecordFile d = call (\<lambda>d. d\<lparr>f_spool := None\<rparr>) d"

definition removeMarkerFile :: "fsys \<Rightarrow> bool \<times> fsys" where
  "removeMarkerFile d = call (\<lambda>d. d\<lparr>f_wipe := False\<rparr>) d"

definition removeWithdrawnFile :: "fsys \<Rightarrow> bool \<times> fsys" where
  "removeWithdrawnFile d = call (\<lambda>d. d\<lparr>f_withdrawn := None\<rparr>) d"

definition createWipeOwedMarker :: "fsys \<Rightarrow> bool \<times> fsys" where
  "createWipeOwedMarker d = call (\<lambda>d. d\<lparr>f_wipe := True\<rparr>) d"

definition syncDir :: "fsys \<Rightarrow> bool \<times> fsys" where
  "syncDir d = call (\<lambda>d. d) d"

definition ensurePrivateDir :: "fsys \<Rightarrow> bool \<times> fsys" where
  "ensurePrivateDir d = call (\<lambda>d. d) d"

text \<open>\<open>writePrivateFileAtomic\<close>: the temporary file is published by a rename, so the target holds
  its old content or the whole payload.\<close>

definition write_spool :: "gostring \<Rightarrow> fsys \<Rightarrow> bool \<times> fsys" where
  "write_spool payload d = call (\<lambda>d. d\<lparr>f_spool := Some payload, f_private := True\<rparr>) d"

definition write_withdrawn :: "gostring \<Rightarrow> fsys \<Rightarrow> bool \<times> fsys" where
  "write_withdrawn payload d = call (\<lambda>d. d\<lparr>f_withdrawn := Some payload\<rparr>) d"

text \<open>\<open>appendPrivateFile\<close> opens an existing file: nothing is created.\<close>

definition append_spool :: "gostring \<Rightarrow> fsys \<Rightarrow> bool \<times> fsys" where
  "append_spool payload d =
     (let (x, d) = next_outcome d
      in case f_spool d of
           None \<Rightarrow> (False, d)
         | Some data \<Rightarrow>
             (case x of
                FsOk \<Rightarrow> (True, d\<lparr>f_spool := Some (data @ payload)\<rparr>)
              | FsFailBefore \<Rightarrow> (False, d)
              | FsFailAfter \<Rightarrow> (False, d\<lparr>f_spool := Some (data @ payload)\<rparr>)
              | FsShort n \<Rightarrow> (False, d\<lparr>f_spool := Some (data @ take n payload)\<rparr>)))"

datatype read_result = ReadBytes gostring | ReadNotExist | ReadFailed | ReadOversized

definition bounded_read :: "int \<Rightarrow> gostring option \<Rightarrow> fsys \<Rightarrow> read_result \<times> fsys" where
  "bounded_read limit file d =
     (let (x, d) = next_outcome d
      in (if x \<noteq> FsOk then ReadFailed
          else case file of
            None \<Rightarrow> ReadNotExist
          | Some data \<Rightarrow> if int (length data) > limit then ReadOversized else ReadBytes data, d))"

text \<open>\<open>os.Stat\<close> of the record file: its size, and whether its mode is still private.\<close>

definition stat_spool :: "fsys \<Rightarrow> (int \<times> bool) option \<times> fsys" where
  "stat_spool d =
     (let (x, d) = next_outcome d
      in (if x \<noteq> FsOk then None else map_option (\<lambda>data. (int (length data), f_private d)) (f_spool d), d))"

section \<open>The withdrawal marker\<close>

fun enc_strings :: "gostring list \<Rightarrow> gostring" where
  "enc_strings [] = []"
| "enc_strings [s] = enc_string s"
| "enc_strings (s # ss) = enc_string s @ '','' @ enc_strings ss"

definition marshal_ids :: "gostring list \<Rightarrow> gostring" where
  "marshal_ids ids = ''['' @ enc_strings ids @ '']''"

text \<open>\<open>json.Unmarshal\<close> into a \<open>[]string\<close>: a \<open>null\<close> element stays the empty string.\<close>

definition unmarshal_ids :: "gostring \<Rightarrow> gostring list option" where
  "unmarshal_ids data =
     (case parse_json data of
        Some JNull \<Rightarrow> Some []
      | Some (JArr vs) \<Rightarrow> those (map (\<lambda>v. if v = JNull then Some [] else as_string v) vs)
      | _ \<Rightarrow> None)"

definition readWithdrawnMarker :: "int \<Rightarrow> fsys \<Rightarrow> (gostring list \<times> bool) \<times> fsys" where
  "readWithdrawnMarker limit d =
     (let (r, d) = bounded_read limit (f_withdrawn d) d
      in (case r of
            ReadNotExist \<Rightarrow> ([], False)
          | ReadBytes data \<Rightarrow> (case unmarshal_ids data of None \<Rightarrow> ([], True) | Some ids \<Rightarrow> (ids, False))
          | _ \<Rightarrow> ([], True), d))"

section \<open>Facts\<close>

lemma call_ok: "call act d = (True, d') \<Longrightarrow> \<exists>xs. d' = act (d\<lparr>f_outcomes := xs\<rparr>)"
  by (auto simp: call_def next_outcome_def landed_def Let_def split: list.splits prod.splits if_splits)
     (metis fsys.surjective fsys.update_convs(5))+

lemma next_outcome_frame [frame_simps]:
  "f_spool (snd (next_outcome d)) = f_spool d" "f_private (snd (next_outcome d)) = f_private d"
  "f_withdrawn (snd (next_outcome d)) = f_withdrawn d" "f_wipe (snd (next_outcome d)) = f_wipe d"
  by (simp_all add: next_outcome_def split: list.splits)

lemma call_frame:
  "f (snd (call act d)) = f d" if "\<And>d. f (act d) = f d" "\<And>d. f (snd (next_outcome d)) = f d"
  using that by (simp add: call_def case_prod_beta Let_def)

lemma fs_frames [frame_simps]:
  "f_withdrawn (snd (removeRecordFile d)) = f_withdrawn d" "f_wipe (snd (removeRecordFile d)) = f_wipe d"
  "f_spool (snd (removeMarkerFile d)) = f_spool d" "f_withdrawn (snd (removeMarkerFile d)) = f_withdrawn d"
  "f_spool (snd (removeWithdrawnFile d)) = f_spool d" "f_wipe (snd (removeWithdrawnFile d)) = f_wipe d"
  "f_spool (snd (createWipeOwedMarker d)) = f_spool d" "f_withdrawn (snd (createWipeOwedMarker d)) = f_withdrawn d"
  "f_spool (snd (syncDir d)) = f_spool d" "f_withdrawn (snd (syncDir d)) = f_withdrawn d" "f_wipe (snd (syncDir d)) = f_wipe d"
  "f_spool (snd (ensurePrivateDir d)) = f_spool d" "f_withdrawn (snd (ensurePrivateDir d)) = f_withdrawn d"
  "f_wipe (snd (ensurePrivateDir d)) = f_wipe d"
  "f_spool (snd (write_withdrawn p d)) = f_spool d" "f_wipe (snd (write_withdrawn p d)) = f_wipe d"
  "f_withdrawn (snd (write_spool p d)) = f_withdrawn d" "f_wipe (snd (write_spool p d)) = f_wipe d"
  "f_spool (snd (bounded_read l f d)) = f_spool d" "f_withdrawn (snd (bounded_read l f d)) = f_withdrawn d"
  "f_wipe (snd (bounded_read l f d)) = f_wipe d"
  "f_spool (snd (stat_spool d)) = f_spool d" "f_withdrawn (snd (stat_spool d)) = f_withdrawn d"
  "f_wipe (snd (stat_spool d)) = f_wipe d"
  "f_spool (snd (readWithdrawnMarker l d)) = f_spool d" "f_withdrawn (snd (readWithdrawnMarker l d)) = f_withdrawn d"
  "f_wipe (snd (readWithdrawnMarker l d)) = f_wipe d"
  by (simp_all add: removeRecordFile_def removeMarkerFile_def removeWithdrawnFile_def createWipeOwedMarker_def
      syncDir_def ensurePrivateDir_def write_withdrawn_def write_spool_def bounded_read_def stat_spool_def
      readWithdrawnMarker_def call_frame next_outcome_frame case_prod_beta Let_def)

lemma fs_success:
  "fst (removeRecordFile d) \<Longrightarrow> f_spool (snd (removeRecordFile d)) = None"
  "fst (removeMarkerFile d) \<Longrightarrow> \<not> f_wipe (snd (removeMarkerFile d))"
  "fst (removeWithdrawnFile d) \<Longrightarrow> f_withdrawn (snd (removeWithdrawnFile d)) = None"
  "fst (createWipeOwedMarker d) \<Longrightarrow> f_wipe (snd (createWipeOwedMarker d))"
  "fst (write_spool p d) \<Longrightarrow> f_spool (snd (write_spool p d)) = Some p"
  "fst (write_withdrawn p d) \<Longrightarrow> f_withdrawn (snd (write_withdrawn p d)) = Some p"
  by (simp_all add: removeRecordFile_def removeMarkerFile_def removeWithdrawnFile_def createWipeOwedMarker_def
      write_withdrawn_def write_spool_def call_def landed_def case_prod_beta Let_def)

lemma write_spool_either: "f_spool (snd (write_spool p d)) \<in> {f_spool d, Some p}"
  by (simp add: write_spool_def call_def case_prod_beta Let_def next_outcome_frame)

end
