(* ===== verification/Disk_Spool.thy ===== *)
theory Disk_Spool
  imports Spool_Disk
begin

text \<open>
  The disk spool of \<open>spool.go\<close> (\<open>diskSpool\<close>): the in-memory mirror, the record file it is
  authoritative for, the wipe and withdrawal markers, and every operation under the spool's lock.

  Each operation is one critical section: it takes the spool and returns its results and the
  spool after it.  \<open>app_of\<close> is the stored-application parser (see \<open>Spool_Format\<close>).  The Go maps used
  as sets are sets; \<open>withdrawnOwedIDs\<close>, whose iteration order reaches the marker file, is a list
  without order of its own.  The foreign-record callback adds to a counter.
\<close>

section \<open>State\<close>

record diskSpool =
  s_withdrawalEpoch :: u64
  s_maxEvents :: int
  s_maxBytes :: int
  s_experimentsEnabled :: bool
  s_withdrawnMarkerOwed :: bool
  s_withdrawnOwedIDs :: "gostring list"
  s_entries :: "spoolEntry list"
  s_ids :: "gostring set"
  s_totalBytes :: int
  s_resend :: "spoolEntry list"
  s_retryAfterUntilMS :: int
  s_dirty :: bool
  s_fileAppendable :: bool
  s_fileBytes :: int
  s_tornTailOwed :: bool
  s_owed :: bool
  s_grantPersisted :: bool
  s_actorDigest :: gostring
  s_settledIDs :: "gostring set"
  s_settledFIFO :: "gostring list"
  s_pendingCapacityDrops :: "spoolEntry list"
  s_deferredCapacityDrops :: "spoolEntry list"
  s_uncountedIDs :: "gostring set"
  s_becameDurable :: int
  s_foreignMerged :: int
  s_disk :: fsys

datatype spool_error = ErrRender | ErrWrite | ErrMarkerSpend | ErrRead | ErrRemove | ErrSync | ErrConsentDenied

definition entry_bytes :: "spoolEntry \<Rightarrow> int" where "entry_bytes e = int (length (e_raw e))"
definition bytes_of :: "spoolEntry list \<Rightarrow> int" where "bytes_of es = sum_list (map entry_bytes es)"

definition newDiskSpool :: "int \<Rightarrow> int \<Rightarrow> bool \<Rightarrow> gostring \<Rightarrow> fsys \<Rightarrow> diskSpool" where
  "newDiskSpool max_events max_bytes experiments digest disk =
     \<lparr>s_withdrawalEpoch = 0, s_maxEvents = max_events, s_maxBytes = max_bytes, s_experimentsEnabled = experiments,
      s_withdrawnMarkerOwed = False, s_withdrawnOwedIDs = [], s_entries = [], s_ids = {}, s_totalBytes = 0,
      s_resend = [], s_retryAfterUntilMS = 0, s_dirty = False, s_fileAppendable = False, s_fileBytes = 0,
      s_tornTailOwed = False, s_owed = f_wipe disk, s_grantPersisted = False, s_actorDigest = digest,
      s_settledIDs = {}, s_settledFIFO = [], s_pendingCapacityDrops = [], s_deferredCapacityDrops = [],
      s_uncountedIDs = {}, s_becameDurable = 0, s_foreignMerged = 0, s_disk = disk\<rparr>"

text \<open>A file operation on the spool's directory.\<close>

definition on_disk :: "(fsys \<Rightarrow> 'a \<times> fsys) \<Rightarrow> diskSpool \<Rightarrow> 'a \<times> diskSpool" where
  "on_disk f s = (let (r, d) = f (s_disk s) in (r, s\<lparr>s_disk := d\<rparr>))"

section \<open>Settled identifiers\<close>

definition spoolSettledMemory :: nat where "spoolSettledMemory = 4096"

definition recordSettledLocked :: "gostring \<Rightarrow> diskSpool \<Rightarrow> diskSpool" where
  "recordSettledLocked i s =
     (if i = [] then s
      else if i \<in> s_settledIDs s then s
      else let s = s\<lparr>s_settledIDs := insert i (s_settledIDs s), s_settledFIFO := s_settledFIFO s @ [i]\<rparr>
           in if length (s_settledFIFO s) > spoolSettledMemory
              then s\<lparr>s_settledIDs := s_settledIDs s - {hd (s_settledFIFO s)}, s_settledFIFO := tl (s_settledFIFO s)\<rparr>
              else s)"

section \<open>Bounds\<close>

definition spoolCompactionSlack :: int where "spoolCompactionSlack = 3"
definition spoolHeaderAllowance :: int where "spoolHeaderAllowance = 4096"
definition spoolRecordReadOverhead :: int where "spoolRecordReadOverhead = 65536"

definition liveContentBytesLocked :: "diskSpool \<Rightarrow> int" where
  "liveContentBytesLocked s = s_totalBytes s + 32 * int (length (s_entries s)) + spoolHeaderAllowance"

definition readLimitLocked :: "diskSpool \<Rightarrow> int" where
  "readLimitLocked s =
     (let live = s_maxBytes s + 128 * s_maxEvents s in live * spoolCompactionSlack div 2 + spoolRecordReadOverhead)"

definition compactionOwedLocked :: "diskSpool \<Rightarrow> bool" where
  "compactionOwedLocked s =
     (if \<not> s_fileAppendable s then False
      else if s_fileBytes s * 2 > liveContentBytesLocked s * spoolCompactionSlack then True
      else s_fileBytes s * 4 > readLimitLocked s * 3)"

definition spoolWithdrawnReadLimit :: int where "spoolWithdrawnReadLimit = 262144"
definition spoolWithdrawnPerIDBytes :: int where "spoolWithdrawnPerIDBytes = 128"
definition spoolWithdrawnReadCeiling :: int where "spoolWithdrawnReadCeiling = 1073741824"

definition withdrawnMarkerReadLimit :: "diskSpool \<Rightarrow> int" where
  "withdrawnMarkerReadLimit s =
     (let limit = spoolWithdrawnReadLimit
      in if s_maxEvents s > 0 then
           (if s_maxEvents s > spoolWithdrawnReadCeiling div spoolWithdrawnPerIDBytes then spoolWithdrawnReadCeiling
            else let derived = s_maxEvents s * spoolWithdrawnPerIDBytes + spoolRecordReadOverhead;
                     limit = (if derived > limit then derived else limit)
                 in if limit > spoolWithdrawnReadCeiling then spoolWithdrawnReadCeiling else limit)
         else if limit > spoolWithdrawnReadCeiling then spoolWithdrawnReadCeiling else limit)"

section \<open>Reading\<close>

definition readRecordBytesLocked :: "diskSpool \<Rightarrow> read_result \<times> diskSpool" where
  "readRecordBytesLocked s = on_disk (\<lambda>d. bounded_read (readLimitLocked s) (f_spool d) d) s"

definition readRecordEntriesLocked :: "(gostring \<Rightarrow> gostring option) \<Rightarrow> diskSpool \<Rightarrow> spoolEntry list \<times> diskSpool" where
  "readRecordEntriesLocked app_of s =
     (let (r, s) = readRecordBytesLocked s
      in (case r of
            ReadBytes data \<Rightarrow> let doc = parseSpoolDocument app_of data in if \<not> doc_ok doc then [] else live doc
          | _ \<Rightarrow> [], s))"

section \<open>Rendering and appending\<close>

definition renderDocumentLocked :: "spoolEntry list \<Rightarrow> diskSpool \<Rightarrow> gostring option" where
  "renderDocumentLocked es s = render_document (s_maxEvents s) (s_maxBytes s) (s_retryAfterUntilMS s) es"

definition appendRecordsLocked :: "spoolEntry list \<Rightarrow> gostring list \<Rightarrow> diskSpool \<Rightarrow> bool \<times> diskSpool" where
  "appendRecordsLocked es drops s =
     (if \<not> s_fileAppendable s \<or> s_tornTailOwed s \<or> (es = [] \<and> drops = []) then (False, s)
      else
        let (info, s) = on_disk stat_spool s
        in case info of
             None \<Rightarrow> (False, s\<lparr>s_fileAppendable := False\<rparr>)
           | Some (sz, private) \<Rightarrow>
               if sz \<noteq> s_fileBytes s then (False, s\<lparr>s_fileAppendable := False\<rparr>)
               else if \<not> private then (False, s\<lparr>s_fileAppendable := False\<rparr>)
               else
                 let (ok, s) = on_disk ensurePrivateDir s
                 in if \<not> ok then (False, s\<lparr>s_fileAppendable := False\<rparr>)
                    else (case (marshal_lines es, marshal_drops drops) of
                        (Some el, Some dl) \<Rightarrow>
                          let payload = el @ dl
                          in if s_fileBytes s + int (length payload) > readLimitLocked s then (False, s)
                             else
                               let (ok, s) = on_disk (append_spool payload) s
                               in if \<not> ok then
                                    (False, (if length payload > 0 then s\<lparr>s_fileAppendable := False, s_tornTailOwed := True\<rparr>
                                             else s\<lparr>s_fileAppendable := False\<rparr>))
                                  else (True, s\<lparr>s_fileBytes := s_fileBytes s + int (length payload)\<rparr>)
                      | _ \<Rightarrow> (False, s)))"

section \<open>Saving\<close>

definition releaseDeferredCapacityDropsLocked :: "diskSpool \<Rightarrow> diskSpool" where
  "releaseDeferredCapacityDropsLocked s =
     (if s_deferredCapacityDrops s = [] then s
      else s\<lparr>s_pendingCapacityDrops := s_pendingCapacityDrops s @ s_deferredCapacityDrops s, s_deferredCapacityDrops := []\<rparr>)"

definition removeWithdrawnMarkerLocked :: "diskSpool \<Rightarrow> bool \<times> diskSpool" where
  "removeWithdrawnMarkerLocked s =
     (let (ok, s) = on_disk removeWithdrawnFile s in if \<not> ok then (False, s) else on_disk syncDir s)"

text \<open>The merge of the record on disk with the mirror: file order first, the mirror's copy of an
  entry both hold, no settled or withdrawn entry of the file, then what only the mirror has.  The
  accumulator is (merged, seen, foreign).\<close>

definition mirrored :: "diskSpool \<Rightarrow> gostring \<Rightarrow> spoolEntry option" where
  "mirrored s i = (case filter (\<lambda>e. e_id e = i) (rev (s_entries s)) of [] \<Rightarrow> None | e # _ \<Rightarrow> Some e)"

definition merge_file_step :: "diskSpool \<Rightarrow> spoolEntry \<Rightarrow> spoolEntry list \<times> gostring set \<times> int \<Rightarrow> spoolEntry list \<times> gostring set \<times> int" where
  "merge_file_step s entry acc =
     (let (merged, seen, foreign) = acc
      in if e_id entry = [] then acc
         else if e_id entry \<in> s_settledIDs s \<and> mirrored s (e_id entry) = None then acc
         else if e_id entry \<in> set (s_withdrawnOwedIDs s) then acc
         else if e_id entry \<in> seen then acc
         else (case mirrored s (e_id entry) of
             None \<Rightarrow> (merged @ [entry], insert (e_id entry) seen, foreign + 1)
           | Some mine \<Rightarrow> (merged @ [mine], insert (e_id entry) seen, foreign)))"

definition merge_mirror_step :: "spoolEntry \<Rightarrow> spoolEntry list \<times> gostring set \<times> int \<Rightarrow> spoolEntry list \<times> gostring set \<times> int" where
  "merge_mirror_step entry acc =
     (let (merged, seen, foreign) = acc
      in if e_id entry \<in> seen then acc else (merged @ [entry], insert (e_id entry) seen, foreign))"

definition merge_records :: "diskSpool \<Rightarrow> spoolEntry list \<Rightarrow> spoolEntry list \<times> int" where
  "merge_records s file =
     (let (merged, seen, foreign) = fold merge_mirror_step (s_entries s) (fold (merge_file_step s) file ([], {}, 0))
      in (merged, foreign))"

text \<open>The cap loop: the oldest merged record goes while the merge is over a cap; one of the mirror's
  own leaves the mirror with it.\<close>

fun save_caps :: "spoolEntry list \<Rightarrow> int \<Rightarrow> spoolEntry list \<Rightarrow> diskSpool \<Rightarrow> spoolEntry list \<times> spoolEntry list \<times> diskSpool" where
  "save_caps [] mergedBytes capDrops s = ([], capDrops, s)"
| "save_caps (dropped # merged) mergedBytes capDrops s =
     (if int (length (dropped # merged)) > s_maxEvents s \<or> mergedBytes > s_maxBytes s then
        let s = recordSettledLocked (e_id dropped) s
        in if e_id dropped \<in> s_ids s then
             save_caps merged (mergedBytes - entry_bytes dropped) (capDrops @ [dropped])
               (s\<lparr>s_ids := s_ids s - {e_id dropped}, s_totalBytes := s_totalBytes s - entry_bytes dropped\<rparr>)
           else save_caps merged (mergedBytes - entry_bytes dropped) capDrops s
      else (dropped # merged, capDrops, s))"

definition save_merged :: "(gostring \<Rightarrow> gostring option) \<Rightarrow> diskSpool \<Rightarrow> spoolEntry list \<times> spoolEntry list \<times> diskSpool" where
  "save_merged app_of s =
     (let (file, s) = readRecordEntriesLocked app_of s;
          (merged, foreign) = merge_records s file;
          s = s\<lparr>s_foreignMerged := s_foreignMerged s + foreign\<rparr>;
          (merged, capDrops, s) = save_caps merged (bytes_of merged) [] s;
          s = s\<lparr>s_entries := filter (\<lambda>e. e_id e \<notin> e_id ` set capDrops) (s_entries s)\<rparr>
      in (merged, capDrops, if merged = [] then s\<lparr>s_retryAfterUntilMS := 0\<rparr> else s))"

definition save_written :: "spoolEntry list \<Rightarrow> diskSpool \<Rightarrow> spool_error option \<times> int \<times> diskSpool" where
  "save_written merged s =
     (case renderDocumentLocked merged s of
        None \<Rightarrow> (Some ErrRender, 0, s)
      | Some payload \<Rightarrow>
          (let (ok, s) = on_disk (write_spool payload) s
           in (if ok then None else Some ErrWrite, int (length payload), s)))"

definition saveLocked :: "(gostring \<Rightarrow> gostring option) \<Rightarrow> diskSpool \<Rightarrow> spool_error option \<times> diskSpool" where
  "saveLocked app_of s =
     (let (merged, capDrops, s) = save_merged app_of s;
          (err, payload_bytes, s) = save_written merged s;
          s = s\<lparr>s_dirty := (err \<noteq> None), s_fileAppendable := (err = None),
                s_tornTailOwed := (s_tornTailOwed s \<and> err \<noteq> None)\<rparr>
      in if err \<noteq> None then (err, s\<lparr>s_deferredCapacityDrops := s_deferredCapacityDrops s @ capDrops\<rparr>)
         else
           let s = s\<lparr>s_fileBytes := payload_bytes, s_pendingCapacityDrops := s_pendingCapacityDrops s @ capDrops\<rparr>;
               s = releaseDeferredCapacityDropsLocked s;
               s = s\<lparr>s_becameDurable := s_becameDurable s + int (card (s_uncountedIDs s \<inter> s_ids s)), s_uncountedIDs := {}\<rparr>
           in if s_withdrawnMarkerOwed s then
                (let (removed, s) = removeWithdrawnMarkerLocked s
                 in if removed then (None, s\<lparr>s_withdrawnMarkerOwed := False, s_withdrawnOwedIDs := []\<rparr>)
                    else (Some ErrMarkerSpend, s\<lparr>s_dirty := True\<rparr>))
              else (None, s))"

section \<open>Drains and deadlines\<close>

definition takeCapacityDrops :: "diskSpool \<Rightarrow> spoolEntry list \<times> diskSpool" where
  "takeCapacityDrops s = (s_pendingCapacityDrops s, s\<lparr>s_pendingCapacityDrops := []\<rparr>)"

definition takeBecameDurable :: "diskSpool \<Rightarrow> int \<times> diskSpool" where
  "takeBecameDurable s = (s_becameDurable s, s\<lparr>s_becameDurable := 0\<rparr>)"

definition clearRetryDeadline :: "(gostring \<Rightarrow> gostring option) \<Rightarrow> diskSpool \<Rightarrow> bool \<times> diskSpool" where
  "clearRetryDeadline app_of s =
     (if s_retryAfterUntilMS s = 0 then (False, s)
      else let s = s\<lparr>s_retryAfterUntilMS := 0\<rparr>
           in if s_owed s then (False, s)
              else let (err, s) = saveLocked app_of s in (err \<noteq> None, s))"

definition storeRetryDeadline :: "(gostring \<Rightarrow> gostring option) \<Rightarrow> int \<Rightarrow> diskSpool \<Rightarrow> bool \<times> diskSpool" where
  "storeRetryDeadline app_of deadlineMS s =
     (if deadlineMS \<le> 0 \<or> s_owed s then (False, s)
      else let (err, s) = saveLocked app_of (s\<lparr>s_retryAfterUntilMS := deadlineMS\<rparr>) in (err \<noteq> None, s))"

section \<open>Wipes\<close>

text \<open>The record file goes before the marker, and the directory is synced in between and after; each
  failure leaves the wipe owed.\<close>

definition settleOwedWipeLocked :: "diskSpool \<Rightarrow> bool \<times> diskSpool" where
  "settleOwedWipeLocked s =
     (if \<not> s_owed s then (True, s)
      else let (ok, s) = on_disk removeRecordFile s in if \<not> ok then (False, s)
      else let (ok, s) = on_disk syncDir s in if \<not> ok then (False, s)
      else let (ok, s) = on_disk removeMarkerFile s in if \<not> ok then (False, s)
      else let (ok, s) = on_disk removeWithdrawnFile s in if \<not> ok then (False, s)
      else let (ok, s) = on_disk syncDir s in if \<not> ok then (False, s)
      else let s = s\<lparr>s_withdrawnMarkerOwed := False, s_withdrawnOwedIDs := []\<rparr>;
               s = releaseDeferredCapacityDropsLocked s
           in (True, s\<lparr>s_owed := False\<rparr>))"

definition condemnEntriesLocked :: "diskSpool \<Rightarrow> spoolEntry list \<times> diskSpool" where
  "condemnEntriesLocked s =
     (let dropped = s_entries s;
          s = fold (\<lambda>e. recordSettledLocked (e_id e)) dropped s
      in (dropped, s\<lparr>s_entries := [], s_ids := {}, s_uncountedIDs := {}, s_totalBytes := 0, s_resend := [],
                     s_retryAfterUntilMS := 0, s_dirty := False\<rparr>))"

definition owe_wipe :: "spool_error \<Rightarrow> spoolEntry list \<Rightarrow> diskSpool \<Rightarrow> spoolEntry list \<times> spool_error option \<times> diskSpool" where
  "owe_wipe err dropped s =
     (let (_, s) = on_disk createWipeOwedMarker (s\<lparr>s_owed := True\<rparr>) in (dropped, Some err, s))"

definition purge :: "diskSpool \<Rightarrow> spoolEntry list \<times> spool_error option \<times> diskSpool" where
  "purge s =
     (let (dropped, s) = condemnEntriesLocked s;
          (ok, s) = on_disk removeRecordFile s
      in if \<not> ok then owe_wipe ErrRemove dropped s
      else let s = releaseDeferredCapacityDropsLocked s;
               (ok, s) = on_disk removeWithdrawnFile s
      in if \<not> ok then owe_wipe ErrRemove dropped s
      else let (ok, s) = on_disk syncDir s
      in if \<not> ok then owe_wipe ErrSync dropped s
      else let s = s\<lparr>s_withdrawnMarkerOwed := False, s_withdrawnOwedIDs := []\<rparr>
      in if s_owed s then
           (let (ok, s) = on_disk removeMarkerFile s
            in if \<not> ok then (dropped, None, s) else (dropped, None, s\<lparr>s_owed := False\<rparr>))
         else (dropped, None, s))"

section \<open>Eviction\<close>

function evictOverCapsLocked :: "diskSpool \<Rightarrow> spoolEntry list \<times> diskSpool" where
  "evictOverCapsLocked s =
     (case s_entries s of
        [] \<Rightarrow> ([], s)
      | oldest # rest \<Rightarrow>
          if int (length (s_entries s)) > s_maxEvents s \<or> s_totalBytes s > s_maxBytes s then
            (let s1 = s\<lparr>s_entries := rest, s_ids := s_ids s - {e_id oldest}\<rparr>;
                 s2 = recordSettledLocked (e_id oldest) s1;
                 (evicted, s3) = evictOverCapsLocked (s2\<lparr>s_totalBytes := s_totalBytes s - entry_bytes oldest\<rparr>)
             in (oldest # evicted, s3))
          else ([], s))"
  by pat_completeness auto
termination
  by (relation "measure (\<lambda>s. length (s_entries s))") (auto simp: recordSettledLocked_def Let_def)

declare evictOverCapsLocked.simps [simp del]

section \<open>Loading\<close>

definition spoolMaxDeferralSeed :: nanos where "spoolMaxDeferralSeed = 24 * Hour"

record spoolLoadOutcome =
  lo_expired :: "spoolEntry list"
  lo_evicted :: "spoolEntry list"
  lo_condemned :: "spoolEntry list"
  lo_deferUntil :: "nanos option"
  lo_persistFailed :: bool

definition empty_outcome :: spoolLoadOutcome where
  "empty_outcome = \<lparr>lo_expired = [], lo_evicted = [], lo_condemned = [], lo_deferUntil = None, lo_persistFailed = False\<rparr>"

text \<open>A withdrawn experiment fact: a stored application, or an exposure or outcome whose assignment
  key is a subject fact key (\<open>^sfk1_[0-9a-f]{64}$\<close>).\<close>

definition subject_fact_key :: "gostring \<Rightarrow> bool" where
  "subject_fact_key k \<longleftrightarrow> has_prefix ''sfk1_'' k \<and> length k = 69 \<and> list_all is_lower_hex (drop 5 k)"

definition assignment_key :: "(gostring \<times> gostring \<times> json) list \<Rightarrow> gostring option" where
  "assignment_key ms =
     fold (\<lambda>(_, v) acc. case acc of None \<Rightarrow> None
             | Some k \<Rightarrow> (case v of JNull \<Rightarrow> Some k | JObj ps \<Rightarrow> decode_field as_string k ''assignment_key'' ps | _ \<Rightarrow> None))
       (field ''props'' ms) (Some [])"

definition withdrawnExperimentFactRaw :: "(gostring \<Rightarrow> gostring option) \<Rightarrow> gostring \<Rightarrow> bool" where
  "withdrawnExperimentFactRaw app_of raw =
     (if app_of raw \<noteq> None then True
      else case members_of raw of
        None \<Rightarrow> False
      | Some ms \<Rightarrow>
          (case (decode_field as_string [] ''event_name'' ms, assignment_key ms) of
             (Some name, Some k) \<Rightarrow> name \<in> set experiment_fact_names \<and> subject_fact_key k
           | _ \<Rightarrow> False))"

text \<open>One recovered record: replaced, withdrawn, condemned, expired, a duplicate, or kept.\<close>

definition load_step :: "(gostring \<Rightarrow> gostring option) \<Rightarrow> nanos \<Rightarrow> gostring list \<Rightarrow> gostring list \<Rightarrow> bool \<Rightarrow> spoolEventWire
    \<Rightarrow> spoolLoadOutcome \<times> diskSpool \<Rightarrow> spoolLoadOutcome \<times> diskSpool" where
  "load_step app_of now replaced withdrawn condemn w os =
     (let (out, s) = os; entry = spoolEntryFromWire app_of w
      in if e_application entry \<and> e_id entry \<in> set replaced then (out, recordSettledLocked (e_id entry) s)
         else if e_id entry \<in> set withdrawn then (out, recordSettledLocked (e_id entry) s)
         else if condemn \<and> e_internalFact entry \<and> withdrawnExperimentFactRaw app_of (e_raw entry) then
           (let s = recordSettledLocked (e_id entry) s
            in (out\<lparr>lo_condemned := lo_condemned out @ [entry]\<rparr>,
                s\<lparr>s_withdrawnOwedIDs := List.insert (e_id entry) (s_withdrawnOwedIDs s)\<rparr>))
         else if spoolEntryExpired entry now then
           (out\<lparr>lo_expired := lo_expired out @ [entry]\<rparr>, recordSettledLocked (e_id entry) s)
         else if e_id entry \<in> s_ids s then (out, s)
         else (out, s\<lparr>s_entries := s_entries s @ [entry], s_ids := insert (e_id entry) (s_ids s),
                      s_totalBytes := s_totalBytes s + entry_bytes entry\<rparr>))"

text \<open>The deferral a stored deadline asks for.  The product of the remaining milliseconds is a
  64-bit \<open>time.Duration\<close> and wraps.\<close>

definition deferral :: "int \<Rightarrow> nanos \<Rightarrow> nanos option" where
  "deferral retry now =
     (if retry > unix_milli now then
        (let remaining = wrap64 ((retry - unix_milli now) * Millisecond);
             remaining = (if remaining > spoolMaxDeferralSeed then spoolMaxDeferralSeed else remaining)
         in Some (now + remaining))
      else None)"

text \<open>What follows the recovery of the document's records: the re-cap, the resend queue, the
  deferral, and the rewrite.\<close>

definition load_defer :: "nanos \<Rightarrow> int \<Rightarrow> spoolLoadOutcome \<Rightarrow> diskSpool \<Rightarrow> spoolLoadOutcome \<times> diskSpool" where
  "load_defer now retry out s =
     (case (if s_resend s \<noteq> [] then deferral retry now else None) of
        None \<Rightarrow> (out, s)
      | Some t \<Rightarrow> (out\<lparr>lo_deferUntil := Some t\<rparr>, s\<lparr>s_retryAfterUntilMS := unix_milli t\<rparr>))"

definition load_save :: "(gostring \<Rightarrow> gostring option) \<Rightarrow> spoolLoadOutcome \<Rightarrow> diskSpool \<Rightarrow> spoolLoadOutcome \<times> diskSpool" where
  "load_save app_of out s =
     (let (err, s) = saveLocked app_of s;
          out = out\<lparr>lo_persistFailed := (err \<noteq> None)\<rparr>
      in if err \<noteq> None \<and> lo_evicted out \<noteq> []
         then (out\<lparr>lo_evicted := []\<rparr>, s\<lparr>s_deferredCapacityDrops := s_deferredCapacityDrops s @ lo_evicted out\<rparr>)
         else (out, s))"

definition load_finish :: "(gostring \<Rightarrow> gostring option) \<Rightarrow> nanos \<Rightarrow> int \<Rightarrow> spoolLoadOutcome \<Rightarrow> diskSpool \<Rightarrow> spoolLoadOutcome \<times> diskSpool" where
  "load_finish app_of now retry out s =
     (let (evicted, s) = evictOverCapsLocked s;
          s = s\<lparr>s_resend := s_resend s @ filter (\<lambda>e. \<not> e_application e) (s_entries s)\<rparr>;
          (out, s) = load_defer now retry (out\<lparr>lo_evicted := evicted\<rparr>) s
      in load_save app_of out s)"

definition load_document :: "(gostring \<Rightarrow> gostring option) \<Rightarrow> nanos \<Rightarrow> spoolDocument \<Rightarrow> diskSpool \<Rightarrow> spoolLoadOutcome \<times> diskSpool" where
  "load_document app_of now doc s =
     (let wires = map entry_wire (live doc);
          s = s\<lparr>s_tornTailOwed := doc_tornTail doc, s_fileAppendable := False\<rparr>;
          ((withdrawn, damaged), s) = on_disk (readWithdrawnMarker (withdrawnMarkerReadLimit s)) s
      in if damaged \<and> s_experimentsEnabled s then
           (let (_, s) = on_disk createWipeOwedMarker (s\<lparr>s_owed := True\<rparr>) in (empty_outcome, s))
         else
           let s = (if withdrawn \<noteq> [] then s\<lparr>s_withdrawnMarkerOwed := True, s_withdrawnOwedIDs := remdups withdrawn\<rparr> else s);
               (out, s) = fold (load_step app_of now (sealedApplicationReplacements wires) withdrawn damaged) wires (empty_outcome, s)
           in load_finish app_of now (doc_retryAfterUntilMS doc) out s)"

definition load :: "(gostring \<Rightarrow> gostring option) \<Rightarrow> nanos \<Rightarrow> diskSpool \<Rightarrow> spoolLoadOutcome \<times> diskSpool" where
  "load app_of now s =
     (let (r, s) = readRecordBytesLocked s
      in case r of
           ReadBytes data \<Rightarrow>
             (let doc = parseSpoolDocument app_of data
              in if \<not> doc_ok doc then (empty_outcome, snd (on_disk removeRecordFile s))
                 else load_document app_of now doc s)
         | ReadOversized \<Rightarrow> (empty_outcome, snd (on_disk removeRecordFile s))
         | _ \<Rightarrow> (empty_outcome, s))"

section \<open>Appending a batch\<close>

text \<open>The intake loop over the batch; the accumulator is (inserted, expired, spool).  The identifiers
  of \<open>inserted\<close> are the code's \<open>appended\<close> set.\<close>

definition intake_step :: "nanos \<Rightarrow> gostring set \<Rightarrow> spoolEntry \<Rightarrow> spoolEntry list \<times> spoolEntry list \<times> diskSpool
    \<Rightarrow> spoolEntry list \<times> spoolEntry list \<times> diskSpool" where
  "intake_step now excluded entry acc =
     (let (inserted, expired, s) = acc
      in if e_id entry = [] then acc
         else if e_id entry \<in> excluded then acc
         else if spoolEntryExpired entry now then (inserted, expired @ [entry], s)
         else if e_id entry \<in> s_ids s then acc
         else (inserted @ [entry], expired,
               s\<lparr>s_entries := s_entries s @ [entry], s_ids := insert (e_id entry) (s_ids s),
                 s_totalBytes := s_totalBytes s + entry_bytes entry\<rparr>))"

record append_result =
  ar_refused :: bool
  ar_added :: "spoolEntry list"
  ar_expired :: "spoolEntry list"
  ar_evicted :: "spoolEntry list"
  ar_persistFailed :: bool

text \<open>The write behind an append: one appended line group when nothing else is owed, otherwise (or
  when the append is refused) a full save; a compaction that becomes due is best effort.\<close>

definition append_persist :: "(gostring \<Rightarrow> gostring option) \<Rightarrow> bool \<Rightarrow> spoolEntry list \<Rightarrow> gostring list \<Rightarrow> diskSpool \<Rightarrow> bool \<times> diskSpool" where
  "append_persist app_of deadlineChanged added droppedIDs s =
     (let (wrote, s) =
        (if \<not> deadlineChanged \<and> \<not> s_dirty s \<and> s_uncountedIDs s = {} \<and> \<not> s_withdrawnMarkerOwed s \<and>
            s_deferredCapacityDrops s = []
         then appendRecordsLocked added droppedIDs s else (False, s))
      in if wrote then
           (let s = s\<lparr>s_dirty := False\<rparr>
            in (False, if compactionOwedLocked s then snd (saveLocked app_of s) else s))
         else (let (err, s) = saveLocked app_of s in (err \<noteq> None, s)))"

definition append_unsaved :: "spoolEntry list \<Rightarrow> spoolEntry list \<Rightarrow> spoolEntry list \<Rightarrow> diskSpool \<Rightarrow> spoolEntry list \<times> diskSpool" where
  "append_unsaved inserted added evicted s =
     (let uncounted = s_uncountedIDs s \<union> e_id ` set added;
          settled = filter (\<lambda>e. e_id e \<in> e_id ` set inserted \<or> e_id e \<in> uncounted) evicted;
          deferred = filter (\<lambda>e. \<not> (e_id e \<in> e_id ` set inserted \<or> e_id e \<in> uncounted)) evicted
      in (settled, s\<lparr>s_uncountedIDs := uncounted - e_id ` set settled,
                     s_deferredCapacityDrops := s_deferredCapacityDrops s @ deferred\<rparr>))"

definition appendExcept :: "(gostring \<Rightarrow> gostring option) \<Rightarrow> spoolEntry list \<Rightarrow> int \<Rightarrow> bool \<Rightarrow> nanos \<Rightarrow> bool \<Rightarrow> gostring set
    \<Rightarrow> diskSpool \<Rightarrow> append_result \<times> diskSpool" where
  "appendExcept app_of batch deadlineMS clearStaleDeadline now allowed excluded s =
     (if s_owed s \<or> \<not> allowed then
        (\<lparr>ar_refused = True, ar_added = [], ar_expired = [], ar_evicted = [], ar_persistFailed = False\<rparr>, s)
      else
        let (inserted, expired, s) = fold (intake_step now excluded) batch ([], [], s);
            (deadlineChanged, s) =
              (if deadlineMS > 0 then (True, s\<lparr>s_retryAfterUntilMS := deadlineMS\<rparr>)
               else if clearStaleDeadline \<and> s_retryAfterUntilMS s \<noteq> 0 then (True, s\<lparr>s_retryAfterUntilMS := 0\<rparr>)
               else (False, s))
        in if inserted = [] \<and> \<not> deadlineChanged then
             (let (failed, s) = (if s_dirty s then (let (err, s) = saveLocked app_of s in (err \<noteq> None, s)) else (False, s))
              in (\<lparr>ar_refused = False, ar_added = [], ar_expired = expired, ar_evicted = [], ar_persistFailed = failed\<rparr>, s))
           else
             let (evicted, s) = evictOverCapsLocked s;
                 added = filter (\<lambda>e. e_id e \<in> s_ids s) inserted;
                 (failed, s) = append_persist app_of deadlineChanged added (map e_id evicted) s;
                 (evicted, s) = (if failed then append_unsaved inserted added evicted s else (evicted, s))
             in (\<lparr>ar_refused = False, ar_added = added, ar_expired = expired, ar_evicted = evicted,
                  ar_persistFailed = failed\<rparr>, s))"

definition spool_append :: "(gostring \<Rightarrow> gostring option) \<Rightarrow> spoolEntry list \<Rightarrow> int \<Rightarrow> bool \<Rightarrow> nanos \<Rightarrow> bool \<Rightarrow> diskSpool
    \<Rightarrow> append_result \<times> diskSpool" where
  "spool_append app_of batch deadlineMS clearStaleDeadline now allowed s =
     appendExcept app_of batch deadlineMS clearStaleDeadline now allowed {} s"

section \<open>Removal\<close>

text \<open>The loop that drops the mirror's entries of a set of identifiers, settling each.\<close>

definition drop_ids :: "gostring set \<Rightarrow> diskSpool \<Rightarrow> spoolEntry list \<times> diskSpool" where
  "drop_ids gone s =
     (let removed = filter (\<lambda>e. e_id e \<in> gone) (s_entries s);
          s = fold (\<lambda>e s. (recordSettledLocked (e_id e) (s\<lparr>s_ids := s_ids s - {e_id e}\<rparr>))
                             \<lparr>s_totalBytes := s_totalBytes s - entry_bytes e\<rparr>) removed s
      in (removed, s\<lparr>s_entries := filter (\<lambda>e. e_id e \<notin> gone) (s_entries s)\<rparr>))"

definition drop_resend :: "gostring set \<Rightarrow> diskSpool \<Rightarrow> diskSpool" where
  "drop_resend gone s = s\<lparr>s_resend := filter (\<lambda>e. e_id e \<notin> gone) (s_resend s)\<rparr>"

definition ack :: "(gostring \<Rightarrow> gostring option) \<Rightarrow> gostring list \<Rightarrow> diskSpool \<Rightarrow> spoolEntry list \<times> bool \<times> diskSpool" where
  "ack app_of acked s =
     (if acked = [] \<or> s_entries s = [] then ([], False, s)
      else let (removed, s) = drop_ids (set acked) s
           in if removed = [] then ([], False, s)
              else let s = drop_resend (set acked) s;
                       (err, s) = saveLocked app_of s
                   in (removed, err \<noteq> None, s))"

definition writeWithdrawnMarkerLocked :: "gostring list \<Rightarrow> diskSpool \<Rightarrow> spool_error option \<times> diskSpool" where
  "writeWithdrawnMarkerLocked ids s =
     (let ((prior, _), s) = on_disk (readWithdrawnMarker (withdrawnMarkerReadLimit s)) s;
          all = rev (remdups (rev (filter (\<lambda>i. i \<noteq> []) (prior @ s_withdrawnOwedIDs s @ ids))));
          s = s\<lparr>s_withdrawnOwedIDs := all\<rparr>;
          (ok, s) = on_disk (write_withdrawn (marshal_ids all)) s
      in if \<not> ok then (Some ErrWrite, s)
         else let (ok, s) = on_disk syncDir s in (if ok then None else Some ErrSync, s))"

definition removeMatchingAfter :: "(gostring \<Rightarrow> gostring option) \<Rightarrow> (gostring \<Rightarrow> bool) \<Rightarrow> u64 \<Rightarrow> diskSpool
    \<Rightarrow> spoolEntry list \<times> bool \<times> diskSpool" where
  "removeMatchingAfter app_of matches currentExpEpoch s =
     (if s_entries s = [] then ([], False, s)
      else
        let removed = filter (\<lambda>e. \<not> (currentExpEpoch > 0 \<and> e_expFactEpoch e \<ge> currentExpEpoch) \<and>
                                  e_internalFact e \<and> matches (e_raw e)) (s_entries s)
        in if removed = [] then ([], False, s)
           else
             let (_, s) = writeWithdrawnMarkerLocked (map e_id removed) s;
                 s = s\<lparr>s_withdrawnMarkerOwed := True\<rparr>;
                 (_, s) = drop_ids (e_id ` set removed) s;
                 s = drop_resend (e_id ` set removed) s;
                 s = s\<lparr>s_withdrawalEpoch := s_withdrawalEpoch s + 1\<rparr>;
                 (err, s) = saveLocked app_of s
             in (removed, err \<noteq> None, s))"

section \<open>Resending\<close>

text \<open>The pull loop: the accumulator is (chunk, expired).\<close>

function pull_loop :: "nat \<Rightarrow> nanos \<Rightarrow> spoolEntry list \<Rightarrow> spoolEntry list \<Rightarrow> diskSpool
    \<Rightarrow> spoolEntry list \<times> spoolEntry list \<times> diskSpool" where
  "pull_loop limit now chunk expired s =
     (if length chunk < limit then
        (case s_resend s of
           [] \<Rightarrow> (chunk, expired, s)
         | entry # rest \<Rightarrow>
             let s = s\<lparr>s_resend := rest\<rparr>
             in if e_id entry \<notin> s_ids s then pull_loop limit now chunk expired s
                else if spoolEntryExpired entry now then
                  pull_loop limit now chunk (expired @ [entry])
                    ((recordSettledLocked (e_id entry) (s\<lparr>s_ids := s_ids s - {e_id entry}\<rparr>))
                       \<lparr>s_totalBytes := s_totalBytes s - entry_bytes entry,
                        s_entries := filter (\<lambda>e. e_id e \<noteq> e_id entry) (s_entries s)\<rparr>)
                else pull_loop limit now (chunk @ [entry]) expired s)
      else (chunk, expired, s))"
  by pat_completeness auto
termination
  by (relation "measure (\<lambda>(limit, now, chunk, expired, s). length (s_resend s))")
     (auto simp: recordSettledLocked_def Let_def)

declare pull_loop.simps [simp del]

definition pullResendChunk :: "(gostring \<Rightarrow> gostring option) \<Rightarrow> nat \<Rightarrow> nanos \<Rightarrow> diskSpool
    \<Rightarrow> spoolEntry list \<times> spoolEntry list \<times> bool \<times> diskSpool" where
  "pullResendChunk app_of limit now s =
     (if s_owed s then ([], [], False, s)
      else let (chunk, expired, s) = pull_loop limit now [] [] s
           in if expired \<noteq> [] then (let (err, s) = saveLocked app_of s in (chunk, expired, err \<noteq> None, s))
              else (chunk, expired, False, s))"

text \<open>\<open>scanInternalFacts\<close> returns whether it scanned, and the payloads it hands to the callback.\<close>

definition scanInternalFacts :: "bool \<Rightarrow> diskSpool \<Rightarrow> bool \<times> gostring list" where
  "scanInternalFacts held s =
     (if held \<or> s_dirty s then (False, []) else (True, map e_raw (filter e_internalFact (s_entries s))))"

definition requeueResend :: "spoolEntry list \<Rightarrow> diskSpool \<Rightarrow> diskSpool" where
  "requeueResend chunk s = s\<lparr>s_resend := filter (\<lambda>e. e_id e \<in> s_ids s) chunk @ s_resend s\<rparr>"

definition hasResendWork :: "diskSpool \<Rightarrow> bool" where
  "hasResendWork s \<longleftrightarrow> \<not> s_owed s \<and> s_resend s \<noteq> []"

definition unpersistedOf :: "gostring list \<Rightarrow> diskSpool \<Rightarrow> nat" where
  "unpersistedOf is s = length (filter (\<lambda>i. i \<in> s_uncountedIDs s \<and> i \<in> s_ids s) is)"

definition retryPersist :: "(gostring \<Rightarrow> gostring option) \<Rightarrow> diskSpool \<Rightarrow> bool \<times> bool \<times> diskSpool" where
  "retryPersist app_of s =
     (if \<not> s_dirty s \<or> s_owed s then (False, False, s)
      else let (err, s) = saveLocked app_of s in (True, err \<noteq> None, s))"

section \<open>Clocks and applications\<close>

text \<open>\<open>persistDelivery\<close> of \<open>analytics_retry.go\<close>: the clocks of the mirrored entries a request
  carries, saved when the record on disk disagrees.\<close>

definition incoming :: "spoolEntry list \<Rightarrow> gostring \<Rightarrow> spoolEntry option" where
  "incoming es i = (case filter (\<lambda>e. e_id e = i) (rev es) of [] \<Rightarrow> None | e # _ \<Rightarrow> Some e)"

definition delivery_matches :: "spoolEntry list \<Rightarrow> spoolEntry \<Rightarrow> bool" where
  "delivery_matches es held = (case incoming es (e_id held) of None \<Rightarrow> False | Some e \<Rightarrow> e_raw e = e_raw held)"

definition delivery_stale :: "spoolEntry list \<Rightarrow> spoolEntry \<Rightarrow> bool" where
  "delivery_stale es saved =
     (case incoming es (e_id saved) of None \<Rightarrow> False
      | Some e \<Rightarrow> e_raw saved \<noteq> e_raw e \<or> e_delivery saved \<noteq> e_delivery e)"

definition persistDelivery :: "(gostring \<Rightarrow> gostring option) \<Rightarrow> spoolEntry list \<Rightarrow> diskSpool \<Rightarrow> spool_error option \<times> diskSpool" where
  "persistDelivery app_of es s =
     (if s_owed s then (Some ErrConsentDenied, s)
      else
        let matched = (\<exists>held \<in> set (s_entries s). delivery_matches es held);
            s = s\<lparr>s_entries := map (\<lambda>held. if delivery_matches es held
                    then held\<lparr>e_delivery := e_delivery (the (incoming es (e_id held)))\<rparr> else held) (s_entries s)\<rparr>
        in if \<not> matched then (None, s)
           else let (r, s) = readRecordBytesLocked s
                in case r of
                     ReadNotExist \<Rightarrow> (None, s)
                   | ReadBytes data \<Rightarrow>
                       (let doc = parseSpoolDocument app_of data
                        in if \<not> doc_ok doc then saveLocked app_of s
                           else if \<exists>saved \<in> set (live doc). delivery_stale es saved then saveLocked app_of s
                           else (None, s))
                   | _ \<Rightarrow> (Some ErrRead, s))"

text \<open>\<open>replaceApplication\<close> of \<open>experiment_applications.go\<close>: the sealed fact takes the place of its
  application, durably or not at all.\<close>

definition replaceApplication :: "(gostring \<Rightarrow> gostring option) \<Rightarrow> gostring \<Rightarrow> spoolEntry \<Rightarrow> diskSpool
    \<Rightarrow> bool \<times> spool_error option \<times> diskSpool" where
  "replaceApplication app_of i sealed s =
     (if s_owed s \<or> \<not> s_grantPersisted s then (False, None, s)
      else if i \<notin> s_ids s \<and> e_id sealed \<notin> s_ids s then (False, None, s)
      else
        let old = s;
            s = s\<lparr>s_totalBytes := s_totalBytes s - bytes_of (filter (\<lambda>e. e_id e = i) (s_entries s)),
                  s_entries := filter (\<lambda>e. e_id e \<noteq> i) (s_entries s), s_ids := s_ids s - {i}\<rparr>;
            s = recordSettledLocked i s;
            s = (if e_id sealed \<in> s_ids s then s
                 else s\<lparr>s_entries := s_entries s @ [sealed], s_ids := insert (e_id sealed) (s_ids s),
                        s_totalBytes := s_totalBytes s + entry_bytes sealed\<rparr>);
            (err, s) = saveLocked app_of s
        in if err \<noteq> None then
             (False, err, s\<lparr>s_entries := s_entries old, s_resend := s_resend old, s_ids := s_ids old,
                s_settledIDs := s_settledIDs old, s_settledFIFO := s_settledFIFO old, s_totalBytes := s_totalBytes old,
                s_retryAfterUntilMS := s_retryAfterUntilMS old, s_deferredCapacityDrops := s_deferredCapacityDrops old,
                s_dirty := True, s_fileAppendable := False\<rparr>)
           else (e_id sealed \<in> s_ids s, None, s))"

end
