(* ===== verification/Disk_Spool_Facts.thy ===== *)
theory Disk_Spool_Facts
  imports Disk_Spool
begin

text \<open>
  The invariants of the disk spool: the mirror's index and byte count are those of its entries,
  its identifiers are distinct, it is within its caps, and the settled memory is bounded.  Every
  operation keeps them; the last section collects the operations into one step function.
\<close>

section \<open>Invariants\<close>

definition mirror_ok :: "diskSpool \<Rightarrow> bool" where
  "mirror_ok s \<longleftrightarrow> distinct (map e_id (s_entries s)) \<and> s_ids s = e_id ` set (s_entries s) \<and>
     s_totalBytes s = bytes_of (s_entries s)"

definition within_caps :: "int \<Rightarrow> int \<Rightarrow> spoolEntry list \<Rightarrow> bool" where
  "within_caps max_events max_bytes es \<longleftrightarrow> es = [] \<or> int (length es) \<le> max_events \<and> bytes_of es \<le> max_bytes"

definition caps_ok :: "diskSpool \<Rightarrow> bool" where
  "caps_ok s \<longleftrightarrow> within_caps (s_maxEvents s) (s_maxBytes s) (s_entries s)"

definition settled_ok :: "diskSpool \<Rightarrow> bool" where
  "settled_ok s \<longleftrightarrow> distinct (s_settledFIFO s) \<and> s_settledIDs s = set (s_settledFIFO s) \<and>
     length (s_settledFIFO s) \<le> spoolSettledMemory"

section \<open>Settling\<close>

lemma settled_frame [simp]:
  "s_withdrawalEpoch (recordSettledLocked i s) = s_withdrawalEpoch s"
  "s_maxEvents (recordSettledLocked i s) = s_maxEvents s" "s_maxBytes (recordSettledLocked i s) = s_maxBytes s"
  "s_experimentsEnabled (recordSettledLocked i s) = s_experimentsEnabled s"
  "s_withdrawnMarkerOwed (recordSettledLocked i s) = s_withdrawnMarkerOwed s"
  "s_withdrawnOwedIDs (recordSettledLocked i s) = s_withdrawnOwedIDs s"
  "s_entries (recordSettledLocked i s) = s_entries s" "s_ids (recordSettledLocked i s) = s_ids s"
  "s_totalBytes (recordSettledLocked i s) = s_totalBytes s" "s_resend (recordSettledLocked i s) = s_resend s"
  "s_retryAfterUntilMS (recordSettledLocked i s) = s_retryAfterUntilMS s" "s_dirty (recordSettledLocked i s) = s_dirty s"
  "s_fileAppendable (recordSettledLocked i s) = s_fileAppendable s" "s_fileBytes (recordSettledLocked i s) = s_fileBytes s"
  "s_tornTailOwed (recordSettledLocked i s) = s_tornTailOwed s" "s_owed (recordSettledLocked i s) = s_owed s"
  "s_grantPersisted (recordSettledLocked i s) = s_grantPersisted s"
  "s_pendingCapacityDrops (recordSettledLocked i s) = s_pendingCapacityDrops s"
  "s_deferredCapacityDrops (recordSettledLocked i s) = s_deferredCapacityDrops s"
  "s_uncountedIDs (recordSettledLocked i s) = s_uncountedIDs s" "s_disk (recordSettledLocked i s) = s_disk s"
  by (simp_all add: recordSettledLocked_def Let_def)

lemma settled_ok_cong:
  "s_settledIDs s' = s_settledIDs s \<Longrightarrow> s_settledFIFO s' = s_settledFIFO s \<Longrightarrow> settled_ok s' = settled_ok s"
  by (simp add: settled_ok_def)

lemma settled_record [inv_intros]: "settled_ok s \<Longrightarrow> settled_ok (recordSettledLocked i s)"
proof (cases "i = [] \<or> i \<in> s_settledIDs s")
  case True
  then show "settled_ok s \<Longrightarrow> settled_ok (recordSettledLocked i s)" by (auto simp: recordSettledLocked_def)
next
  case False
  assume ok: "settled_ok s"
  then show ?thesis using False
    by (cases "s_settledFIFO s") (auto simp: settled_ok_def recordSettledLocked_def Let_def spoolSettledMemory_def)
qed

lemma settled_recorded: "i \<noteq> [] \<Longrightarrow> settled_ok s \<Longrightarrow> i \<in> s_settledIDs (recordSettledLocked i s)"
  by (cases "s_settledFIFO s")
     (auto simp: settled_ok_def recordSettledLocked_def Let_def spoolSettledMemory_def)

text \<open>The settled memory is the most recent settled identifiers, as many as it holds.\<close>

lemma settled_fifo_record:
  assumes "length (s_settledFIFO s) \<le> spoolSettledMemory"
  shows "s_settledFIFO (recordSettledLocked i s) =
    (if i = [] \<or> i \<in> s_settledIDs s then s_settledFIFO s else lastn spoolSettledMemory (s_settledFIFO s @ [i]))"
proof (cases "length (s_settledFIFO s) < spoolSettledMemory")
  case True
  then show ?thesis by (simp add: recordSettledLocked_def Let_def)
next
  case False
  moreover have "0 < spoolSettledMemory" by (simp add: spoolSettledMemory_def)
  moreover have "s_settledFIFO s \<noteq> []" using calculation by auto
  ultimately show ?thesis using assms lastn_snoc_full [of spoolSettledMemory "s_settledFIFO s" i]
    by (simp add: recordSettledLocked_def Let_def)
qed

section \<open>Byte counts\<close>

lemma entry_bytes_nonneg [simp]: "0 \<le> entry_bytes e"
  by (simp add: entry_bytes_def)

lemma bytes_of_simps [simp]:
  "bytes_of [] = 0" "bytes_of (e # es) = entry_bytes e + bytes_of es" "bytes_of (es @ fs) = bytes_of es + bytes_of fs"
  by (simp_all add: bytes_of_def)

lemma bytes_of_nonneg [simp]: "0 \<le> bytes_of es"
  by (induction es) auto

lemma bytes_of_filter_le: "bytes_of (filter P es) \<le> bytes_of es"
  by (induction es) (auto simp: add_increasing)

lemma bytes_of_split: "bytes_of es = bytes_of (filter P es) + bytes_of (filter (\<lambda>e. \<not> P e) es)"
  by (induction es) auto

lemma bytes_of_remove_id:
  assumes "distinct (map e_id es)" and "e \<in> set es"
  shows "bytes_of (filter (\<lambda>x. e_id x \<noteq> e_id e) es) = bytes_of es - entry_bytes e"
  using assms
proof (induction es)
  case (Cons x es)
  show ?case
  proof (cases "x = e")
    case True
    have "filter (\<lambda>y. e_id y \<noteq> e_id e) es = es"
      using Cons.prems(1) True by (intro filter_True) (auto simp: image_iff)
    with True show ?thesis by simp
  next
    case False
    then have "e \<in> set es" "e_id x \<noteq> e_id e" using Cons.prems by (auto simp: image_iff)
    with Cons show ?thesis by simp
  qed
qed simp

lemma bytes_of_subset:
  assumes "set es \<subseteq> set fs" and "distinct es"
  shows "bytes_of es \<le> bytes_of fs \<and> length es \<le> length fs"
  using assms
proof (induction es arbitrary: fs)
  case (Cons e es)
  then obtain a b where fs: "fs = a @ e # b" by (meson list.set_intros(1) split_list subset_code(1))
  then have "set es \<subseteq> set (a @ b)" using Cons.prems by auto
  with Cons.IH [of "a @ b"] Cons.prems(2) show ?case by (simp add: fs)
qed simp

lemma distinct_ids_distinct: "distinct (map e_id es) \<Longrightarrow> distinct es"
  by (simp add: distinct_map)

section \<open>The merge\<close>

lemma mirrored_Some: "mirrored s i = Some e \<Longrightarrow> e \<in> set (s_entries s) \<and> e_id e = i"
  by (auto simp: mirrored_def split: list.splits dest!: arg_cong [where f = set])

lemma mirrored_None: "mirrored s i = None \<longleftrightarrow> i \<notin> e_id ` set (s_entries s)"
proof -
  have "mirrored s i = None \<longleftrightarrow> filter (\<lambda>e. e_id e = i) (rev (s_entries s)) = []"
    by (simp add: mirrored_def split: list.splits)
  then show ?thesis by (auto simp: filter_empty_conv)
qed

text \<open>Where a merged record comes from.\<close>

definition from_mirror_or_file :: "diskSpool \<Rightarrow> spoolEntry list \<Rightarrow> spoolEntry \<Rightarrow> bool" where
  "from_mirror_or_file s rec m \<longleftrightarrow> m \<in> set (s_entries s) \<or>
     (m \<in> set rec \<and> e_id m \<noteq> [] \<and> e_id m \<notin> s_settledIDs s \<and> e_id m \<notin> set (s_withdrawnOwedIDs s) \<and>
      e_id m \<notin> e_id ` set (s_entries s))"

definition merge_inv :: "diskSpool \<Rightarrow> spoolEntry list \<Rightarrow> spoolEntry list \<times> gostring set \<times> int \<Rightarrow> bool" where
  "merge_inv s rec acc \<longleftrightarrow> (case acc of (merged, seen, foreign) \<Rightarrow>
     seen = e_id ` set merged \<and> distinct (map e_id merged) \<and> (\<forall>m \<in> set merged. from_mirror_or_file s rec m))"

lemma merge_file_inv:
  assumes "merge_inv s rec acc" and "entry \<in> set rec"
  shows "merge_inv s rec (merge_file_step s entry acc)"
proof -
  obtain merged seen foreign where acc: "acc = (merged, seen, foreign)" by (cases acc)
  have new: "merge_inv s rec (merged @ [m], insert (e_id m) seen, k)"
    if "e_id m \<notin> seen" "from_mirror_or_file s rec m" for m k
    using assms(1) that by (auto simp: merge_inv_def acc)
  show ?thesis
  proof (cases "mirrored s (e_id entry)")
    case None
    then have "merge_file_step s entry acc = (merged @ [entry], insert (e_id entry) seen, foreign + 1) \<and>
        e_id entry \<notin> seen \<and> from_mirror_or_file s rec entry \<or> merge_file_step s entry acc = acc"
      using assms(2) mirrored_None [of s "e_id entry"]
      by (auto simp: merge_file_step_def acc Let_def from_mirror_or_file_def)
    then show ?thesis using new assms(1) by auto
  next
    case (Some mine)
    then have "merge_file_step s entry acc = (merged @ [mine], insert (e_id mine) seen, foreign) \<and>
        e_id mine \<notin> seen \<and> from_mirror_or_file s rec mine \<or> merge_file_step s entry acc = acc"
      using mirrored_Some [OF Some] by (auto simp: merge_file_step_def acc Let_def from_mirror_or_file_def)
    then show ?thesis using new assms(1) by auto
  qed
qed

lemma merge_mirror_inv:
  assumes "merge_inv s rec acc" and "entry \<in> set (s_entries s)"
  shows "merge_inv s rec (merge_mirror_step entry acc) \<and>
    fst (snd (merge_mirror_step entry acc)) = insert (e_id entry) (fst (snd acc))"
  using assms by (auto simp: merge_inv_def merge_mirror_step_def from_mirror_or_file_def Let_def split: prod.splits)

lemma fold_merge_file_inv:
  "merge_inv s rec acc \<Longrightarrow> set es \<subseteq> set rec \<Longrightarrow> merge_inv s rec (fold (merge_file_step s) es acc)"
  by (induction es arbitrary: acc) (auto simp: merge_file_inv)

lemma fold_merge_mirror_inv:
  "merge_inv s rec acc \<Longrightarrow> set es \<subseteq> set (s_entries s) \<Longrightarrow>
   merge_inv s rec (fold merge_mirror_step es acc) \<and>
   fst (snd (fold merge_mirror_step es acc)) = e_id ` set es \<union> fst (snd acc)"
proof (induction es arbitrary: acc)
  case (Cons e es)
  have "merge_inv s rec (merge_mirror_step e acc)"
    "fst (snd (merge_mirror_step e acc)) = insert (e_id e) (fst (snd acc))"
    using merge_mirror_inv [of s rec acc e] Cons.prems by auto
  then show ?case using Cons.IH [of "merge_mirror_step e acc"] Cons.prems(2) by simp
qed simp

lemma merge_records_spec:
  assumes "distinct (map e_id (s_entries s))" and "merge_records s rec = (merged, foreign)"
  shows "distinct (map e_id merged)" and "\<forall>m \<in> set merged. from_mirror_or_file s rec m"
    and "set (s_entries s) \<subseteq> set merged"
proof -
  let ?a = "fold (merge_file_step s) rec ([], {}, 0)"
  let ?b = "fold merge_mirror_step (s_entries s) ?a"
  have b: "merge_inv s rec ?b" "fst (snd ?b) = e_id ` set (s_entries s) \<union> fst (snd ?a)"
    using fold_merge_mirror_inv [OF fold_merge_file_inv [of s rec "([], {}, 0)" rec], of "s_entries s"]
    by (auto simp: merge_inv_def)
  obtain seen where eq: "?b = (merged, seen, foreign)"
    using assms(2) by (cases ?b) (simp add: merge_records_def)
  then show d: "distinct (map e_id merged)" and src: "\<forall>m \<in> set merged. from_mirror_or_file s rec m"
    using b(1) by (simp_all add: merge_inv_def)
  show "set (s_entries s) \<subseteq> set merged"
  proof
    fix e assume e: "e \<in> set (s_entries s)"
    then have "e_id e \<in> e_id ` set merged" using b eq by (auto simp: merge_inv_def)
    then obtain m where m: "m \<in> set merged" "e_id m = e_id e" by auto
    then have "m \<in> set (s_entries s)" using src e by (force simp: from_mirror_or_file_def)
    with m e assms(1) show "e \<in> set merged" by (metis distinct_map_imp_eq)
  qed
qed

section \<open>The cap loop\<close>

text \<open>The loop drops a prefix of the merge, and from the mirror what that prefix shares with it.\<close>

lemma save_caps_spec:
  assumes "save_caps merged bytes drops s = (merged', drops', s')"
    and "distinct (map e_id (s_entries s))" and "distinct (map e_id merged)"
    and "\<forall>m \<in> set merged. e_id m \<in> e_id ` set (s_entries s) \<longrightarrow> m \<in> set (s_entries s)"
    and "s_ids s = e_id ` set (s_entries s) - e_id ` set drops"
    and "s_totalBytes s = bytes_of (filter (\<lambda>e. e_id e \<notin> e_id ` set drops) (s_entries s))"
    and "bytes = bytes_of merged" and "e_id ` set drops \<inter> e_id ` set merged = {}"
  shows "(\<exists>gone. merged = gone @ merged' \<and> e_id ` set drops' = e_id ` set drops \<union> (e_id ` set gone \<inter> e_id ` set (s_entries s))) \<and>
    s_ids s' = e_id ` set (s_entries s) - e_id ` set drops' \<and>
    s_totalBytes s' = bytes_of (filter (\<lambda>e. e_id e \<notin> e_id ` set drops') (s_entries s)) \<and>
    within_caps (s_maxEvents s) (s_maxBytes s) merged'"
  using assms
proof (induction merged bytes drops s rule: save_caps.induct)
  case (1 b drops s)
  then show ?case by (auto simp: within_caps_def)
next
  case (2 m ms b drops s)
  let ?s = "recordSettledLocked (e_id m) s"
  show ?case
  proof (cases "int (length (m # ms)) > s_maxEvents s \<or> b > s_maxBytes s")
    case False
    then show ?thesis using 2(3-) by (auto simp: within_caps_def)
  next
    case over: True
    show ?thesis
    proof (cases "e_id m \<in> s_ids s")
      case False
      have call: "save_caps ms (b - entry_bytes m) drops ?s = (merged', drops', s')"
        using 2(3) over False by (simp add: Let_def)
      have out: "e_id m \<notin> e_id ` set (s_entries s)"
        using False 2(7) 2(10) by auto
      have "(\<exists>gone. ms = gone @ merged' \<and> e_id ` set drops' = e_id ` set drops \<union> (e_id ` set gone \<inter> e_id ` set (s_entries ?s))) \<and>
        s_ids s' = e_id ` set (s_entries ?s) - e_id ` set drops' \<and>
        s_totalBytes s' = bytes_of (filter (\<lambda>e. e_id e \<notin> e_id ` set drops') (s_entries ?s)) \<and>
        within_caps (s_maxEvents ?s) (s_maxBytes ?s) merged'"
        using False 2(4-10) by (intro 2(2) [OF over refl _ call]) simp_all
      then obtain gone where g: "ms = gone @ merged'"
          "e_id ` set drops' = e_id ` set drops \<union> (e_id ` set gone \<inter> e_id ` set (s_entries s))"
        and rest: "s_ids s' = e_id ` set (s_entries s) - e_id ` set drops' \<and>
        s_totalBytes s' = bytes_of (filter (\<lambda>e. e_id e \<notin> e_id ` set drops') (s_entries s)) \<and>
        within_caps (s_maxEvents s) (s_maxBytes s) merged'"
        by auto
      have "e_id ` set (m # gone) \<inter> e_id ` set (s_entries s) = e_id ` set gone \<inter> e_id ` set (s_entries s)"
        using out by auto
      then show ?thesis using g rest by (intro conjI exI [of _ "m # gone"]) simp_all
    next
      case True
      let ?s2 = "?s\<lparr>s_ids := s_ids ?s - {e_id m}, s_totalBytes := s_totalBytes ?s - entry_bytes m\<rparr>"
      have call: "save_caps ms (b - entry_bytes m) (drops @ [m]) ?s2 = (merged', drops', s')"
        using 2(3) over True by (simp add: Let_def)
      have mE: "m \<in> set (s_entries s)" using True 2(6,7) by auto
      have mF: "m \<in> set (filter (\<lambda>e. e_id e \<notin> e_id ` set drops) (s_entries s))" using mE True 2(7) by auto
      have ids: "s_ids ?s2 = e_id ` set (s_entries s) - e_id ` set (drops @ [m])" using 2(7) by auto
      have tot: "s_totalBytes ?s2 = bytes_of (filter (\<lambda>e. e_id e \<notin> e_id ` set (drops @ [m])) (s_entries s))"
        using bytes_of_remove_id [OF distinct_map_filter [OF 2(4)] mF] 2(8)
        by (simp add: conj_commute cong: conj_cong)
      have "(\<exists>gone. ms = gone @ merged' \<and> e_id ` set drops' = e_id ` set (drops @ [m]) \<union> (e_id ` set gone \<inter> e_id ` set (s_entries ?s2))) \<and>
        s_ids s' = e_id ` set (s_entries ?s2) - e_id ` set drops' \<and>
        s_totalBytes s' = bytes_of (filter (\<lambda>e. e_id e \<notin> e_id ` set drops') (s_entries ?s2)) \<and>
        within_caps (s_maxEvents ?s2) (s_maxBytes ?s2) merged'"
      proof (rule 2(1) [OF over refl _ call])
        show "e_id m \<in> s_ids ?s" using True by simp
        show "distinct (map e_id (s_entries ?s2))" "distinct (map e_id ms)" "b - entry_bytes m = bytes_of ms"
          using 2(4,5,9) by simp_all
        show "\<forall>m \<in> set ms. e_id m \<in> e_id ` set (s_entries ?s2) \<longrightarrow> m \<in> set (s_entries ?s2)" using 2(6) by simp
        show "e_id ` set (drops @ [m]) \<inter> e_id ` set ms = {}" using 2(5,10) by auto
        show "s_ids ?s2 = e_id ` set (s_entries ?s2) - e_id ` set (drops @ [m])" using ids by simp
        show "s_totalBytes ?s2 = bytes_of (filter (\<lambda>e. e_id e \<notin> e_id ` set (drops @ [m])) (s_entries ?s2))" using tot by simp
      qed
      then obtain gone where g: "ms = gone @ merged'"
          "e_id ` set drops' = e_id ` set (drops @ [m]) \<union> (e_id ` set gone \<inter> e_id ` set (s_entries s))"
        and rest: "s_ids s' = e_id ` set (s_entries s) - e_id ` set drops' \<and>
        s_totalBytes s' = bytes_of (filter (\<lambda>e. e_id e \<notin> e_id ` set drops') (s_entries s)) \<and>
        within_caps (s_maxEvents s) (s_maxBytes s) merged'"
        by auto
      have "e_id ` set (drops @ [m]) \<union> (e_id ` set gone \<inter> e_id ` set (s_entries s)) =
          e_id ` set drops \<union> (e_id ` set (m # gone) \<inter> e_id ` set (s_entries s))"
        using mE by auto
      then show ?thesis using g rest by (intro conjI exI [of _ "m # gone"]) simp_all
    qed
  qed
qed

section \<open>Saving\<close>

lemma on_disk_eq: "on_disk f s = (fst (f (s_disk s)), s\<lparr>s_disk := snd (f (s_disk s))\<rparr>)"
  by (simp add: on_disk_def case_prod_beta Let_def)

text \<open>The fields a save leaves alone.\<close>

definition frame :: "diskSpool \<Rightarrow> int \<times> int \<times> bool \<times> u64 \<times> bool \<times> bool \<times> gostring \<times> spoolEntry list" where
  "frame s = (s_maxEvents s, s_maxBytes s, s_experimentsEnabled s, s_withdrawalEpoch s, s_owed s,
     s_grantPersisted s, s_actorDigest s, s_resend s)"

lemma frameD:
  "frame s' = frame s \<Longrightarrow> s_maxEvents s' = s_maxEvents s \<and> s_maxBytes s' = s_maxBytes s \<and>
    s_experimentsEnabled s' = s_experimentsEnabled s \<and> s_withdrawalEpoch s' = s_withdrawalEpoch s \<and>
    s_owed s' = s_owed s \<and> s_grantPersisted s' = s_grantPersisted s \<and> s_actorDigest s' = s_actorDigest s \<and>
    s_resend s' = s_resend s"
  by (simp add: frame_def)

lemma actor_record [simp]: "s_actorDigest (recordSettledLocked i s) = s_actorDigest s"
  by (simp add: recordSettledLocked_def Let_def)

lemma save_caps_frame:
  "save_caps merged b drops s = (m', d', s') \<Longrightarrow>
   frame s' = frame s \<and> s_entries s' = s_entries s \<and> s_withdrawnMarkerOwed s' = s_withdrawnMarkerOwed s \<and>
   s_withdrawnOwedIDs s' = s_withdrawnOwedIDs s \<and> s_disk s' = s_disk s \<and> s_uncountedIDs s' = s_uncountedIDs s \<and>
   s_retryAfterUntilMS s' = s_retryAfterUntilMS s \<and> s_pendingCapacityDrops s' = s_pendingCapacityDrops s \<and>
   s_deferredCapacityDrops s' = s_deferredCapacityDrops s \<and> s_tornTailOwed s' = s_tornTailOwed s"
proof (induction merged b drops s rule: save_caps.induct)
  case (2 m ms b drops s)
  show ?case
  proof (cases "int (length (m # ms)) > s_maxEvents s \<or> b > s_maxBytes s")
    case over: True
    show ?thesis
    proof (cases "e_id m \<in> s_ids s")
      case True
      then show ?thesis using 2(1) [OF over refl] 2(3) over by (simp add: Let_def frame_def)
    next
      case False
      then show ?thesis using 2(2) [OF over refl] 2(3) over by (simp add: Let_def frame_def)
    qed
  next
    case False
    then show ?thesis using 2(3) by simp
  qed
qed simp

lemma save_caps_settled: "save_caps merged b drops s = (m', d', s') \<Longrightarrow> settled_ok s \<Longrightarrow> settled_ok s'"
proof (induction merged b drops s rule: save_caps.induct)
  case (2 m ms b drops s)
  show ?case
  proof (cases "int (length (m # ms)) > s_maxEvents s \<or> b > s_maxBytes s")
    case over: True
    have ok: "settled_ok (recordSettledLocked (e_id m) s)" using 2(4) by (rule settled_record)
    then have ok': "settled_ok (recordSettledLocked (e_id m) s\<lparr>s_ids := X, s_totalBytes := Y\<rparr>)" for X Y
      by (simp add: settled_ok_def)
    show ?thesis
    proof (cases "e_id m \<in> s_ids s")
      case True
      then show ?thesis using 2(1) [OF over refl _ _ ok'] 2(3) over by (simp add: Let_def)
    next
      case False
      then show ?thesis using 2(2) [OF over refl _ _ ok] 2(3) over by (simp add: Let_def)
    qed
  qed (use 2 in \<open>auto simp: Let_def\<close>)
qed simp

lemma read_entries_eq:
  "readRecordEntriesLocked app_of s = (fst (readRecordEntriesLocked app_of s),
     s\<lparr>s_disk := snd (bounded_read (readLimitLocked s) (f_spool (s_disk s)) (s_disk s))\<rparr>)"
  by (simp add: readRecordEntriesLocked_def readRecordBytesLocked_def on_disk_eq case_prod_beta Let_def)

lemma merge_records_disk [simp]: "merge_records (s\<lparr>s_disk := d\<rparr>) = merge_records s"
proof -
  have "mirrored (s\<lparr>s_disk := d\<rparr>) = mirrored s" by (rule ext) (simp add: mirrored_def)
  then have "merge_file_step (s\<lparr>s_disk := d\<rparr>) = merge_file_step s"
    by (intro ext) (auto simp: merge_file_step_def split: prod.splits option.splits)
  then show ?thesis by (intro ext) (simp add: merge_records_def)
qed

text \<open>The first half of a save: the merge, the caps and the mirror that is left.\<close>

lemma save_merged_spec:
  assumes "save_merged app_of s = (merged, drops, s')" and "mirror_ok s" and "settled_ok s"
  shows "mirror_ok s' \<and> settled_ok s' \<and> frame s' = frame s \<and>
    s_entries s' = filter (\<lambda>e. e_id e \<notin> e_id ` set drops) (s_entries s) \<and>
    set (s_entries s') \<subseteq> set merged \<and> distinct (map e_id merged) \<and> within_caps (s_maxEvents s) (s_maxBytes s) merged \<and>
    e_id ` set drops \<inter> e_id ` set merged = {} \<and>
    (\<forall>m \<in> set merged. from_mirror_or_file s (fst (readRecordEntriesLocked app_of s)) m) \<and>
    s_withdrawnMarkerOwed s' = s_withdrawnMarkerOwed s \<and> s_withdrawnOwedIDs s' = s_withdrawnOwedIDs s \<and>
    s_disk s' = snd (bounded_read (readLimitLocked s) (f_spool (s_disk s)) (s_disk s)) \<and>
    s_uncountedIDs s' = s_uncountedIDs s \<and> s_pendingCapacityDrops s' = s_pendingCapacityDrops s \<and>
    s_deferredCapacityDrops s' = s_deferredCapacityDrops s \<and> s_tornTailOwed s' = s_tornTailOwed s \<and>
    s_retryAfterUntilMS s' = (if merged = [] then 0 else s_retryAfterUntilMS s)"
proof -
  let ?rec = "fst (readRecordEntriesLocked app_of s)"
  let ?s1 = "s\<lparr>s_disk := snd (bounded_read (readLimitLocked s) (f_spool (s_disk s)) (s_disk s))\<rparr>"
  obtain m0 foreign where m0: "merge_records ?s1 ?rec = (m0, foreign)" by (cases "merge_records ?s1 ?rec")
  have same: "merge_records s ?rec = (m0, foreign)"
    using m0 by simp
  let ?s2 = "?s1\<lparr>s_foreignMerged := s_foreignMerged ?s1 + foreign\<rparr>"
  obtain d3 s3 where c: "save_caps m0 (bytes_of m0) [] ?s2 = (merged, d3, s3)"
    and out: "drops = d3" "s' = (let s = s3\<lparr>s_entries := filter (\<lambda>e. e_id e \<notin> e_id ` set d3) (s_entries s3)\<rparr>
      in if merged = [] then s\<lparr>s_retryAfterUntilMS := 0\<rparr> else s)"
    using assms(1) m0 unfolding save_merged_def
    by (subst (asm) read_entries_eq) (auto simp: Let_def split: prod.splits)
  have d: "distinct (map e_id (s_entries s))" using assms(2) by (simp add: mirror_ok_def)
  note mr = merge_records_spec [OF d same]
  have src: "\<forall>m \<in> set m0. e_id m \<in> e_id ` set (s_entries ?s2) \<longrightarrow> m \<in> set (s_entries ?s2)"
    using mr(2) by (auto simp: from_mirror_or_file_def)
  have sp: "(\<exists>gone. m0 = gone @ merged \<and> e_id ` set d3 = e_id ` set ([] :: spoolEntry list) \<union> (e_id ` set gone \<inter> e_id ` set (s_entries ?s2))) \<and>
    s_ids s3 = e_id ` set (s_entries ?s2) - e_id ` set d3 \<and>
    s_totalBytes s3 = bytes_of (filter (\<lambda>e. e_id e \<notin> e_id ` set d3) (s_entries ?s2)) \<and>
    within_caps (s_maxEvents ?s2) (s_maxBytes ?s2) merged"
  proof (rule save_caps_spec [OF c])
    show "distinct (map e_id (s_entries ?s2))" using d by simp
    show "s_ids ?s2 = e_id ` set (s_entries ?s2) - e_id ` set ([] :: spoolEntry list)" using assms(2) by (simp add: mirror_ok_def)
    show "s_totalBytes ?s2 = bytes_of (filter (\<lambda>e. e_id e \<notin> e_id ` set ([] :: spoolEntry list)) (s_entries ?s2))"
      using assms(2) by (simp add: mirror_ok_def)
  qed (use mr(1) src in simp_all)
  then obtain gone where gone: "m0 = gone @ merged" "e_id ` set d3 = e_id ` set gone \<inter> e_id ` set (s_entries s)"
    by auto
  have fr: "frame s3 = frame s \<and> s_entries s3 = s_entries s \<and> s_withdrawnMarkerOwed s3 = s_withdrawnMarkerOwed s \<and>
    s_withdrawnOwedIDs s3 = s_withdrawnOwedIDs s \<and> s_disk s3 = s_disk ?s1 \<and> s_uncountedIDs s3 = s_uncountedIDs s \<and>
    s_retryAfterUntilMS s3 = s_retryAfterUntilMS s \<and> s_pendingCapacityDrops s3 = s_pendingCapacityDrops s \<and>
    s_deferredCapacityDrops s3 = s_deferredCapacityDrops s \<and> s_tornTailOwed s3 = s_tornTailOwed s"
    using save_caps_frame [OF c] by (simp add: frame_def)
  have set3: "settled_ok s3" using save_caps_settled [OF c] assms(3) by (simp add: settled_ok_def)
  have ent: "s_entries s' = filter (\<lambda>e. e_id e \<notin> e_id ` set d3) (s_entries s)" using out fr by (simp add: Let_def)
  have sub: "set (s_entries s') \<subseteq> set merged"
  proof
    fix e assume "e \<in> set (s_entries s')"
    then have e: "e \<in> set (s_entries s)" "e_id e \<notin> e_id ` set d3" using ent by auto
    then have "e \<in> set m0" using mr(3) by auto
    moreover have "e \<notin> set gone" using e gone(2) by auto
    ultimately show "e \<in> set merged" using gone(1) by auto
  qed
  have "e_id ` set (filter (\<lambda>e. e_id e \<notin> e_id ` set d3) (s_entries s)) = e_id ` set (s_entries s) - e_id ` set d3"
    by auto
  then have mir: "mirror_ok s'"
    using sp d ent by (auto simp: mirror_ok_def out Let_def)
  have srcs: "\<forall>m \<in> set merged. from_mirror_or_file s ?rec m" using mr(2) gone(1) by simp
  have rest: "settled_ok s' = settled_ok s3 \<and> frame s' = frame s3 \<and> s_withdrawnMarkerOwed s' = s_withdrawnMarkerOwed s3 \<and>
    s_withdrawnOwedIDs s' = s_withdrawnOwedIDs s3 \<and> s_disk s' = s_disk s3 \<and> s_uncountedIDs s' = s_uncountedIDs s3 \<and>
    s_retryAfterUntilMS s' = (if merged = [] then 0 else s_retryAfterUntilMS s3) \<and>
    s_pendingCapacityDrops s' = s_pendingCapacityDrops s3 \<and>
    s_deferredCapacityDrops s' = s_deferredCapacityDrops s3 \<and> s_tornTailOwed s' = s_tornTailOwed s3"
    using out(2) by (simp add: Let_def frame_def settled_ok_def)
  have dm: "distinct (map e_id merged)" using mr(1) gone(1) by simp
  have caps: "within_caps (s_maxEvents s) (s_maxBytes s) merged" using sp by simp
  have apart: "e_id ` set d3 \<inter> e_id ` set merged = {}" using mr(1) gone by auto
  show ?thesis
    unfolding out(1) by (intro conjI) (use rest fr mir set3 sub srcs ent dm caps apart in simp_all)
qed

lemma written_eq:
  "save_written merged s = (err, n, s') \<Longrightarrow>
   s' = s\<lparr>s_disk := s_disk s'\<rparr> \<and> f_withdrawn (s_disk s') = f_withdrawn (s_disk s) \<and> f_wipe (s_disk s') = f_wipe (s_disk s) \<and>
   (case renderDocumentLocked merged s of
      None \<Rightarrow> err = Some ErrRender \<and> s' = s
    | Some payload \<Rightarrow> n = int (length payload) \<and> f_spool (s_disk s') \<in> {f_spool (s_disk s), Some payload} \<and>
        err \<in> {None, Some ErrWrite} \<and> (err = None \<longrightarrow> f_spool (s_disk s') = Some payload))"
  using write_spool_either [of "the (renderDocumentLocked merged s)" "s_disk s"]
  by (auto simp: save_written_def on_disk_eq fs_frames fs_success Let_def split: option.splits if_splits)

lemma released [simp]:
  "s_pendingCapacityDrops (releaseDeferredCapacityDropsLocked s) = s_pendingCapacityDrops s @ s_deferredCapacityDrops s"
  "s_deferredCapacityDrops (releaseDeferredCapacityDropsLocked s) = []"
  "s_entries (releaseDeferredCapacityDropsLocked s) = s_entries s" "s_ids (releaseDeferredCapacityDropsLocked s) = s_ids s"
  "s_totalBytes (releaseDeferredCapacityDropsLocked s) = s_totalBytes s"
  "s_settledIDs (releaseDeferredCapacityDropsLocked s) = s_settledIDs s"
  "s_settledFIFO (releaseDeferredCapacityDropsLocked s) = s_settledFIFO s"
  "s_disk (releaseDeferredCapacityDropsLocked s) = s_disk s" "s_owed (releaseDeferredCapacityDropsLocked s) = s_owed s"
  "frame (releaseDeferredCapacityDropsLocked s) = frame s"
  "s_retryAfterUntilMS (releaseDeferredCapacityDropsLocked s) = s_retryAfterUntilMS s"
  "s_dirty (releaseDeferredCapacityDropsLocked s) = s_dirty s"
  "s_fileAppendable (releaseDeferredCapacityDropsLocked s) = s_fileAppendable s"
  "s_fileBytes (releaseDeferredCapacityDropsLocked s) = s_fileBytes s"
  "s_tornTailOwed (releaseDeferredCapacityDropsLocked s) = s_tornTailOwed s"
  "s_uncountedIDs (releaseDeferredCapacityDropsLocked s) = s_uncountedIDs s"
  "s_becameDurable (releaseDeferredCapacityDropsLocked s) = s_becameDurable s"
  "s_withdrawnMarkerOwed (releaseDeferredCapacityDropsLocked s) = s_withdrawnMarkerOwed s"
  "s_withdrawnOwedIDs (releaseDeferredCapacityDropsLocked s) = s_withdrawnOwedIDs s"
  by (simp_all add: releaseDeferredCapacityDropsLocked_def frame_def)

lemma remove_withdrawn_marker:
  "removeWithdrawnMarkerLocked s = (ok, s') \<Longrightarrow>
   s' = s\<lparr>s_disk := s_disk s'\<rparr> \<and> f_spool (s_disk s') = f_spool (s_disk s) \<and> f_wipe (s_disk s') = f_wipe (s_disk s) \<and>
   (ok \<longrightarrow> f_withdrawn (s_disk s') = None)"
  by (auto simp: removeWithdrawnMarkerLocked_def on_disk_eq fs_frames fs_success Let_def split: if_splits)

lemma disk_update_same:
  "s' = s\<lparr>s_disk := s_disk s'\<rparr> \<Longrightarrow>
   s_entries s' = s_entries s \<and> s_ids s' = s_ids s \<and> s_totalBytes s' = s_totalBytes s \<and>
   s_settledIDs s' = s_settledIDs s \<and> s_settledFIFO s' = s_settledFIFO s \<and> frame s' = frame s \<and>
   s_retryAfterUntilMS s' = s_retryAfterUntilMS s \<and> s_fileAppendable s' = s_fileAppendable s \<and>
   s_fileBytes s' = s_fileBytes s \<and> s_tornTailOwed s' = s_tornTailOwed s \<and> s_dirty s' = s_dirty s \<and>
   s_pendingCapacityDrops s' = s_pendingCapacityDrops s \<and> s_deferredCapacityDrops s' = s_deferredCapacityDrops s \<and>
   s_uncountedIDs s' = s_uncountedIDs s \<and> s_withdrawnMarkerOwed s' = s_withdrawnMarkerOwed s \<and>
   s_withdrawnOwedIDs s' = s_withdrawnOwedIDs s"
  by (cases s; cases s') (simp add: frame_def)

text \<open>The second half of a save: the file is written or it is not, and the accounts follow.\<close>

lemma saveLocked_out:
  assumes "save_merged app_of s = (merged, drops, s1)" and "save_written merged s1 = (err0, n, s2)"
    and "saveLocked app_of s = (err, s')"
  shows "s_entries s' = s_entries s1 \<and> s_ids s' = s_ids s1 \<and> s_totalBytes s' = s_totalBytes s1 \<and>
    s_settledIDs s' = s_settledIDs s1 \<and> s_settledFIFO s' = s_settledFIFO s1 \<and> frame s' = frame s1 \<and>
    s_retryAfterUntilMS s' = s_retryAfterUntilMS s1 \<and> s_dirty s' = (err \<noteq> None) \<and> s_fileAppendable s' = (err0 = None) \<and>
    f_spool (s_disk s') = f_spool (s_disk s2) \<and>
    (err0 \<noteq> None \<longrightarrow> err = err0 \<and> s_deferredCapacityDrops s' = s_deferredCapacityDrops s1 @ drops \<and>
       s_pendingCapacityDrops s' = s_pendingCapacityDrops s1 \<and> s_uncountedIDs s' = s_uncountedIDs s1 \<and>
       f_withdrawn (s_disk s') = f_withdrawn (s_disk s1) \<and>
       s_withdrawnMarkerOwed s' = s_withdrawnMarkerOwed s1 \<and> s_withdrawnOwedIDs s' = s_withdrawnOwedIDs s1) \<and>
    (err0 = None \<longrightarrow> s_fileBytes s' = n \<and> \<not> s_tornTailOwed s' \<and>
       s_pendingCapacityDrops s' = s_pendingCapacityDrops s1 @ drops @ s_deferredCapacityDrops s1 \<and>
       s_deferredCapacityDrops s' = [] \<and> s_uncountedIDs s' = {} \<and>
       (err = None \<and> \<not> s_withdrawnMarkerOwed s' \<and> (s_withdrawnMarkerOwed s1 \<longrightarrow> f_withdrawn (s_disk s') = None) \<or>
        err = Some ErrMarkerSpend \<and> s_withdrawnMarkerOwed s1 \<and> s_withdrawnMarkerOwed s' \<and>
          s_withdrawnOwedIDs s' = s_withdrawnOwedIDs s1))"
proof -
  have w: "s2 = s1\<lparr>s_disk := s_disk s2\<rparr>" "f_withdrawn (s_disk s2) = f_withdrawn (s_disk s1)"
    using written_eq [OF assms(2)] by simp_all
  note same = disk_update_same [OF w(1)]
  show ?thesis
  proof (cases err0)
    case (Some e)
    then have "s' = s2\<lparr>s_dirty := True, s_fileAppendable := False, s_tornTailOwed := s_tornTailOwed s2,
        s_deferredCapacityDrops := s_deferredCapacityDrops s2 @ drops\<rparr> \<and> err = err0"
      using assms by (simp add: saveLocked_def)
    moreover have "frame (s2\<lparr>s_dirty := a, s_fileAppendable := b, s_tornTailOwed := c, s_deferredCapacityDrops := d\<rparr>) = frame s2"
      for a b c d by (simp add: frame_def)
    ultimately show ?thesis using same w(2) Some by simp
  next
    case None
    define s3 where "s3 = releaseDeferredCapacityDropsLocked (s2\<lparr>s_dirty := False, s_fileAppendable := True, s_tornTailOwed := False,
       s_fileBytes := n, s_pendingCapacityDrops := s_pendingCapacityDrops s2 @ drops\<rparr>)"
    define s4 where "s4 = s3\<lparr>s_becameDurable := s_becameDurable s3 + int (card (s_uncountedIDs s3 \<inter> s_ids s3)), s_uncountedIDs := {}\<rparr>"
    have out: "(err, s') = (if s_withdrawnMarkerOwed s4 then
        (let (removed, s) = removeWithdrawnMarkerLocked s4
         in if removed then (None, s\<lparr>s_withdrawnMarkerOwed := False, s_withdrawnOwedIDs := []\<rparr>)
            else (Some ErrMarkerSpend, s\<lparr>s_dirty := True\<rparr>)) else (None, s4))"
      by (subst assms(3) [symmetric]) (use assms(1,2) None in \<open>simp add: saveLocked_def s3_def s4_def\<close>)
    have f4: "s_entries s4 = s_entries s1 \<and> s_ids s4 = s_ids s1 \<and> s_totalBytes s4 = s_totalBytes s1 \<and>
      s_settledIDs s4 = s_settledIDs s1 \<and> s_settledFIFO s4 = s_settledFIFO s1 \<and> frame s4 = frame s1 \<and>
      s_retryAfterUntilMS s4 = s_retryAfterUntilMS s1 \<and> \<not> s_dirty s4 \<and> s_fileAppendable s4 \<and>
      s_disk s4 = s_disk s2 \<and> s_fileBytes s4 = n \<and> \<not> s_tornTailOwed s4 \<and> s_uncountedIDs s4 = {} \<and>
      s_pendingCapacityDrops s4 = s_pendingCapacityDrops s1 @ drops @ s_deferredCapacityDrops s1 \<and>
      s_deferredCapacityDrops s4 = [] \<and> s_withdrawnMarkerOwed s4 = s_withdrawnMarkerOwed s1 \<and>
      s_withdrawnOwedIDs s4 = s_withdrawnOwedIDs s1"
      using same by (simp add: s4_def s3_def) (simp add: frame_def releaseDeferredCapacityDropsLocked_def)
    show ?thesis
    proof (cases "s_withdrawnMarkerOwed s4")
      case False
      then show ?thesis using out f4 None by simp
    next
      case True
      obtain ok s5 where r: "removeWithdrawnMarkerLocked s4 = (ok, s5)" by (cases "removeWithdrawnMarkerLocked s4")
      note rm = remove_withdrawn_marker [OF r]
      note same5 = disk_update_same [OF conjunct1 [OF rm]]
      show ?thesis using out True r f4 rm same5 None by (cases ok) (simp_all add: frame_def)
    qed
  qed
qed

lemma within_caps_subset:
  "within_caps a b fs \<Longrightarrow> set es \<subseteq> set fs \<Longrightarrow> distinct (map e_id es) \<Longrightarrow> within_caps a b es"
  using bytes_of_subset [of es fs] distinct_ids_distinct [of es] by (auto simp: within_caps_def)

lemma saveLocked_invs:
  assumes "saveLocked app_of s = (err, s')" and "mirror_ok s" and "settled_ok s"
  shows "mirror_ok s' \<and> settled_ok s' \<and> caps_ok s' \<and> frame s' = frame s \<and>
    (\<exists>D. s_entries s' = filter (\<lambda>e. e_id e \<notin> D) (s_entries s))"
proof -
  obtain merged drops s1 where m: "save_merged app_of s = (merged, drops, s1)" by (cases "save_merged app_of s") auto
  obtain err0 n s2 where w: "save_written merged s1 = (err0, n, s2)" by (cases "save_written merged s1") auto
  note sp = save_merged_spec [OF m assms(2,3)] and out = saveLocked_out [OF m w assms(1)]
  have f: "s_maxEvents s' = s_maxEvents s" "s_maxBytes s' = s_maxBytes s"
    using sp out by (auto simp: frame_def)
  have "within_caps (s_maxEvents s) (s_maxBytes s) (s_entries s1)"
    using sp by (intro within_caps_subset [of _ _ merged "s_entries s1"]) (auto simp: mirror_ok_def)
  then have "caps_ok s'" using out f by (simp add: caps_ok_def)
  moreover have "mirror_ok s' = mirror_ok s1" using out by (simp add: mirror_ok_def)
  moreover have "settled_ok s' = settled_ok s1" using out by (simp add: settled_ok_def)
  moreover have "frame s' = frame s" using sp out by simp
  moreover have "mirror_ok s1" "settled_ok s1" using sp by simp_all
  moreover have "s_entries s' = filter (\<lambda>e. e_id e \<notin> e_id ` set drops) (s_entries s)" using sp out by simp
  ultimately show ?thesis by blast
qed

section \<open>The invariant of a spool\<close>

text \<open>\<open>body\<close> gives the payload an event identifier stands for: every entry of the mirror and of the
  resend queue carries it, so a stale queue entry is the event it names.\<close>

definition spool_inv :: "diskSpool \<Rightarrow> bool" where
  "spool_inv s \<longleftrightarrow> mirror_ok s \<and> caps_ok s \<and> settled_ok s"

definition carries :: "(gostring \<Rightarrow> gostring) \<Rightarrow> spoolEntry list \<Rightarrow> bool" where
  "carries body es \<longleftrightarrow> (\<forall>e \<in> set es. e_raw e = body (e_id e))"

definition bodies :: "(gostring \<Rightarrow> gostring) \<Rightarrow> diskSpool \<Rightarrow> bool" where
  "bodies body s \<longleftrightarrow> carries body (s_entries s) \<and> carries body (s_resend s)"

lemma mirror_cong:
  "s_entries s' = s_entries s \<Longrightarrow> s_ids s' = s_ids s \<Longrightarrow> s_totalBytes s' = s_totalBytes s \<Longrightarrow> mirror_ok s' = mirror_ok s"
  by (simp add: mirror_ok_def)

lemma caps_cong:
  "s_entries s' = s_entries s \<Longrightarrow> s_maxEvents s' = s_maxEvents s \<Longrightarrow> s_maxBytes s' = s_maxBytes s \<Longrightarrow> caps_ok s' = caps_ok s"
  by (simp add: caps_ok_def)

lemma carries_simps [simp]:
  "carries body []" "carries body (e # es) \<longleftrightarrow> e_raw e = body (e_id e) \<and> carries body es"
  "carries body (es @ fs) \<longleftrightarrow> carries body es \<and> carries body fs"
  by (auto simp: carries_def)

lemma carries_filter [simp]: "carries body es \<Longrightarrow> carries body (filter P es)"
  by (auto simp: carries_def)

lemma save_inv:
  assumes "mirror_ok s" and "settled_ok s" and "bodies body s"
  shows "spool_inv (snd (saveLocked app_of s)) \<and> bodies body (snd (saveLocked app_of s))"
proof -
  obtain err s' where sv: "saveLocked app_of s = (err, s')" by (cases "saveLocked app_of s")
  from saveLocked_invs [OF sv assms(1,2)] assms(3) show ?thesis
    by (auto simp: sv spool_inv_def bodies_def dest!: frameD)
qed

lemma settled_fold:
  "settled_ok s \<Longrightarrow> settled_ok (fold (\<lambda>e. recordSettledLocked (e_id e)) es s)"
  by (induction es arbitrary: s) (auto intro: settled_record)

section \<open>Eviction\<close>

lemma evict_spec:
  assumes "evictOverCapsLocked s = (evicted, s')"
  shows "s_entries s = evicted @ s_entries s' \<and> frame s' = frame s \<and>
    (mirror_ok s \<longrightarrow> mirror_ok s' \<and> caps_ok s' \<and>
       (\<forall>a b. evicted = a @ b \<longrightarrow> b \<noteq> [] \<longrightarrow> \<not> within_caps (s_maxEvents s) (s_maxBytes s) (b @ s_entries s'))) \<and>
    (settled_ok s \<longrightarrow> settled_ok s') \<and> s_uncountedIDs s' = s_uncountedIDs s \<and> s_dirty s' = s_dirty s \<and>
    s_disk s' = s_disk s \<and> s_fileAppendable s' = s_fileAppendable s \<and> s_fileBytes s' = s_fileBytes s \<and>
    s_withdrawnOwedIDs s' = s_withdrawnOwedIDs s \<and> s_withdrawnMarkerOwed s' = s_withdrawnMarkerOwed s \<and>
    s_deferredCapacityDrops s' = s_deferredCapacityDrops s \<and> s_retryAfterUntilMS s' = s_retryAfterUntilMS s \<and>
    s_tornTailOwed s' = s_tornTailOwed s"
  using assms
proof (induction s arbitrary: evicted s' rule: evictOverCapsLocked.induct)
  case (1 s)
  show ?case
  proof (cases "s_entries s")
    case Nil
    then show ?thesis using 1(2) by (subst (asm) evictOverCapsLocked.simps) (auto simp: caps_ok_def within_caps_def)
  next
    case (Cons oldest rest)
    show ?thesis
    proof (cases "int (length (s_entries s)) > s_maxEvents s \<or> s_totalBytes s > s_maxBytes s")
      case False
      then show ?thesis using 1(2) Cons
        by (subst (asm) evictOverCapsLocked.simps) (auto simp: caps_ok_def within_caps_def mirror_ok_def)
    next
      case over: True
      let ?s = "(recordSettledLocked (e_id oldest) (s\<lparr>s_entries := rest, s_ids := s_ids s - {e_id oldest}\<rparr>))
        \<lparr>s_totalBytes := s_totalBytes s - entry_bytes oldest\<rparr>"
      obtain ev s3 where rec: "evictOverCapsLocked ?s = (ev, s3)" by (cases "evictOverCapsLocked ?s")
      have out: "evicted = oldest # ev" "s' = s3"
        using 1(2) Cons over rec by (subst (asm) evictOverCapsLocked.simps, simp add: Let_def)+
      note IH = 1(1) [OF Cons over refl refl rec]
      have fr: "frame ?s = frame s" by (simp add: frame_def)
      have m: "mirror_ok s \<Longrightarrow> mirror_ok ?s" using Cons by (auto simp: mirror_ok_def)
      have st: "settled_ok s \<Longrightarrow> settled_ok ?s"
        using settled_record [of "s\<lparr>s_entries := rest, s_ids := s_ids s - {e_id oldest}\<rparr>" "e_id oldest"]
        by (simp add: settled_ok_def)
      have ent: "rest = ev @ s_entries s3" using IH by simp
      have minimal: "\<not> within_caps (s_maxEvents s) (s_maxBytes s) (b @ s_entries s')"
        if "mirror_ok s" "evicted = a @ b" "b \<noteq> []" for a b
      proof (cases a)
        case Nil
        then show ?thesis using that over Cons out ent by (auto simp: within_caps_def mirror_ok_def)
      next
        case (Cons x xs)
        then show ?thesis using that out IH m by simp
      qed
      show ?thesis
        using IH out fr m st ent minimal Cons by simp
    qed
  qed
qed

section \<open>Removal\<close>

definition drop_one :: "spoolEntry \<Rightarrow> diskSpool \<Rightarrow> diskSpool" where
  "drop_one e s = (recordSettledLocked (e_id e) (s\<lparr>s_ids := s_ids s - {e_id e}\<rparr>))\<lparr>s_totalBytes := s_totalBytes s - entry_bytes e\<rparr>"

lemma drop_one_facts:
  "s_ids (drop_one e s) = s_ids s - {e_id e}" "s_totalBytes (drop_one e s) = s_totalBytes s - entry_bytes e"
  "s_entries (drop_one e s) = s_entries s" "frame (drop_one e s) = frame s" "s_disk (drop_one e s) = s_disk s"
  "s_withdrawnOwedIDs (drop_one e s) = s_withdrawnOwedIDs s" "s_withdrawnMarkerOwed (drop_one e s) = s_withdrawnMarkerOwed s"
  "settled_ok s \<Longrightarrow> settled_ok (drop_one e s)"
  using settled_record [of "s\<lparr>s_ids := s_ids s - {e_id e}\<rparr>" "e_id e"]
  by (simp_all add: drop_one_def frame_def settled_ok_def)

lemma fold_drop_one:
  "s_ids (fold drop_one es s) = s_ids s - e_id ` set es \<and> s_totalBytes (fold drop_one es s) = s_totalBytes s - bytes_of es \<and>
   s_entries (fold drop_one es s) = s_entries s \<and> frame (fold drop_one es s) = frame s \<and>
   s_disk (fold drop_one es s) = s_disk s \<and> s_withdrawnOwedIDs (fold drop_one es s) = s_withdrawnOwedIDs s \<and>
   s_withdrawnMarkerOwed (fold drop_one es s) = s_withdrawnMarkerOwed s \<and>
   (settled_ok s \<longrightarrow> settled_ok (fold drop_one es s))"
  by (induction es arbitrary: s) (auto simp: drop_one_facts)

lemma drop_ids_spec:
  assumes "drop_ids gone s = (removed, s')"
  shows "removed = filter (\<lambda>e. e_id e \<in> gone) (s_entries s) \<and>
    s_entries s' = filter (\<lambda>e. e_id e \<notin> gone) (s_entries s) \<and> frame s' = frame s \<and> s_disk s' = s_disk s \<and>
    s_withdrawnOwedIDs s' = s_withdrawnOwedIDs s \<and> s_withdrawnMarkerOwed s' = s_withdrawnMarkerOwed s \<and>
    (mirror_ok s \<longrightarrow> mirror_ok s') \<and> (settled_ok s \<longrightarrow> settled_ok s')"
proof -
  let ?r = "filter (\<lambda>e. e_id e \<in> gone) (s_entries s)"
  let ?f = "fold drop_one ?r s"
  have out: "removed = ?r" "s' = ?f\<lparr>s_entries := filter (\<lambda>e. e_id e \<notin> gone) (s_entries ?f)\<rparr>"
    using assms by (auto simp: drop_ids_def drop_one_def [abs_def] Let_def)
  note fd = fold_drop_one [of ?r s]
  have "mirror_ok s'" if "mirror_ok s"
  proof -
    have "s_ids s - e_id ` set ?r = e_id ` set (filter (\<lambda>e. e_id e \<notin> gone) (s_entries s))"
      using that by (auto simp: mirror_ok_def)
    moreover have "s_totalBytes s - bytes_of ?r = bytes_of (filter (\<lambda>e. e_id e \<notin> gone) (s_entries s))"
      using that bytes_of_split [of "s_entries s" "\<lambda>e. e_id e \<in> gone"] by (simp add: mirror_ok_def)
    ultimately show ?thesis using that fd by (simp add: out mirror_ok_def distinct_map_filter)
  qed
  moreover have "settled_ok s'" if "settled_ok s" using that fd by (simp add: out settled_ok_def)
  ultimately show ?thesis using fd by (simp add: out frame_def)
qed

lemma drop_resend_facts [simp]:
  "mirror_ok (drop_resend g s) = mirror_ok s" "settled_ok (drop_resend g s) = settled_ok s"
  "s_entries (drop_resend g s) = s_entries s" "s_disk (drop_resend g s) = s_disk s"
  "s_resend (drop_resend g s) = filter (\<lambda>e. e_id e \<notin> g) (s_resend s)" "s_ids (drop_resend g s) = s_ids s"
  "s_settledIDs (drop_resend g s) = s_settledIDs s" "s_withdrawnOwedIDs (drop_resend g s) = s_withdrawnOwedIDs s"
  "s_maxEvents (drop_resend g s) = s_maxEvents s" "s_maxBytes (drop_resend g s) = s_maxBytes s"
  by (simp_all add: drop_resend_def mirror_ok_def settled_ok_def)

lemma ack_inv:
  assumes "spool_inv s" and "bodies body s"
  shows "spool_inv (snd (snd (ack app_of ids s))) \<and> bodies body (snd (snd (ack app_of ids s)))"
proof -
  obtain removed s1 where d: "drop_ids (set ids) s = (removed, s1)" by (cases "drop_ids (set ids) s")
  note sp = drop_ids_spec [OF d]
  let ?s2 = "drop_resend (set ids) s1"
  have s1: "spool_inv s1" if "removed = []"
  proof -
    have "filter (\<lambda>e. e_id e \<in> set ids) (s_entries s) = []" using sp that by (metis)
    then have "s_entries s1 = s_entries s" using sp by (simp add: filter_empty_conv filter_id_conv)
    then show ?thesis using sp assms(1) frameD [of s1 s] by (simp add: spool_inv_def caps_ok_def)
  qed
  have b1: "bodies body s1" using sp assms(2) frameD [of s1 s] by (simp add: bodies_def)
  have "mirror_ok ?s2" "settled_ok ?s2" "bodies body ?s2"
    using sp assms b1 by (simp_all add: spool_inv_def bodies_def)
  note sv = save_inv [OF this, of app_of]
  show ?thesis
    using assms s1 b1 sv d by (auto simp: ack_def Let_def case_prod_beta)
qed

lemma marker_write_spec:
  assumes "writeWithdrawnMarkerLocked ids s = (err, s')"
  shows "s' = s\<lparr>s_withdrawnOwedIDs := s_withdrawnOwedIDs s', s_disk := s_disk s'\<rparr> \<and>
    (set (s_withdrawnOwedIDs s) \<union> set ids) - {[]} \<subseteq> set (s_withdrawnOwedIDs s') \<and>
    f_spool (s_disk s') = f_spool (s_disk s) \<and> f_wipe (s_disk s') = f_wipe (s_disk s) \<and>
    (err = None \<longrightarrow> f_withdrawn (s_disk s') = Some (marshal_ids (s_withdrawnOwedIDs s')))"
  using assms
  by (auto simp: writeWithdrawnMarkerLocked_def on_disk_eq fs_frames fs_success Let_def case_prod_beta split: if_splits)

lemma marker_write_same:
  "s' = s\<lparr>s_withdrawnOwedIDs := x, s_disk := y\<rparr> \<Longrightarrow>
   s_entries s' = s_entries s \<and> mirror_ok s' = mirror_ok s \<and> settled_ok s' = settled_ok s \<and> frame s' = frame s"
  by (simp add: mirror_ok_def settled_ok_def frame_def)

lemma removeMatching_inv:
  assumes "spool_inv s" and "bodies body s"
  shows "spool_inv (snd (snd (removeMatchingAfter app_of matches k s))) \<and>
    bodies body (snd (snd (removeMatchingAfter app_of matches k s)))"
proof -
  define removed where "removed = filter (\<lambda>e. \<not> (k > 0 \<and> e_expFactEpoch e \<ge> k) \<and> e_internalFact e \<and> matches (e_raw e)) (s_entries s)"
  obtain err s1 where w: "writeWithdrawnMarkerLocked (map e_id removed) s = (err, s1)"
    by (cases "writeWithdrawnMarkerLocked (map e_id removed) s")
  note same = marker_write_same [OF conjunct1 [OF marker_write_spec [OF w]]]
  let ?s2 = "s1\<lparr>s_withdrawnMarkerOwed := True\<rparr>"
  obtain r3 s3 where d: "drop_ids (e_id ` set removed) ?s2 = (r3, s3)" by (cases "drop_ids (e_id ` set removed) ?s2")
  note sp = drop_ids_spec [OF d]
  let ?s4 = "drop_resend (e_id ` set removed) s3\<lparr>s_withdrawalEpoch := s_withdrawalEpoch (drop_resend (e_id ` set removed) s3) + 1\<rparr>"
  have "mirror_ok ?s2" "settled_ok ?s2" "frame ?s2 = frame s"
    using same assms(1) by (simp_all add: spool_inv_def mirror_ok_def settled_ok_def frame_def)
  then have "mirror_ok s3" "settled_ok s3" "s_resend s3 = s_resend s" "s_entries s3 = filter (\<lambda>e. e_id e \<notin> e_id ` set removed) (s_entries s)"
    using sp same frameD [of s3 s] by simp_all
  then have "mirror_ok ?s4" "settled_ok ?s4" "bodies body ?s4"
    using assms(2) by (simp_all add: drop_resend_def mirror_ok_def settled_ok_def bodies_def)
  note sv = save_inv [OF this, of app_of]
  show ?thesis
    unfolding removeMatchingAfter_def removed_def [symmetric]
    using assms sv w d by (simp add: Let_def case_prod_beta)
qed

section \<open>Resending\<close>

lemma remove_one_entry:
  assumes "mirror_ok s" and "bodies body s" and "i \<in> s_ids s" and "e_id e = i" and "e_raw e = body i"
  shows "s_totalBytes s - entry_bytes e = bytes_of (filter (\<lambda>x. e_id x \<noteq> i) (s_entries s))"
proof -
  obtain m where m: "m \<in> set (s_entries s)" "e_id m = i" using assms(1,3) by (auto simp: mirror_ok_def)
  then have "e_raw m = e_raw e" using assms(2,5) by (auto simp: bodies_def carries_def)
  then have "entry_bytes m = entry_bytes e" by (simp add: entry_bytes_def)
  then show ?thesis using bytes_of_remove_id [of "s_entries s" m] m assms(1) by (simp add: mirror_ok_def)
qed

text \<open>What the pull loop returns: the chunk's entries are unexpired entries of the queue that the
  mirror still holds, in order; the expired ones leave the mirror; the queue loses a prefix.\<close>

definition pull_inv :: "diskSpool \<Rightarrow> diskSpool \<Rightarrow> bool" where
  "pull_inv s s' \<longleftrightarrow> mirror_ok s' \<and> settled_ok s' \<and> (caps_ok s \<longrightarrow> caps_ok s') \<and>
     s_owed s' = s_owed s \<and> set (s_entries s') \<subseteq> set (s_entries s) \<and> set (s_resend s') \<subseteq> set (s_resend s)"

lemma pull_inv_trans: "pull_inv s s1 \<Longrightarrow> pull_inv s1 s2 \<Longrightarrow> pull_inv s s2"
  by (auto simp: pull_inv_def)

lemma within_caps_filter: "within_caps a b es \<Longrightarrow> within_caps a b (filter P es)"
proof -
  assume w: "within_caps a b es"
  have "int (length (filter P es)) \<le> a" if "int (length es) \<le> a"
    using length_filter_le [of P es] that by linarith
  moreover have "bytes_of (filter P es) \<le> bytes_of es" by (rule bytes_of_filter_le)
  ultimately show ?thesis using w by (auto simp: within_caps_def)
qed

lemma pull_loop_inv:
  assumes "pull_loop limit now chunk expired s = (chunk', expired', s')"
    and "mirror_ok s" and "settled_ok s" and "bodies body s"
  shows "pull_inv s s' \<and>
    (\<exists>more. chunk' = chunk @ more \<and> (\<forall>e \<in> set more. e \<in> set (s_resend s) \<and> e_id e \<in> s_ids s \<and> \<not> spoolEntryExpired e now)) \<and>
    (\<exists>more. expired' = expired @ more \<and> (\<forall>e \<in> set more. e \<in> set (s_resend s) \<and> spoolEntryExpired e now \<and> e_id e \<notin> s_ids s')) \<and>
    length chunk' \<le> max limit (length chunk) \<and> (s_resend s' = [] \<or> limit \<le> length chunk')"
  using assms
proof (induction limit now chunk expired s rule: pull_loop.induct)
  case (1 limit now chunk expired s)
  note eq = 1(4)
  show ?case
  proof (cases "length chunk < limit")
    case False
    then show ?thesis using eq 1(5,6) by (subst (asm) pull_loop.simps) (auto simp: pull_inv_def)
  next
    case room: True
    show ?thesis
    proof (cases "s_resend s")
      case Nil
      then show ?thesis using eq room 1(5,6) by (subst (asm) pull_loop.simps) (auto simp: pull_inv_def)
    next
      case (Cons entry rest)
      let ?s = "s\<lparr>s_resend := rest\<rparr>"
      have s0: "mirror_ok ?s" "settled_ok ?s" "bodies body ?s" "caps_ok ?s = caps_ok s"
        using 1(5-7) Cons by (simp_all add: mirror_ok_def settled_ok_def bodies_def caps_ok_def)
      show ?thesis
      proof (cases "e_id entry \<in> s_ids s")
        case False
        then have "pull_loop limit now chunk expired ?s = (chunk', expired', s')"
          using eq room Cons by (subst (asm) pull_loop.simps) simp
        from 1(1) [OF room Cons refl _ this s0(1-3)] False show ?thesis
          using Cons s0(4) by (auto simp: pull_inv_def)
      next
        case held: True
        show ?thesis
        proof (cases "spoolEntryExpired entry now")
          case False
          then have "pull_loop limit now (chunk @ [entry]) expired ?s = (chunk', expired', s')"
            using eq room Cons held by (subst (asm) pull_loop.simps) simp
          from 1(3) [OF room Cons refl _ _ this s0(1-3)] held False room
          have IH: "pull_inv ?s s'" "length chunk' \<le> max limit (Suc (length chunk))" "s_resend s' = [] \<or> limit \<le> length chunk'"
            and more: "\<exists>more. chunk' = (chunk @ [entry]) @ more \<and> (\<forall>e \<in> set more. e \<in> set rest \<and> e_id e \<in> s_ids s \<and> \<not> spoolEntryExpired e now)"
              "\<exists>more. expired' = expired @ more \<and> (\<forall>e \<in> set more. e \<in> set rest \<and> spoolEntryExpired e now \<and> e_id e \<notin> s_ids s')"
            by auto
          from more(1) obtain m where m: "chunk' = chunk @ entry # m"
            "\<forall>e \<in> set (entry # m). e \<in> set (s_resend s) \<and> e_id e \<in> s_ids s \<and> \<not> spoolEntryExpired e now"
            using Cons held False by auto
          then show ?thesis using IH more(2) Cons s0(4) room by (auto simp: pull_inv_def)
        next
          case exp: True
          let ?t = "(recordSettledLocked (e_id entry) (?s\<lparr>s_ids := s_ids ?s - {e_id entry}\<rparr>))
            \<lparr>s_totalBytes := s_totalBytes ?s - entry_bytes entry,
             s_entries := filter (\<lambda>e. e_id e \<noteq> e_id entry) (s_entries ?s)\<rparr>"
          have raw: "e_raw entry = body (e_id entry)" using 1(7) Cons by (simp add: bodies_def)
          have "s_ids s - {e_id entry} = e_id ` set (filter (\<lambda>e. e_id e \<noteq> e_id entry) (s_entries s))"
            using 1(5) by (auto simp: mirror_ok_def)
          then have t1: "mirror_ok ?t"
            using remove_one_entry [OF 1(5) 1(7) held refl raw] 1(5)
            by (simp add: mirror_ok_def distinct_map_filter)
          have t2: "settled_ok ?t"
            using settled_record [of "?s\<lparr>s_ids := s_ids ?s - {e_id entry}\<rparr>" "e_id entry"] s0(2)
            by (simp add: settled_ok_def)
          have t3: "bodies body ?t" using s0(3) by (simp add: bodies_def)
          have t4: "pull_inv s ?t"
            using t1 t2 Cons within_caps_filter by (auto simp: pull_inv_def caps_ok_def)
          have "pull_loop limit now chunk (expired @ [entry]) ?t = (chunk', expired', s')"
            using eq room Cons held exp by (subst (asm) pull_loop.simps) simp
          from 1(2) [OF room Cons refl _ exp this t1 t2 t3] held
          have IH: "pull_inv ?t s'" "length chunk' \<le> max limit (length chunk)" "s_resend s' = [] \<or> limit \<le> length chunk'"
            and more: "\<exists>more. chunk' = chunk @ more \<and> (\<forall>e \<in> set more. e \<in> set rest \<and> e_id e \<in> s_ids s - {e_id entry} \<and> \<not> spoolEntryExpired e now)"
              "\<exists>more. expired' = (expired @ [entry]) @ more \<and> (\<forall>e \<in> set more. e \<in> set rest \<and> spoolEntryExpired e now \<and> e_id e \<notin> s_ids s')"
            by simp_all
          have "e_id entry \<notin> s_ids s'"
            using IH(1) by (auto simp: pull_inv_def mirror_ok_def)
          with more(2) obtain m where "expired' = expired @ entry # m"
            "\<forall>e \<in> set (entry # m). e \<in> set (s_resend s) \<and> spoolEntryExpired e now \<and> e_id e \<notin> s_ids s'"
            using Cons exp by auto
          moreover have "\<exists>more. chunk' = chunk @ more \<and> (\<forall>e \<in> set more. e \<in> set (s_resend s) \<and> e_id e \<in> s_ids s \<and> \<not> spoolEntryExpired e now)"
            using more(1) Cons by auto
          ultimately show ?thesis using IH pull_inv_trans [OF t4 IH(1)] by blast
        qed
      qed
    qed
  qed
qed

lemma pull_inv_spool:
  assumes "spool_inv s" and "bodies body s"
  shows "spool_inv (snd (snd (snd (pullResendChunk app_of limit now s)))) \<and>
    bodies body (snd (snd (snd (pullResendChunk app_of limit now s))))"
proof -
  obtain chunk expired s1 where p: "pull_loop limit now [] [] s = (chunk, expired, s1)"
    by (cases "pull_loop limit now [] [] s") auto
  have m: "mirror_ok s" "settled_ok s" "caps_ok s" using assms(1) by (simp_all add: spool_inv_def)
  have i: "pull_inv s s1" using pull_loop_inv [OF p m(1,2) assms(2)] by simp
  then have s1: "mirror_ok s1" "settled_ok s1" "caps_ok s1" "bodies body s1"
    using m(3) assms(2) by (auto simp: pull_inv_def bodies_def carries_def)
  from save_inv [OF s1(1,2,4), of app_of] s1 assms p show ?thesis
    by (simp add: pullResendChunk_def case_prod_beta Let_def spool_inv_def)
qed

section \<open>Appending\<close>

lemma intake_fold:
  assumes "fold (intake_step now excluded) batch (ins, expired, s) = (ins', expired', s')"
    and "mirror_ok s" and "carries body (s_entries s)" and "carries body batch"
  shows "mirror_ok s' \<and> (settled_ok s' = settled_ok s) \<and> frame s' = frame s \<and> carries body (s_entries s') \<and>
    (\<exists>new. ins' = ins @ new \<and> s_entries s' = s_entries s @ new \<and>
       (\<forall>e \<in> set new. e \<in> set batch \<and> e_id e \<noteq> [] \<and> e_id e \<notin> excluded \<and> \<not> spoolEntryExpired e now \<and> e_id e \<notin> s_ids s)) \<and>
    (\<exists>old. expired' = expired @ old \<and> (\<forall>e \<in> set old. e \<in> set batch \<and> spoolEntryExpired e now)) \<and>
    (\<forall>e \<in> set batch. e_id e \<noteq> [] \<longrightarrow> e_id e \<notin> excluded \<longrightarrow> spoolEntryExpired e now \<and> e \<in> set expired' \<or> e_id e \<in> s_ids s') \<and>
    s_ids s \<subseteq> s_ids s'"
  using assms
proof (induction batch arbitrary: ins expired s)
  case Nil
  then show ?case by simp
next
  case (Cons e batch)
  obtain i1 x1 s1 where st: "intake_step now excluded e (ins, expired, s) = (i1, x1, s1)"
    by (cases "intake_step now excluded e (ins, expired, s)") auto
  have rec: "fold (intake_step now excluded) batch (i1, x1, s1) = (ins', expired', s')" using Cons.prems(1) st by simp
  consider (skip) "e_id e = [] \<or> e_id e \<in> excluded \<or> e_id e \<in> s_ids s" "i1 = ins" "x1 = expired" "s1 = s"
    | (old) "e_id e \<noteq> []" "e_id e \<notin> excluded" "spoolEntryExpired e now" "i1 = ins" "x1 = expired @ [e]" "s1 = s"
    | (new) "e_id e \<noteq> []" "e_id e \<notin> excluded" "\<not> spoolEntryExpired e now" "e_id e \<notin> s_ids s"
        "i1 = ins @ [e]" "x1 = expired" "s1 = s\<lparr>s_entries := s_entries s @ [e], s_ids := insert (e_id e) (s_ids s),
           s_totalBytes := s_totalBytes s + entry_bytes e\<rparr>"
  proof -
    consider "e_id e = [] \<or> e_id e \<in> excluded" | "e_id e \<noteq> []" "e_id e \<notin> excluded" "spoolEntryExpired e now"
      | "e_id e \<noteq> []" "e_id e \<notin> excluded" "\<not> spoolEntryExpired e now" "e_id e \<in> s_ids s"
      | "e_id e \<noteq> []" "e_id e \<notin> excluded" "\<not> spoolEntryExpired e now" "e_id e \<notin> s_ids s" by blast
    then show ?thesis
    proof cases
      case 1
      then show ?thesis using st by (intro skip; cases "e_id e = []"; simp add: intake_step_def)
    next
      case 2
      then show ?thesis using st by (intro old) (simp_all add: intake_step_def)
    next
      case 3
      then show ?thesis using st by (intro skip) (simp_all add: intake_step_def)
    next
      case 4
      then show ?thesis using st by (intro new) (simp_all add: intake_step_def)
    qed
  qed
  then show ?case
  proof cases
    case skip
    then show ?thesis using Cons.IH [OF rec] Cons.prems(2-4) by auto
  next
    case old
    then show ?thesis using Cons.IH [OF rec] Cons.prems(2-4) by auto
  next
    case new
    have m1: "mirror_ok s1" using new Cons.prems(2) by (auto simp: mirror_ok_def)
    have f1: "frame s1 = frame s" "settled_ok s1 = settled_ok s" using new by (simp_all add: frame_def settled_ok_def)
    have c1: "carries body (s_entries s1)" using new Cons.prems(3,4) by simp
    have c2: "carries body batch" using Cons.prems(4) by simp
    note IH = Cons.IH [OF rec m1 c1 c2]
    then obtain more where more: "ins' = i1 @ more" "s_entries s' = s_entries s1 @ more"
      "\<forall>x \<in> set more. x \<in> set batch \<and> e_id x \<noteq> [] \<and> e_id x \<notin> excluded \<and> \<not> spoolEntryExpired x now \<and> e_id x \<notin> s_ids s1"
      by blast
    have "ins' = ins @ (e # more) \<and> s_entries s' = s_entries s @ (e # more) \<and>
      (\<forall>x \<in> set (e # more). x \<in> set (e # batch) \<and> e_id x \<noteq> [] \<and> e_id x \<notin> excluded \<and> \<not> spoolEntryExpired x now \<and> e_id x \<notin> s_ids s)"
      using more new by auto
    moreover have "\<exists>old. expired' = expired @ old \<and> (\<forall>x \<in> set old. x \<in> set (e # batch) \<and> spoolEntryExpired x now)"
      using IH new by auto
    moreover have "e_id e \<in> s_ids s'" "s_ids s \<subseteq> s_ids s'" using IH new by auto
    moreover have "\<forall>x \<in> set (e # batch). e_id x \<noteq> [] \<longrightarrow> e_id x \<notin> excluded \<longrightarrow>
        spoolEntryExpired x now \<and> x \<in> set expired' \<or> e_id x \<in> s_ids s'"
      using IH calculation(3) by simp
    moreover have "mirror_ok s'" "settled_ok s' = settled_ok s" "frame s' = frame s" "carries body (s_entries s')"
      using IH f1 by simp_all
    ultimately show ?thesis by (intro conjI) blast+
  qed
qed

definition file_only :: "diskSpool \<Rightarrow> diskSpool \<Rightarrow> bool" where
  "file_only s s' \<longleftrightarrow> s' = s\<lparr>s_fileAppendable := s_fileAppendable s', s_tornTailOwed := s_tornTailOwed s',
     s_fileBytes := s_fileBytes s', s_disk := s_disk s'\<rparr>"

lemma file_only_intros:
  "file_only s s" "file_only s (s\<lparr>s_disk := x\<rparr>)" "file_only s (s\<lparr>s_disk := x, s_fileAppendable := a\<rparr>)"
  "file_only s (s\<lparr>s_disk := x, s_fileAppendable := a, s_tornTailOwed := b\<rparr>)" "file_only s (s\<lparr>s_disk := x, s_fileBytes := c\<rparr>)"
  by (cases s; simp add: file_only_def)+

lemma appendRecords_frame: "file_only s (snd (appendRecordsLocked es drops s))"
  by (simp add: appendRecordsLocked_def on_disk_eq Let_def case_prod_beta file_only_intros split: option.split)

lemma append_fields_same:
  "s' = s\<lparr>s_fileAppendable := a, s_tornTailOwed := b, s_fileBytes := c, s_disk := d\<rparr> \<Longrightarrow>
   s_entries s' = s_entries s \<and> mirror_ok s' = mirror_ok s \<and> settled_ok s' = settled_ok s \<and> caps_ok s' = caps_ok s \<and>
   frame s' = frame s"
  by (simp add: mirror_ok_def settled_ok_def caps_ok_def frame_def)

lemma inv_frame_simps [simp]:
  "mirror_ok (s\<lparr>s_dirty := x\<rparr>) = mirror_ok s" "settled_ok (s\<lparr>s_dirty := x\<rparr>) = settled_ok s"
  "caps_ok (s\<lparr>s_dirty := x\<rparr>) = caps_ok s" "bodies body (s\<lparr>s_dirty := x\<rparr>) = bodies body s"
  "mirror_ok (s\<lparr>s_retryAfterUntilMS := r\<rparr>) = mirror_ok s" "settled_ok (s\<lparr>s_retryAfterUntilMS := r\<rparr>) = settled_ok s"
  "caps_ok (s\<lparr>s_retryAfterUntilMS := r\<rparr>) = caps_ok s" "bodies body (s\<lparr>s_retryAfterUntilMS := r\<rparr>) = bodies body s"
  "mirror_ok (s\<lparr>s_disk := d\<rparr>) = mirror_ok s" "settled_ok (s\<lparr>s_disk := d\<rparr>) = settled_ok s"
  "caps_ok (s\<lparr>s_disk := d\<rparr>) = caps_ok s" "bodies body (s\<lparr>s_disk := d\<rparr>) = bodies body s"
  "mirror_ok (s\<lparr>s_owed := w\<rparr>) = mirror_ok s" "settled_ok (s\<lparr>s_owed := w\<rparr>) = settled_ok s"
  "caps_ok (s\<lparr>s_owed := w\<rparr>) = caps_ok s" "bodies body (s\<lparr>s_owed := w\<rparr>) = bodies body s"
  "mirror_ok (s\<lparr>s_deferredCapacityDrops := p\<rparr>) = mirror_ok s" "settled_ok (s\<lparr>s_deferredCapacityDrops := p\<rparr>) = settled_ok s"
  "caps_ok (s\<lparr>s_deferredCapacityDrops := p\<rparr>) = caps_ok s" "bodies body (s\<lparr>s_deferredCapacityDrops := p\<rparr>) = bodies body s"
  "mirror_ok (s\<lparr>s_uncountedIDs := u\<rparr>) = mirror_ok s" "settled_ok (s\<lparr>s_uncountedIDs := u\<rparr>) = settled_ok s"
  "caps_ok (s\<lparr>s_uncountedIDs := u\<rparr>) = caps_ok s" "bodies body (s\<lparr>s_uncountedIDs := u\<rparr>) = bodies body s"
  by (simp_all add: mirror_ok_def settled_ok_def caps_ok_def bodies_def)

lemma append_persist_inv:
  assumes "append_persist app_of changed added drops s = (failed, s')"
    and "spool_inv s" and "bodies body s"
  shows "spool_inv s' \<and> bodies body s' \<and> (\<exists>D. s_entries s' = filter (\<lambda>e. e_id e \<notin> D) (s_entries s))"
proof -
  obtain wrote s1 where w: "(if \<not> changed \<and> \<not> s_dirty s \<and> s_uncountedIDs s = {} \<and> \<not> s_withdrawnMarkerOwed s \<and>
      s_deferredCapacityDrops s = [] then appendRecordsLocked added drops s else (False, s)) = (wrote, s1)"
    by (metis surj_pair)
  have ok1: "spool_inv s1 \<and> bodies body s1 \<and> s_entries s1 = s_entries s"
  proof (cases "s1 = s")
    case False
    then have "appendRecordsLocked added drops s = (wrote, s1)" using w by (auto split: if_splits)
    then have "file_only s s1" using appendRecords_frame [of s added drops] by simp
    note u = this [unfolded file_only_def]
    show ?thesis using append_fields_same [OF u] assms(2,3) frameD [of s1 s] by (simp add: spool_inv_def bodies_def)
  qed (use assms in simp)
  let ?s2 = "s1\<lparr>s_dirty := False\<rparr>"
  have ok2: "spool_inv ?s2 \<and> bodies body ?s2" using ok1 by (simp add: spool_inv_def)
  have sv: "spool_inv (snd (saveLocked app_of t)) \<and> bodies body (snd (saveLocked app_of t)) \<and>
      (\<exists>D. s_entries (snd (saveLocked app_of t)) = filter (\<lambda>e. e_id e \<notin> D) (s_entries t))"
    if "spool_inv t \<and> bodies body t" for t
  proof -
    obtain err t' where t: "saveLocked app_of t = (err, t')" by (cases "saveLocked app_of t")
    show ?thesis
      using save_inv [of t body app_of] saveLocked_invs [OF t] that by (simp add: t spool_inv_def)
  qed
  have none: "\<exists>D. s_entries s = filter (\<lambda>e. e_id e \<notin> D) (s_entries s)" by (rule exI [of _ "{}"]) simp
  have out: "s' = (if wrote then (if compactionOwedLocked ?s2 then snd (saveLocked app_of ?s2) else ?s2)
      else snd (saveLocked app_of s1))"
    using assms(1) w by (auto simp: append_persist_def Let_def case_prod_beta)
  show ?thesis using ok1 ok2 sv [of s1] sv [of ?s2] none unfolding out by simp
qed

lemma appendExcept_inv:
  assumes "spool_inv s" and "bodies body s" and "carries body batch"
  shows "spool_inv (snd (appendExcept app_of batch deadlineMS clear now allowed excluded s)) \<and>
    bodies body (snd (appendExcept app_of batch deadlineMS clear now allowed excluded s))"
proof -
  obtain ins expired s1 where f: "fold (intake_step now excluded) batch ([], [], s) = (ins, expired, s1)"
    by (cases "fold (intake_step now excluded) batch ([], [], s)") auto
  have i: "mirror_ok s" "settled_ok s" "caps_ok s" "carries body (s_entries s)" "carries body (s_resend s)"
    using assms by (auto simp: spool_inv_def bodies_def)
  note fd = intake_fold [OF f i(1,4) assms(3)]
  obtain changed s2 where d: "(if deadlineMS > 0 then (True, s1\<lparr>s_retryAfterUntilMS := deadlineMS\<rparr>)
               else if clear \<and> s_retryAfterUntilMS s1 \<noteq> 0 then (True, s1\<lparr>s_retryAfterUntilMS := 0\<rparr>)
               else (False, s1)) = (changed, s2)" by (metis surj_pair)
  have s2: "mirror_ok s2" "settled_ok s2" "bodies body s2" "s_entries s2 = s_entries s1"
      "s_maxEvents s2 = s_maxEvents s" "s_maxBytes s2 = s_maxBytes s"
  proof -
    have "s2 = s1 \<or> s2 = s1\<lparr>s_retryAfterUntilMS := deadlineMS\<rparr> \<or> s2 = s1\<lparr>s_retryAfterUntilMS := 0\<rparr>"
      using d by (simp split: if_splits)
    then obtain r where r: "s2 = s1 \<or> s2 = s1\<lparr>s_retryAfterUntilMS := r\<rparr>" by blast
    have fr: "frame s1 = frame s" using fd by (elim conjE)
    have st: "settled_ok s1 = settled_ok s" using fd by (elim conjE)
    have m1: "mirror_ok s1" using fd by (elim conjE)
    have c1: "carries body (s_entries s1)" using fd by (elim conjE)
    have s1: "mirror_ok s1" "settled_ok s1" "carries body (s_entries s1)" using m1 c1 st i(2) by simp_all
    have b1: "bodies body s1" using s1(3) i(5) frameD [OF fr] by (simp add: bodies_def)
    have lim: "s_maxEvents s1 = s_maxEvents s" "s_maxBytes s1 = s_maxBytes s" using frameD [OF fr] by simp_all
    from r have "mirror_ok s2 \<and> settled_ok s2 \<and> bodies body s2 \<and> s_entries s2 = s_entries s1 \<and>
      s_maxEvents s2 = s_maxEvents s \<and> s_maxBytes s2 = s_maxBytes s"
    proof
      assume "s2 = s1"
      then show ?thesis by (simp add: s1 b1 lim)
    next
      assume "s2 = s1\<lparr>s_retryAfterUntilMS := r\<rparr>"
      then show ?thesis by (simp add: s1 b1 lim)
    qed
    then show "mirror_ok s2" "settled_ok s2" "bodies body s2" "s_entries s2 = s_entries s1"
      "s_maxEvents s2 = s_maxEvents s" "s_maxBytes s2 = s_maxBytes s" by simp_all
  qed
  have c2: "caps_ok s2" if "ins = []"
  proof -
    have "s_entries s1 = s_entries s" using fd that by (metis append_Nil append_Nil2)
    then show ?thesis using s2(4-6) i(3) by (simp add: caps_ok_def)
  qed
  obtain ev s3 where e: "evictOverCapsLocked s2 = (ev, s3)" by (cases "evictOverCapsLocked s2")
  note ed = evict_spec [OF e]
  have s3: "spool_inv s3" "bodies body s3"
    using ed s2 frameD [of s3 s2] by (auto simp: spool_inv_def bodies_def)
  obtain failed s4 where p: "append_persist app_of changed (filter (\<lambda>e. e_id e \<in> s_ids s3) ins) (map e_id ev) s3 = (failed, s4)"
    by (cases "append_persist app_of changed (filter (\<lambda>e. e_id e \<in> s_ids s3) ins) (map e_id ev) s3")
  note pd = append_persist_inv [OF p s3]
  have u: "spool_inv (snd (append_unsaved a b c s4)) \<and> bodies body (snd (append_unsaved a b c s4))" for a b c
    using pd by (simp add: append_unsaved_def Let_def spool_inv_def)
  show ?thesis
    using assms f d e p pd u save_inv [OF s2(1-3), of app_of] c2 s2
    by (simp add: appendExcept_def case_prod_beta Let_def spool_inv_def)
qed

section \<open>Loading\<close>

lemma record_inv_simps [simp]:
  "mirror_ok (recordSettledLocked i s) = mirror_ok s" "bodies body (recordSettledLocked i s) = bodies body s"
  by (simp_all add: mirror_ok_def bodies_def)

lemma withdrawn_inv_simps [simp]:
  "mirror_ok (s\<lparr>s_withdrawnOwedIDs := x\<rparr>) = mirror_ok s" "settled_ok (s\<lparr>s_withdrawnOwedIDs := x\<rparr>) = settled_ok s"
  "caps_ok (s\<lparr>s_withdrawnOwedIDs := x\<rparr>) = caps_ok s" "bodies body (s\<lparr>s_withdrawnOwedIDs := x\<rparr>) = bodies body s"
  "mirror_ok (s\<lparr>s_withdrawnMarkerOwed := m\<rparr>) = mirror_ok s" "settled_ok (s\<lparr>s_withdrawnMarkerOwed := m\<rparr>) = settled_ok s"
  "caps_ok (s\<lparr>s_withdrawnMarkerOwed := m\<rparr>) = caps_ok s" "bodies body (s\<lparr>s_withdrawnMarkerOwed := m\<rparr>) = bodies body s"
  by (simp_all add: mirror_ok_def settled_ok_def caps_ok_def bodies_def)

definition kept_entry :: "(gostring \<Rightarrow> gostring option) \<Rightarrow> nanos \<Rightarrow> gostring list \<Rightarrow> gostring list \<Rightarrow> bool \<Rightarrow> spoolEntry \<Rightarrow> bool" where
  "kept_entry app_of now replaced withdrawn condemn e \<longleftrightarrow>
     \<not> (e_application e \<and> e_id e \<in> set replaced) \<and> e_id e \<notin> set withdrawn \<and>
     \<not> (condemn \<and> e_internalFact e \<and> withdrawnExperimentFactRaw app_of (e_raw e)) \<and> \<not> spoolEntryExpired e now"

lemma load_step_inv:
  assumes "mirror_ok s" and "settled_ok s"
  shows "(case load_step app_of now replaced withdrawn condemn w (out, s) of (out', s') \<Rightarrow>
    mirror_ok s' \<and> settled_ok s' \<and> frame s' = frame s \<and> s_disk s' = s_disk s \<and> lo_evicted out' = lo_evicted out \<and>
    (s_entries s' = s_entries s \<or>
     s_entries s' = s_entries s @ [spoolEntryFromWire app_of w] \<and>
       kept_entry app_of now replaced withdrawn condemn (spoolEntryFromWire app_of w)))"
proof -
  let ?e = "spoolEntryFromWire app_of w"
  have keep: "mirror_ok (s\<lparr>s_entries := s_entries s @ [?e], s_ids := insert (e_id ?e) (s_ids s),
      s_totalBytes := s_totalBytes s + entry_bytes ?e\<rparr>)" if "e_id ?e \<notin> s_ids s"
    using assms(1) that by (auto simp: mirror_ok_def)
  show ?thesis
    using assms settled_record [OF assms(2), of "e_id ?e"] keep
    by (simp add: load_step_def Let_def kept_entry_def) (simp add: frame_def settled_ok_def)
qed

lemma load_fold_inv:
  assumes "mirror_ok s" and "settled_ok s"
    and "fold (load_step app_of now replaced withdrawn condemn) ws (out, s) = (out', s')"
  shows "mirror_ok s' \<and> settled_ok s' \<and> frame s' = frame s \<and> s_disk s' = s_disk s \<and>
    (\<exists>new. s_entries s' = s_entries s @ new \<and>
       (\<forall>e \<in> set new. e \<in> set (map (spoolEntryFromWire app_of) ws) \<and> kept_entry app_of now replaced withdrawn condemn e))"
  using assms
proof (induction ws arbitrary: out s)
  case (Cons w ws)
  obtain o1 s1 where st: "load_step app_of now replaced withdrawn condemn w (out, s) = (o1, s1)"
    by (cases "load_step app_of now replaced withdrawn condemn w (out, s)")
  have one: "mirror_ok s1" "settled_ok s1" "frame s1 = frame s" "s_disk s1 = s_disk s"
    "s_entries s1 = s_entries s \<or> s_entries s1 = s_entries s @ [spoolEntryFromWire app_of w] \<and>
       kept_entry app_of now replaced withdrawn condemn (spoolEntryFromWire app_of w)"
    using load_step_inv [OF Cons.prems(1,2), where app_of = app_of and now = now and replaced = replaced and
        withdrawn = withdrawn and condemn = condemn and w = w and out = out] st by simp_all
  have rec: "fold (load_step app_of now replaced withdrawn condemn) ws (o1, s1) = (out', s')" using Cons.prems(3) st by simp
  note IH = Cons.IH [OF one(1,2) rec]
  then obtain new where new: "s_entries s' = s_entries s1 @ new"
    "\<forall>e \<in> set new. e \<in> set (map (spoolEntryFromWire app_of) ws) \<and> kept_entry app_of now replaced withdrawn condemn e" by blast
  have "\<exists>new. s_entries s' = s_entries s @ new \<and>
      (\<forall>e \<in> set new. e \<in> set (map (spoolEntryFromWire app_of) (w # ws)) \<and> kept_entry app_of now replaced withdrawn condemn e)"
    using one(5)
  proof
    assume "s_entries s1 = s_entries s"
    then show ?thesis using new by (intro exI [of _ new]) auto
  next
    assume "s_entries s1 = s_entries s @ [spoolEntryFromWire app_of w] \<and>
      kept_entry app_of now replaced withdrawn condemn (spoolEntryFromWire app_of w)"
    then show ?thesis using new by (intro exI [of _ "spoolEntryFromWire app_of w # new"]) auto
  qed
  then show ?case using IH one by simp
qed simp

text \<open>The re-read entries of a document: what a load sees of it.\<close>

definition recovered :: "(gostring \<Rightarrow> gostring option) \<Rightarrow> spoolDocument \<Rightarrow> spoolEntry list" where
  "recovered app_of doc = map (\<lambda>e. spoolEntryFromWire app_of (entry_wire e)) (live doc)"

lemma save_sub:
  assumes "mirror_ok t" and "settled_ok t" and "bodies body t"
  shows "spool_inv (snd (saveLocked app_of t)) \<and> bodies body (snd (saveLocked app_of t)) \<and>
    set (s_entries (snd (saveLocked app_of t))) \<subseteq> set (s_entries t)"
proof -
  obtain err t' where t: "saveLocked app_of t = (err, t')" by (cases "saveLocked app_of t")
  show ?thesis using save_inv [OF assms, of app_of] saveLocked_invs [OF t assms(1,2)] by (auto simp: t)
qed

lemma load_defer_same:
  "snd (load_defer now retry out s) = s \<or> (\<exists>r. snd (load_defer now retry out s) = s\<lparr>s_retryAfterUntilMS := r\<rparr>)"
  by (auto simp: load_defer_def split: option.split)

lemma load_save_sub:
  assumes "mirror_ok s" and "settled_ok s" and "bodies body s"
  shows "spool_inv (snd (load_save app_of out s)) \<and> bodies body (snd (load_save app_of out s)) \<and>
    set (s_entries (snd (load_save app_of out s))) \<subseteq> set (s_entries s)"
  using save_sub [OF assms, of app_of] by (simp add: load_save_def Let_def case_prod_beta spool_inv_def)

lemma load_finish_inv:
  assumes "mirror_ok s" and "settled_ok s" and "bodies body s"
  shows "spool_inv (snd (load_finish app_of now retry out s)) \<and> bodies body (snd (load_finish app_of now retry out s)) \<and>
    set (s_entries (snd (load_finish app_of now retry out s))) \<subseteq> set (s_entries s)"
proof -
  obtain ev s1 where e: "evictOverCapsLocked s = (ev, s1)" by (cases "evictOverCapsLocked s")
  note ed = evict_spec [OF e]
  let ?s2 = "s1\<lparr>s_resend := s_resend s1 @ filter (\<lambda>e. \<not> e_application e) (s_entries s1)\<rparr>"
  have s2: "mirror_ok ?s2" "settled_ok ?s2" "bodies body ?s2"
    using ed assms frameD [of s1 s] by (simp_all add: mirror_ok_def settled_ok_def bodies_def)
  have sub2: "set (s_entries ?s2) \<subseteq> set (s_entries s)" using ed by auto
  obtain o3 s3 where d: "load_defer now retry (out\<lparr>lo_evicted := ev\<rparr>) ?s2 = (o3, s3)"
    by (cases "load_defer now retry (out\<lparr>lo_evicted := ev\<rparr>) ?s2")
  have "s3 = ?s2 \<or> (\<exists>r. s3 = ?s2\<lparr>s_retryAfterUntilMS := r\<rparr>)"
    using load_defer_same [of now retry "out\<lparr>lo_evicted := ev\<rparr>" ?s2] d by simp
  then have s3: "mirror_ok s3 \<and> settled_ok s3 \<and> bodies body s3 \<and> s_entries s3 = s_entries ?s2"
  proof (elim disjE exE)
    fix r assume "s3 = ?s2\<lparr>s_retryAfterUntilMS := r\<rparr>"
    then show ?thesis using s2 by (simp only: inv_frame_simps) simp
  qed (use s2 in simp)
  have "snd (load_finish app_of now retry out s) = snd (load_save app_of o3 s3)"
    by (simp add: load_finish_def e d)
  then show ?thesis using load_save_sub [of s3 body app_of o3] s3 sub2 by (metis order_trans)
qed

lemma load_inv:
  assumes "spool_inv s" and "bodies body s"
    and "\<And>data. f_spool (s_disk s) = Some data \<Longrightarrow> carries body (recovered app_of (parseSpoolDocument app_of data))"
  shows "spool_inv (snd (load app_of now s)) \<and> bodies body (snd (load app_of now s))"
proof -
  obtain r s1 where rd: "readRecordBytesLocked s = (r, s1)" by (cases "readRecordBytesLocked s")
  have s1: "s1 = s\<lparr>s_disk := s_disk s1\<rparr>" "\<And>data. r = ReadBytes data \<Longrightarrow> f_spool (s_disk s) = Some data"
    using rd by (auto simp: readRecordBytesLocked_def on_disk_eq bounded_read_def Let_def case_prod_beta split: if_splits option.splits)
  have i1: "spool_inv s1" "bodies body s1" using assms(1,2) s1(1) by (metis inv_frame_simps(9-12) spool_inv_def)+
  have rm: "spool_inv (snd (on_disk f s1)) \<and> bodies body (snd (on_disk f s1))" for f :: "fsys \<Rightarrow> bool \<times> fsys"
    using i1 by (simp add: on_disk_eq spool_inv_def)
  have doc: "spool_inv (snd (load_document app_of now (parseSpoolDocument app_of data) s1)) \<and>
      bodies body (snd (load_document app_of now (parseSpoolDocument app_of data) s1))"
    if "r = ReadBytes data" for data
  proof -
    let ?doc = "parseSpoolDocument app_of data"
    let ?s2 = "s1\<lparr>s_tornTailOwed := doc_tornTail ?doc, s_fileAppendable := False\<rparr>"
    obtain wd dmg s3 where m: "on_disk (readWithdrawnMarker (withdrawnMarkerReadLimit ?s2)) ?s2 = ((wd, dmg), s3)"
      by (metis surj_pair)
    have s3: "spool_inv s3" "bodies body s3"
      using m i1 by (auto simp: on_disk_eq spool_inv_def mirror_ok_def caps_ok_def settled_ok_def bodies_def)
    let ?s4 = "if wd \<noteq> [] then s3\<lparr>s_withdrawnMarkerOwed := True, s_withdrawnOwedIDs := remdups wd\<rparr> else s3"
    have s4: "mirror_ok ?s4" "settled_ok ?s4" "bodies body ?s4" using s3 by (simp_all add: spool_inv_def)
    let ?ws = "map entry_wire (live ?doc)"
    obtain o5 s5 where fl: "fold (load_step app_of now (sealedApplicationReplacements ?ws) wd dmg) ?ws (empty_outcome, ?s4) = (o5, s5)"
      by (metis surj_pair)
    note lf = load_fold_inv [OF s4(1,2) fl]
    have c: "carries body (map (spoolEntryFromWire app_of) ?ws)"
      using assms(3) s1(2) that by (simp add: recovered_def comp_def)
    have s5: "bodies body s5"
      using lf s4(3) c frameD [of s5 ?s4] by (fastforce simp: bodies_def carries_def)
    have "spool_inv (snd (on_disk createWipeOwedMarker (s3\<lparr>s_owed := True\<rparr>)))"
      "bodies body (snd (on_disk createWipeOwedMarker (s3\<lparr>s_owed := True\<rparr>)))"
      using s3 by (simp_all add: on_disk_eq spool_inv_def)
    moreover have "load_document app_of now ?doc s1 =
        (if dmg \<and> s_experimentsEnabled s3 then (empty_outcome, snd (on_disk createWipeOwedMarker (s3\<lparr>s_owed := True\<rparr>)))
         else load_finish app_of now (doc_retryAfterUntilMS ?doc) o5 s5)"
      using m fl by (cases "wd = []") (simp_all add: load_document_def Let_def case_prod_beta)
    ultimately show ?thesis
      using load_finish_inv [of s5 body app_of now "doc_retryAfterUntilMS ?doc" o5] lf s5 by simp
  qed
  show ?thesis using rd rm doc i1 by (cases r) (simp_all add: load_def Let_def)
qed

section \<open>Wipes\<close>

lemma on_disk_inv [simp]:
  "spool_inv (snd (on_disk f s)) = spool_inv s" "bodies body (snd (on_disk f s)) = bodies body s"
  by (simp_all add: on_disk_eq spool_inv_def)

lemma fold_record_frame:
  "s_entries (fold (\<lambda>e. recordSettledLocked (e_id e)) es s) = s_entries s \<and>
   frame (fold (\<lambda>e. recordSettledLocked (e_id e)) es s) = frame s \<and>
   s_disk (fold (\<lambda>e. recordSettledLocked (e_id e)) es s) = s_disk s \<and>
   s_deferredCapacityDrops (fold (\<lambda>e. recordSettledLocked (e_id e)) es s) = s_deferredCapacityDrops s"
  by (induction es arbitrary: s) (simp_all add: frame_def)

lemma condemn_inv:
  assumes "settled_ok s"
  shows "spool_inv (snd (condemnEntriesLocked s)) \<and> bodies body (snd (condemnEntriesLocked s))"
proof -
  have "settled_ok (fold (\<lambda>e. recordSettledLocked (e_id e)) (s_entries s) s)" using assms by (rule settled_fold)
  then show ?thesis
    by (simp add: condemnEntriesLocked_def Let_def spool_inv_def mirror_ok_def caps_ok_def within_caps_def settled_ok_def bodies_def)
qed

lemma released_inv [simp]:
  "spool_inv (releaseDeferredCapacityDropsLocked s) = spool_inv s"
  "bodies body (releaseDeferredCapacityDropsLocked s) = bodies body s"
proof -
  have "s_maxEvents (releaseDeferredCapacityDropsLocked s) = s_maxEvents s" "s_maxBytes (releaseDeferredCapacityDropsLocked s) = s_maxBytes s"
    "s_resend (releaseDeferredCapacityDropsLocked s) = s_resend s"
    by (simp_all add: releaseDeferredCapacityDropsLocked_def)
  then show "spool_inv (releaseDeferredCapacityDropsLocked s) = spool_inv s"
    "bodies body (releaseDeferredCapacityDropsLocked s) = bodies body s"
    by (simp_all add: spool_inv_def mirror_ok_def caps_ok_def settled_ok_def bodies_def)
qed

lemma flag_inv [simp]:
  "spool_inv (s\<lparr>s_owed := w\<rparr>) = spool_inv s" "spool_inv (s\<lparr>s_withdrawnMarkerOwed := m\<rparr>) = spool_inv s"
  "spool_inv (s\<lparr>s_withdrawnOwedIDs := x\<rparr>) = spool_inv s" "spool_inv (s\<lparr>s_retryAfterUntilMS := r\<rparr>) = spool_inv s"
  "spool_inv (s\<lparr>s_deferredCapacityDrops := d\<rparr>) = spool_inv s" "spool_inv (s\<lparr>s_disk := f\<rparr>) = spool_inv s"
  by (simp_all add: spool_inv_def)

lemma owe_wipe_inv:
  "spool_inv (snd (snd (owe_wipe err dropped s))) = spool_inv s"
  "bodies body (snd (snd (owe_wipe err dropped s))) = bodies body s"
  by (simp_all add: owe_wipe_def Let_def case_prod_beta)

lemma purge_inv:
  assumes "settled_ok s"
  shows "spool_inv (snd (snd (purge s))) \<and> bodies body (snd (snd (purge s)))"
  using condemn_inv [OF assms, of body]
  by (simp add: purge_def Let_def case_prod_beta owe_wipe_inv)

lemma settle_wipe_inv:
  "spool_inv s \<Longrightarrow> bodies body s \<Longrightarrow> spool_inv (snd (settleOwedWipeLocked s)) \<and> bodies body (snd (settleOwedWipeLocked s))"
  by (simp add: settleOwedWipeLocked_def Let_def case_prod_beta)

section \<open>Clocks and applications\<close>

lemma spool_inv_entries:
  assumes "map e_id es = map e_id (s_entries s)" and "bytes_of es = bytes_of (s_entries s)"
  shows "spool_inv (s\<lparr>s_entries := es\<rparr>) = spool_inv s"
proof -
  have "e_id ` set es = e_id ` set (s_entries s)" using assms(1) by (metis list.set_map)
  moreover have "length es = length (s_entries s)" using assms(1) by (rule map_eq_imp_length_eq)
  moreover have "es = [] \<longleftrightarrow> s_entries s = []" using calculation(2) by auto
  ultimately show ?thesis
    using assms by (simp add: spool_inv_def mirror_ok_def caps_ok_def settled_ok_def within_caps_def)
qed

lemma persist_delivery_inv:
  assumes "spool_inv s" and "bodies body s"
  shows "spool_inv (snd (persistDelivery app_of es s)) \<and> bodies body (snd (persistDelivery app_of es s))"
proof -
  let ?f = "\<lambda>held. if delivery_matches es held then held\<lparr>e_delivery := e_delivery (the (incoming es (e_id held)))\<rparr> else held"
  let ?s = "s\<lparr>s_entries := map ?f (s_entries s)\<rparr>"
  have f: "e_id (?f e) = e_id e" "e_raw (?f e) = e_raw e" for e by auto
  then have "entry_bytes (?f e) = entry_bytes e" for e by (simp only: entry_bytes_def)
  then have b: "bytes_of (map ?f xs) = bytes_of xs" for xs by (induction xs) (simp_all only: list.map bytes_of_simps)
  have i: "map e_id (map ?f xs) = map e_id xs" for xs using f(1) by (induction xs) (simp_all only: list.map)
  have "spool_inv ?s" using assms(1) by (simp only: spool_inv_entries [OF i b])
  moreover have "bodies body ?s" using assms(2) f by (auto simp: bodies_def carries_def)
  moreover have rd: "spool_inv (snd (readRecordBytesLocked t)) = spool_inv t"
    "bodies body (snd (readRecordBytesLocked t)) = bodies body t" for t
    by (simp_all add: readRecordBytesLocked_def)
  moreover note save_inv [of "snd (readRecordBytesLocked ?s)" body app_of]
  ultimately show ?thesis using assms
    by (auto simp: persistDelivery_def Let_def case_prod_beta spool_inv_def split: read_result.splits)
qed

lemma replace_inv:
  assumes "spool_inv s" and "bodies body s" and "e_raw sealed = body (e_id sealed)"
  shows "spool_inv (snd (snd (replaceApplication app_of i sealed s))) \<and>
    bodies body (snd (snd (replaceApplication app_of i sealed s)))"
proof -
  let ?s1 = "s\<lparr>s_totalBytes := s_totalBytes s - bytes_of (filter (\<lambda>e. e_id e = i) (s_entries s)),
     s_entries := filter (\<lambda>e. e_id e \<noteq> i) (s_entries s), s_ids := s_ids s - {i}\<rparr>"
  let ?s2 = "recordSettledLocked i ?s1"
  let ?s3 = "if e_id sealed \<in> s_ids ?s2 then ?s2
     else ?s2\<lparr>s_entries := s_entries ?s2 @ [sealed], s_ids := insert (e_id sealed) (s_ids ?s2),
              s_totalBytes := s_totalBytes ?s2 + entry_bytes sealed\<rparr>"
  have m1: "mirror_ok ?s1"
    using assms(1) bytes_of_split [of "s_entries s" "\<lambda>e. e_id e = i"]
    by (auto simp: spool_inv_def mirror_ok_def distinct_map_filter)
  have t1: "settled_ok ?s1" using assms(1) by (simp add: spool_inv_def settled_ok_def)
  have b1: "bodies body ?s1" using assms(2) by (simp add: bodies_def)
  have m3: "mirror_ok ?s3" using m1 by (auto simp: mirror_ok_def)
  have t3: "settled_ok ?s3" using settled_record [OF t1, of i] by (simp add: settled_ok_def)
  have b3: "bodies body ?s3" using b1 assms(3) by (simp add: bodies_def)
  obtain err s4 where sv: "saveLocked app_of ?s3 = (err, s4)" by (cases "saveLocked app_of ?s3")
  have i4: "spool_inv s4" "bodies body s4" using save_inv [OF m3 t3 b3, of app_of] sv by simp_all
  have fr: "s_maxEvents s4 = s_maxEvents s" "s_maxBytes s4 = s_maxBytes s"
  proof -
    have "frame s4 = frame ?s3" using saveLocked_invs [OF sv m3 t3] by (elim conjE)
    moreover have "frame ?s3 = frame s" by (simp add: frame_def)
    ultimately have "frame s4 = frame s" by (rule trans)
    then show "s_maxEvents s4 = s_maxEvents s" "s_maxBytes s4 = s_maxBytes s" by (simp_all add: frame_def)
  qed
  let ?old = "s4\<lparr>s_entries := s_entries s, s_resend := s_resend s, s_ids := s_ids s,
       s_settledIDs := s_settledIDs s, s_settledFIFO := s_settledFIFO s, s_totalBytes := s_totalBytes s,
       s_retryAfterUntilMS := s_retryAfterUntilMS s, s_deferredCapacityDrops := s_deferredCapacityDrops s,
       s_dirty := True, s_fileAppendable := False\<rparr>"
  have restored: "spool_inv ?old" "bodies body ?old"
    using assms(1,2) fr by (simp_all add: spool_inv_def mirror_ok_def caps_ok_def settled_ok_def bodies_def)
  have "snd (snd (replaceApplication app_of i sealed s)) \<in> {s, ?old, s4}"
    using sv by (simp add: replaceApplication_def Let_def)
  then show ?thesis using assms(1,2) restored i4 by (elim insertE) simp_all
qed

end
