(* ===== verification/Spool_Guarantees.thy ===== *)
theory Spool_Guarantees
  imports Disk_Spool_Facts
begin

text \<open>
  What the disk spool promises: its invariant in every reachable state, a file that holds the
  mirror after a save, a purge that fails closed, acknowledged and withdrawn events that do not
  come back, oldest-first eviction and a bounded resend.
\<close>

section \<open>Runs\<close>

text \<open>One operation of a spool, or a change of its directory by another process.  \<open>body\<close> is the
  payload each event identifier stands for.\<close>

inductive spool_step :: "(gostring \<Rightarrow> gostring option) \<Rightarrow> (gostring \<Rightarrow> gostring) \<Rightarrow> diskSpool \<Rightarrow> diskSpool \<Rightarrow> bool"
  for app_of body where
  step_append: "carries body batch \<Longrightarrow>
     spool_step app_of body s (snd (appendExcept app_of batch deadline stale now allowed excluded s))"
| step_ack: "spool_step app_of body s (snd (snd (ack app_of ids s)))"
| step_remove: "spool_step app_of body s (snd (snd (removeMatchingAfter app_of matches epoch s)))"
| step_pull: "spool_step app_of body s (snd (snd (snd (pullResendChunk app_of limit now s))))"
| step_requeue: "carries body chunk \<Longrightarrow> spool_step app_of body s (requeueResend chunk s)"
| step_purge: "spool_step app_of body s (snd (snd (purge s)))"
| step_settle: "spool_step app_of body s (snd (settleOwedWipeLocked s))"
| step_retry: "spool_step app_of body s (snd (snd (retryPersist app_of s)))"
| step_store: "spool_step app_of body s (snd (storeRetryDeadline app_of deadline s))"
| step_clear: "spool_step app_of body s (snd (clearRetryDeadline app_of s))"
| step_take_drops: "spool_step app_of body s (snd (takeCapacityDrops s))"
| step_take_durable: "spool_step app_of body s (snd (takeBecameDurable s))"
| step_delivery: "spool_step app_of body s (snd (persistDelivery app_of es s))"
| step_replace: "e_raw sealed = body (e_id sealed) \<Longrightarrow>
     spool_step app_of body s (snd (snd (replaceApplication app_of i sealed s)))"
| step_load: "(\<forall>data. f_spool (s_disk s) = Some data \<longrightarrow> carries body (recovered app_of (parseSpoolDocument app_of data))) \<Longrightarrow>
     spool_step app_of body s (snd (load app_of now s))"
| step_grant: "spool_step app_of body s (s\<lparr>s_grantPersisted := g\<rparr>)"
| step_outside: "spool_step app_of body s (s\<lparr>s_disk := d\<rparr>)"

lemma save_step_inv: "spool_inv s \<Longrightarrow> bodies body s \<Longrightarrow> spool_inv (snd (saveLocked app_of s)) \<and> bodies body (snd (saveLocked app_of s))"
  using save_inv [of s body app_of] by (simp add: spool_inv_def)

lemma step_inv:
  "spool_step app_of body s s' \<Longrightarrow> spool_inv s \<Longrightarrow> bodies body s \<Longrightarrow> spool_inv s' \<and> bodies body s'"
proof (induction rule: spool_step.induct)
  case (step_append batch s deadline stale now allowed excluded)
  then show ?case using appendExcept_inv [of s body batch app_of deadline stale now allowed excluded] by simp
next
  case (step_ack s ids)
  then show ?case using ack_inv [of s body app_of ids] by simp
next
  case (step_remove s matches epoch)
  then show ?case using removeMatching_inv [of s body app_of matches epoch] by simp
next
  case (step_pull s limit now)
  then show ?case using pull_inv_spool [of s body app_of limit now] by simp
next
  case (step_requeue chunk s)
  then show ?case
    by (simp add: requeueResend_def spool_inv_def mirror_ok_def caps_ok_def settled_ok_def bodies_def)
next
  case (step_purge s)
  then show ?case using purge_inv [of s body] by (simp add: spool_inv_def)
next
  case (step_settle s)
  then show ?case using settle_wipe_inv [of s body] by simp
next
  case (step_retry s)
  then show ?case using save_step_inv [of s body app_of] by (simp add: retryPersist_def Let_def case_prod_beta)
next
  case (step_store s deadline)
  then show ?case using save_step_inv [of "s\<lparr>s_retryAfterUntilMS := deadline\<rparr>" body app_of]
    by (simp add: storeRetryDeadline_def Let_def case_prod_beta)
next
  case (step_clear s)
  then show ?case using save_step_inv [of "s\<lparr>s_retryAfterUntilMS := 0\<rparr>" body app_of]
    by (simp add: clearRetryDeadline_def Let_def case_prod_beta)
next
  case (step_delivery s es)
  then show ?case using persist_delivery_inv [of s body app_of es] by simp
next
  case (step_replace sealed s i)
  then show ?case using replace_inv [of s body sealed app_of i] by simp
next
  case (step_load s now)
  then show ?case using load_inv [of s body app_of now] by simp
qed (simp_all add: takeCapacityDrops_def takeBecameDurable_def spool_inv_def mirror_ok_def caps_ok_def settled_ok_def bodies_def)

lemma new_spool_inv: "spool_inv (newDiskSpool a b x g d) \<and> bodies body (newDiskSpool a b x g d)"
  by (simp add: newDiskSpool_def spool_inv_def mirror_ok_def caps_ok_def within_caps_def settled_ok_def bodies_def)

lemma reachable_inv: "(spool_step app_of body)\<^sup>*\<^sup>* (newDiskSpool a b x g d) s \<Longrightarrow> spool_inv s \<and> bodies body s"
  by (induction rule: rtranclp_induct) (auto simp: new_spool_inv dest: step_inv)

section \<open>The configured caps are fixed\<close>

definition limits :: "diskSpool \<Rightarrow> int \<times> int" where
  "limits s = (s_maxEvents s, s_maxBytes s)"

lemma limits_frame: "frame s' = frame s \<Longrightarrow> limits s' = limits s"
  by (simp add: limits_def frame_def)

lemma limits_simps [simp]:
  "limits (recordSettledLocked i s) = limits s" "limits (snd (on_disk f s)) = limits s"
  "limits (releaseDeferredCapacityDropsLocked s) = limits s"
  "limits (s\<lparr>s_entries := a\<rparr>) = limits s" "limits (s\<lparr>s_ids := b\<rparr>) = limits s" "limits (s\<lparr>s_totalBytes := n\<rparr>) = limits s"
  "limits (s\<lparr>s_resend := a\<rparr>) = limits s" "limits (s\<lparr>s_retryAfterUntilMS := n\<rparr>) = limits s"
  "limits (s\<lparr>s_dirty := c\<rparr>) = limits s" "limits (s\<lparr>s_fileAppendable := c\<rparr>) = limits s" "limits (s\<lparr>s_fileBytes := n\<rparr>) = limits s"
  "limits (s\<lparr>s_tornTailOwed := c\<rparr>) = limits s" "limits (s\<lparr>s_owed := c\<rparr>) = limits s"
  "limits (s\<lparr>s_pendingCapacityDrops := a\<rparr>) = limits s" "limits (s\<lparr>s_deferredCapacityDrops := a\<rparr>) = limits s"
  "limits (s\<lparr>s_uncountedIDs := b\<rparr>) = limits s" "limits (s\<lparr>s_becameDurable := n\<rparr>) = limits s"
  "limits (s\<lparr>s_foreignMerged := n\<rparr>) = limits s" "limits (s\<lparr>s_disk := d\<rparr>) = limits s"
  "limits (s\<lparr>s_withdrawnMarkerOwed := c\<rparr>) = limits s" "limits (s\<lparr>s_withdrawnOwedIDs := l\<rparr>) = limits s"
  "limits (s\<lparr>s_withdrawalEpoch := u\<rparr>) = limits s" "limits (s\<lparr>s_grantPersisted := c\<rparr>) = limits s"
  "limits (s\<lparr>s_settledIDs := b\<rparr>) = limits s" "limits (s\<lparr>s_settledFIFO := l\<rparr>) = limits s"
  by (simp_all add: limits_def on_disk_eq releaseDeferredCapacityDropsLocked_def)

lemma limits_merged [simp]: "limits (snd (snd (save_merged app_of s))) = limits s"
proof -
  have c: "limits (snd (snd (save_caps m b d t))) = limits t" for m b d t
    using save_caps_frame [of m b d t] by (metis limits_frame prod.collapse)
  have r: "limits (snd (readRecordEntriesLocked app_of s)) = limits s"
    by (subst read_entries_eq) simp
  show ?thesis using c r by (simp add: save_merged_def Let_def case_prod_beta)
qed

lemma limits_written [simp]: "limits (snd (snd (save_written m s))) = limits s"
  by (simp add: save_written_def Let_def case_prod_beta split: option.split)

lemma limits_unmark [simp]: "limits (snd (removeWithdrawnMarkerLocked s)) = limits s"
  by (simp add: removeWithdrawnMarkerLocked_def Let_def case_prod_beta)

lemma limits_save [simp]: "limits (snd (saveLocked app_of s)) = limits s"
  by (simp add: saveLocked_def Let_def case_prod_beta)

lemma limits_evict [simp]: "limits (snd (evictOverCapsLocked s)) = limits s"
  using evict_spec [of s] by (metis limits_frame prod.collapse)

lemma limits_append_records [simp]: "limits (snd (appendRecordsLocked es drops s)) = limits s"
  using appendRecords_frame [of s es drops] unfolding file_only_def by (metis limits_simps)

lemma limits_intake [simp]: "limits (snd (snd (fold (intake_step now x) batch acc))) = limits (snd (snd acc))"
proof (induction batch arbitrary: acc)
  case (Cons e batch)
  have "limits (snd (snd (intake_step now x e acc))) = limits (snd (snd acc))"
    by (cases acc) (simp add: intake_step_def)
  with Cons show ?case by simp
qed simp

lemma limits_persist [simp]: "limits (snd (append_persist app_of c a d s)) = limits s"
  by (simp add: append_persist_def Let_def case_prod_beta)

lemma limits_append [simp]: "limits (snd (appendExcept app_of b d c n a x s)) = limits s"
  by (simp add: appendExcept_def append_unsaved_def Let_def case_prod_beta)

lemma limits_drop [simp]: "limits (snd (drop_ids g s)) = limits s"
  using drop_ids_spec [of g s] by (metis limits_frame prod.collapse)

lemma limits_resend [simp]: "limits (drop_resend g s) = limits s"
  by (simp add: drop_resend_def)

lemma limits_ack [simp]: "limits (snd (snd (ack app_of ids s))) = limits s"
  by (simp add: ack_def Let_def case_prod_beta)

lemma limits_marker [simp]: "limits (snd (writeWithdrawnMarkerLocked ids s)) = limits s"
  by (simp add: writeWithdrawnMarkerLocked_def Let_def case_prod_beta)

lemma limits_remove [simp]: "limits (snd (snd (removeMatchingAfter app_of m k s))) = limits s"
  by (simp add: removeMatchingAfter_def Let_def case_prod_beta)

lemma limits_pull_loop [simp]: "limits (snd (snd (pull_loop limit now chunk expired s))) = limits s"
proof (induction limit now chunk expired s rule: pull_loop.induct)
  case (1 limit now chunk expired s)
  show ?case
  proof (cases "length chunk < limit")
    case room: True
    show ?thesis
    proof (cases "s_resend s")
      case (Cons e rest)
      note IH = 1(1) [OF room Cons refl] 1(2,3) [OF room Cons refl]
      show ?thesis
      proof (cases "e_id e \<in> s_ids s")
        case False
        then show ?thesis using IH(1) by (subst pull_loop.simps) (simp add: room Cons)
      next
        case True
        then show ?thesis using IH(2,3)
          by (subst pull_loop.simps) (cases "spoolEntryExpired e now"; simp add: room Cons Let_def)
      qed
    next
      case Nil
      then show ?thesis by (subst pull_loop.simps) simp
    qed
  next
    case False
    then show ?thesis by (subst pull_loop.simps) simp
  qed
qed

lemma limits_pull [simp]: "limits (snd (snd (snd (pullResendChunk app_of l n s)))) = limits s"
  by (simp add: pullResendChunk_def Let_def case_prod_beta)

lemma limits_condemn [simp]: "limits (snd (condemnEntriesLocked s)) = limits s"
proof -
  have "limits (fold (\<lambda>e. recordSettledLocked (e_id e)) (s_entries s) s) = limits s"
    using fold_record_frame [of "s_entries s" s] by (intro limits_frame) blast
  then show ?thesis by (simp add: condemnEntriesLocked_def Let_def)
qed

lemma limits_purge [simp]: "limits (snd (snd (purge s))) = limits s"
  by (simp add: purge_def owe_wipe_def Let_def case_prod_beta)

lemma limits_settle [simp]: "limits (snd (settleOwedWipeLocked s)) = limits s"
  by (simp add: settleOwedWipeLocked_def Let_def case_prod_beta)

lemma limits_read [simp]: "limits (snd (readRecordBytesLocked s)) = limits s"
  by (simp add: readRecordBytesLocked_def)

lemma limits_delivery [simp]: "limits (snd (persistDelivery app_of es s)) = limits s"
  by (simp add: persistDelivery_def Let_def case_prod_beta split: read_result.split)

lemma limits_replace [simp]: "limits (snd (snd (replaceApplication app_of i e s))) = limits s"
  by (simp add: replaceApplication_def Let_def case_prod_beta)

lemma limits_load_fold [simp]: "limits (snd (fold (load_step app_of n r w c) ws os)) = limits (snd os)"
proof (induction ws arbitrary: os)
  case (Cons v ws)
  have "limits (snd (load_step app_of n r w c v os)) = limits (snd os)"
    by (cases os) (simp add: load_step_def Let_def)
  with Cons show ?case by simp
qed simp

lemma limits_finish [simp]: "limits (snd (load_finish app_of n r out s)) = limits s"
proof -
  have "limits (snd (load_save app_of o2 t)) = limits t" for o2 t by (simp add: load_save_def Let_def case_prod_beta)
  moreover have "limits (snd (load_defer n r o2 t)) = limits t" for o2 t by (simp add: load_defer_def split: option.split)
  ultimately show ?thesis by (simp add: load_finish_def Let_def case_prod_beta)
qed

lemma limits_load [simp]: "limits (snd (load app_of n s)) = limits s"
  by (simp add: load_def load_document_def Let_def case_prod_beta split: read_result.split)

lemma step_limits: "spool_step app_of body s s' \<Longrightarrow> limits s' = limits s"
  by (induction rule: spool_step.induct)
     (simp_all add: requeueResend_def retryPersist_def storeRetryDeadline_def clearRetryDeadline_def
        takeCapacityDrops_def takeBecameDurable_def Let_def case_prod_beta)

lemma reachable_limits:
  "(spool_step app_of body)\<^sup>*\<^sup>* (newDiskSpool a b x g d) s \<Longrightarrow> s_maxEvents s = a \<and> s_maxBytes s = b"
proof -
  assume "(spool_step app_of body)\<^sup>*\<^sup>* (newDiskSpool a b x g d) s"
  then have "limits s = limits (newDiskSpool a b x g d)"
    by (induction rule: rtranclp_induct) (simp_all add: step_limits)
  then show ?thesis by (simp add: limits_def newDiskSpool_def)
qed

section \<open>Properties\<close>

text \<open>C5. In every state the spool can reach, whatever the disk does and whatever another process
  writes to it, the identifier index is exactly the mirror's, identifiers are distinct, the byte
  count is the mirror's, the mirror is within the configured caps, and the settled memory holds at
  most 4096 identifiers.\<close>

theorem spool_invariant:
  assumes "(spool_step app_of body)\<^sup>*\<^sup>* (newDiskSpool max_events max_bytes experiments digest disk) s"
  shows "s_ids s = e_id ` set (s_entries s) \<and> distinct (map e_id (s_entries s)) \<and> s_totalBytes s = bytes_of (s_entries s) \<and>
    within_caps max_events max_bytes (s_entries s) \<and> card (s_settledIDs s) \<le> 4096"
  using reachable_inv [OF assms] reachable_limits [OF assms]
  by (simp add: spool_inv_def mirror_ok_def caps_ok_def settled_ok_def spoolSettledMemory_def distinct_card)

theorem spool_invariant_witness:
  "within_caps 1 1048576 (s_entries (snd (appendExcept (\<lambda>_. None) [sample_entry ''a'', sample_entry ''b''] 0 False
      (1700000000000 * Millisecond) True {}
      (newDiskSpool 1 1048576 False [] \<lparr>f_spool = None, f_private = True, f_withdrawn = None, f_wipe = False, f_outcomes = []\<rparr>))))"
proof -
  let ?init = "newDiskSpool 1 1048576 False [] \<lparr>f_spool = None, f_private = True, f_withdrawn = None, f_wipe = False, f_outcomes = []\<rparr>"
  let ?s = "snd (appendExcept (\<lambda>_. None) [sample_entry ''a'', sample_entry ''b''] 0 False (1700000000000 * Millisecond) True {} ?init)"
  let ?body = "\<lambda>i. enc_object [(''event_id'', enc_string i)]"
  have c: "carries ?body [sample_entry ''a'', sample_entry ''b'']" by (simp add: sample_entry_def)
  have r: "(spool_step (\<lambda>_. None) ?body)\<^sup>*\<^sup>* ?init ?s" by (rule r_into_rtranclp, rule step_append, rule c)
  then show ?thesis using spool_invariant [OF r] by simp
qed

section \<open>The file after a save\<close>

text \<open>What is in the record file, as a reader without a size limit sees it.\<close>

definition file_live :: "(gostring \<Rightarrow> gostring option) \<Rightarrow> diskSpool \<Rightarrow> spoolEntry list" where
  "file_live app_of s = (case f_spool (s_disk s) of None \<Rightarrow> [] | Some data \<Rightarrow> live (parseSpoolDocument app_of data))"

text \<open>A spool whose entries, and those of its file, are what the client writes: canonical payloads,
  plain identifiers, and clocks, caps and deadline of 64 bits.\<close>

definition plain_id :: "spoolEntry \<Rightarrow> bool" where
  "plain_id e \<longleftrightarrow> clean (e_id e) \<and> e_id e \<noteq> []"

definition storable :: "(gostring \<Rightarrow> gostring option) \<Rightarrow> diskSpool \<Rightarrow> bool" where
  "storable app_of s \<longleftrightarrow> list_all (entry_ok app_of) (s_entries s) \<and> list_all plain_id (s_entries s) \<and>
     list_all (entry_ok app_of) (file_live app_of s) \<and>
     int64 (s_maxEvents s) \<and> int64 (s_maxBytes s) \<and> int64 (s_retryAfterUntilMS s)"

lemma read_entries_file: "set (fst (readRecordEntriesLocked app_of s)) \<subseteq> set (file_live app_of s)"
  by (auto simp: readRecordEntriesLocked_def readRecordBytesLocked_def on_disk_eq bounded_read_def file_live_def
      Let_def case_prod_beta split: option.splits if_splits)

text \<open>A save leaves the file as it was, or renders the merge into it; it does the latter whenever it
  reports that the write succeeded.\<close>

definition rendered :: "(gostring \<Rightarrow> gostring option) \<Rightarrow> diskSpool \<Rightarrow> diskSpool \<Rightarrow> spoolEntry list \<Rightarrow> bool" where
  "rendered app_of s s' merged \<longleftrightarrow>
     file_live app_of s' = map reload merged \<and> set (s_entries s') \<subseteq> set merged \<and>
     distinct (map e_id merged) \<and> within_caps (s_maxEvents s) (s_maxBytes s) merged \<and> list_all (entry_ok app_of) merged \<and>
     (\<forall>m \<in> set merged. m \<in> set (s_entries s') \<or>
        e_id m \<noteq> [] \<and> e_id m \<notin> s_settledIDs s \<and> e_id m \<notin> set (s_withdrawnOwedIDs s) \<and> e_id m \<notin> s_ids s) \<and>
     (\<exists>data. f_spool (s_disk s') = Some data \<and> doc_ok (parseSpoolDocument app_of data) \<and> (\<exists>d. data = d @ [newline]))"

lemma saved_file:
  assumes "saveLocked app_of s = (err, s')" and "mirror_ok s" and "settled_ok s" and "storable app_of s"
  shows "(\<exists>merged. rendered app_of s s' merged) \<or> f_spool (s_disk s') = f_spool (s_disk s) \<and> err = Some ErrWrite"
    and "err = None \<or> err = Some ErrMarkerSpend \<Longrightarrow>
      (\<exists>merged. rendered app_of s s' merged) \<and> s_fileAppendable s' \<and> s_fileBytes s' = int (length (the (f_spool (s_disk s'))))"
proof -
  obtain merged drops s1 where m: "save_merged app_of s = (merged, drops, s1)" by (cases "save_merged app_of s") auto
  obtain err0 n s2 where w: "save_written merged s1 = (err0, n, s2)" by (cases "save_written merged s1") auto
  note sp = save_merged_spec [OF m assms(2,3)] and out = saveLocked_out [OF m w assms(1)] and wr = written_eq [OF w]
  have src: "\<forall>m \<in> set merged. from_mirror_or_file s (fst (readRecordEntriesLocked app_of s)) m" using sp by (elim conjE)
  have okf: "\<And>e. e \<in> set (fst (readRecordEntriesLocked app_of s)) \<Longrightarrow> entry_ok app_of e"
    using read_entries_file [of app_of s] assms(4) by (auto simp: storable_def list_all_iff)
  have ok: "list_all (entry_ok app_of) merged"
    using src okf assms(4) by (auto simp: storable_def list_all_iff from_mirror_or_file_def)
  have fr: "s_maxEvents s1 = s_maxEvents s" "s_maxBytes s1 = s_maxBytes s" using sp by (auto simp: frame_def)
  have ints: "int64 (s_maxEvents s1)" "int64 (s_maxBytes s1)" "int64 (s_retryAfterUntilMS s1)"
    using assms(4) fr sp by (auto simp: storable_def)
  obtain data where r: "render_document (s_maxEvents s1) (s_maxBytes s1) (s_retryAfterUntilMS s1) merged = Some data"
    using render_total [OF ok] by fastforce
  then have d: "n = int (length data)" "f_spool (s_disk s2) \<in> {f_spool (s_disk s1), Some data}"
      "err0 \<in> {None, Some ErrWrite}" "err0 = None \<longrightarrow> f_spool (s_disk s2) = Some data"
    using wr by (simp_all add: renderDocumentLocked_def)
  note pr = parse_render [OF ok ints r]
  have dist: "distinct (map e_id merged)" using sp by (elim conjE)
  have lv: "live (parseSpoolDocument app_of data) = map reload merged"
    using log_live_fresh [of "[]" "map reload merged"] dist
    by (simp add: pr live_def live_records_log log_entries_def reload_def comp_def)
  have ents: "s_entries s' = s_entries s1" using out by (elim conjE)
  have sub: "set (s_entries s1) \<subseteq> set merged" using sp by (elim conjE)
  have mem: "m \<in> set (s_entries s') \<or> e_id m \<noteq> [] \<and> e_id m \<notin> s_settledIDs s \<and> e_id m \<notin> set (s_withdrawnOwedIDs s) \<and> e_id m \<notin> s_ids s"
    if "m \<in> set merged" for m
  proof -
    have "e_id m \<notin> e_id ` set drops" using sp that by blast
    then show ?thesis using src that sp ents assms(2) by (auto simp: from_mirror_or_file_def mirror_ok_def)
  qed
  have nl: "\<exists>d. data = d @ [newline]"
  proof -
    obtain rest where rest: "marshal_lines merged = Some rest"
      "data = marshal_header \<lparr>h_version = spoolRecordVersionLines, h_max_events = s_maxEvents s1,
         h_max_bytes = s_maxBytes s1, h_retry_after = s_retryAfterUntilMS s1\<rparr> @ newline # rest"
      using r by (auto simp: render_document_def split: option.splits Option.bind_splits)
    then have "rest = unlines (map entry_line merged)" using marshal_lines_unlines [OF ok] by simp
    then show ?thesis using rest(2)
      by (cases merged rule: rev_cases) (auto simp: unlines_def)
  qed
  have caps: "within_caps (s_maxEvents s) (s_maxBytes s) merged" using sp by (elim conjE)
  have rend: "rendered app_of s s' merged" if f: "f_spool (s_disk s') = Some data"
    unfolding rendered_def
  proof (intro conjI)
    show "file_live app_of s' = map reload merged" by (simp only: file_live_def f lv option.case)
    show "set (s_entries s') \<subseteq> set merged" unfolding ents by (rule sub)
    show "\<exists>data. f_spool (s_disk s') = Some data \<and> doc_ok (parseSpoolDocument app_of data) \<and> (\<exists>d. data = d @ [newline])"
      using f nl pr by simp
  qed (use dist ok mem caps in blast)+
  have same: "f_spool (s_disk s') = f_spool (s_disk s2)" using out by (elim conjE)
  have old: "f_spool (s_disk s1) = f_spool (s_disk s)" using sp by (simp add: fs_frames)
  show "(\<exists>merged. rendered app_of s s' merged) \<or> f_spool (s_disk s') = f_spool (s_disk s) \<and> err = Some ErrWrite"
  proof (cases "f_spool (s_disk s') = Some data")
    case True
    then show ?thesis using rend by blast
  next
    case False
    then have "err0 = Some ErrWrite" using d(3,4) same by auto
    then have "err = Some ErrWrite" using out by simp
    then show ?thesis using False d(2) same old by auto
  qed
  assume good: "err = None \<or> err = Some ErrMarkerSpend"
  have e0: "err0 = None"
  proof (rule ccontr)
    assume ne: "err0 \<noteq> None"
    then have "err = err0" using out by blast
    then show False using good ne d(3) by auto
  qed
  have f: "f_spool (s_disk s') = Some data" using d(4) e0 same by simp
  have "s_fileBytes s' = n" "s_fileAppendable s'" using out e0 by simp_all
  then show "(\<exists>merged. rendered app_of s s' merged) \<and> s_fileAppendable s' \<and> s_fileBytes s' = int (length (the (f_spool (s_disk s'))))"
    using rend [OF f] by (auto simp: d(1) f)
qed

text \<open>C9. A save that reports success has made the mirror durable: every mirrored entry reads back from
  the file, everything else in the file is a foreign record that was neither settled nor withdrawn,
  identifiers are distinct, and the file's entries are within the caps.\<close>

theorem save_makes_durable:
  assumes "saveLocked app_of s = (None, s')" and "spool_inv s" and "storable app_of s"
  shows "(\<forall>e \<in> set (s_entries s'). reload e \<in> set (file_live app_of s')) \<and>
    (\<forall>x \<in> set (file_live app_of s'). x \<in> reload ` set (s_entries s') \<or>
       e_id x \<notin> s_settledIDs s \<and> e_id x \<notin> set (s_withdrawnOwedIDs s) \<and> e_id x \<notin> s_ids s) \<and>
    distinct (map e_id (file_live app_of s')) \<and>
    within_caps (s_maxEvents s) (s_maxBytes s) (file_live app_of s')"
proof -
  have m: "mirror_ok s" "settled_ok s" using assms(2) by (simp_all add: spool_inv_def)
  obtain merged where r: "rendered app_of s s' merged" using saved_file(2) [OF assms(1) m assms(3)] by blast
  have e: "e_id (reload x) = e_id x" "entry_bytes (reload x) = entry_bytes x" for x
    by (simp_all add: reload_def entry_bytes_def)
  then have "bytes_of (map reload merged) = bytes_of merged" "map e_id (map reload merged) = map e_id merged"
    "e_id \<circ> reload = e_id"
    by (auto simp: bytes_of_def comp_def)
  then show ?thesis using r e unfolding rendered_def within_caps_def by auto
qed

lemma new_spool_facts:
  "spool_inv (newDiskSpool a b g x d)" "s_entries (newDiskSpool a b g x d) = []"
  using new_spool_inv by (simp_all add: newDiskSpool_def)

text \<open>A spool holding two entries on an empty disk, for the witnesses.\<close>

definition sample_disk :: "fs_outcome list \<Rightarrow> fsys" where
  "sample_disk xs = \<lparr>f_spool = None, f_private = True, f_withdrawn = None, f_wipe = False, f_outcomes = xs\<rparr>"

definition sample_spool :: "fs_outcome list \<Rightarrow> diskSpool" where
  "sample_spool xs = (newDiskSpool 10 1000 False [] (sample_disk xs))
     \<lparr>s_entries := [sample_entry ''a'', sample_entry ''b''], s_ids := {''a'', ''b''},
      s_totalBytes := bytes_of [sample_entry ''a'', sample_entry ''b'']\<rparr>"

lemma sample_bytes: "bytes_of [sample_entry ''a'', sample_entry ''b''] = 32"
  by code_simp

lemma sample_spool_ok: "spool_inv (sample_spool xs)" "storable (\<lambda>_. None) (sample_spool xs)"
proof -
  have "mirror_ok (sample_spool xs)"
    by (simp add: sample_spool_def mirror_ok_def sample_entry_def)
  moreover have "caps_ok (sample_spool xs)"
    using sample_bytes by (simp add: sample_spool_def caps_ok_def within_caps_def newDiskSpool_def)
  ultimately show "spool_inv (sample_spool xs)"
    by (simp add: sample_spool_def spool_inv_def settled_ok_def newDiskSpool_def)
  have "clean ''a''" "clean ''b''" by code_simp+
  then show "storable (\<lambda>_. None) (sample_spool xs)"
    using sample_entries_ok
    by (simp add: sample_spool_def storable_def newDiskSpool_def sample_disk_def file_live_def int64_def plain_id_def)
       (simp add: sample_entry_def)
qed

lemma sample_save:
  "saveLocked (\<lambda>_. None) (sample_spool []) = (None, snd (saveLocked (\<lambda>_. None) (sample_spool []))) \<and>
   s_entries (snd (saveLocked (\<lambda>_. None) (sample_spool []))) = [sample_entry ''a'', sample_entry ''b'']"
proof -
  obtain err s' where sv: "saveLocked (\<lambda>_. None) (sample_spool []) = (err, s')" by (cases "saveLocked (\<lambda>_. None) (sample_spool [])")
  have rd: "readRecordEntriesLocked (\<lambda>_. None) (sample_spool []) = ([], sample_spool [])"
    by (simp add: readRecordEntriesLocked_def readRecordBytesLocked_def on_disk_eq bounded_read_def next_outcome_def
        sample_spool_def newDiskSpool_def sample_disk_def)
  have mg: "merge_records (sample_spool []) [] = ([sample_entry ''a'', sample_entry ''b''], 0)"
    by (simp add: merge_records_def merge_mirror_step_def sample_spool_def sample_entry_def)
  have caps: "save_caps [sample_entry ''a'', sample_entry ''b''] 32 [] (sample_spool []\<lparr>s_foreignMerged := 0\<rparr>) =
      ([sample_entry ''a'', sample_entry ''b''], [], sample_spool []\<lparr>s_foreignMerged := 0\<rparr>)"
    by (simp add: sample_spool_def newDiskSpool_def)
  have m: "save_merged (\<lambda>_. None) (sample_spool []) =
      ([sample_entry ''a'', sample_entry ''b''], [], sample_spool []\<lparr>s_foreignMerged := 0\<rparr>)"
    using sample_bytes by (simp add: save_merged_def rd mg) (simp add: caps sample_spool_def newDiskSpool_def)
  obtain data where r: "render_document 10 1000 0 [sample_entry ''a'', sample_entry ''b''] = Some data"
    using render_total [OF sample_entries_ok] by fastforce
  have "save_written [sample_entry ''a'', sample_entry ''b''] (sample_spool []\<lparr>s_foreignMerged := 0\<rparr>) =
      (None, int (length data), sample_spool []\<lparr>s_foreignMerged := 0, s_disk := (sample_disk [])\<lparr>f_spool := Some data\<rparr>\<rparr>)"
    by (simp add: save_written_def renderDocumentLocked_def on_disk_eq write_spool_def call_def next_outcome_def landed_def
        sample_spool_def newDiskSpool_def sample_disk_def r)
  note out = saveLocked_out [OF m this sv]
  have "err = None" using out by (simp add: sample_spool_def newDiskSpool_def)
  moreover have "s_entries s' = [sample_entry ''a'', sample_entry ''b'']" using out by (simp add: sample_spool_def)
  ultimately show ?thesis by (simp add: sv)
qed

theorem save_makes_durable_witness:
  "reload (sample_entry ''b'') \<in> set (file_live (\<lambda>_. None) (snd (saveLocked (\<lambda>_. None) (sample_spool []))))"
  using save_makes_durable [OF conjunct1 [OF sample_save] sample_spool_ok] conjunct2 [OF sample_save] by simp

text \<open>Eviction drops the oldest entries and no more than the caps demand: what it returns is a prefix
  of the mirror, the rest is within the caps, and any shorter prefix would not have been enough.\<close>

theorem eviction_oldest_first:
  assumes "evictOverCapsLocked s = (evicted, s')" and "mirror_ok s"
  shows "s_entries s = evicted @ s_entries s' \<and> within_caps (s_maxEvents s) (s_maxBytes s) (s_entries s') \<and>
    (\<forall>a b. evicted = a @ b \<longrightarrow> b \<noteq> [] \<longrightarrow> \<not> within_caps (s_maxEvents s) (s_maxBytes s) (b @ s_entries s')) \<and>
    s_ids s' = e_id ` set (s_entries s')"
proof -
  from evict_spec [OF assms(1)] assms(2) have a: "s_entries s = evicted @ s_entries s'"
    and b: "\<forall>a b. evicted = a @ b \<longrightarrow> b \<noteq> [] \<longrightarrow> \<not> within_caps (s_maxEvents s) (s_maxBytes s) (b @ s_entries s')"
    and c: "caps_ok s'" and d: "mirror_ok s'" and e: "frame s' = frame s" by blast+
  have f: "s_maxEvents s' = s_maxEvents s" "s_maxBytes s' = s_maxBytes s" using frameD [OF e] by simp_all
  show ?thesis
  proof (intro conjI)
    show "within_caps (s_maxEvents s) (s_maxBytes s) (s_entries s')" using c unfolding caps_ok_def f .
    show "s_ids s' = e_id ` set (s_entries s')" using d unfolding mirror_ok_def by (elim conjE)
  qed (rule a, rule b)
qed

theorem eviction_oldest_first_witness:
  "within_caps 1 1000 (s_entries (snd (evictOverCapsLocked (sample_spool []\<lparr>s_maxEvents := 1\<rparr>))))"
proof -
  let ?s = "sample_spool []\<lparr>s_maxEvents := 1\<rparr>"
  have m: "mirror_ok ?s" using sample_spool_ok(1) [of "[]"] by (simp add: spool_inv_def mirror_ok_def)
  show ?thesis
    using eviction_oldest_first [OF prod.collapse [symmetric] m] by (simp add: sample_spool_def newDiskSpool_def)
qed

end
