(* ===== verification/Spool_Wipes.thy ===== *)
theory Spool_Wipes
  imports Spool_Guarantees
begin

text \<open>
  Consent revocation on the disk spool: \<open>purge\<close>, the wipe it may owe, \<open>settleOwedWipeLocked\<close>, and
  what an owed wipe forbids.  Every file-system call may fail, before or after its effect.
\<close>

section \<open>File operations that succeed\<close>

lemma on_disk_parts [simp]:
  "fst (on_disk f s) = fst (f (s_disk s))" "s_disk (snd (on_disk f s)) = snd (f (s_disk s))"
  "s_owed (snd (on_disk f s)) = s_owed s" "s_entries (snd (on_disk f s)) = s_entries s"
  "s_resend (snd (on_disk f s)) = s_resend s" "s_ids (snd (on_disk f s)) = s_ids s"
  "s_settledIDs (snd (on_disk f s)) = s_settledIDs s"
  by (simp_all add: on_disk_eq)

lemma released_parts [simp]:
  "s_disk (releaseDeferredCapacityDropsLocked s) = s_disk s" "s_owed (releaseDeferredCapacityDropsLocked s) = s_owed s"
  "s_entries (releaseDeferredCapacityDropsLocked s) = s_entries s" "s_resend (releaseDeferredCapacityDropsLocked s) = s_resend s"
  "s_ids (releaseDeferredCapacityDropsLocked s) = s_ids s"
  by (simp_all add: releaseDeferredCapacityDropsLocked_def)

lemma fold_settle_parts:
  "s_disk (fold (\<lambda>e. recordSettledLocked (e_id e)) es s) = s_disk s \<and>
   s_owed (fold (\<lambda>e. recordSettledLocked (e_id e)) es s) = s_owed s"
  by (induction es arbitrary: s) (simp_all add: recordSettledLocked_def Let_def)

lemma condemn_parts [simp]:
  "fst (condemnEntriesLocked s) = s_entries s"
  "s_entries (snd (condemnEntriesLocked s)) = []" "s_resend (snd (condemnEntriesLocked s)) = []"
  "s_ids (snd (condemnEntriesLocked s)) = {}" "s_disk (snd (condemnEntriesLocked s)) = s_disk s"
  "s_owed (snd (condemnEntriesLocked s)) = s_owed s"
  by (simp_all add: condemnEntriesLocked_def Let_def fold_settle_parts)

lemma remove_failed: "f_spool (snd (removeRecordFile d)) \<in> {f_spool d, None}"
  "f_withdrawn (snd (removeWithdrawnFile d)) \<in> {f_withdrawn d, None}"
  "f_wipe (snd (removeMarkerFile d)) \<in> {f_wipe d, False}"
  by (simp_all add: removeRecordFile_def removeWithdrawnFile_def removeMarkerFile_def call_def case_prod_beta Let_def
      next_outcome_frame)

lemma marker_created: "f_wipe d \<Longrightarrow> f_wipe (snd (createWipeOwedMarker d))"
  by (simp add: createWipeOwedMarker_def call_def case_prod_beta Let_def next_outcome_frame)

section \<open>The purge\<close>

lemma owe_wipe_parts [simp]:
  "fst (owe_wipe err dropped s) = dropped" "fst (snd (owe_wipe err dropped s)) = Some err"
  "s_owed (snd (snd (owe_wipe err dropped s)))" "s_entries (snd (snd (owe_wipe err dropped s))) = s_entries s"
  "s_resend (snd (snd (owe_wipe err dropped s))) = s_resend s" "s_ids (snd (snd (owe_wipe err dropped s))) = s_ids s"
  "s_disk (snd (snd (owe_wipe err dropped s))) = snd (createWipeOwedMarker (s_disk s))"
  by (simp_all add: owe_wipe_def case_prod_beta Let_def)

text \<open>A purge fails closed: it hands back every mirrored entry and empties the mirror, its index and
  the resend queue whatever the disk does; a purge without an error has removed the record file and
  the withdrawal marker, and one with an error leaves the wipe owed.\<close>

theorem purge_fails_closed:
  "let (dropped, err, s') = purge s in
     dropped = s_entries s \<and> s_entries s' = [] \<and> s_resend s' = [] \<and> s_ids s' = {} \<and>
     (if err = None then f_spool (s_disk s') = None \<and> f_withdrawn (s_disk s') = None else s_owed s')"
  by (auto simp: purge_def Let_def case_prod_beta frame_simps fs_success split: if_splits)

section \<open>The owed wipe\<close>

text \<open>An owed wipe is only settled by removing the files it covers: a settlement that succeeds on
  an owed wipe leaves neither record file nor withdrawal marker nor wipe marker, one that fails keeps
  the wipe owed in memory, and wherever it fails the wipe marker is as it was unless the record file
  is gone, so a crash in between cannot resurrect what was to be wiped.\<close>

theorem settle_wipe_safe:
  "let (ok, s') = settleOwedWipeLocked s in
     (if \<not> s_owed s then ok \<and> s' = s
      else if ok then \<not> s_owed s' \<and> f_spool (s_disk s') = None \<and> f_withdrawn (s_disk s') = None \<and> \<not> f_wipe (s_disk s')
      else s_owed s') \<and>
     (f_spool (s_disk s') = None \<or> f_wipe (s_disk s') = f_wipe (s_disk s))"
  by (auto simp: settleOwedWipeLocked_def Let_def case_prod_beta frame_simps fs_success split: if_splits)

text \<open>C27. While a wipe is owed the spool neither takes nor gives: appends are refused, nothing is pulled
  or retried, clocks and applications are not touched, an emptied mirror has nothing to acknowledge or
  withdraw, and none of these writes to the directory.\<close>

theorem owed_wipe_closes_spool:
  assumes "s_owed s" and "s_entries s = []"
  shows "(let (r, s') = appendExcept app_of batch deadline stale now allowed excluded s
          in ar_refused r \<and> ar_added r = [] \<and> s' = s) \<and>
    pullResendChunk app_of limit now s = ([], [], False, s) \<and> \<not> hasResendWork s \<and>
    retryPersist app_of s = (False, False, s) \<and> storeRetryDeadline app_of deadline s = (False, s) \<and>
    s_disk (snd (clearRetryDeadline app_of s)) = s_disk s \<and>
    persistDelivery app_of es s = (Some ErrConsentDenied, s) \<and> replaceApplication app_of i sealed s = (False, None, s) \<and>
    ack app_of ids s = ([], False, s) \<and> removeMatchingAfter app_of matches k s = ([], False, s)"
  using assms
  by (simp add: appendExcept_def pullResendChunk_def hasResendWork_def retryPersist_def storeRetryDeadline_def
      clearRetryDeadline_def persistDelivery_def replaceApplication_def ack_def removeMatchingAfter_def Let_def)

theorem owed_wipe_closes_spool_witness:
  "s_owed (snd (snd (purge (sample_spool [FsFailBefore])))) \<and>
   pullResendChunk (\<lambda>_. None) 10 0 (snd (snd (purge (sample_spool [FsFailBefore])))) =
     ([], [], False, snd (snd (purge (sample_spool [FsFailBefore]))))"
proof -
  have "s_owed (snd (snd (purge (sample_spool [FsFailBefore]))))" "s_entries (snd (snd (purge (sample_spool [FsFailBefore])))) = []"
    by (simp_all add: purge_def sample_spool_def newDiskSpool_def sample_disk_def Let_def case_prod_beta
        removeRecordFile_def call_def next_outcome_def)
  then show ?thesis
    using owed_wipe_closes_spool [of "snd (snd (purge (sample_spool [FsFailBefore])))" "\<lambda>_. None"] by blast
qed

end
