(* ===== verification/Spool_Delivery.thy ===== *)
theory Spool_Delivery
  imports Spool_Wipes
begin

text \<open>
  What leaves the disk spool: the chunks it hands out for resending, the events that are
  acknowledged or withdrawn, and the application that its sealed fact replaces.
\<close>

lemma image_disjoint:
  assumes "\<And>x. x \<in> B \<Longrightarrow> f x \<notin> f ` A"
  shows "f ` A \<inter> f ` B = {}"
proof (rule equals0I)
  fix y assume "y \<in> f ` A \<inter> f ` B"
  then obtain x where "x \<in> B" "y = f x" "y \<in> f ` A" by blast
  then show False using assms by simp
qed

section \<open>Resending\<close>

text \<open>A pull hands out at most the limit, only events the mirror still holds and that have not
  expired, reports as expired only expired events of the queue and removes each from the mirror, and
  stops short of the limit only when the queue is exhausted; an owed wipe hands out nothing.\<close>

theorem pull_sound:
  assumes "pullResendChunk app_of limit now s = (chunk, expired, failed, s')" and "spool_inv s" and "bodies body s"
  shows "length chunk \<le> limit \<and> (s_owed s \<longrightarrow> chunk = [] \<and> expired = [] \<and> s' = s) \<and>
    (\<forall>e \<in> set chunk. e \<in> set (s_resend s) \<and> e_id e \<in> e_id ` set (s_entries s) \<and> \<not> spoolEntryExpired e now) \<and>
    (\<forall>e \<in> set expired. e \<in> set (s_resend s) \<and> spoolEntryExpired e now \<and> e_id e \<notin> e_id ` set (s_entries s')) \<and>
    (s_owed s \<or> s_resend s' = [] \<or> length chunk = limit)"
proof (cases "s_owed s")
  case True
  then show ?thesis using assms(1) by (auto simp: pullResendChunk_def)
next
  case open_spool: False
  obtain c x s1 where p: "pull_loop limit now [] [] s = (c, x, s1)" by (cases "pull_loop limit now [] [] s") auto
  have m: "mirror_ok s" "settled_ok s" using assms(2) by (simp_all add: spool_inv_def)
  note lp = pull_loop_inv [OF p m assms(3)]
  then have ok1: "mirror_ok s1" "settled_ok s1" by (simp_all add: pull_inv_def)
  have out: "c = chunk" "x = expired"
    using assms(1) open_spool p by (auto simp: pullResendChunk_def case_prod_beta Let_def split: if_splits)
  have s': "set (s_entries s') \<subseteq> set (s_entries s1) \<and> s_resend s' = s_resend s1"
  proof (cases "x = []")
    case True
    then show ?thesis using assms(1) open_spool p by (auto simp: pullResendChunk_def case_prod_beta Let_def)
  next
    case False
    then have "s' = snd (saveLocked app_of s1)"
      using assms(1) open_spool p out by (simp add: pullResendChunk_def case_prod_beta Let_def)
    then have "saveLocked app_of s1 = (fst (saveLocked app_of s1), s')" by simp
    from saveLocked_invs [OF this ok1] show ?thesis by (auto dest!: frameD)
  qed
  have "s_ids s = e_id ` set (s_entries s)" "s_ids s1 = e_id ` set (s_entries s1)"
    using m(1) ok1(1) by (simp_all add: mirror_ok_def)
  note ids = this
  have sub: "e_id ` set (s_entries s') \<subseteq> s_ids s1" using s' ids(2) by auto
  have len: "length chunk \<le> limit" and stop: "s_resend s1 = [] \<or> limit \<le> length chunk" using lp out by simp_all
  have c: "\<forall>e \<in> set chunk. e \<in> set (s_resend s) \<and> e_id e \<in> s_ids s \<and> \<not> spoolEntryExpired e now"
    and x: "\<forall>e \<in> set expired. e \<in> set (s_resend s) \<and> spoolEntryExpired e now \<and> e_id e \<notin> s_ids s1"
    using lp out by simp_all
  have x': "\<forall>e \<in> set expired. e \<in> set (s_resend s) \<and> spoolEntryExpired e now \<and> e_id e \<notin> e_id ` set (s_entries s')"
    using x sub by blast
  have "s_resend s' = [] \<or> length chunk = limit" using stop len s' by auto
  then show ?thesis using len x' c open_spool unfolding ids(1) by blast
qed

definition resend_spool :: diskSpool where
  "resend_spool = (sample_spool [])\<lparr>s_resend := [sample_entry ''a'']\<rparr>"

theorem pull_sound_witness:
  "length (fst (pullResendChunk (\<lambda>_. None) 1 1700000001000000000 resend_spool)) \<le> 1"
proof -
  have "spool_inv resend_spool"
    using sample_spool_ok(1) [of "[]"]
    by (simp add: resend_spool_def spool_inv_def mirror_ok_def caps_ok_def settled_ok_def)
  moreover have "bodies (\<lambda>i. e_raw (sample_entry i)) resend_spool"
    by (simp add: resend_spool_def bodies_def sample_spool_def) (simp add: sample_entry_def)
  moreover obtain c x f t where "pullResendChunk (\<lambda>_. None) 1 1700000001000000000 resend_spool = (c, x, f, t)"
    by (cases "pullResendChunk (\<lambda>_. None) 1 1700000001000000000 resend_spool") auto
  ultimately show ?thesis using pull_sound [of "\<lambda>_. None" 1 1700000001000000000 resend_spool] by fastforce
qed

section \<open>Settled identifiers are remembered\<close>

lemma fold_settle_recent:
  assumes "settled_ok s" and "s_settledFIFO s = old @ done" and "distinct (map e_id es)"
    and "length done + length es \<le> spoolSettledMemory" and "\<And>e. e \<in> set es \<Longrightarrow> e_id e \<noteq> [] \<and> e_id e \<notin> s_settledIDs s"
  shows "\<exists>old'. s_settledFIFO (fold drop_one es s) = old' @ done @ map e_id es"
  using assms
proof (induction es arbitrary: s old "done")
  case (Cons e es)
  have fresh: "e_id e \<noteq> []" "e_id e \<notin> s_settledIDs s" using Cons.prems(5) by simp_all
  have fifo: "s_settledFIFO (drop_one e s) = lastn spoolSettledMemory (s_settledFIFO s @ [e_id e])"
    using settled_fifo_record [of "s\<lparr>s_ids := s_ids s - {e_id e}\<rparr>" "e_id e"] Cons.prems(1) fresh
    by (simp add: drop_one_def settled_ok_def)
  have len: "length (done @ [e_id e]) \<le> spoolSettledMemory" using Cons.prems(4) by simp
  have split: "s_settledFIFO (drop_one e s) = drop (length old + length (done @ [e_id e]) - spoolSettledMemory) old @ (done @ [e_id e])"
    using len by (simp add: fifo Cons.prems(2) lastn_def)
  have ok: "settled_ok (drop_one e s)" using Cons.prems(1) by (rule drop_one_facts)
  have ids: "s_settledIDs (drop_one e s) \<subseteq> insert (e_id e) (s_settledIDs s)"
  proof -
    let ?k = "length old + length (done @ [e_id e]) - spoolSettledMemory"
    have "s_settledIDs (drop_one e s) = set (s_settledFIFO (drop_one e s))" using ok by (simp only: settled_ok_def)
    also have "\<dots> = set (drop ?k old) \<union> set done \<union> {e_id e}" unfolding split by simp
    finally have a: "s_settledIDs (drop_one e s) = set (drop ?k old) \<union> set done \<union> {e_id e}" .
    have "s_settledIDs s = set (s_settledFIFO s)" using Cons.prems(1) by (simp only: settled_ok_def)
    also have "\<dots> = set old \<union> set done" unfolding Cons.prems(2) by simp
    finally show ?thesis using a set_drop_subset [of ?k old] by blast
  qed
  have "\<exists>old'. s_settledFIFO (fold drop_one es (drop_one e s)) = old' @ (done @ [e_id e]) @ map e_id es"
  proof (rule Cons.IH [OF ok split])
    show "distinct (map e_id es)" using Cons.prems(3) by simp
    show "length (done @ [e_id e]) + length es \<le> spoolSettledMemory" using Cons.prems(4) by simp
    show "e_id x \<noteq> [] \<and> e_id x \<notin> s_settledIDs (drop_one e s)" if "x \<in> set es" for x
    proof -
      have "e_id x \<in> e_id ` set es" using that by simp
      then have "e_id x \<noteq> e_id e" using Cons.prems(3) by auto
      moreover have "e_id x \<noteq> [] \<and> e_id x \<notin> s_settledIDs s" using Cons.prems(5) that by simp
      ultimately show ?thesis using ids by blast
    qed
  qed
  then show ?case by simp
qed simp

lemma drop_ids_settled:
  assumes "drop_ids gone s = (removed, s')" and "spool_inv s" and "length removed \<le> spoolSettledMemory"
    and "\<And>e. e \<in> set removed \<Longrightarrow> e_id e \<noteq> [] \<and> e_id e \<notin> s_settledIDs s"
  shows "e_id ` set removed \<subseteq> s_settledIDs s'"
proof -
  have r: "removed = filter (\<lambda>e. e_id e \<in> gone) (s_entries s)" using drop_ids_spec [OF assms(1)] by simp
  have st: "s_settledIDs s' = s_settledIDs (fold drop_one removed s)"
    using assms(1) r by (auto simp: drop_ids_def drop_one_def [abs_def] Let_def)
  have "distinct (map e_id removed)" using assms(2) by (simp add: r spool_inv_def mirror_ok_def distinct_map_filter)
  from fold_settle_recent [of s "s_settledFIFO s" "[]" removed, OF _ _ this] assms(2-4)
  obtain old where "s_settledFIFO (fold drop_one removed s) = old @ map e_id removed" by (auto simp: spool_inv_def)
  moreover have "settled_ok (fold drop_one removed s)" using fold_drop_one [of removed s] assms(2) by (simp add: spool_inv_def)
  ultimately show ?thesis by (auto simp: st settled_ok_def)
qed

section \<open>Acknowledgement\<close>

lemma storable_drop:
  assumes "storable app_of s" and "drop_ids gone s = (removed, s1)"
  shows "storable app_of (drop_resend gone s1)"
proof -
  note sp = drop_ids_spec [OF assms(2)]
  have r: "s_retryAfterUntilMS s1 = s_retryAfterUntilMS s"
  proof -
    have "s_retryAfterUntilMS (fold drop_one es t) = s_retryAfterUntilMS t" for es t
      by (induction es arbitrary: t) (simp_all add: drop_one_def)
    then show ?thesis using assms(2) by (auto simp: drop_ids_def drop_one_def [abs_def] Let_def)
  qed
  have "s_retryAfterUntilMS (drop_resend gone s1) = s_retryAfterUntilMS s1" by (simp add: drop_resend_def)
  moreover have "file_live app_of (drop_resend gone s1) = file_live app_of s" using sp by (simp add: file_live_def)
  ultimately show ?thesis using sp frameD [of s1 s] assms(1) r by (auto simp: storable_def list_all_iff)
qed

text \<open>After an acknowledgement that reports no failure, no event it removed is in the mirror, in the resend queue, or
  in the record file, whatever other process wrote there in between, as long as the settled memory covers the
  acknowledgement.\<close>

lemma ack_removes:
  assumes "ack app_of ids s = (removed, False, s')" and "spool_inv s" and "storable app_of s"
    and "length removed \<le> spoolSettledMemory" and "e_id ` set removed \<inter> s_settledIDs s = {}"
  shows "e_id ` set removed \<inter> e_id ` set (s_entries s') = {} \<and> e_id ` set removed \<inter> e_id ` set (s_resend s') = {} \<and>
    e_id ` set removed \<inter> e_id ` set (file_live app_of s') = {}"
proof (cases "removed = []")
  case ne: False
  obtain r s1 where d0: "drop_ids (set ids) s = (r, s1)" by (cases "drop_ids (set ids) s")
  obtain err t where sv0: "saveLocked app_of (drop_resend (set ids) s1) = (err, t)"
    by (cases "saveLocked app_of (drop_resend (set ids) s1)")
  have out: "(r, err \<noteq> None, t) = (removed, False, s')"
    using assms(1) ne by (simp add: ack_def d0 sv0 split: if_splits)
  then have d: "drop_ids (set ids) s = (removed, s1)" and sv: "saveLocked app_of (drop_resend (set ids) s1) = (None, s')"
    using d0 sv0 by simp_all
  note sp = drop_ids_spec [OF d]
  let ?s2 = "drop_resend (set ids) s1"
  have m2: "mirror_ok ?s2" "settled_ok ?s2" using sp assms(2) by (simp_all add: spool_inv_def)
  have st: "storable app_of ?s2" by (rule storable_drop [OF assms(3) d])
  obtain merged where r: "rendered app_of ?s2 s' merged" using saved_file(2) [OF sv m2 st] by blast
  have plain: "e_id e \<noteq> []" if "e \<in> set removed" for e
    using that sp assms(3) by (auto simp: storable_def list_all_iff plain_id_def)
  have settled: "e_id ` set removed \<subseteq> s_settledIDs ?s2"
    using drop_ids_settled [OF d assms(2,4)] plain assms(5) by fastforce
  have iv: "set (s_entries s') \<subseteq> set (s_entries ?s2)" "frame s' = frame ?s2"
    using saveLocked_invs [OF sv m2] by auto
  have gone: "e_id ` set removed \<inter> e_id ` set (s_entries s') = {}" using iv(1) sp by auto
  moreover have "e_id ` set removed \<inter> e_id ` set (s_resend s') = {}"
    using frameD [OF iv(2)] sp by auto
  moreover have "e_id ` set removed \<inter> e_id ` set (file_live app_of s') = {}"
  proof -
    have "file_live app_of s' = map reload merged" using r by (simp add: rendered_def)
    then have "e_id ` set (file_live app_of s') = e_id ` set merged" by (auto simp: reload_def image_image)
    moreover have other: "e_id x \<notin> e_id ` set removed" if "x \<in> set merged" for x
    proof -
      have "x \<in> set (s_entries s') \<or> e_id x \<notin> s_settledIDs ?s2" using r that unfolding rendered_def by blast
      then show ?thesis using gone settled by blast
    qed
    have "y \<notin> e_id ` set removed" if "y \<in> e_id ` set merged" for y using that other by (elim imageE) simp
    then have "e_id ` set removed \<inter> e_id ` set merged = {}" by blast
    then show ?thesis using \<open>e_id ` set (file_live app_of s') = e_id ` set merged\<close> by simp
  qed
  ultimately show ?thesis by blast
qed simp

text \<open>On a disk without faults a save succeeds.\<close>

lemma save_renders:
  assumes "save_merged app_of s = (merged, drops, s1)" and "mirror_ok s" and "settled_ok s" and "storable app_of s"
  shows "\<exists>data. renderDocumentLocked merged s1 = Some data"
proof -
  note sp = save_merged_spec [OF assms(1-3)]
  have "\<And>e. e \<in> set (fst (readRecordEntriesLocked app_of s)) \<Longrightarrow> entry_ok app_of e"
    using read_entries_file [of app_of s] assms(4) by (auto simp: storable_def list_all_iff)
  moreover have "\<forall>m \<in> set merged. from_mirror_or_file s (fst (readRecordEntriesLocked app_of s)) m" using sp by (elim conjE)
  ultimately have "list_all (entry_ok app_of) merged"
    using assms(4) by (auto simp: storable_def list_all_iff from_mirror_or_file_def)
  then show ?thesis using render_total by (fastforce simp: renderDocumentLocked_def)
qed

lemma save_on_good_disk:
  assumes "f_outcomes (s_disk s) = []" and "mirror_ok s" and "settled_ok s" and "storable app_of s" and "\<not> s_withdrawnMarkerOwed s"
  shows "fst (saveLocked app_of s) = None"
proof -
  obtain err s' where sv: "saveLocked app_of s = (err, s')" by (cases "saveLocked app_of s")
  obtain merged drops s1 where m: "save_merged app_of s = (merged, drops, s1)" by (cases "save_merged app_of s") auto
  obtain err0 n s2 where w: "save_written merged s1 = (err0, n, s2)" by (cases "save_written merged s1") auto
  note sp = save_merged_spec [OF m assms(2,3)] and out = saveLocked_out [OF m w sv]
  obtain data where r: "renderDocumentLocked merged s1 = Some data" using save_renders [OF m assms(2-4)] by blast
  have "f_outcomes (s_disk s1) = []" using sp assms(1) by (simp add: bounded_read_def next_outcome_def)
  then have "err0 = None" using w
    by (auto simp: save_written_def r on_disk_eq write_spool_def call_def next_outcome_def)
  then show ?thesis using out sp assms(5) by (auto simp: sv)
qed

lemma sample_ack:
  "ack (\<lambda>_. None) [''a''] (sample_spool []) = ([sample_entry ''a''], False, snd (snd (ack (\<lambda>_. None) [''a''] (sample_spool []))))"
proof -
  let ?app = "\<lambda>_. None :: gostring option"
  obtain r s1 where d: "drop_ids (set [''a'']) (sample_spool []) = (r, s1)" by (cases "drop_ids (set [''a'']) (sample_spool [])")
  note sp = drop_ids_spec [OF d]
  have r: "r = [sample_entry ''a'']" using sp by (simp add: sample_spool_def) (simp add: sample_entry_def)
  let ?s2 = "drop_resend (set [''a'']) s1"
  have ok: "f_outcomes (s_disk ?s2) = []" "mirror_ok ?s2" "settled_ok ?s2" "\<not> s_withdrawnMarkerOwed ?s2"
    using sp sample_spool_ok(1) [of "[]"]
    by (simp_all add: spool_inv_def sample_spool_def newDiskSpool_def sample_disk_def drop_resend_def mirror_ok_def settled_ok_def)
  have st: "storable ?app ?s2" by (rule storable_drop [OF sample_spool_ok(2) d])
  have none: "fst (saveLocked ?app ?s2) = None" by (rule save_on_good_disk [OF ok(1-3) st ok(4)])
  have "s_entries (sample_spool []) \<noteq> []" by (simp add: sample_spool_def)
  then show ?thesis using d none by (simp add: ack_def r case_prod_beta Let_def)
qed

end
