(* ===== verification/Spool_Withdrawal.thy ===== *)
theory Spool_Withdrawal
  imports Spool_Delivery
begin

text \<open>
  Withdrawn experiment facts: \<open>removeMatchingAfter\<close> writes the withdrawal marker before it touches the
  record file, and a load settles what the marker names.  Together they keep a withdrawn fact from
  coming back across a crash.
\<close>

section \<open>The marker reads back\<close>

lemma enc_strings_elems: "enc_strings ts @ '']'' = enc_elems (map enc_string ts)"
  by (induction ts rule: enc_strings.induct) simp_all

lemma marshal_ids_array: "marshal_ids ids = enc_array (map fst (map (\<lambda>i. (enc_string i, JStr i)) ids))"
  using enc_strings_elems [of ids] by (simp add: marshal_ids_def enc_array_def comp_def)

lemma unmarshal_marshal_ids:
  assumes "list_all clean ids"
  shows "unmarshal_ids (marshal_ids ids) = Some ids"
proof -
  have "list_all (\<lambda>(t, v). value_text 1 t v) (map (\<lambda>i. (enc_string i, JStr i)) ids)"
    using assms by (auto simp: list_all_iff value_text_clean)
  then have "value_text 0 (marshal_ids ids) (JArr (map JStr ids))"
    unfolding marshal_ids_array
    using value_text_array [of 0 "map (\<lambda>i. (enc_string i, JStr i)) ids"] by (simp add: max_depth_def comp_def)
  then have parse: "parse_json (marshal_ids ids) = Some (JArr (map JStr ids))" by (rule value_text_parse)
  have "those (map (\<lambda>v. if v = JNull then Some [] else as_string v) (map JStr ids)) = Some ids"
    by (induction ids) (simp_all add: as_string_def)
  then show ?thesis by (simp add: unmarshal_ids_def parse)
qed

section \<open>Loading\<close>

lemma load_finish_subset:
  assumes "mirror_ok s" and "settled_ok s"
  shows "set (s_entries (snd (load_finish app_of now retry out s))) \<subseteq> set (s_entries s)"
proof -
  obtain ev s1 where e: "evictOverCapsLocked s = (ev, s1)" by (cases "evictOverCapsLocked s")
  note ed = evict_spec [OF e]
  let ?s2 = "s1\<lparr>s_resend := s_resend s1 @ filter (\<lambda>e. \<not> e_application e) (s_entries s1)\<rparr>"
  have s2: "mirror_ok ?s2" "settled_ok ?s2" using ed assms by (simp_all add: mirror_ok_def settled_ok_def)
  have sub2: "set (s_entries ?s2) \<subseteq> set (s_entries s)" using ed by auto
  obtain o3 s3 where d: "load_defer now retry (out\<lparr>lo_evicted := ev\<rparr>) ?s2 = (o3, s3)"
    by (cases "load_defer now retry (out\<lparr>lo_evicted := ev\<rparr>) ?s2")
  have "s3 = ?s2 \<or> (\<exists>r. s3 = ?s2\<lparr>s_retryAfterUntilMS := r\<rparr>)"
    using load_defer_same [of now retry "out\<lparr>lo_evicted := ev\<rparr>" ?s2] d by simp
  then have s3: "mirror_ok s3" "settled_ok s3" "s_entries s3 = s_entries ?s2"
    using s2 by (auto simp: mirror_ok_def settled_ok_def)
  obtain err t where t: "saveLocked app_of s3 = (err, t)" by (cases "saveLocked app_of s3")
  have "set (s_entries t) \<subseteq> set (s_entries s3)" using saveLocked_invs [OF t s3(1,2)] by auto
  moreover have "s_entries (snd (load_finish app_of now retry out s)) = s_entries t"
    using t by (simp add: load_finish_def e d load_save_def Let_def)
  ultimately show ?thesis using sub2 s3(3) by simp
qed

text \<open>What a load of a fresh spool keeps: re-read survivors of the document that the marker does not
  name.\<close>

lemma load_kept:
  assumes "spool_inv s" and "s_entries s = []" and "f_outcomes (s_disk s) = []"
    and "f_withdrawn (s_disk s) = Some (marshal_ids ids)" and "list_all clean ids"
    and "int (length (marshal_ids ids)) \<le> withdrawnMarkerReadLimit s" and "e \<in> set (s_entries (snd (load app_of now s)))"
  shows "e_id e \<notin> set ids \<and> (\<exists>data. f_spool (s_disk s) = Some data \<and> e \<in> set (recovered app_of (parseSpoolDocument app_of data)))"
proof -
  obtain r s1 where rd: "readRecordBytesLocked s = (r, s1)" by (cases "readRecordBytesLocked s")
  have s1: "s1 = s" "\<And>data. r = ReadBytes data \<Longrightarrow> f_spool (s_disk s) = Some data"
    using rd assms(3) by (auto simp: readRecordBytesLocked_def on_disk_eq bounded_read_def next_outcome_def Let_def split: if_splits option.splits)
  have "\<exists>data. r = ReadBytes data \<and> doc_ok (parseSpoolDocument app_of data)"
    using assms(2,7) rd s1(1) by (auto simp: load_def on_disk_eq Let_def split: read_result.splits if_splits)
  then obtain data where data: "r = ReadBytes data" "doc_ok (parseSpoolDocument app_of data)" by blast
  let ?doc = "parseSpoolDocument app_of data"
  let ?s2 = "s\<lparr>s_tornTailOwed := doc_tornTail ?doc, s_fileAppendable := False\<rparr>"
  have lim: "withdrawnMarkerReadLimit ?s2 = withdrawnMarkerReadLimit s" by (simp add: withdrawnMarkerReadLimit_def)
  have rm: "on_disk (readWithdrawnMarker (withdrawnMarkerReadLimit ?s2)) ?s2 = ((ids, False), ?s2)"
    unfolding lim using assms(3,4,6) unmarshal_marshal_ids [OF assms(5)]
    by (simp add: on_disk_eq readWithdrawnMarker_def bounded_read_def next_outcome_def)
  let ?s4 = "if ids \<noteq> [] then ?s2\<lparr>s_withdrawnMarkerOwed := True, s_withdrawnOwedIDs := remdups ids\<rparr> else ?s2"
  have s4: "mirror_ok ?s4" "settled_ok ?s4" "s_entries ?s4 = []"
    using assms(1,2) by (simp_all add: spool_inv_def mirror_ok_def settled_ok_def)
  let ?ws = "map entry_wire (live ?doc)"
  obtain o5 s5 where fl: "fold (load_step app_of now (sealedApplicationReplacements ?ws) ids False) ?ws (empty_outcome, ?s4) = (o5, s5)"
    by (metis surj_pair)
  have "load app_of now s = load_document app_of now ?doc s" using rd s1(1) data by (simp add: load_def)
  also have "\<dots> = load_finish app_of now (doc_retryAfterUntilMS ?doc) o5 s5"
    unfolding load_document_def using rm fl by (simp add: Let_def)
  finally have ld: "load app_of now s = load_finish app_of now (doc_retryAfterUntilMS ?doc) o5 s5" .
  note lf = load_fold_inv [OF s4(1,2) fl]
  have "e \<in> set (s_entries s5)"
    using load_finish_subset [of s5 app_of now "doc_retryAfterUntilMS ?doc" o5] lf assms(7) unfolding ld by blast
  moreover obtain new where "s_entries s5 = s_entries ?s4 @ new"
    and new: "\<forall>e \<in> set new. e \<in> set (map (spoolEntryFromWire app_of) ?ws) \<and>
      kept_entry app_of now (sealedApplicationReplacements ?ws) ids False e"
    using lf by blast
  ultimately have "e \<in> set (map (spoolEntryFromWire app_of) ?ws)" "kept_entry app_of now (sealedApplicationReplacements ?ws) ids False e"
    using s4(3) by simp_all
  then show ?thesis using s1(2) [OF data(1)] by (auto simp: kept_entry_def recovered_def)
qed

text \<open>C26. A withdrawn identifier is not loaded: on a fresh spool whose marker file names some identifiers,
  a load leaves no entry that carries one of them in the mirror, and every entry it leaves is a
  survivor of the record file.\<close>

theorem load_respects_marker:
  assumes "spool_inv s" and "s_entries s = []" and "f_outcomes (s_disk s) = []"
    and "f_withdrawn (s_disk s) = Some (marshal_ids ids)" and "list_all clean ids"
    and "int (length (marshal_ids ids)) \<le> withdrawnMarkerReadLimit s"
  shows "e_id ` set (s_entries (snd (load app_of now s))) \<inter> set ids = {} \<and>
    (case f_spool (s_disk s) of
       None \<Rightarrow> s_entries (snd (load app_of now s)) = []
     | Some data \<Rightarrow> set (s_entries (snd (load app_of now s))) \<subseteq> set (recovered app_of (parseSpoolDocument app_of data)))"
proof -
  note k = load_kept [OF assms, of _ app_of now]
  have "e_id ` set (s_entries (snd (load app_of now s))) \<inter> set ids = {}" using k by blast
  moreover have "s_entries (snd (load app_of now s)) = []" if "f_spool (s_disk s) = None"
    using k that by (cases "s_entries (snd (load app_of now s))") auto
  ultimately show ?thesis using k by (auto split: option.split)
qed

definition marked_spool :: diskSpool where
  "marked_spool = newDiskSpool 10 1000 True [] ((sample_disk [])\<lparr>f_withdrawn := Some (marshal_ids [''a''])\<rparr>)"

theorem load_respects_marker_witness:
  "e_id ` set (s_entries (snd (load (\<lambda>_. None) 0 marked_spool))) \<inter> set [''a''] = {}"
proof -
  have "length (marshal_ids [''a'']) = 5" by code_simp
  then have len: "int (length (marshal_ids [''a''])) \<le> withdrawnMarkerReadLimit marked_spool"
    by (simp add: withdrawnMarkerReadLimit_def spoolWithdrawnReadLimit_def spoolWithdrawnPerIDBytes_def
        spoolWithdrawnReadCeiling_def spoolRecordReadOverhead_def)
  have c: "list_all clean [''a'']" by code_simp
  have m: "f_withdrawn (s_disk marked_spool) = Some (marshal_ids [''a''])" "f_outcomes (s_disk marked_spool) = []"
    "s_entries marked_spool = []"
    by (simp_all add: marked_spool_def newDiskSpool_def sample_disk_def)
  have i: "spool_inv marked_spool" unfolding marked_spool_def by (rule new_spool_facts(1))
  show ?thesis by (rule conjunct1 [OF load_respects_marker [OF i m(3,2,1) c len]])
qed

section \<open>Withdrawing\<close>

lemma disk_update_frame:
  "s' = s\<lparr>s_withdrawnOwedIDs := x, s_disk := y\<rparr> \<Longrightarrow> s_retryAfterUntilMS s' = s_retryAfterUntilMS s"
  by simp

lemma save_failed_marker:
  assumes "saveLocked app_of s = (Some ErrWrite, s')" and "mirror_ok s" and "settled_ok s"
  shows "f_withdrawn (s_disk s') = f_withdrawn (s_disk s)"
proof -
  obtain merged drops s1 where m: "save_merged app_of s = (merged, drops, s1)" by (cases "save_merged app_of s") auto
  obtain err0 n s2 where w: "save_written merged s1 = (err0, n, s2)" by (cases "save_written merged s1") auto
  note sp = save_merged_spec [OF m assms(2,3)] and out = saveLocked_out [OF m w assms(1)]
  have "err0 \<noteq> None" using out by auto
  then have "f_withdrawn (s_disk s') = f_withdrawn (s_disk s1)" using out by blast
  then show ?thesis using sp by (simp add: fs_frames)
qed

text \<open>C25. Withdrawn facts leave the spool for good: they are gone from the mirror and the resend queue;
  when the removal reports no failure they are gone from the record file, and once their marker was
  written they are either gone from the file or named by the marker on disk, whatever failed after
  that.\<close>

theorem withdrawal_removes:
  assumes "removeMatchingAfter app_of matches k s = (removed, failed, s')" and "spool_inv s" and "storable app_of s"
  shows "e_id ` set removed \<inter> e_id ` set (s_entries s') = {} \<and> e_id ` set removed \<inter> e_id ` set (s_resend s') = {} \<and>
    (\<not> failed \<longrightarrow> e_id ` set removed \<inter> e_id ` set (file_live app_of s') = {}) \<and>
    (fst (writeWithdrawnMarkerLocked (map e_id removed) s) = None \<longrightarrow>
       e_id ` set removed \<inter> e_id ` set (file_live app_of s') = {} \<or>
       (\<exists>ids. f_withdrawn (s_disk s') = Some (marshal_ids ids) \<and> e_id ` set removed \<subseteq> set ids))"
proof (cases "removed = []")
  case ne: False
  define gone where "gone = filter (\<lambda>e. \<not> (k > 0 \<and> e_expFactEpoch e \<ge> k) \<and> e_internalFact e \<and> matches (e_raw e)) (s_entries s)"
  obtain merr s1 where w: "writeWithdrawnMarkerLocked (map e_id gone) s = (merr, s1)"
    by (cases "writeWithdrawnMarkerLocked (map e_id gone) s")
  note mk = marker_write_spec [OF w]
  note same = marker_write_same [OF conjunct1 [OF mk]]
  let ?s2 = "s1\<lparr>s_withdrawnMarkerOwed := True\<rparr>"
  obtain r3 s3 where d: "drop_ids (e_id ` set gone) ?s2 = (r3, s3)" by (cases "drop_ids (e_id ` set gone) ?s2")
  note sp = drop_ids_spec [OF d]
  let ?s4 = "drop_resend (e_id ` set gone) s3\<lparr>s_withdrawalEpoch := s_withdrawalEpoch (drop_resend (e_id ` set gone) s3) + 1\<rparr>"
  obtain err t where sv: "saveLocked app_of ?s4 = (err, t)" by (cases "saveLocked app_of ?s4")
  have "(gone = [] \<longrightarrow> removed = []) \<and> (gone \<noteq> [] \<longrightarrow> removed = gone \<and> failed = (err \<noteq> None) \<and> s' = t)"
    using assms(1) unfolding removeMatchingAfter_def gone_def [symmetric]
    using w d sv by (auto simp: Let_def gone_def split: if_splits)
  then have out: "removed = gone" "failed = (err \<noteq> None)" "s' = t" using ne by auto
  have m4: "mirror_ok ?s4" "settled_ok ?s4"
  proof -
    have "mirror_ok ?s2" "settled_ok ?s2" using same assms(2) by (simp_all add: spool_inv_def mirror_ok_def settled_ok_def)
    then have "mirror_ok s3" "settled_ok s3" using sp by simp_all
    then show "mirror_ok ?s4" "settled_ok ?s4" by (simp_all add: drop_resend_def mirror_ok_def settled_ok_def)
  qed
  have spool4: "f_spool (s_disk ?s4) = f_spool (s_disk s)" "f_withdrawn (s_disk ?s4) = f_withdrawn (s_disk s1)"
    "s_withdrawnOwedIDs ?s4 = s_withdrawnOwedIDs s1" "s_resend ?s4 = filter (\<lambda>e. e_id e \<notin> e_id ` set gone) (s_resend s3)"
    "s_entries ?s4 = filter (\<lambda>e. e_id e \<notin> e_id ` set gone) (s_entries s)"
    using sp mk same by simp_all
  have st: "storable app_of ?s4"
  proof -
    have "storable app_of ?s2"
      using same frameD [of s1 s] assms(3) mk conjunct1 [OF mk]
      by (simp add: storable_def file_live_def) (metis disk_update_frame)
    from storable_drop [OF this d] show ?thesis by (simp add: storable_def file_live_def)
  qed
  have owed: "e_id ` set gone \<subseteq> set (s_withdrawnOwedIDs ?s4)"
  proof -
    have "e_id e \<noteq> []" if "e \<in> set gone" for e
      using that assms(3) by (auto simp: gone_def storable_def list_all_iff plain_id_def)
    then show ?thesis using mk spool4(3) by auto
  qed
  have iv: "set (s_entries t) \<subseteq> set (s_entries ?s4)" "frame t = frame ?s4" using saveLocked_invs [OF sv m4] by auto
  have ents: "e_id ` set gone \<inter> e_id ` set (s_entries t) = {}"
  proof -
    have "e_id x \<notin> e_id ` set gone" if "x \<in> set (s_entries t)" for x using iv(1) that unfolding spool4(5) by auto
    then show ?thesis by (intro image_disjoint)
  qed
  have res: "e_id ` set gone \<inter> e_id ` set (s_resend t) = {}"
  proof -
    have "s_resend t = filter (\<lambda>e. e_id e \<notin> e_id ` set gone) (s_resend s3)"
      using iv(2) unfolding spool4(4) [symmetric] by (simp add: frame_def)
    then show ?thesis by (intro image_disjoint) simp
  qed
  have clean: "e_id ` set gone \<inter> e_id ` set (file_live app_of t) = {}" if r: "rendered app_of ?s4 t merged" for merged
  proof -
    have "x \<in> set (s_entries t) \<or> e_id x \<notin> set (s_withdrawnOwedIDs ?s4)" if "x \<in> set merged" for x
      using r that unfolding rendered_def by blast
    then have "e_id x \<notin> e_id ` set gone" if "x \<in> set merged" for x using that ents owed by blast
    then have "e_id ` set gone \<inter> e_id ` set merged = {}" by (intro image_disjoint)
    moreover have "e_id ` set (file_live app_of t) = e_id ` set merged"
      using r by (auto simp: rendered_def reload_def image_image)
    ultimately show ?thesis by simp
  qed
  have left: "e_id ` set gone \<inter> e_id ` set (file_live app_of t) = {} \<or>
      err = Some ErrWrite \<and> f_withdrawn (s_disk t) = f_withdrawn (s_disk s1)"
  proof (cases "\<exists>merged. rendered app_of ?s4 t merged")
    case False
    then have "err = Some ErrWrite" using saved_file(1) [OF sv m4 st] by blast
    then show ?thesis using save_failed_marker [OF _ m4] sv spool4(2) by auto
  qed (use clean in blast)
  have "(\<exists>ids. f_withdrawn (s_disk s1) = Some (marshal_ids ids) \<and> e_id ` set gone \<subseteq> set ids)" if "merr = None"
    using mk owed spool4(3) that by (intro exI [of _ "s_withdrawnOwedIDs s1"]) simp
  then show ?thesis using left ents res w unfolding out by auto
qed simp

text \<open>A spool holding one internal fact, for the witness.\<close>

definition fact_spool :: diskSpool where
  "fact_spool = (sample_spool [])\<lparr>s_entries := [(sample_entry ''a'')\<lparr>e_internalFact := True\<rparr>], s_ids := {''a''},
     s_totalBytes := bytes_of [sample_entry ''a'']\<rparr>"

lemma fact_spool_ok: "spool_inv fact_spool" "storable (\<lambda>_. None) fact_spool"
proof -
  have b: "bytes_of [(sample_entry ''a'')\<lparr>e_internalFact := True\<rparr>] = bytes_of [sample_entry ''a'']"
    by (simp add: bytes_of_def entry_bytes_def)
  have c: "bytes_of [sample_entry ''a''] = 16" by code_simp
  have "mirror_ok fact_spool" by (simp add: fact_spool_def mirror_ok_def sample_entry_def entry_bytes_def)
  moreover have "caps_ok fact_spool"
    using b c by (simp add: fact_spool_def caps_ok_def within_caps_def sample_spool_def newDiskSpool_def)
  ultimately show "spool_inv fact_spool"
    by (simp add: fact_spool_def sample_spool_def spool_inv_def settled_ok_def newDiskSpool_def)
  have "clean ''a''" by code_simp
  then show "storable (\<lambda>_. None) fact_spool"
    using sample_entries_ok
    by (simp add: fact_spool_def sample_spool_def storable_def newDiskSpool_def sample_disk_def file_live_def int64_def plain_id_def)
       (simp add: sample_entry_def entry_ok_def)
qed

theorem withdrawal_removes_witness:
  "map e_id (fst (removeMatchingAfter (\<lambda>_. None) (\<lambda>_. True) 0 fact_spool)) = [''a''] \<and>
   ''a'' \<notin> e_id ` set (s_entries (snd (snd (removeMatchingAfter (\<lambda>_. None) (\<lambda>_. True) 0 fact_spool))))"
proof -
  let ?r = "removeMatchingAfter (\<lambda>_. None) (\<lambda>_. True) 0 fact_spool"
  have ids: "map e_id (fst ?r) = [''a'']"
    by (simp add: removeMatchingAfter_def fact_spool_def case_prod_beta Let_def) (simp add: sample_entry_def)
  have "?r = (fst ?r, fst (snd ?r), snd (snd ?r))" by simp
  from withdrawal_removes [OF this fact_spool_ok]
  have "e_id ` set (fst ?r) \<inter> e_id ` set (s_entries (snd (snd ?r))) = {}" by (elim conjE)
  moreover have "''a'' \<in> e_id ` set (fst ?r)" using arg_cong [OF ids, of set] by simp
  ultimately show ?thesis using ids by blast
qed

end
