(* ===== verification/Spool_Applications.thy ===== *)
theory Spool_Applications
  imports Spool_Withdrawal
begin

text \<open>
  \<open>replaceApplication\<close> of \<open>experiment_applications.go\<close>: a sealed fact takes the place of the recorded
  application it belongs to.  What a failed save restores, and what it leaves behind.
\<close>

text \<open>The spool the save of a replacement works on.\<close>

definition replacing :: "gostring \<Rightarrow> spoolEntry \<Rightarrow> diskSpool \<Rightarrow> diskSpool" where
  "replacing i sealed s =
     (let s = s\<lparr>s_totalBytes := s_totalBytes s - bytes_of (filter (\<lambda>e. e_id e = i) (s_entries s)),
                s_entries := filter (\<lambda>e. e_id e \<noteq> i) (s_entries s), s_ids := s_ids s - {i}\<rparr>;
          s = recordSettledLocked i s
      in if e_id sealed \<in> s_ids s then s
         else s\<lparr>s_entries := s_entries s @ [sealed], s_ids := insert (e_id sealed) (s_ids s),
                s_totalBytes := s_totalBytes s + entry_bytes sealed\<rparr>)"

lemma replace_cases:
  assumes "replaceApplication app_of i sealed s = (ok, err, s')"
  shows "(ok = False \<and> err = None \<and> s' = s) \<or>
    (\<exists>t. saveLocked app_of (replacing i sealed s) = (err, t) \<and>
       (if err \<noteq> None then \<not> ok \<and> s' = t\<lparr>s_entries := s_entries s, s_resend := s_resend s, s_ids := s_ids s,
                s_settledIDs := s_settledIDs s, s_settledFIFO := s_settledFIFO s, s_totalBytes := s_totalBytes s,
                s_retryAfterUntilMS := s_retryAfterUntilMS s, s_deferredCapacityDrops := s_deferredCapacityDrops s,
                s_dirty := True, s_fileAppendable := False\<rparr>
        else ok = (e_id sealed \<in> s_ids t) \<and> s' = t))"
proof (cases "s_owed s \<or> \<not> s_grantPersisted s \<or> i \<notin> s_ids s \<and> e_id sealed \<notin> s_ids s")
  case True
  then have "replaceApplication app_of i sealed s = (False, None, s)"
    by (cases "s_owed s \<or> \<not> s_grantPersisted s") (simp_all add: replaceApplication_def)
  then show ?thesis using assms by simp
next
  case False
  obtain e t where sv: "saveLocked app_of (replacing i sealed s) = (e, t)" by (cases "saveLocked app_of (replacing i sealed s)")
  have c: "(s_owed s \<or> \<not> s_grantPersisted s) = False" "(i \<notin> s_ids s \<and> e_id sealed \<notin> s_ids s) = False" using False by auto
  have "replaceApplication app_of i sealed s =
      (case saveLocked app_of (replacing i sealed s) of (err, t) \<Rightarrow>
         if err \<noteq> None then (False, err, t\<lparr>s_entries := s_entries s, s_resend := s_resend s, s_ids := s_ids s,
                s_settledIDs := s_settledIDs s, s_settledFIFO := s_settledFIFO s, s_totalBytes := s_totalBytes s,
                s_retryAfterUntilMS := s_retryAfterUntilMS s, s_deferredCapacityDrops := s_deferredCapacityDrops s,
                s_dirty := True, s_fileAppendable := False\<rparr>)
         else (e_id sealed \<in> s_ids t, None, t))"
    by (simp only: replaceApplication_def replacing_def c if_False Let_def)
  also have "\<dots> = (if e \<noteq> None then (False, e, t\<lparr>s_entries := s_entries s, s_resend := s_resend s, s_ids := s_ids s,
                s_settledIDs := s_settledIDs s, s_settledFIFO := s_settledFIFO s, s_totalBytes := s_totalBytes s,
                s_retryAfterUntilMS := s_retryAfterUntilMS s, s_deferredCapacityDrops := s_deferredCapacityDrops s,
                s_dirty := True, s_fileAppendable := False\<rparr>) else (e_id sealed \<in> s_ids t, None, t))"
    by (simp only: sv prod.case)
  finally have eq: "replaceApplication app_of i sealed s = \<dots>" .
  show ?thesis
  proof (cases e)
    case None
    then have "ok = (e_id sealed \<in> s_ids t) \<and> err = None \<and> s' = t" using eq assms by simp
    then show ?thesis using sv None by (intro disjI2 exI [of _ t]) simp
  next
    case (Some x)
    then have "ok = False \<and> err = e \<and> s' = t\<lparr>s_entries := s_entries s, s_resend := s_resend s, s_ids := s_ids s,
                s_settledIDs := s_settledIDs s, s_settledFIFO := s_settledFIFO s, s_totalBytes := s_totalBytes s,
                s_retryAfterUntilMS := s_retryAfterUntilMS s, s_deferredCapacityDrops := s_deferredCapacityDrops s,
                s_dirty := True, s_fileAppendable := False\<rparr>" using eq assms by simp
    then show ?thesis using sv Some by (intro disjI2 exI [of _ t]) simp
  qed
qed

lemma replacing_frame:
  "s_pendingCapacityDrops (replacing i sealed s) = s_pendingCapacityDrops s"
  "s_deferredCapacityDrops (replacing i sealed s) = s_deferredCapacityDrops s"
  by (simp_all add: replacing_def Let_def)

lemma replacing_invs:
  assumes "mirror_ok s" and "settled_ok s"
  shows "mirror_ok (replacing i sealed s)" and "settled_ok (replacing i sealed s)"
    and "s_entries (replacing i sealed s) = filter (\<lambda>e. e_id e \<noteq> i) (s_entries s) @
      (if e_id sealed \<in> s_ids s - {i} then [] else [sealed])"
proof -
  let ?t = "s\<lparr>s_totalBytes := s_totalBytes s - bytes_of (filter (\<lambda>e. e_id e = i) (s_entries s)),
                s_entries := filter (\<lambda>e. e_id e \<noteq> i) (s_entries s), s_ids := s_ids s - {i}\<rparr>"
  have "mirror_ok ?t"
    using assms(1) bytes_of_split [of "s_entries s" "\<lambda>e. e_id e = i"]
    by (auto simp: mirror_ok_def distinct_map_filter)
  then show "mirror_ok (replacing i sealed s)" by (auto simp: replacing_def mirror_ok_def Let_def)
  have "settled_ok ?t" using assms(2) by (simp add: settled_ok_def)
  from settled_record [OF this, of i] show "settled_ok (replacing i sealed s)"
    by (simp add: replacing_def Let_def settled_ok_def)
qed (simp_all add: replacing_def Let_def)

text \<open>A replacement is all or nothing for the mirror: one that reports an error has restored the
  mirror, its index and byte count, the resend queue, the settled memory and the retry deadline; one
  that reports success has a mirror in which the sealed fact stands and its application does not.\<close>

theorem replace_all_or_nothing:
  assumes "replaceApplication app_of i sealed s = (ok, err, s')" and "spool_inv s" and "i \<noteq> e_id sealed"
  shows "(err \<noteq> None \<longrightarrow> \<not> ok \<and> s_entries s' = s_entries s \<and> s_ids s' = s_ids s \<and> s_totalBytes s' = s_totalBytes s \<and>
      s_resend s' = s_resend s \<and> s_settledIDs s' = s_settledIDs s \<and> s_settledFIFO s' = s_settledFIFO s \<and>
      s_retryAfterUntilMS s' = s_retryAfterUntilMS s \<and> s_dirty s') \<and>
    (ok \<longrightarrow> err = None \<and> e_id sealed \<in> e_id ` set (s_entries s') \<and> i \<notin> e_id ` set (s_entries s'))"
proof -
  note m = replacing_invs [of s i sealed, OF conjunct1 [OF assms(2) [unfolded spool_inv_def]]
      conjunct2 [OF conjunct2 [OF assms(2) [unfolded spool_inv_def]]]]
  have "i \<notin> e_id ` set (s_entries t) \<and> s_ids t = e_id ` set (s_entries t)"
    if sv: "saveLocked app_of (replacing i sealed s) = (err, t)" for t
  proof -
    have "mirror_ok t" "\<exists>D. s_entries t = filter (\<lambda>e. e_id e \<notin> D) (s_entries (replacing i sealed s))"
      using saveLocked_invs [OF sv m(1,2)] by blast+
    then show ?thesis using m(3) assms(3) by (auto simp: mirror_ok_def split: if_splits)
  qed
  note held = this
  from replace_cases [OF assms(1)] show ?thesis
  proof (elim disjE exE conjE)
    fix t assume sv: "saveLocked app_of (replacing i sealed s) = (err, t)"
      and out: "if err \<noteq> None then \<not> ok \<and> s' = t\<lparr>s_entries := s_entries s, s_resend := s_resend s, s_ids := s_ids s,
                s_settledIDs := s_settledIDs s, s_settledFIFO := s_settledFIFO s, s_totalBytes := s_totalBytes s,
                s_retryAfterUntilMS := s_retryAfterUntilMS s, s_deferredCapacityDrops := s_deferredCapacityDrops s,
                s_dirty := True, s_fileAppendable := False\<rparr>
        else ok = (e_id sealed \<in> s_ids t) \<and> s' = t"
    show ?thesis using out held [OF sv] by (cases err) simp_all
  qed simp
qed

text \<open>C28. A replacement that fails only in spending the withdrawal marker has moved the deferred capacity
  drops to the pending ones, which are reported, and restores them as deferred as well: they are
  released a second time by the next save.\<close>

theorem replace_keeps_drops_twice:
  assumes "replaceApplication app_of i sealed s = (ok, Some ErrMarkerSpend, s')" and "spool_inv s"
  shows "\<exists>drops. s_pendingCapacityDrops s' = s_pendingCapacityDrops s @ drops @ s_deferredCapacityDrops s \<and>
    s_deferredCapacityDrops s' = s_deferredCapacityDrops s"
proof -
  let ?r = "replacing i sealed s"
  note m = replacing_invs [of s i sealed, OF conjunct1 [OF assms(2) [unfolded spool_inv_def]]
      conjunct2 [OF conjunct2 [OF assms(2) [unfolded spool_inv_def]]]]
  obtain t where sv: "saveLocked app_of ?r = (Some ErrMarkerSpend, t)"
    and s': "s_pendingCapacityDrops s' = s_pendingCapacityDrops t" "s_deferredCapacityDrops s' = s_deferredCapacityDrops s"
    using replace_cases [OF assms(1)] by auto
  obtain merged drops s1 where mg: "save_merged app_of ?r = (merged, drops, s1)" by (cases "save_merged app_of ?r") auto
  obtain err0 n s2 where w: "save_written merged s1 = (err0, n, s2)" by (cases "save_written merged s1") auto
  note sp = save_merged_spec [OF mg m(1,2)] and out = saveLocked_out [OF mg w sv]
  have "err0 \<noteq> Some ErrMarkerSpend" using written_eq [OF w] by (auto split: option.splits)
  moreover have "err0 \<noteq> None \<longrightarrow> Some ErrMarkerSpend = err0" using out by blast
  ultimately have "err0 = None" by auto
  then have "s_pendingCapacityDrops t = s_pendingCapacityDrops ?r @ drops @ s_deferredCapacityDrops ?r" using out sp by simp
  then show ?thesis using s' by (auto simp: replacing_frame)
qed

section \<open>Witnesses\<close>

text \<open>A spool that holds an application and owes a withdrawal marker and a deferred drop, on a disk whose
  record write succeeds and whose marker removal fails.\<close>

definition owing_spool :: "fs_outcome list \<Rightarrow> diskSpool" where
  "owing_spool xs = (sample_spool xs)\<lparr>s_grantPersisted := True, s_withdrawnMarkerOwed := True,
     s_deferredCapacityDrops := [sample_entry ''c'']\<rparr>"

lemma owing_spool_inv: "spool_inv (owing_spool xs)"
  using sample_spool_ok(1) [of xs] by (simp add: owing_spool_def spool_inv_def mirror_ok_def caps_ok_def settled_ok_def)

lemma owing_parts:
  "s_disk (replacing i sealed (owing_spool xs)) = sample_disk xs"
  "s_withdrawnMarkerOwed (replacing i sealed (owing_spool xs))"
  by (simp_all add: replacing_def owing_spool_def sample_spool_def newDiskSpool_def Let_def)

lemma replace_runs:
  "i \<in> s_ids s \<Longrightarrow> \<not> s_owed s \<Longrightarrow> s_grantPersisted s \<Longrightarrow> fst (saveLocked app_of (replacing i sealed s)) = Some e \<Longrightarrow>
   fst (snd (replaceApplication app_of i sealed s)) = Some e"
proof -
  assume *: "i \<in> s_ids s" "\<not> s_owed s" "s_grantPersisted s" and e: "fst (saveLocked app_of (replacing i sealed s)) = Some e"
  then have c: "(s_owed s \<or> \<not> s_grantPersisted s) = False" "(i \<notin> s_ids s \<and> e_id sealed \<notin> s_ids s) = False" by auto
  obtain t where "saveLocked app_of (replacing i sealed s) = (Some e, t)" using e by (cases "saveLocked app_of (replacing i sealed s)") auto
  then show ?thesis
    by (simp only: replaceApplication_def c if_False Let_def) (simp add: replacing_def Let_def)
qed

lemma owing_runs: "''a'' \<in> s_ids (owing_spool xs)" "\<not> s_owed (owing_spool xs)" "s_grantPersisted (owing_spool xs)"
  by (simp_all add: owing_spool_def sample_spool_def newDiskSpool_def sample_disk_def)

lemma save_write_fails:
  assumes "f_outcomes (s_disk s) = [FsOk, FsFailBefore]" and "mirror_ok s" and "settled_ok s"
  shows "fst (saveLocked app_of s) \<noteq> None"
proof -
  obtain merged drops s1 where m: "save_merged app_of s = (merged, drops, s1)" by (cases "save_merged app_of s") auto
  have "f_outcomes (s_disk s1) = [FsFailBefore]"
    using save_merged_spec [OF m assms(2,3)] assms(1) by (simp add: bounded_read_def next_outcome_def)
  then show ?thesis
    by (simp add: saveLocked_def m save_written_def on_disk_eq write_spool_def call_def next_outcome_def Let_def split: option.split)
qed

theorem replace_all_or_nothing_witness:
  "s_entries (snd (snd (replaceApplication (\<lambda>_. None) ''a'' (sample_entry ''b'') (owing_spool [FsOk, FsFailBefore])))) =
   [sample_entry ''a'', sample_entry ''b'']"
proof -
  let ?s = "owing_spool [FsOk, FsFailBefore]"
  let ?r = "replaceApplication (\<lambda>_. None) ''a'' (sample_entry ''b'') ?s"
  have i: "mirror_ok ?s" "settled_ok ?s" using owing_spool_inv by (simp_all add: spool_inv_def)
  have "f_outcomes (s_disk (replacing ''a'' (sample_entry ''b'') ?s)) = [FsOk, FsFailBefore]"
    by (simp add: owing_parts sample_disk_def)
  from save_write_fails [OF this replacing_invs(1,2) [OF i]]
  obtain e where "fst (saveLocked (\<lambda>_. None) (replacing ''a'' (sample_entry ''b'') ?s)) = Some e" by auto
  from replace_runs [OF owing_runs this] have err: "fst (snd ?r) \<noteq> None" by simp
  have "?r = (fst ?r, fst (snd ?r), snd (snd ?r))" by simp
  moreover have "''a'' \<noteq> e_id (sample_entry ''b'')" by (simp add: sample_entry_def)
  ultimately have "s_entries (snd (snd ?r)) = s_entries ?s" using replace_all_or_nothing owing_spool_inv err by blast
  then show ?thesis by (simp add: owing_spool_def sample_spool_def)
qed

lemma save_marker_fails:
  assumes "f_outcomes (s_disk s) = [FsOk, FsOk, FsFailBefore]" and "mirror_ok s" and "settled_ok s" and "storable app_of s"
    and "s_withdrawnMarkerOwed s"
  shows "fst (saveLocked app_of s) = Some ErrMarkerSpend"
proof -
  obtain merged drops s1 where m: "save_merged app_of s = (merged, drops, s1)" by (cases "save_merged app_of s") auto
  note sp = save_merged_spec [OF m assms(2,3)]
  have o1: "f_outcomes (s_disk s1) = [FsOk, FsFailBefore]"
    using sp assms(1) by (simp add: bounded_read_def next_outcome_def)
  have "s_withdrawnMarkerOwed s1" using sp assms(5) by simp
  moreover obtain data where "renderDocumentLocked merged s1 = Some data"
    using save_renders [OF m assms(2-4)] by blast
  ultimately show ?thesis using o1
    by (simp add: saveLocked_def m save_written_def on_disk_eq write_spool_def call_def next_outcome_def landed_def Let_def
        releaseDeferredCapacityDropsLocked_def removeWithdrawnMarkerLocked_def removeWithdrawnFile_def)
qed

theorem replace_keeps_drops_twice_witness:
  "\<exists>drops. s_pendingCapacityDrops (snd (snd (replaceApplication (\<lambda>_. None) ''a'' (sample_entry ''b'')
      (owing_spool [FsOk, FsOk, FsFailBefore])))) = drops @ [sample_entry ''c''] \<and>
    s_deferredCapacityDrops (snd (snd (replaceApplication (\<lambda>_. None) ''a'' (sample_entry ''b'')
      (owing_spool [FsOk, FsOk, FsFailBefore])))) = [sample_entry ''c'']"
proof -
  let ?s = "owing_spool [FsOk, FsOk, FsFailBefore]"
  let ?r = "replaceApplication (\<lambda>_. None) ''a'' (sample_entry ''b'') ?s"
  let ?t = "replacing ''a'' (sample_entry ''b'') ?s"
  have i: "mirror_ok ?s" "settled_ok ?s" using owing_spool_inv by (simp_all add: spool_inv_def)
  have "f_outcomes (s_disk ?t) = [FsOk, FsOk, FsFailBefore]" by (simp add: owing_parts sample_disk_def)
  moreover have "storable (\<lambda>_. None) ?t"
  proof -
    have "s_entries ?t = [sample_entry ''b'']"
      by (simp add: replacing_invs(3) [OF i]) (simp add: owing_spool_def sample_spool_def sample_entry_def)
    moreover have "s_maxEvents ?t = 10" "s_maxBytes ?t = 1000" "s_retryAfterUntilMS ?t = 0"
      by (simp_all add: replacing_def owing_spool_def sample_spool_def newDiskSpool_def Let_def)
    moreover have "clean ''b''" by code_simp
    ultimately show ?thesis using sample_entries_ok
      by (simp add: storable_def file_live_def owing_parts sample_disk_def int64_def plain_id_def) (simp add: sample_entry_def)
  qed
  ultimately have "fst (saveLocked (\<lambda>_. None) ?t) = Some ErrMarkerSpend"
    by (rule save_marker_fails [OF _ replacing_invs(1,2) [OF i] _ owing_parts(2)])
  from replace_runs [OF owing_runs this] have "?r = (fst ?r, Some ErrMarkerSpend, snd (snd ?r))" by (metis prod.collapse)
  from replace_keeps_drops_twice [OF this owing_spool_inv] show ?thesis
    by (simp add: owing_spool_def sample_spool_def newDiskSpool_def)
qed

end
