(* ===== verification/Plan_Schema.thy ===== *)
theory Plan_Schema
  imports Json_Facts Go_Time
begin

text \<open>
  The consent plan of \<open>internal/consentpolicy\<close>: its schema, and the two scans \<open>ParsePlan\<close> makes of a
  document before it decodes it.  \<open>checkObjectKeys\<close> refuses a key that is not a schema name in its
  exact spelling and a key sent twice; \<open>checkRequiredKeys\<close> refuses an omitted required key and a
  null where none is allowed.

  The code derives the schema from the struct types by reflection (\<open>buildSchemaKeys\<close>,
  \<open>buildRequiredKeys\<close>); here a schema is a tree of the fields, each with whether it is required.
  Pointer types are transparent to both scans.  The path of a reported key is kept where the code
  decides on it (\<open>nullableKeys\<close>) and left out of the error otherwise.
\<close>

section \<open>Schemas\<close>

datatype schema = Scalar | Elems schema | Struct "(gostring \<times> bool \<times> schema) list"

definition Scope_fields :: "(gostring \<times> bool \<times> schema) list" where
  "Scope_fields = [(''workspace_key'', True, Scalar), (''app_key'', True, Scalar), (''environment_key'', True, Scalar)]"

definition Signal_fields :: "(gostring \<times> bool \<times> schema) list" where
  "Signal_fields = [(''name'', True, Scalar), (''available'', True, Scalar), (''reason'', False, Scalar)]"

definition Flags_fields :: "(gostring \<times> bool \<times> schema) list" where
  "Flags_fields = [(''crash_profile'', True, Scalar), (''server_analytics'', True, Scalar), (''child_rules'', True, Scalar),
     (''operation_blocks'', True, Elems Scalar)]"

definition Basis_fields :: "(gostring \<times> bool \<times> schema) list" where
  "Basis_fields = [(''character'', True, Scalar), (''table_provenance'', True, Scalar), (''notice'', True, Scalar)]"

definition AdvisoryMatrix_fields :: "(gostring \<times> bool \<times> schema) list" where
  "AdvisoryMatrix_fields = [(''docs_commit'', True, Scalar), (''file_sha256'', True, Scalar), (''date'', True, Scalar)]"

definition Advisory_fields :: "(gostring \<times> bool \<times> schema) list" where
  "Advisory_fields = [(''jurisdiction'', True, Scalar), (''estimate'', True, Scalar), (''row_id'', True, Scalar),
     (''row_status'', True, Scalar), (''row_basis'', True, Scalar), (''advisory_basis'', True, Scalar),
     (''matrix'', True, Struct AdvisoryMatrix_fields), (''resolved_by'', True, Scalar)]"

definition Plan_fields :: "(gostring \<times> bool \<times> schema) list" where
  "Plan_fields = [(''regime'', True, Scalar), (''flags'', True, Struct Flags_fields), (''policy_version'', True, Scalar),
     (''consent_text_version'', True, Scalar), (''presented_language'', True, Scalar), (''scope'', True, Struct Scope_fields),
     (''signals_used'', True, Elems (Struct Signal_fields)), (''band_vocabulary'', True, Scalar),
     (''band_vocabulary_version'', True, Scalar), (''expires_at'', True, Scalar), (''max_age_seconds'', True, Scalar),
     (''signature'', True, Scalar), (''basis'', True, Struct Basis_fields), (''reason'', False, Scalar),
     (''advisory'', False, Struct Advisory_fields)]"

definition plan_schema :: schema where "plan_schema = Struct Plan_fields"

text \<open>The keys a struct allows, with their types, and those it requires.\<close>

definition schemaKeys :: "schema \<Rightarrow> (gostring \<Rightarrow> schema option) option" where
  "schemaKeys t = (case t of Struct fs \<Rightarrow> Some (map_of (map (\<lambda>(n, _, s). (n, s)) fs)) | _ \<Rightarrow> None)"

definition requiredKeys :: "(gostring \<times> bool \<times> schema) list \<Rightarrow> gostring list" where
  "requiredKeys fs = map fst (filter (\<lambda>(_, req, _). req) fs)"

section \<open>The key scan\<close>

datatype key_error = NotAnObject | UnknownKey gostring | DuplicateKey gostring | MissingKey gostring | NullKey gostring

text \<open>A value of a type the schema does not know (\<open>None\<close>) may hold any keys, each once.\<close>

definition elem_schema :: "schema option \<Rightarrow> schema option" where
  "elem_schema t = (case t of Some (Elems s) \<Rightarrow> Some s | _ \<Rightarrow> None)"

function (sequential) checkValueKeys :: "schema option \<Rightarrow> json \<Rightarrow> key_error option"
and checkObjectBody :: "(gostring \<Rightarrow> schema option) option \<Rightarrow> gostring list \<Rightarrow> (gostring \<times> gostring \<times> json) list \<Rightarrow> key_error option"
and checkElements :: "schema option \<Rightarrow> json list \<Rightarrow> key_error option" where
  "checkValueKeys t (JObj ms) = checkObjectBody (Option.bind t schemaKeys) [] ms"
| "checkValueKeys t (JArr vs) = checkElements (elem_schema t) vs"
| "checkValueKeys t v = None"
| "checkObjectBody keys seen [] = None"
| "checkObjectBody keys seen ((k, raw, v) # ms) =
     (if keys \<noteq> None \<and> the keys k = None then Some (UnknownKey k)
      else if k \<in> set seen then Some (DuplicateKey k)
      else case checkValueKeys (Option.bind keys (\<lambda>f. f k)) v of
             Some e \<Rightarrow> Some e
           | None \<Rightarrow> checkObjectBody keys (k # seen) ms)"
| "checkElements t [] = None"
| "checkElements t (v # vs) = (case checkValueKeys t v of Some e \<Rightarrow> Some e | None \<Rightarrow> checkElements t vs)"
  by pat_completeness auto
termination by size_change

definition checkObjectKeys :: "json \<Rightarrow> key_error option" where
  "checkObjectKeys v = (case v of JObj ms \<Rightarrow> checkValueKeys (Some plan_schema) v | _ \<Rightarrow> Some NotAnObject)"

section \<open>The required-key scan\<close>

definition nullableKeys :: "gostring list" where
  "nullableKeys = [''signature'', ''advisory.estimate'']"

text \<open>The member a Go map decoded from an object holds: of several, the last.\<close>

definition member_value :: "(gostring \<times> gostring \<times> json) list \<Rightarrow> gostring \<Rightarrow> json option" where
  "member_value ms k = map_of (rev (map (\<lambda>(k, _, v). (k, v)) ms)) k"

definition isJSONNull :: "json \<Rightarrow> bool" where "isJSONNull v \<longleftrightarrow> v = JNull"

text \<open>The object a value decodes to; a value of another kind ends the scan, and is the decode's to
  report.\<close>

definition as_map :: "json \<Rightarrow> (gostring \<times> gostring \<times> json) list option" where
  "as_map v = (case v of JObj ms \<Rightarrow> Some ms | JNull \<Rightarrow> Some [] | _ \<Rightarrow> None)"

definition key_path :: "gostring \<Rightarrow> gostring \<Rightarrow> gostring" where
  "key_path whre k = trim_prefix ''.'' (whre @ ''.'' @ k)"

function (sequential) requiredKeysIn :: "json \<Rightarrow> schema \<Rightarrow> gostring \<Rightarrow> key_error option"
and requiredElements :: "json list \<Rightarrow> schema \<Rightarrow> gostring \<Rightarrow> nat \<Rightarrow> key_error option"
and requiredFields :: "(gostring \<times> gostring \<times> json) list \<Rightarrow> (gostring \<times> bool \<times> schema) list \<Rightarrow> gostring \<Rightarrow> key_error option" where
  "requiredKeysIn v Scalar whre = None"
| "requiredKeysIn v (Elems t) whre = (case v of JArr vs \<Rightarrow> requiredElements vs t whre 0 | _ \<Rightarrow> None)"
| "requiredKeysIn v (Struct fs) whre =
     (case as_map v of
        None \<Rightarrow> None
      | Some ms \<Rightarrow>
          if list_ex (\<lambda>k. member_value ms k = None) (requiredKeys fs) then Some (MissingKey whre)
          else requiredFields ms fs whre)"
| "requiredElements [] t whre i = None"
| "requiredElements (v # vs) t whre i =
     (case requiredKeysIn v t (whre @ ''['' @ show_int (int i) @ '']'') of
        Some e \<Rightarrow> Some e | None \<Rightarrow> requiredElements vs t whre (Suc i))"
| "requiredFields ms [] whre = None"
| "requiredFields ms ((k, req, t) # fs) whre =
     (case member_value ms k of
        None \<Rightarrow> requiredFields ms fs whre
      | Some v \<Rightarrow>
          if isJSONNull v then
            (if key_path whre k \<notin> set nullableKeys then Some (NullKey (key_path whre k)) else requiredFields ms fs whre)
          else case requiredKeysIn v t (key_path whre k) of
                 Some e \<Rightarrow> Some e
               | None \<Rightarrow> requiredFields ms fs whre)"
  by pat_completeness auto
termination
  by (relation "measures [\<lambda>x. case x of Inl (v, t, w) \<Rightarrow> size t | Inr (Inl (vs, t, w, i)) \<Rightarrow> size t | Inr (Inr (ms, fs, w)) \<Rightarrow> size (Struct fs),
        \<lambda>x. case x of Inl _ \<Rightarrow> 1 | Inr (Inl (vs, t, w, i)) \<Rightarrow> Suc (Suc (length vs)) | Inr (Inr (ms, fs, w)) \<Rightarrow> 0]")
     auto

definition checkRequiredKeys :: "json \<Rightarrow> key_error option" where
  "checkRequiredKeys v = requiredKeysIn v plan_schema []"

section \<open>What the key scan accepts\<close>

text \<open>At every level of the document, under a schema type or not, no key is sent twice; an object of a
  schema type carries only its keys.\<close>

lemma member_size: "(k, raw, v) \<in> set ms \<Longrightarrow> size v < Suc (size_list (size_prod (\<lambda>x. 0) (size_prod (\<lambda>x. 0) size)) ms)"
  using size_list_estimation' [of "(k, raw, v)" ms "size v" "size_prod (\<lambda>x. 0) (size_prod (\<lambda>x. 0) size)"] by simp

lemma element_size: "v \<in> set vs \<Longrightarrow> size v < Suc (size_list size vs)"
  using size_list_estimation' [of v vs "size v" size] by simp

function (sequential) exact_keys :: "schema option \<Rightarrow> json \<Rightarrow> bool" where
  "exact_keys t (JObj ms) \<longleftrightarrow>
     distinct (map fst ms) \<and>
     (\<forall>k raw v. (k, raw, v) \<in> set ms \<longrightarrow>
        (case Option.bind t schemaKeys of None \<Rightarrow> exact_keys None v
         | Some keys \<Rightarrow> keys k \<noteq> None \<and> exact_keys (keys k) v))"
| "exact_keys t (JArr vs) \<longleftrightarrow> (\<forall>v. v \<in> set vs \<longrightarrow> exact_keys (elem_schema t) v)"
| "exact_keys t v \<longleftrightarrow> True"
  by pat_completeness auto
termination
by (relation "measure (\<lambda>(t, v). size v)") (auto intro: member_size element_size)

lemma all_members_Cons:
  "(\<forall>k raw v. (k, raw, v) \<in> set ((k', raw', v') # ms) \<longrightarrow> P k v) \<longleftrightarrow> P k' v' \<and> (\<forall>k raw v. (k, raw, v) \<in> set ms \<longrightarrow> P k v)"
  by auto

lemma checkValueKeys_exact:
  "checkValueKeys t v = None \<longleftrightarrow> exact_keys t v"
  "checkObjectBody keys seen ms = None \<longleftrightarrow>
     distinct (map fst ms) \<and> set seen \<inter> fst ` set ms = {} \<and>
     (\<forall>k raw v. (k, raw, v) \<in> set ms \<longrightarrow>
        (case keys of None \<Rightarrow> exact_keys None v | Some f \<Rightarrow> f k \<noteq> None \<and> exact_keys (f k) v))"
  "checkElements t vs = None \<longleftrightarrow> (\<forall>v. v \<in> set vs \<longrightarrow> exact_keys t v)"
proof (induction t v and keys seen ms and t vs rule: checkValueKeys_checkObjectBody_checkElements.induct)
  case (5 keys seen k raw v ms)
  show ?case
  proof (cases "keys \<noteq> None \<and> the keys k = None \<or> k \<in> set seen")
    case True
    then show ?thesis unfolding all_members_Cons by (auto split: option.splits)
  next
    case False
    then have head: "(case keys of None \<Rightarrow> exact_keys None v | Some f \<Rightarrow> f k \<noteq> None \<and> exact_keys (f k) v) \<longleftrightarrow>
        checkValueKeys (Option.bind keys (\<lambda>f. f k)) v = None"
      using 5(1) by (cases keys) auto
    have rec: "checkObjectBody keys seen ((k, raw, v) # ms) = None \<longleftrightarrow>
        checkValueKeys (Option.bind keys (\<lambda>f. f k)) v = None \<and> checkObjectBody keys (k # seen) ms = None"
      using False by (auto split: option.split)
    show ?thesis
    proof (cases "checkValueKeys (Option.bind keys (\<lambda>f. f k)) v")
      case None
      have "checkObjectBody keys (k # seen) ms = None \<longleftrightarrow>
          distinct (map fst ms) \<and> set (k # seen) \<inter> fst ` set ms = {} \<and>
          (\<forall>k raw v. (k, raw, v) \<in> set ms \<longrightarrow>
            (case keys of None \<Rightarrow> exact_keys None v | Some f \<Rightarrow> f k \<noteq> None \<and> exact_keys (f k) v))"
        using 5(2) False None by blast
      then show ?thesis unfolding rec all_members_Cons head using None False by auto
    next
      case (Some e)
      then show ?thesis unfolding rec all_members_Cons head by simp
    qed
  qed
qed (auto split: option.splits)

section \<open>What the required-key scan accepts\<close>

text \<open>Every required key of every struct is there, and only a nullable key holds null.\<close>

function (sequential) complete_keys :: "json \<Rightarrow> schema \<Rightarrow> gostring \<Rightarrow> bool" where
  "complete_keys v Scalar whre \<longleftrightarrow> True"
| "complete_keys v (Elems t) whre \<longleftrightarrow>
     (case v of JArr vs \<Rightarrow> \<forall>i. i < length vs \<longrightarrow> complete_keys (vs ! i) t (whre @ ''['' @ show_int (int i) @ '']'') | _ \<Rightarrow> True)"
| "complete_keys v (Struct fs) whre \<longleftrightarrow>
     (case as_map v of None \<Rightarrow> True
      | Some ms \<Rightarrow> \<forall>k req t. (k, req, t) \<in> set fs \<longrightarrow>
          (case member_value ms k of
             None \<Rightarrow> \<not> req
           | Some v \<Rightarrow> if v = JNull then key_path whre k \<in> set nullableKeys else complete_keys v t (key_path whre k)))"
  by pat_completeness auto
termination
proof (relation "measure (\<lambda>(v, t, w). size t)")
  show "((v', t, key_path w k), v, Struct fs, w) \<in> measure (\<lambda>(v, t, w). size t)"
    if "(k, req, t) \<in> set fs" for v' t w k v fs req
    using size_list_estimation' [OF that order_refl, of "size_prod (\<lambda>x. 0) (size_prod (\<lambda>x. 0) size)"] by simp
qed auto

lemma requiredKeysIn_complete:
  "requiredKeysIn v t whre = None \<longleftrightarrow> complete_keys v t whre"
  "requiredElements vs t whre i = None \<longleftrightarrow>
     (\<forall>j. j < length vs \<longrightarrow> complete_keys (vs ! j) t (whre @ ''['' @ show_int (int (i + j)) @ '']''))"
  "requiredFields ms fs whre = None \<longleftrightarrow>
     (\<forall>k req t. (k, req, t) \<in> set fs \<longrightarrow>
        (case member_value ms k of None \<Rightarrow> True
         | Some v \<Rightarrow> if v = JNull then key_path whre k \<in> set nullableKeys else complete_keys v t (key_path whre k)))"
proof (induction v t whre and vs t whre i and ms fs whre rule: requiredKeysIn_requiredElements_requiredFields.induct)
  case (3 v fs whre)
  have req: "list_ex (\<lambda>k. member_value ms k = None) (requiredKeys fs) \<longleftrightarrow>
      (\<exists>k t. (k, True, t) \<in> set fs \<and> member_value ms k = None)" for ms
    by (force simp: list_ex_iff requiredKeys_def)
  show ?case
  proof (cases "as_map v")
    case (Some ms)
    show ?thesis
    proof (cases "list_ex (\<lambda>k. member_value ms k = None) (requiredKeys fs)")
      case True
      then obtain k t where "(k, True, t) \<in> set fs" "member_value ms k = None" using req by blast
      then have "\<not> complete_keys v (Struct fs) whre" using Some by fastforce
      then show ?thesis using True Some by simp
    next
      case False
      then have "\<not> (\<exists>k t. (k, True, t) \<in> set fs \<and> member_value ms k = None)" unfolding req [of ms] .
      then have nr: "\<not> r" if "(k, r, t) \<in> set fs" "member_value ms k = None" for k r t using that by (cases r) auto
      have same: "(case member_value ms k of None \<Rightarrow> \<not> r | Some v \<Rightarrow> P v) \<longleftrightarrow> (case member_value ms k of None \<Rightarrow> True | Some v \<Rightarrow> P v)"
        if "(k, r, t) \<in> set fs" for k r t P using nr [OF that] by (simp split: option.split)
      have "complete_keys v (Struct fs) whre \<longleftrightarrow> (\<forall>k req t. (k, req, t) \<in> set fs \<longrightarrow>
          (case member_value ms k of None \<Rightarrow> True
           | Some v \<Rightarrow> if v = JNull then key_path whre k \<in> set nullableKeys else complete_keys v t (key_path whre k)))"
        using Some same by simp
      then show ?thesis using False Some 3 [OF Some False] by simp
    qed
  qed simp
next
  case (5 v vs t whre i)
  have split: "(\<forall>j. j < length (v # vs) \<longrightarrow> Q ((v # vs) ! j) (i + j)) \<longleftrightarrow> Q v i \<and> (\<forall>j. j < length vs \<longrightarrow> Q (vs ! j) (Suc i + j))"
    for Q :: "json \<Rightarrow> nat \<Rightarrow> bool"
    using All_less_Suc2 [of "length vs" "\<lambda>j. Q ((v # vs) ! j) (i + j)"] by simp
  show ?case
    unfolding split [where Q = "\<lambda>x j. complete_keys x t (whre @ ''['' @ show_int (int j) @ '']'')"]
  proof (cases "requiredKeysIn v t (whre @ ''['' @ show_int (int i) @ '']'')")
    case None
    then show "(requiredElements (v # vs) t whre i = None) \<longleftrightarrow> complete_keys v t (whre @ ''['' @ show_int (int i) @ '']'') \<and>
        (\<forall>j. j < length vs \<longrightarrow> complete_keys (vs ! j) t (whre @ ''['' @ show_int (int (Suc i + j)) @ '']''))"
      using 5(1) 5(2) [OF None] by simp
  next
    case (Some e)
    then show "(requiredElements (v # vs) t whre i = None) \<longleftrightarrow> complete_keys v t (whre @ ''['' @ show_int (int i) @ '']'') \<and>
        (\<forall>j. j < length vs \<longrightarrow> complete_keys (vs ! j) t (whre @ ''['' @ show_int (int (Suc i + j)) @ '']''))"
      using 5(1) by simp
  qed
next
  case (7 ms k req t fs whre)
  show ?case
  proof (cases "member_value ms k")
    case None
    then show ?thesis unfolding all_members_Cons using 7(1) by simp
  next
    case (Some v)
    show ?thesis
    proof (cases "v = JNull")
      case True
      then show ?thesis unfolding all_members_Cons using Some 7(2) by (simp add: isJSONNull_def)
    next
      case False
      then have nn: "\<not> isJSONNull v" by (simp add: isJSONNull_def)
      show ?thesis
        unfolding all_members_Cons using Some False nn 7(3) [OF Some nn] 7(4) [OF Some nn]
        by (cases "requiredKeysIn v t (key_path whre k)") simp_all
    qed
  qed
qed (auto split: json.splits)

end
