(* ===== verification/Plan_Parse.thy ===== *)
theory Plan_Parse
  imports Plan_Schema
begin

text \<open>
  \<open>ParsePlan\<close> of \<open>internal/consentpolicy\<close> (\<open>plan.go\<close>, \<open>advisory.go\<close>): the plan's types, the decode of
  a document into them, and their validation.

  The string types of the enumerations (\<open>Regime\<close>, \<open>CrashProfile\<close>, ...) are strings with a \<open>known\<close>
  predicate, as in the code; a Go pointer to a scalar is an option.  A document that is not one JSON
  value is \<open>PlanUnreadable\<close> whatever else is wrong with it: the code's key scan may name another
  error for it first, and no caller tells the two apart.
\<close>

section \<open>Enumerations\<close>

definition StrictOptIn :: gostring where "StrictOptIn = ''STRICT_OPT_IN''"
definition SoftOptOut :: gostring where "SoftOptOut = ''SOFT_OPT_OUT''"
definition UnknownRegime :: gostring where "UnknownRegime = ''UNKNOWN''"
definition regime_known :: "gostring \<Rightarrow> bool" where
  "regime_known r \<longleftrightarrow> r = StrictOptIn \<or> r = SoftOptOut \<or> r = UnknownRegime"

definition CrashOff :: gostring where "CrashOff = ''off''"
definition CrashMinimalDiagnosticsForMinors :: gostring where
  "CrashMinimalDiagnosticsForMinors = ''minimal_diagnostics_for_minors''"
definition crash_known :: "gostring \<Rightarrow> bool" where
  "crash_known p \<longleftrightarrow> p = CrashOff \<or> p = CrashMinimalDiagnosticsForMinors"

definition ServerAnalyticsDenied :: gostring where "ServerAnalyticsDenied = ''denied''"
definition server_known :: "gostring \<Rightarrow> bool" where "server_known s \<longleftrightarrow> s = ServerAnalyticsDenied"

definition ChildRulesMinimised :: gostring where "ChildRulesMinimised = ''minimised''"
definition child_known :: "gostring \<Rightarrow> bool" where "child_known c \<longleftrightarrow> c = ChildRulesMinimised"

definition refusal_reasons :: "gostring list" where
  "refusal_reasons = [''invalid_request'', ''invalid_scope'', ''store_region_not_accepted'', ''unsupported_app_version'',
     ''policy_unavailable'']"
definition refusal_known :: "gostring \<Rightarrow> bool" where "refusal_known r \<longleftrightarrow> r \<in> set refusal_reasons"

definition basis_known :: "gostring \<Rightarrow> bool" where "basis_known b \<longleftrightarrow> b = ''informational_reference''"
definition provenance_known :: "gostring \<Rightarrow> bool" where
  "provenance_known t \<longleftrightarrow> t = ''ai_draft'' \<or> t = ''owner_accepted''"
definition signal_reason_known :: "gostring \<Rightarrow> bool" where
  "signal_reason_known s \<longleftrightarrow> s = ''source_not_permitted'' \<or> s = ''source_unavailable'' \<or> s = ''not_enabled_in_release''"

definition estimate_known :: "gostring \<Rightarrow> bool" where
  "estimate_known e \<longleftrightarrow> e = ''SOFT_OPT_OUT'' \<or> e = ''STRICT_OPT_IN''"
definition row_status_known :: "gostring \<Rightarrow> bool" where "row_status_known s \<longleftrightarrow> s = ''COUNSEL_PENDING''"
definition row_basis_known :: "gostring \<Rightarrow> bool" where "row_basis_known b \<longleftrightarrow> b = ''ai_draft''"
definition AdvisoryResolvedByUnknown :: gostring where "AdvisoryResolvedByUnknown = ''unknown''"
definition resolved_by_known :: "gostring \<Rightarrow> bool" where
  "resolved_by_known r \<longleftrightarrow> r = ''server_country'' \<or> r = AdvisoryResolvedByUnknown"
definition AdvisoryJurisdictionOther :: gostring where "AdvisoryJurisdictionOther = ''OTHER''"

section \<open>Types\<close>

record Scope =
  WorkspaceKey :: gostring
  AppKey :: gostring
  EnvironmentKey :: gostring

definition scope_complete :: "Scope \<Rightarrow> bool" where
  "scope_complete s \<longleftrightarrow> WorkspaceKey s \<noteq> [] \<and> AppKey s \<noteq> [] \<and> EnvironmentKey s \<noteq> []"

definition scope_equal :: "Scope \<Rightarrow> Scope \<Rightarrow> bool" where
  "scope_equal s t \<longleftrightarrow> WorkspaceKey s = WorkspaceKey t \<and> AppKey s = AppKey t \<and> EnvironmentKey s = EnvironmentKey t"

record Signal =
  sg_Name :: gostring
  sg_Available :: "bool option"
  sg_Reason :: gostring

record Flags =
  CrashProfile :: gostring
  ServerAnalytics :: gostring
  ChildRules :: gostring
  OperationBlocks :: "gostring list"

record Basis =
  Character :: gostring
  TableProvenance :: gostring
  Notice :: gostring

record AdvisoryMatrix =
  DocsCommit :: gostring
  FileSHA256 :: gostring
  MatrixDate :: gostring

record Advisory =
  Jurisdiction :: gostring
  Estimate :: "gostring option"
  RowID :: gostring
  RowStatus :: gostring
  RowBasis :: gostring
  AdvisoryBasis :: gostring
  Matrix :: AdvisoryMatrix
  ResolvedBy :: gostring

record Plan =
  PlanRegime :: gostring
  PlanFlags :: Flags
  PolicyVersion :: gostring
  ConsentTextVersion :: gostring
  PresentedLanguage :: gostring
  PlanScope :: Scope
  SignalsUsed :: "Signal list"
  BandVocabulary :: gostring
  BandVocabularyVersion :: gostring
  ExpiresAt :: gostring
  MaxAgeSeconds :: "int option"
  Signature :: "gostring option"
  PlanBasis :: Basis
  PlanReason :: "gostring option"
  PlanAdvisory :: "Advisory option"

section \<open>Decoding\<close>

text \<open>\<open>json.Decoder.Decode\<close> into the types: an absent member leaves the zero value, a value of another
  kind fails the decode.\<close>

definition zero_scope :: Scope where "zero_scope = \<lparr>WorkspaceKey = [], AppKey = [], EnvironmentKey = []\<rparr>"
definition zero_signal :: Signal where "zero_signal = \<lparr>sg_Name = [], sg_Available = None, sg_Reason = []\<rparr>"
definition zero_flags :: Flags where
  "zero_flags = \<lparr>CrashProfile = [], ServerAnalytics = [], ChildRules = [], OperationBlocks = []\<rparr>"
definition zero_basis :: Basis where "zero_basis = \<lparr>Character = [], TableProvenance = [], Notice = []\<rparr>"
definition zero_matrix :: AdvisoryMatrix where "zero_matrix = \<lparr>DocsCommit = [], FileSHA256 = [], MatrixDate = []\<rparr>"

definition decode_scope :: "(gostring \<times> gostring \<times> json) list \<Rightarrow> Scope option" where
  "decode_scope ms = do {
     w \<leftarrow> dstring ''workspace_key'' ms; a \<leftarrow> dstring ''app_key'' ms; e \<leftarrow> dstring ''environment_key'' ms;
     Some \<lparr>WorkspaceKey = w, AppKey = a, EnvironmentKey = e\<rparr> }"

definition decode_signal :: "(gostring \<times> gostring \<times> json) list \<Rightarrow> Signal option" where
  "decode_signal ms = do {
     n \<leftarrow> dstring ''name'' ms; a \<leftarrow> dpointer as_bool ''available'' ms; r \<leftarrow> dstring ''reason'' ms;
     Some \<lparr>sg_Name = n, sg_Available = a, sg_Reason = r\<rparr> }"

definition decode_flags :: "(gostring \<times> gostring \<times> json) list \<Rightarrow> Flags option" where
  "decode_flags ms = do {
     c \<leftarrow> dstring ''crash_profile'' ms; s \<leftarrow> dstring ''server_analytics'' ms; r \<leftarrow> dstring ''child_rules'' ms;
     b \<leftarrow> decode_field (as_list [] as_string) [] ''operation_blocks'' ms;
     Some \<lparr>CrashProfile = c, ServerAnalytics = s, ChildRules = r, OperationBlocks = b\<rparr> }"

definition decode_basis :: "(gostring \<times> gostring \<times> json) list \<Rightarrow> Basis option" where
  "decode_basis ms = do {
     c \<leftarrow> dstring ''character'' ms; t \<leftarrow> dstring ''table_provenance'' ms; n \<leftarrow> dstring ''notice'' ms;
     Some \<lparr>Character = c, TableProvenance = t, Notice = n\<rparr> }"

definition decode_matrix :: "(gostring \<times> gostring \<times> json) list \<Rightarrow> AdvisoryMatrix option" where
  "decode_matrix ms = do {
     c \<leftarrow> dstring ''docs_commit'' ms; f \<leftarrow> dstring ''file_sha256'' ms; d \<leftarrow> dstring ''date'' ms;
     Some \<lparr>DocsCommit = c, FileSHA256 = f, MatrixDate = d\<rparr> }"

definition decode_advisory :: "(gostring \<times> gostring \<times> json) list \<Rightarrow> Advisory option" where
  "decode_advisory ms = do {
     j \<leftarrow> dstring ''jurisdiction'' ms; e \<leftarrow> dpointer as_string ''estimate'' ms; i \<leftarrow> dstring ''row_id'' ms;
     s \<leftarrow> dstring ''row_status'' ms; b \<leftarrow> dstring ''row_basis'' ms; a \<leftarrow> dstring ''advisory_basis'' ms;
     m \<leftarrow> decode_field (as_struct decode_matrix) zero_matrix ''matrix'' ms; r \<leftarrow> dstring ''resolved_by'' ms;
     Some \<lparr>Jurisdiction = j, Estimate = e, RowID = i, RowStatus = s, RowBasis = b, AdvisoryBasis = a, Matrix = m,
       ResolvedBy = r\<rparr> }"

definition decode_plan :: "(gostring \<times> gostring \<times> json) list \<Rightarrow> Plan option" where
  "decode_plan ms = do {
     regime \<leftarrow> dstring ''regime'' ms;
     flags \<leftarrow> decode_field (as_struct decode_flags) zero_flags ''flags'' ms;
     version \<leftarrow> dstring ''policy_version'' ms;
     txt \<leftarrow> dstring ''consent_text_version'' ms;
     language \<leftarrow> dstring ''presented_language'' ms;
     scope \<leftarrow> decode_field (as_struct decode_scope) zero_scope ''scope'' ms;
     signals \<leftarrow> decode_field (as_list zero_signal (as_struct decode_signal)) [] ''signals_used'' ms;
     band \<leftarrow> dstring ''band_vocabulary'' ms;
     band_version \<leftarrow> dstring ''band_vocabulary_version'' ms;
     expires \<leftarrow> dstring ''expires_at'' ms;
     age \<leftarrow> dpointer as_int ''max_age_seconds'' ms;
     signature \<leftarrow> dpointer as_string ''signature'' ms;
     basis \<leftarrow> decode_field (as_struct decode_basis) zero_basis ''basis'' ms;
     reason \<leftarrow> dpointer as_string ''reason'' ms;
     advisory \<leftarrow> dpointer (as_struct decode_advisory) ''advisory'' ms;
     Some \<lparr>PlanRegime = regime, PlanFlags = flags, PolicyVersion = version, ConsentTextVersion = txt,
       PresentedLanguage = language, PlanScope = scope, SignalsUsed = signals, BandVocabulary = band,
       BandVocabularyVersion = band_version, ExpiresAt = expires, MaxAgeSeconds = age, Signature = signature,
       PlanBasis = basis, PlanReason = reason, PlanAdvisory = advisory\<rparr> }"

section \<open>Validation\<close>

definition maxVersionBytes :: nat where "maxVersionBytes = 64"
definition maxLanguageBytes :: nat where "maxLanguageBytes = 35"
definition maxBandBytes :: nat where "maxBandBytes = 32"
definition maxListEntries :: nat where "maxListEntries = 64"
definition maxEntryBytes :: nat where "maxEntryBytes = 64"
definition maxSignals :: nat where "maxSignals = 16"
definition maxNoticeBytes :: nat where "maxNoticeBytes = 2048"
definition maxPlanBytes :: nat where "maxPlanBytes = 16 * 1024"
definition maxAdvisoryBasisBytes :: nat where "maxAdvisoryBasisBytes = 2048"

lemmas plan_bound_defs = maxVersionBytes_def maxLanguageBytes_def maxBandBytes_def maxListEntries_def maxEntryBytes_def
  maxSignals_def maxNoticeBytes_def maxPlanBytes_def maxAdvisoryBasisBytes_def

datatype plan_fault =
    BadRegime | BadCrashProfile | BadServerAnalytics | BadChildRules | BadBasisCharacter | BadTableProvenance | BadNotice
  | BadReason | BadScope | RefusalWithAdvisory | BadAdvisory advisory_fault
  | EmptyField gostring | LongField gostring | IllegalField gostring | BadLanguage
  | TooManySignals | BadSignalName | SignalSilent gostring | SignalWithoutReason gostring | SignalWithReason gostring
  | TooManyEntries | BadEntry | NoMaxAge | NegativeMaxAge | NoExpiry | BadExpiry
and advisory_fault =
    BadJurisdiction | BadRowID | BadEstimate | RowMismatch | OtherWithEstimate | BadResolvedBy | UnknownWithJurisdiction
  | BadRowStatus | BadRowBasis | BadAdvisoryBasis | ControlCharacter | BadCommit | BadDigest | BadMatrixDate

text \<open>The checks run in order and the first fault is returned.\<close>

definition unless :: "bool \<Rightarrow> 'e \<Rightarrow> 'e option" where "unless ok e = (if ok then None else Some e)"

fun first_fault :: "'e option list \<Rightarrow> 'e option" where
  "first_fault [] = None"
| "first_fault (x # xs) = (case x of Some e \<Rightarrow> Some e | None \<Rightarrow> first_fault xs)"

text \<open>The regular expressions, anchored at both ends.\<close>

definition versionPattern :: "gostring \<Rightarrow> bool" where
  "versionPattern s \<longleftrightarrow> s \<noteq> [] \<and> list_all (\<lambda>c. is_alnum c \<or> c \<in> set ''._+/-'') s"

definition jurisdictionPattern :: "gostring \<Rightarrow> bool" where
  "jurisdictionPattern s \<longleftrightarrow> length s = 2 \<and> list_all is_upper s \<or> s = ''OTHER''"

definition commitPattern :: "gostring \<Rightarrow> bool" where
  "commitPattern s \<longleftrightarrow> length s = 40 \<and> list_all is_lower_hex s"

definition sha256Pattern :: "gostring \<Rightarrow> bool" where
  "sha256Pattern s \<longleftrightarrow> length s = 64 \<and> list_all is_lower_hex s"

text \<open>\<open>unicode.IsControl\<close> over the runes: U+0000 to U+001F and U+007F to U+009F.\<close>

fun hasControl_fuel :: "nat \<Rightarrow> gostring \<Rightarrow> bool" where
  "hasControl_fuel 0 s = False"
| "hasControl_fuel (Suc n) s =
     (case s of [] \<Rightarrow> False
      | c # t \<Rightarrow>
          ord c < 32 \<or> ord c = 127 \<or> (ord c = 194 \<and> t \<noteq> [] \<and> between 128 (hd t) 159) \<or>
          hasControl_fuel n (drop (max 1 (utf8_head s)) s))"

definition hasControl :: "gostring \<Rightarrow> bool" where "hasControl s = hasControl_fuel (length s) s"

definition advisory_validate :: "Advisory \<Rightarrow> advisory_fault option" where
  "advisory_validate a = first_fault
     [unless (jurisdictionPattern (Jurisdiction a)) BadJurisdiction,
      unless (jurisdictionPattern (RowID a)) BadRowID,
      (case Estimate a of Some e \<Rightarrow> unless (estimate_known e) BadEstimate | None \<Rightarrow> None),
      unless (RowID a = Jurisdiction a) RowMismatch,
      unless (\<not> (Jurisdiction a = AdvisoryJurisdictionOther \<and> Estimate a \<noteq> None)) OtherWithEstimate,
      unless (resolved_by_known (ResolvedBy a)) BadResolvedBy,
      unless (\<not> (ResolvedBy a = AdvisoryResolvedByUnknown \<and> Jurisdiction a \<noteq> AdvisoryJurisdictionOther)) UnknownWithJurisdiction,
      unless (row_status_known (RowStatus a)) BadRowStatus,
      unless (row_basis_known (RowBasis a)) BadRowBasis,
      unless (\<not> (AdvisoryBasis a = [] \<or> length (AdvisoryBasis a) > maxAdvisoryBasisBytes)) BadAdvisoryBasis,
      unless (\<not> hasControl (AdvisoryBasis a)) ControlCharacter,
      unless (commitPattern (DocsCommit (Matrix a))) BadCommit,
      unless (sha256Pattern (FileSHA256 (Matrix a))) BadDigest,
      unless (parse_date_only (MatrixDate (Matrix a)) \<noteq> None) BadMatrixDate]"

definition field_fault :: "gostring \<Rightarrow> gostring \<Rightarrow> nat \<Rightarrow> plan_fault option" where
  "field_fault name val bound = first_fault
     [unless (val \<noteq> []) (EmptyField name), unless (length val \<le> bound) (LongField name),
      unless (versionPattern val) (IllegalField name)]"

definition signal_fault :: "Signal \<Rightarrow> plan_fault option" where
  "signal_fault g = first_fault
     [unless (\<not> (sg_Name g = [] \<or> length (sg_Name g) > maxEntryBytes)) BadSignalName,
      (case sg_Available g of
         None \<Rightarrow> Some (SignalSilent (sg_Name g))
       | Some available \<Rightarrow> first_fault
           [unless (\<not> (\<not> available \<and> \<not> signal_reason_known (sg_Reason g))) (SignalWithoutReason (sg_Name g)),
            unless (\<not> (available \<and> sg_Reason g \<noteq> [])) (SignalWithReason (sg_Name g))])]"

definition expiry :: "Plan \<Rightarrow> plan_fault + nanos" where
  "expiry p =
     (if ExpiresAt p = [] then Inl NoExpiry
      else case parse_rfc3339 (ExpiresAt p) of None \<Rightarrow> Inl BadExpiry | Some t \<Rightarrow> Inr t)"

definition validate :: "Plan \<Rightarrow> plan_fault option" where
  "validate p = first_fault
    ([unless (regime_known (PlanRegime p)) BadRegime,
      unless (crash_known (CrashProfile (PlanFlags p))) BadCrashProfile,
      unless (server_known (ServerAnalytics (PlanFlags p))) BadServerAnalytics,
      unless (child_known (ChildRules (PlanFlags p))) BadChildRules,
      unless (basis_known (Character (PlanBasis p))) BadBasisCharacter,
      unless (provenance_known (TableProvenance (PlanBasis p))) BadTableProvenance,
      unless (\<not> (Notice (PlanBasis p) = [] \<or> length (Notice (PlanBasis p)) > maxNoticeBytes)) BadNotice,
      (case PlanReason p of Some r \<Rightarrow> unless (refusal_known r) BadReason | None \<Rightarrow> None),
      unless (\<not> (PlanReason p = None \<and> \<not> scope_complete (PlanScope p))) BadScope,
      (case PlanAdvisory p of None \<Rightarrow> None
       | Some a \<Rightarrow> if PlanReason p \<noteq> None then Some RefusalWithAdvisory else map_option BadAdvisory (advisory_validate a)),
      field_fault ''policy_version'' (PolicyVersion p) maxVersionBytes,
      field_fault ''consent_text_version'' (ConsentTextVersion p) maxVersionBytes,
      field_fault ''band_vocabulary'' (BandVocabulary p) maxBandBytes,
      field_fault ''band_vocabulary_version'' (BandVocabularyVersion p) maxBandBytes,
      unless (\<not> (PresentedLanguage p = [] \<or> length (PresentedLanguage p) > maxLanguageBytes)) BadLanguage,
      unless (length (SignalsUsed p) \<le> maxSignals) TooManySignals] @
     map signal_fault (SignalsUsed p) @
     [unless (length (OperationBlocks (PlanFlags p)) \<le> maxListEntries) TooManyEntries] @
     map (\<lambda>e. unless (\<not> (e = [] \<or> length e > maxEntryBytes)) BadEntry) (OperationBlocks (PlanFlags p)) @
     [(case MaxAgeSeconds p of None \<Rightarrow> Some NoMaxAge | Some a \<Rightarrow> unless (\<not> a < 0) NegativeMaxAge),
      (case expiry p of Inl e \<Rightarrow> Some e | Inr _ \<Rightarrow> None)])"

section \<open>Parsing\<close>

datatype plan_error =
    PlanAbsent | PlanOversized | PlanNotUTF8 | PlanUnreadable | PlanKeys key_error | PlanUndecodable | PlanInvalid plan_fault

definition ParsePlan :: "gostring \<Rightarrow> plan_error + Plan" where
  "ParsePlan raw =
     (if raw = [] then Inl PlanAbsent
      else if length raw > maxPlanBytes then Inl PlanOversized
      else if \<not> utf8_valid raw then Inl PlanNotUTF8
      else case parse_json raw of
        None \<Rightarrow> Inl PlanUnreadable
      | Some v \<Rightarrow>
          (case checkObjectKeys v of Some e \<Rightarrow> Inl (PlanKeys e) | None \<Rightarrow>
           case checkRequiredKeys v of Some e \<Rightarrow> Inl (PlanKeys e) | None \<Rightarrow>
           case as_struct decode_plan v of None \<Rightarrow> Inl PlanUndecodable | Some plan \<Rightarrow>
           case validate plan of Some e \<Rightarrow> Inl (PlanInvalid e) | None \<Rightarrow> Inr plan))"

section \<open>Facts\<close>

lemma unless_None [simp]: "unless ok e = None \<longleftrightarrow> ok"
  by (simp add: unless_def)

lemma first_fault_None [simp]: "first_fault xs = None \<longleftrightarrow> list_all (\<lambda>x. x = None) xs"
  by (induction xs) (auto split: option.split)

declare first_fault.simps [simp del]

text \<open>A plan within its bounds, stated on its own.\<close>

definition bounded_text :: "nat \<Rightarrow> gostring \<Rightarrow> bool" where
  "bounded_text n s \<longleftrightarrow> s \<noteq> [] \<and> length s \<le> n"

definition plan_within_bounds :: "Plan \<Rightarrow> bool" where
  "plan_within_bounds p \<longleftrightarrow>
     bounded_text 64 (PolicyVersion p) \<and> bounded_text 64 (ConsentTextVersion p) \<and>
     bounded_text 32 (BandVocabulary p) \<and> bounded_text 32 (BandVocabularyVersion p) \<and>
     bounded_text 35 (PresentedLanguage p) \<and> bounded_text 2048 (Notice (PlanBasis p)) \<and>
     length (SignalsUsed p) \<le> 16 \<and> (\<forall>g \<in> set (SignalsUsed p). bounded_text 64 (sg_Name g)) \<and>
     length (OperationBlocks (PlanFlags p)) \<le> 64 \<and> (\<forall>e \<in> set (OperationBlocks (PlanFlags p)). bounded_text 64 e) \<and>
     (\<exists>a. MaxAgeSeconds p = Some a \<and> 0 \<le> a) \<and> (\<exists>t. parse_rfc3339 (ExpiresAt p) = Some t) \<and>
     (case PlanAdvisory p of None \<Rightarrow> True | Some a \<Rightarrow> bounded_text 2048 (AdvisoryBasis a))"

lemma field_fault_None: "field_fault name v n = None \<Longrightarrow> bounded_text n v"
  by (simp add: field_fault_def bounded_text_def)

lemma signal_fault_None: "signal_fault g = None \<Longrightarrow> bounded_text 64 (sg_Name g) \<and>
    (\<exists>a. sg_Available g = Some a \<and> (if a then sg_Reason g = [] else signal_reason_known (sg_Reason g)))"
  by (auto simp: signal_fault_def bounded_text_def plan_bound_defs split: option.splits)

lemma advisory_fault_None: "advisory_validate a = None \<Longrightarrow> bounded_text 2048 (AdvisoryBasis a)"
  by (simp add: advisory_validate_def bounded_text_def plan_bound_defs not_less)

lemma expiry_Inr: "expiry p = Inr t \<longleftrightarrow> parse_rfc3339 (ExpiresAt p) = Some t"
  by (auto simp: expiry_def split: option.split)

lemma validate_facts:
  assumes "validate p = None"
  shows "bounded_text 2048 (Notice (PlanBasis p))" and "bounded_text 64 (PolicyVersion p)"
    and "bounded_text 64 (ConsentTextVersion p)" and "bounded_text 32 (BandVocabulary p)"
    and "bounded_text 32 (BandVocabularyVersion p)" and "bounded_text 35 (PresentedLanguage p)"
    and "length (SignalsUsed p) \<le> 16" and "\<forall>g \<in> set (SignalsUsed p). signal_fault g = None"
    and "length (OperationBlocks (PlanFlags p)) \<le> 64" and "\<forall>e \<in> set (OperationBlocks (PlanFlags p)). bounded_text 64 e"
    and "\<exists>a. MaxAgeSeconds p = Some a \<and> 0 \<le> a" and "\<exists>t. expiry p = Inr t"
    and "\<And>a. PlanAdvisory p = Some a \<Longrightarrow> PlanReason p = None \<and> advisory_validate a = None"
    and "PlanReason p = None \<Longrightarrow> scope_complete (PlanScope p)" and "regime_known (PlanRegime p)"
  using assms unfolding validate_def first_fault_None list_all_append list.pred_inject list_all_iff [where xs = "map f xs" for f xs]
  by (auto simp: field_fault_None plan_bound_defs bounded_text_def not_less split: option.splits sum.splits if_splits
      dest!: field_fault_None)

lemma validate_bounds: "validate p = None \<Longrightarrow> plan_within_bounds p"
  unfolding plan_within_bounds_def
  using validate_facts [of p] signal_fault_None advisory_fault_None
  by (auto simp: expiry_Inr split: option.split)

end
