(* ===== verification/Plan_Verify.thy ===== *)
theory Plan_Verify
  imports Plan_Parse
begin

text \<open>
  \<open>Prepare\<close> of \<open>internal/consentpolicy\<close> (\<open>verify.go\<close>) and the questions a decision answers
  (\<open>purpose.go\<close>).

  A context is absent, ended or live; a clock is the instant it reads, or absent.  The \<open>Detail\<close> text of
  a decision is a diagnostic and is left out.  \<open>clonePlan\<close> copies the plan, which is a value here.
  \<open>verificationKeyAvailable\<close> is a constant of the build, \<open>False\<close>; \<open>Prepare_with\<close> is \<open>Prepare\<close> for either
  value of it.
\<close>

section \<open>The decision\<close>

datatype context_state = NoContext | ContextEnded | ContextLive

record VerifiedPlayerPolicy =
  vp_Plan :: gostring
  vp_Scope :: Scope
  vp_Now :: "nanos option"

datatype Reason =
    ReasonNone | ReasonPlanAbsent | ReasonPlanUnreadable | ReasonScopeMismatch | ReasonPlanExpired | ReasonNoTrustedClock
  | ReasonSignatureUnverified | ReasonPlanUnsigned | ReasonCallerCancelled | ReasonResolverRefused

record Decision =
  d_regime :: gostring
  d_Reason :: Reason
  d_plan :: Plan
  d_planUsed :: bool

definition zero_plan :: Plan where
  "zero_plan = \<lparr>PlanRegime = [], PlanFlags = zero_flags, PolicyVersion = [], ConsentTextVersion = [],
     PresentedLanguage = [], PlanScope = zero_scope, SignalsUsed = [], BandVocabulary = [], BandVocabularyVersion = [],
     ExpiresAt = [], MaxAgeSeconds = None, Signature = None, PlanBasis = zero_basis, PlanReason = None, PlanAdvisory = None\<rparr>"

definition Decision_Regime :: "Decision \<Rightarrow> gostring" where
  "Decision_Regime d = (if d_regime d = [] then StrictOptIn else d_regime d)"

definition Decision_Plan :: "Decision \<Rightarrow> Plan option" where
  "Decision_Plan d = (if \<not> d_planUsed d then None else Some (d_plan d))"

definition strictFallback :: "Reason \<Rightarrow> Decision" where
  "strictFallback r = \<lparr>d_regime = StrictOptIn, d_Reason = r, d_plan = zero_plan, d_planUsed = False\<rparr>"

definition decisionFromPlan :: "Plan \<Rightarrow> Decision" where
  "decisionFromPlan p = \<lparr>d_regime = PlanRegime p, d_Reason = ReasonNone, d_plan = p, d_planUsed = True\<rparr>"

definition verificationKeyAvailable :: bool where "verificationKeyAvailable = False"

definition Prepare_with :: "bool \<Rightarrow> context_state \<Rightarrow> VerifiedPlayerPolicy \<Rightarrow> Decision" where
  "Prepare_with key ctx policy =
     (if ctx = NoContext then strictFallback ReasonCallerCancelled
      else if ctx = ContextEnded then strictFallback ReasonCallerCancelled
      else if \<not> scope_complete (vp_Scope policy) then strictFallback ReasonScopeMismatch
      else case ParsePlan (vp_Plan policy) of
        Inl err \<Rightarrow> if err = PlanAbsent then strictFallback ReasonPlanAbsent else strictFallback ReasonPlanUnreadable
      | Inr plan \<Rightarrow>
          if PlanReason plan \<noteq> None then strictFallback ReasonResolverRefused
          else if \<not> scope_equal (PlanScope plan) (vp_Scope policy) then strictFallback ReasonScopeMismatch
          else if Signature plan \<noteq> None then strictFallback ReasonSignatureUnverified
          else case vp_Now policy of
            None \<Rightarrow> strictFallback ReasonNoTrustedClock
          | Some now \<Rightarrow>
              (case expiry plan of
                 Inl _ \<Rightarrow> strictFallback ReasonPlanUnreadable
               | Inr expires \<Rightarrow>
                   if \<not> now < expires then strictFallback ReasonPlanExpired
                   else if \<not> key then strictFallback ReasonPlanUnsigned
                   else decisionFromPlan plan))"

definition Prepare :: "context_state \<Rightarrow> VerifiedPlayerPolicy \<Rightarrow> Decision" where
  "Prepare ctx policy = Prepare_with verificationKeyAvailable ctx policy"

section \<open>What a decision answers\<close>

definition ChoiceDefaultOff :: gostring where "ChoiceDefaultOff = ''off''"
definition ChoiceDefaultOn :: gostring where "ChoiceDefaultOn = ''on''"

definition AnalyticsChoiceDefault :: "Decision \<Rightarrow> gostring" where
  "AnalyticsChoiceDefault d =
     (if \<not> d_planUsed d \<or> PlanRegime (d_plan d) \<noteq> SoftOptOut then ChoiceDefaultOff else ChoiceDefaultOn)"

definition ExplicitGrantRequired :: "Decision \<Rightarrow> bool" where
  "ExplicitGrantRequired d = (if \<not> d_planUsed d then True else PlanRegime (d_plan d) \<noteq> SoftOptOut)"

definition CrashProfileOffered :: "Decision \<Rightarrow> gostring \<times> bool" where
  "CrashProfileOffered d = (if \<not> d_planUsed d then (CrashOff, False) else (CrashProfile (PlanFlags (d_plan d)), True))"

definition Decision_ServerAnalytics :: "Decision \<Rightarrow> gostring" where
  "Decision_ServerAnalytics d = (if \<not> d_planUsed d then ServerAnalyticsDenied else ServerAnalytics (PlanFlags (d_plan d)))"

definition ChildRulesApplied :: "Decision \<Rightarrow> bool" where
  "ChildRulesApplied d = (if \<not> d_planUsed d then True else ChildRules (PlanFlags (d_plan d)) = ChildRulesMinimised)"

definition Decision_OperationBlocks :: "Decision \<Rightarrow> gostring list option" where
  "Decision_OperationBlocks d = (if \<not> d_planUsed d then None else Some (OperationBlocks (PlanFlags (d_plan d))))"

definition OperationBlocked :: "Decision \<Rightarrow> gostring \<Rightarrow> bool" where
  "OperationBlocked d operation =
     (if \<not> d_planUsed d then True else list_ex (\<lambda>blocked. blocked = operation) (OperationBlocks (PlanFlags (d_plan d))))"

section \<open>The closed decision\<close>

text \<open>A decision is closed when it answers every question the strict way.\<close>

definition closed :: "Decision \<Rightarrow> bool" where
  "closed d \<longleftrightarrow> Decision_Regime d = StrictOptIn \<and> Decision_Plan d = None \<and> AnalyticsChoiceDefault d = ChoiceDefaultOff \<and>
     ExplicitGrantRequired d \<and> CrashProfileOffered d = (CrashOff, False) \<and> Decision_ServerAnalytics d = ServerAnalyticsDenied \<and>
     ChildRulesApplied d \<and> Decision_OperationBlocks d = None \<and> (\<forall>operation. OperationBlocked d operation)"

lemma closed_fallback [simp]: "closed (strictFallback r)"
  by (simp add: closed_def strictFallback_def Decision_Regime_def Decision_Plan_def AnalyticsChoiceDefault_def
      ExplicitGrantRequired_def CrashProfileOffered_def Decision_ServerAnalytics_def ChildRulesApplied_def
      Decision_OperationBlocks_def OperationBlocked_def StrictOptIn_def)

lemma strict_reason [simp]: "d_Reason (strictFallback r) = r" "d_planUsed (strictFallback r) = False"
  by (simp_all add: strictFallback_def)

text \<open>The conditions that stand between a plan and its use, in no order.\<close>

definition usable :: "context_state \<Rightarrow> VerifiedPlayerPolicy \<Rightarrow> Plan \<Rightarrow> bool" where
  "usable ctx policy plan \<longleftrightarrow> ctx = ContextLive \<and> scope_complete (vp_Scope policy) \<and> ParsePlan (vp_Plan policy) = Inr plan \<and>
     PlanReason plan = None \<and> scope_equal (PlanScope plan) (vp_Scope policy) \<and> Signature plan = None \<and>
     (\<exists>now t. vp_Now policy = Some now \<and> expiry plan = Inr t \<and> now < t)"

lemma Prepare_with_cases:
  "(\<exists>plan. usable ctx policy plan \<and>
      Prepare_with key ctx policy = (if key then decisionFromPlan plan else strictFallback ReasonPlanUnsigned)) \<or>
   (\<nexists>plan. usable ctx policy plan) \<and>
     (\<exists>r. r \<noteq> ReasonNone \<and> r \<noteq> ReasonPlanUnsigned \<and> Prepare_with key ctx policy = strictFallback r)"
  by (cases ctx; cases "ParsePlan (vp_Plan policy)"; cases "vp_Now policy")
     (auto simp: Prepare_with_def usable_def split: sum.splits)

lemma decisionFromPlan_used [simp]: "d_planUsed (decisionFromPlan p)" "d_Reason (decisionFromPlan p) = ReasonNone"
  by (simp_all add: decisionFromPlan_def)

text \<open>This build's decision is closed on every axis for every caller and every plan bytes: the
  strict regime, no plan, the choice defaulted off and needing an explicit grant, no crash profile,
  server analytics denied, the child rules applied and every operation blocked.\<close>

theorem Prepare_closed: "closed (Prepare ctx policy) \<and> d_Reason (Prepare ctx policy) \<noteq> ReasonNone"
  by (simp add: Prepare_def Prepare_with_def verificationKeyAvailable_def split: sum.split option.split)

text \<open>C29. Whatever the build's key, a plan is used only when the context is live, the caller's scope is
  complete and the plan's own, the plan parses, refuses nothing, carries no signature and has not
  expired on the caller's clock; otherwise the decision is closed and says why.\<close>

theorem Prepare_with_gate:
  "(d_planUsed (Prepare_with key ctx policy) \<longleftrightarrow> key \<and> (\<exists>plan. usable ctx policy plan)) \<and>
   (closed (Prepare_with key ctx policy) \<or> d_planUsed (Prepare_with key ctx policy)) \<and>
   (d_Reason (Prepare_with key ctx policy) = ReasonNone \<longleftrightarrow> d_planUsed (Prepare_with key ctx policy))"
  using Prepare_with_cases [of ctx policy key] by (cases key) auto

text \<open>The reason \<open>plan_unsigned\<close> is the last gate: this build answers it exactly for the plans that
  pass every other check.\<close>

theorem Prepare_unsigned:
  "d_Reason (Prepare ctx policy) = ReasonPlanUnsigned \<longleftrightarrow> (\<exists>plan. usable ctx policy plan)"
  using Prepare_with_cases [of ctx policy False] by (auto simp: Prepare_def verificationKeyAvailable_def)

end
