(* ===== verification/Json_Strings.thy ===== *)
theory Json_Strings
  imports Json_Encode
begin

text \<open>
  Every valid UTF-8 string survives \<open>encoding/json\<close>: what the encoder writes for it, with or without
  HTML escaping, is the text of that string.
\<close>

section \<open>Escaping, whatever the single bytes become\<close>

fun escape_with :: "(char \<Rightarrow> gostring) \<Rightarrow> nat \<Rightarrow> gostring \<Rightarrow> gostring" where
  "escape_with eb 0 s = []"
| "escape_with eb (Suc n) s =
     (case s of
        [] \<Rightarrow> []
      | c # t \<Rightarrow>
          if ord c < 128 then eb c @ escape_with eb n t
          else let k = utf8_head s
            in if k = 0 then [backslash] @ ''ufffd'' @ escape_with eb n t
               else if take 3 s = [CHR 0xE2, CHR 0x80, CHR 0xA8] then [backslash] @ ''u2028'' @ escape_with eb n (drop 3 s)
               else if take 3 s = [CHR 0xE2, CHR 0x80, CHR 0xA9] then [backslash] @ ''u2029'' @ escape_with eb n (drop 3 s)
               else take k s @ escape_with eb n (drop k s))"

lemma escape_fuel_with: "escape_fuel n s = escape_with escape_byte n s"
proof (induction n arbitrary: s)
  case (Suc n)
  show ?case by (cases s) (simp_all add: Suc Let_def del: utf8_head.simps)
qed simp

text \<open>A piece: a text without an unescaped quote, that unescapes to \<open>w\<close>.\<close>

definition piece :: "gostring \<Rightarrow> gostring \<Rightarrow> bool" where
  "piece p w \<longleftrightarrow>
     (\<forall>t. str_span (p @ t) = map_option (\<lambda>(a, r). (p @ a, r)) (str_span t)) \<and>
     (\<forall>n t v. unescape n t = Some v \<longrightarrow> unescape (n + length p) (p @ t) = Some (w @ v))"

lemma unescape_mono: "unescape n s = Some v \<Longrightarrow> n \<le> m \<Longrightarrow> unescape m s = Some v"
proof (induction n arbitrary: s v m)
  case 0
  then show ?case by (cases m) (auto split: if_splits)
next
  case (Suc n)
  then obtain m' where m: "m = Suc m'" "n \<le> m'" by (cases m) auto
  note IH = Suc.IH [OF _ m(2)]
  show ?case
  proof (cases s)
    case (Cons c t)
    show ?thesis
      using Suc.prems(1) unfolding m Cons
      by (auto simp: Let_def IH split: if_splits list.splits option.splits)
  qed (use Suc.prems m in simp)
qed

lemma piece_Nil: "piece [] []"
  by (auto simp: piece_def option.map_ident_strong split: prod.split)

lemma piece_append:
  assumes "piece p w" "piece q x"
  shows "piece (p @ q) (w @ x)"
proof -
  have "str_span ((p @ q) @ t) = map_option (\<lambda>(a, r). ((p @ q) @ a, r)) (str_span t)" for t
    using assms by (simp add: piece_def option.map_comp comp_def case_prod_unfold)
  moreover have "unescape (n + length (p @ q)) ((p @ q) @ t) = Some ((w @ x) @ v)" if "unescape n t = Some v" for n t v
  proof -
    have "unescape (n + length q) (q @ t) = Some (x @ v)" using assms(2) that by (simp add: piece_def)
    then have "unescape (n + length q + length p) (p @ q @ t) = Some (w @ x @ v)" using assms(1) by (simp add: piece_def)
    then show ?thesis by (simp add: ac_simps)
  qed
  ultimately show ?thesis by (simp add: piece_def)
qed

lemma piece_char:
  assumes "c \<noteq> quote" "c \<noteq> backslash" "\<not> ord c < 32"
  shows "piece [c] [c]"
  using assms by (auto simp: piece_def)

lemma piece_escaped:
  assumes "e \<noteq> CHR ''u''" "simple_escape e = Some x"
  shows "piece [backslash, e] [x]"
proof -
  have "unescape (Suc (Suc n)) (backslash # e # t) = Some (x # v)" if "unescape n t = Some v" for n t v
    using assms unescape_mono [OF that, of "Suc n"] by (simp add: backslash_def)
  then show ?thesis by (simp add: piece_def quote_def backslash_def)
qed

lemma piece_u:
  assumes "length h = 4" "hex4 h = Some r" "\<not> (55296 \<le> r \<and> r < 57344)" "list_all is_any_hex h"
  shows "piece (backslash # CHR ''u'' # h) (utf8_encode r)"
proof -
  obtain a b c d where h: "h = [a, b, c, d]" using assms(1) by (auto simp: length_Suc_conv eval_nat_numeral)
  have plain: "x \<noteq> quote \<and> x \<noteq> backslash" if "is_any_hex x" for x
    using that by (auto simp: byte_class_defs quote_def backslash_def)
  have one: "unescape (Suc m) (backslash # CHR ''u'' # h @ t) = map_option (append (utf8_encode r)) (unescape m t)" for m t
    using assms(1-3) by (auto simp: backslash_def Let_def)
  have "unescape (Suc (n + 5)) (backslash # CHR ''u'' # h @ t) = Some (utf8_encode r @ v)" if "unescape n t = Some v" for n t v
    unfolding one using unescape_mono [OF that, of "n + 5"] by simp
  then have un: "unescape (n + length (backslash # CHR ''u'' # h)) ((backslash # CHR ''u'' # h) @ t) = Some (utf8_encode r @ v)"
    if "unescape n t = Some v" for n t v
    using that assms(1) by (simp add: add.commute [of n] del: unescape.simps)
  have "str_span ((backslash # CHR ''u'' # h) @ t) = map_option (\<lambda>(x, r). ((backslash # CHR ''u'' # h) @ x, r)) (str_span t)" for t
    using assms(4) plain by (simp add: h quote_def backslash_def option.map_comp comp_def case_prod_unfold)
  with un show ?thesis unfolding piece_def by blast
qed

lemma hex4_byte:
  assumes "n < 128"
  shows "hex4 [CHR ''0'', CHR ''0'', hex_digit (n div 16), hex_digit (n mod 16)] = Some n"
    "list_all is_any_hex [CHR ''0'', CHR ''0'', hex_digit (n div 16), hex_digit (n mod 16)]"
proof -
  have d: "n div 16 < 16" "n mod 16 < 16" using assms by auto
  have z: "is_any_hex CHR ''0''" "unhex_digit CHR ''0'' = 0" by (simp_all add: byte_class_defs unhex_digit_def)
  show h: "list_all is_any_hex [CHR ''0'', CHR ''0'', hex_digit (n div 16), hex_digit (n mod 16)]"
    using d z by (simp add: lower_hex_any_hex hex_digit_is_lower_hex)
  show "hex4 [CHR ''0'', CHR ''0'', hex_digit (n div 16), hex_digit (n mod 16)] = Some n"
    using h d z by (simp add: hex4_def)
qed

lemma char_of_ord [simp]: "char_of (ord c) = c"
  by (simp add: ord_def)

lemma piece_escape_byte:
  assumes "ord c < 128"
  shows "piece (escape_byte c) [c]"
proof -
  have esc: "piece (esc_u (ord c)) [c]"
    using piece_u [OF _ hex4_byte(1) [OF assms] _ hex4_byte(2) [OF assms]] assms by (simp add: esc_u_def utf8_encode_def)
  have named: "piece [backslash, e] [x]" if "e \<noteq> CHR ''u''" "simple_escape e = Some x" for e x
    using that by (rule piece_escaped)
  have control: "ord c = 9 \<Longrightarrow> CHR 0x09 = c" "ord c = 13 \<Longrightarrow> CHR 0x0D = c" "ord c = 10 \<Longrightarrow> CHR 0x0A = c" "ord c = 12 \<Longrightarrow> CHR 0x0C = c"
    "ord c = 8 \<Longrightarrow> CHR 0x08 = c"
    by (simp_all add: ord_inject [symmetric])
  show ?thesis
    using esc assms by (auto simp: escape_byte_def simple_escape_def quote_def backslash_def
        intro!: named [unfolded backslash_def] piece_char [unfolded quote_def backslash_def] control)
qed

lemma piece_escape_byte_raw:
  "ord c < 128 \<Longrightarrow> piece (if c = CHR ''<'' \<or> c = CHR ''>'' \<or> c = CHR ''&'' then [c] else escape_byte c) [c]"
  using piece_escape_byte by (auto intro!: piece_char simp: quote_def backslash_def)

lemma piece_high: "list_all (\<lambda>c. 128 \<le> ord c) s \<Longrightarrow> piece s s"
proof (induction s)
  case (Cons c s)
  have "c \<noteq> quote" "c \<noteq> backslash" "\<not> ord c < 32" using Cons.prems by (auto simp: quote_def backslash_def)
  from piece_append [OF piece_char [OF this] Cons.IH] show ?case using Cons.prems by simp
qed (rule piece_Nil)

lemma utf8_head_high:
  "\<not> ord (hd s) < 128 \<Longrightarrow> s \<noteq> [] \<Longrightarrow> list_all (\<lambda>c. 128 \<le> ord c) (take (utf8_head s) s)"
proof -
  assume "\<not> ord (hd s) < 128" "s \<noteq> []"
  then obtain a t where s: "s = a # t" "128 \<le> ord a" by (cases s) auto
  have c: "128 \<le> ord b" if "cont b \<or> between 160 b 191 \<or> between 128 b 159 \<or> between 144 b 191 \<or> between 128 b 143" for b
    using that by (auto simp: cont_def between_def)
  consider "t = []" | b where "t = [b]" | b x where "t = [b, x]" | b x y u where "t = b # x # y # u"
    by (metis list.exhaust)
  then show ?thesis
    by cases (use s c in \<open>simp_all add: s split: if_split\<close>)
qed

lemma line_separators:
  "hex4 ''2028'' = Some 8232" "hex4 ''2029'' = Some 8233" "list_all is_any_hex ''2028''" "list_all is_any_hex ''2029''"
  "utf8_encode 8232 = [CHR 0xE2, CHR 0x80, CHR 0xA8]" "utf8_encode 8233 = [CHR 0xE2, CHR 0x80, CHR 0xA9]"
  by (simp_all add: hex4_def unhex_digit_def byte_class_defs utf8_encode_def) (code_simp+)?

lemma piece_escape_with:
  assumes eb: "\<And>c. ord c < 128 \<Longrightarrow> piece (eb c) [c]"
  shows "utf8_valid_fuel m s \<Longrightarrow> length s \<le> n \<Longrightarrow> piece (escape_with eb n s) s"
proof (induction n arbitrary: m s)
  case 0
  then show ?case by (simp add: piece_Nil)
next
  case (Suc n)
  show ?case
  proof (cases s)
    case Nil
    then show ?thesis by (simp add: piece_Nil)
  next
    case s: (Cons c t)
    with Suc.prems(1) obtain m' where v: "0 < utf8_head s" "utf8_valid_fuel m' (drop (utf8_head s) s)"
      by (cases m) (auto simp: Let_def)
    have rest: "piece (escape_with eb n (drop (utf8_head s) s)) (drop (utf8_head s) s)"
      using Suc.prems(2) v s by (intro Suc.IH) auto
    show ?thesis
    proof (cases "ord c < 128")
      case True
      then have "utf8_head s = 1" by (simp add: s)
      then show ?thesis using piece_append [OF eb [OF True] rest] True by (simp add: s)
    next
      case False
      have sep: "utf8_head s = 3" if "take 3 s = [CHR 0xE2, CHR 0x80, x]" "x = CHR 0xA8 \<or> x = CHR 0xA9" for x
        using that by (auto simp: s take_Cons' cont_def byte_class_defs split: if_splits list.splits)
      have sepe: "piece (backslash # CHR ''u'' # ''2028'') [CHR 0xE2, CHR 0x80, CHR 0xA8]"
          "piece (backslash # CHR ''u'' # ''2029'') [CHR 0xE2, CHR 0x80, CHR 0xA9]"
        using piece_u [OF _ line_separators(1) _ line_separators(3)] piece_u [OF _ line_separators(2) _ line_separators(4)]
        by (simp_all add: line_separators(5,6))
      have keep: "take 3 s @ drop 3 s = s" by simp
      show ?thesis
      proof (cases "take 3 s = [CHR 0xE2, CHR 0x80, CHR 0xA8] \<or> take 3 s = [CHR 0xE2, CHR 0x80, CHR 0xA9]")
        case True
        then have k: "utf8_head s = 3" using sep by blast
        have "escape_with eb (Suc n) s =
            (if take 3 s = [CHR 0xE2, CHR 0x80, CHR 0xA8] then backslash # CHR ''u'' # ''2028'' else backslash # CHR ''u'' # ''2029'') @
            escape_with eb n (drop 3 s)"
          using True False k by (auto simp: s)
        moreover have "piece ((if take 3 s = [CHR 0xE2, CHR 0x80, CHR 0xA8] then backslash # CHR ''u'' # ''2028'' else backslash # CHR ''u'' # ''2029'') @
            escape_with eb n (drop 3 s)) (take 3 s @ drop 3 s)"
          by (rule piece_append) (use True sepe rest k in auto)
        ultimately show ?thesis unfolding keep by simp
      next
        case no: False
        have high: "s = c # t \<and> \<not> ord c < 128" using s False by simp
        have "escape_with eb (Suc n) s = take (utf8_head s) s @ escape_with eb n (drop (utf8_head s) s)"
          using high no v(1) by (auto simp: Let_def simp del: utf8_head.simps split: list.split)
        moreover have "piece (take (utf8_head s) s) (take (utf8_head s) s)"
          using utf8_head_high [of s] False s by (intro piece_high) simp
        ultimately show ?thesis using piece_append [OF _ rest] by fastforce
      qed
    qed
  qed
qed

lemma value_text_escaped:
  assumes p: "piece e s" and u: "utf8_valid s"
  shows "value_text d (quote # e @ [quote]) (JStr s)"
proof (rule value_textI [where n = "Suc 0"])
  have "str_span (e @ [quote]) = Some (e, [])" using p by (simp add: piece_def)
  moreover have "unescape (length e) (e @ []) = Some (s @ [])"
    using p unfolding piece_def by (metis add_0 unescape.simps(1))
  ultimately show "parse_value (Suc 0) d (quote # e @ [quote]) = Some (JStr s, [])"
    by (simp add: unquote_def to_valid_utf8_valid [OF u])
  show "skip_ws (quote # e @ [quote]) = quote # e @ [quote]" by (simp add: skip_ws_def json_ws_def quote_def)
qed

lemma value_text_string: "utf8_valid s \<Longrightarrow> value_text d (enc_string s) (JStr s)"
  using value_text_escaped [OF piece_escape_with [of escape_byte, OF piece_escape_byte]]
  by (simp add: enc_string_def escape_fuel_with utf8_valid_def)

end
