(* ===== verification/Json_Members.thy ===== *)
theory Json_Members
  imports Json_Strings
begin

text \<open>
  Members of a JSON object as an encoder of a Go struct writes them, and what a struct decode finds of them:
  the shared part of every round trip through \<open>encoding/json\<close>.
\<close>

section \<open>Members\<close>

definition str_member :: "gostring \<Rightarrow> gostring \<Rightarrow> member_text" where "str_member k s = (k, enc_string s, JStr s)"
definition obj_member :: "gostring \<Rightarrow> member_text list \<Rightarrow> member_text" where
  "obj_member k ms = (k, enc_object (map member_pair ms), JObj ms)"
definition arr_member :: "gostring \<Rightarrow> (gostring \<times> json) list \<Rightarrow> member_text" where
  "arr_member k ts = (k, enc_array (map fst ts), JArr (map snd ts))"
definition bool_member :: "gostring \<Rightarrow> bool \<Rightarrow> member_text" where "bool_member k b = (k, enc_bool b, JBool b)"
definition int_member :: "gostring \<Rightarrow> int \<Rightarrow> member_text" where "int_member k i = (k, show_int i, JNum (show_int i))"

text \<open>\<open>omitempty\<close>: the member is left out at the zero value.\<close>

definition opt_str :: "gostring \<Rightarrow> gostring \<Rightarrow> member_text list" where
  "opt_str k s = (if s = [] then [] else [str_member k s])"
definition opt_flag :: "gostring \<Rightarrow> bool \<Rightarrow> member_text list" where
  "opt_flag k b = (if b then [bool_member k True] else [])"

section \<open>Their texts parse\<close>

lemma value_text_bool: "value_text d (enc_bool b) (JBool b)"
proof (cases b)
  case False
  have "value_text d ''false'' (JBool False)"
    by (rule value_textI [where n = "Suc 0"])
       (simp_all add: skip_ws_def json_ws_def quote_def literal_span_def has_prefix_def)
  with False show ?thesis by (simp add: enc_bool_def)
qed (simp add: enc_bool_def value_text_true)

lemma str_member_ok: "plain k \<Longrightarrow> utf8_valid s \<Longrightarrow> member_ok d (str_member k s)"
  by (simp add: member_ok_def str_member_def value_text_string)

lemma bool_member_ok: "plain k \<Longrightarrow> member_ok d (bool_member k b)"
  by (simp add: member_ok_def bool_member_def value_text_bool)

lemma int_member_ok: "plain k \<Longrightarrow> member_ok d (int_member k i)"
  by (simp add: member_ok_def int_member_def value_text_show_int)

lemma obj_member_ok: "plain k \<Longrightarrow> ms \<noteq> [] \<Longrightarrow> list_all (member_ok (Suc d)) ms \<Longrightarrow> d < max_depth \<Longrightarrow> member_ok d (obj_member k ms)"
  using value_text_object [of ms d] by (simp add: member_ok_def obj_member_def)

lemma arr_member_ok:
  "plain k \<Longrightarrow> list_all (\<lambda>(t, v). value_text (Suc d) t v) ts \<Longrightarrow> d < max_depth \<Longrightarrow> member_ok d (arr_member k ts)"
  using value_text_array [of d ts] by (simp add: member_ok_def arr_member_def)

lemma opt_str_ok: "plain k \<Longrightarrow> utf8_valid s \<Longrightarrow> list_all (member_ok d) (opt_str k s)"
  by (simp add: opt_str_def str_member_ok)

lemma opt_flag_ok: "plain k \<Longrightarrow> list_all (member_ok d) (opt_flag k b)"
  by (simp add: opt_flag_def bool_member_ok)

lemmas members_ok = str_member_ok bool_member_ok int_member_ok opt_str_ok opt_flag_ok

section \<open>What a decode finds\<close>

lemma field_of_Cons: "field n ((k, t, v) # ms) = (if to_lower k = to_lower n then (t, v) # field n ms else field n ms)"
  by (simp add: field_def field_match_def)

lemma field_of_Nil: "field n [] = []"
  by (simp add: field_def)

lemma field_members_append: "field n (ms @ ms') = field n ms @ field n ms'"
  by (simp add: field_def)

lemma field_str: "field n (str_member k s # ms) = (if to_lower k = to_lower n then (enc_string s, JStr s) # field n ms else field n ms)"
  by (simp add: str_member_def field_of_Cons)

lemma field_obj:
  "field n (obj_member k os # ms) =
     (if to_lower k = to_lower n then (enc_object (map member_pair os), JObj os) # field n ms else field n ms)"
  by (simp add: obj_member_def field_of_Cons)

lemma field_arr:
  "field n (arr_member k ts # ms) =
     (if to_lower k = to_lower n then (enc_array (map fst ts), JArr (map snd ts)) # field n ms else field n ms)"
  by (simp add: arr_member_def field_of_Cons)

lemma field_bool: "field n (bool_member k b # ms) = (if to_lower k = to_lower n then (enc_bool b, JBool b) # field n ms else field n ms)"
  by (simp add: bool_member_def field_of_Cons)

lemma field_int: "field n (int_member k i # ms) = (if to_lower k = to_lower n then (show_int i, JNum (show_int i)) # field n ms else field n ms)"
  by (simp add: int_member_def field_of_Cons)

lemma field_opt_str:
  "field n (opt_str k s) = (if to_lower k = to_lower n \<and> s \<noteq> [] then [(enc_string s, JStr s)] else [])"
  by (simp add: opt_str_def field_str field_of_Nil)

lemma field_opt_flag:
  "field n (opt_flag k b) = (if to_lower k = to_lower n \<and> b then [(enc_bool True, JBool True)] else [])"
  by (simp add: opt_flag_def field_bool field_of_Nil)

lemmas field_members = field_of_Nil field_members_append field_str field_obj field_arr field_bool field_int field_opt_str field_opt_flag

lemma decode_none: "field k ms = [] \<Longrightarrow> decode_field dec zero k ms = Some zero"
  by (simp add: decode_field_def)

lemma decode_one: "field k ms = [(t, v)] \<Longrightarrow> decode_field dec zero k ms = (if v = JNull then Some zero else dec v)"
  by (simp add: decode_field_def)

lemma dpointer_none: "field k ms = [] \<Longrightarrow> dpointer dec k ms = Some None"
  by (simp add: dpointer_def)

lemma dpointer_one: "field k ms = [(t, v)] \<Longrightarrow> dpointer dec k ms = (if v = JNull then Some None else map_option Some (dec v))"
  by (simp add: dpointer_def)

lemma decode_opt:
  "field k ms = (if c then [(t, v)] else []) \<Longrightarrow> decode_field dec zero k ms = (if c \<and> v \<noteq> JNull then dec v else Some zero)"
  by (simp add: decode_field_def)

lemma dstring_one: "field k ms = [(t, JStr s)] \<Longrightarrow> dstring k ms = Some s"
  by (simp add: dstring_def decode_one as_string_def)

lemma dstring_opt: "field k ms = (if s = [] then [] else [(t, JStr s)]) \<Longrightarrow> dstring k ms = Some s"
  by (cases "s = []") (simp_all add: dstring_def decode_none decode_one as_string_def)

lemma dstring_opt': "field k ms = (if s \<noteq> [] then [(t, JStr s)] else []) \<Longrightarrow> dstring k ms = Some s"
  by (rule dstring_opt) auto

lemma dflag: "field k ms = (if b then [(t, JBool True)] else []) \<Longrightarrow> decode_field as_bool False k ms = Some b"
  by (cases b) (simp_all add: decode_none decode_one as_bool_def)

lemma those_map: "(\<And>x. x \<in> set xs \<Longrightarrow> f x = Some (h x)) \<Longrightarrow> those (map f xs) = Some (map h xs)"
  by (induction xs) simp_all

lemma parse_object: "ms \<noteq> [] \<Longrightarrow> list_all (member_ok 1) ms \<Longrightarrow> parse_json (enc_object (map member_pair ms)) = Some (JObj ms)"
  by (rule value_text_parse, rule value_text_object) (simp_all add: max_depth_def)

end
