(* ===== verification/Plan_Roundtrip.thy ===== *)
theory Plan_Roundtrip
  imports Plan_Verify Json_Members
begin

text \<open>
  What \<open>ParsePlan\<close> accepts: every plan it returns is sound, and the document \<open>encoding/json\<close> writes for
  a valid plan (of plain strings, without an advisory part) parses back to that plan.
\<close>

section \<open>The accepted plan\<close>

text \<open>C30. A plan that parses came from a document of at most 16 KiB that sends no key twice at any level,
  no key outside the schema, every required key, and null only for the nullable ones; and the plan is
  within its bounds.\<close>

theorem ParsePlan_sound:
  assumes "ParsePlan raw = Inr plan"
  shows "length raw \<le> 16384 \<and>
    (\<exists>v. parse_json raw = Some v \<and> exact_keys (Some plan_schema) v \<and> complete_keys v plan_schema [] \<and>
       as_struct decode_plan v = Some plan) \<and> plan_within_bounds plan"
proof -
  obtain v where v: "parse_json raw = Some v" "checkObjectKeys v = None" "checkRequiredKeys v = None"
      "as_struct decode_plan v = Some plan" "validate plan = None" "length raw \<le> maxPlanBytes"
    using assms by (auto simp: ParsePlan_def split: if_splits option.splits)
  have "exact_keys (Some plan_schema) v"
    using v(2) checkValueKeys_exact(1) [of "Some plan_schema" v] by (simp add: checkObjectKeys_def split: json.splits)
  moreover have "complete_keys v plan_schema []"
    using v(3) requiredKeysIn_complete(1) [of v plan_schema "[]"] by (simp add: checkRequiredKeys_def)
  ultimately show ?thesis using v validate_bounds [OF v(5)] by (simp add: maxPlanBytes_def)
qed

section \<open>Encoding a plan\<close>

text \<open>\<open>json.Marshal\<close> of the plan's types: members in field order, \<open>omitempty\<close> fields left out.  Only
  plans without an advisory part are encoded.\<close>

definition scope_members :: "Scope \<Rightarrow> member_text list" where
  "scope_members s = [str_member ''workspace_key'' (WorkspaceKey s), str_member ''app_key'' (AppKey s),
     str_member ''environment_key'' (EnvironmentKey s)]"

definition signal_members :: "Signal \<Rightarrow> member_text list" where
  "signal_members g =
     [str_member ''name'' (sg_Name g),
      (case sg_Available g of None \<Rightarrow> (''available'', ''null'', JNull) | Some b \<Rightarrow> (''available'', enc_bool b, JBool b))] @
     (if sg_Reason g = [] then [] else [str_member ''reason'' (sg_Reason g)])"

definition flags_members :: "Flags \<Rightarrow> member_text list" where
  "flags_members f = [str_member ''crash_profile'' (CrashProfile f), str_member ''server_analytics'' (ServerAnalytics f),
     str_member ''child_rules'' (ChildRules f),
     arr_member ''operation_blocks'' (map (\<lambda>b. (enc_string b, JStr b)) (OperationBlocks f))]"

definition basis_members :: "Basis \<Rightarrow> member_text list" where
  "basis_members b = [str_member ''character'' (Character b), str_member ''table_provenance'' (TableProvenance b),
     str_member ''notice'' (Notice b)]"

definition plan_members :: "Plan \<Rightarrow> member_text list" where
  "plan_members p =
     [str_member ''regime'' (PlanRegime p), obj_member ''flags'' (flags_members (PlanFlags p)),
      str_member ''policy_version'' (PolicyVersion p), str_member ''consent_text_version'' (ConsentTextVersion p),
      str_member ''presented_language'' (PresentedLanguage p), obj_member ''scope'' (scope_members (PlanScope p)),
      arr_member ''signals_used'' (map (\<lambda>g. (enc_object (map member_pair (signal_members g)), JObj (signal_members g))) (SignalsUsed p)),
      str_member ''band_vocabulary'' (BandVocabulary p), str_member ''band_vocabulary_version'' (BandVocabularyVersion p),
      str_member ''expires_at'' (ExpiresAt p),
      (case MaxAgeSeconds p of None \<Rightarrow> (''max_age_seconds'', ''null'', JNull)
       | Some a \<Rightarrow> (''max_age_seconds'', show_int a, JNum (show_int a))),
      (case Signature p of None \<Rightarrow> (''signature'', ''null'', JNull) | Some s \<Rightarrow> str_member ''signature'' s),
      obj_member ''basis'' (basis_members (PlanBasis p))] @
     (case PlanReason p of None \<Rightarrow> [] | Some r \<Rightarrow> [str_member ''reason'' r])"

definition marshal_plan :: "Plan \<Rightarrow> gostring" where
  "marshal_plan p = enc_object (map member_pair (plan_members p))"

text \<open>A plan whose strings need no escape.\<close>

definition plain_plan :: "Plan \<Rightarrow> bool" where
  "plain_plan p \<longleftrightarrow> PlanAdvisory p = None \<and>
     list_all clean [PlanRegime p, PolicyVersion p, ConsentTextVersion p, PresentedLanguage p, BandVocabulary p,
       BandVocabularyVersion p, ExpiresAt p, WorkspaceKey (PlanScope p), AppKey (PlanScope p), EnvironmentKey (PlanScope p),
       CrashProfile (PlanFlags p), ServerAnalytics (PlanFlags p), ChildRules (PlanFlags p),
       Character (PlanBasis p), TableProvenance (PlanBasis p), Notice (PlanBasis p)] \<and>
     list_all clean (OperationBlocks (PlanFlags p)) \<and>
     list_all (\<lambda>g. clean (sg_Name g) \<and> clean (sg_Reason g)) (SignalsUsed p) \<and>
     (case Signature p of None \<Rightarrow> True | Some s \<Rightarrow> clean s) \<and> (case PlanReason p of None \<Rightarrow> True | Some r \<Rightarrow> clean r) \<and>
     (case MaxAgeSeconds p of None \<Rightarrow> True | Some a \<Rightarrow> a < 2 ^ 63)"

section \<open>The document parses\<close>

lemma plan_names:
  "plain ''workspace_key''" "plain ''app_key''" "plain ''environment_key''" "plain ''name''" "plain ''available''"
  "plain ''reason''" "plain ''crash_profile''" "plain ''server_analytics''" "plain ''child_rules''" "plain ''operation_blocks''"
  "plain ''character''" "plain ''table_provenance''" "plain ''notice''" "plain ''regime''" "plain ''flags''"
  "plain ''policy_version''" "plain ''consent_text_version''" "plain ''presented_language''" "plain ''scope''"
  "plain ''signals_used''" "plain ''band_vocabulary''" "plain ''band_vocabulary_version''" "plain ''expires_at''"
  "plain ''max_age_seconds''" "plain ''signature''" "plain ''basis''"
  by code_simp+

lemma clean_member_ok: "plain k \<Longrightarrow> clean s \<Longrightarrow> member_ok d (str_member k s)"
  by (simp add: member_ok_def str_member_def value_text_clean)

lemma scope_members_ok:
  "list_all clean [WorkspaceKey s, AppKey s, EnvironmentKey s] \<Longrightarrow> list_all (member_ok d) (scope_members s)"
  by (simp add: scope_members_def clean_member_ok plan_names)

lemma signal_members_ok: "clean (sg_Name g) \<Longrightarrow> clean (sg_Reason g) \<Longrightarrow> list_all (member_ok d) (signal_members g)"
  by (simp add: signal_members_def str_member_def member_ok_def plan_names value_text_clean value_text_bool value_text_null split: option.split)

lemma flags_members_ok:
  "list_all clean [CrashProfile f, ServerAnalytics f, ChildRules f] \<Longrightarrow> list_all clean (OperationBlocks f) \<Longrightarrow> d < max_depth \<Longrightarrow>
   list_all (member_ok d) (flags_members f)"
  by (simp add: flags_members_def clean_member_ok plan_names)
     (intro arr_member_ok; auto simp: plan_names list_all_iff value_text_clean)

lemma basis_members_ok:
  "list_all clean [Character b, TableProvenance b, Notice b] \<Longrightarrow> list_all (member_ok d) (basis_members b)"
  by (simp add: basis_members_def clean_member_ok plan_names)

lemma plan_members_ok:
  assumes "plain_plan p"
  shows "list_all (member_ok 1) (plan_members p)"
proof -
  have d: "1 < max_depth" "2 < max_depth" by (simp_all add: max_depth_def)
  have sig: "list_all (\<lambda>(t, v). value_text 2 t v)
      (map (\<lambda>g. (enc_object (map member_pair (signal_members g)), JObj (signal_members g))) (SignalsUsed p))"
    using assms d(2) by (auto simp: plain_plan_def list_all_iff [where xs = "SignalsUsed p"] list_all_iff [where xs = "map f (SignalsUsed p)" for f]
        intro!: value_text_object signal_members_ok) (simp add: signal_members_def)
  have "member_ok 1 (obj_member ''flags'' (flags_members (PlanFlags p)))"
    using assms d by (intro obj_member_ok flags_members_ok plan_names) (auto simp: plain_plan_def flags_members_def)
  moreover have "member_ok 1 (obj_member ''scope'' (scope_members (PlanScope p)))"
    using assms d by (intro obj_member_ok scope_members_ok plan_names) (auto simp: plain_plan_def scope_members_def)
  moreover have "member_ok 1 (obj_member ''basis'' (basis_members (PlanBasis p)))"
    using assms d by (intro obj_member_ok basis_members_ok plan_names) (auto simp: plain_plan_def basis_members_def)
  moreover have "member_ok 1 (arr_member ''signals_used''
      (map (\<lambda>g. (enc_object (map member_pair (signal_members g)), JObj (signal_members g))) (SignalsUsed p)))"
    using sig d by (intro arr_member_ok plan_names) (simp_all add: numeral_2_eq_2)
  ultimately show ?thesis
    using assms unfolding plan_members_def plain_plan_def
    by (simp add: clean_member_ok plan_names split: option.splits)
       (simp_all add: member_ok_def plan_names value_text_null value_text_show_int)
qed

lemma parse_marshal_plan: "plain_plan p \<Longrightarrow> parse_json (marshal_plan p) = Some (JObj (plan_members p))"
  unfolding marshal_plan_def by (rule parse_enc_object [OF _ plan_members_ok]) (simp add: plan_members_def)

section \<open>The scans accept it\<close>

lemmas schema_defs = plan_schema_def Plan_fields_def Flags_fields_def Scope_fields_def Signal_fields_def Basis_fields_def
lemmas members_defs = plan_members_def flags_members_def scope_members_def basis_members_def str_member_def obj_member_def arr_member_def

lemma check_strings: "checkElements t (map JStr xs) = None"
  by (induction xs) simp_all

lemma check_signals: "checkElements (Some (Struct Signal_fields)) (map (\<lambda>g. JObj (signal_members g)) gs) = None"
proof (induction gs)
  case (Cons g gs)
  have "checkValueKeys (Some (Struct Signal_fields)) (JObj (signal_members g)) = None"
    by (simp add: schemaKeys_def Signal_fields_def signal_members_def str_member_def split: option.split)
  then show ?case using Cons by simp
qed simp

lemma check_plan_members: "checkObjectKeys (JObj (plan_members p)) = None"
proof -
  have f: "checkValueKeys (Some (Struct Flags_fields)) (JObj (flags_members f)) = None" for f
    by (simp add: schemaKeys_def Flags_fields_def flags_members_def str_member_def arr_member_def comp_def check_strings elem_schema_def)
  have s: "checkValueKeys (Some (Struct Scope_fields)) (JObj (scope_members x)) = None" for x
    by (simp add: schemaKeys_def Scope_fields_def scope_members_def str_member_def)
  have b: "checkValueKeys (Some (Struct Basis_fields)) (JObj (basis_members x)) = None" for x
    by (simp add: schemaKeys_def Basis_fields_def basis_members_def str_member_def)
  have g: "checkValueKeys (Some (Elems (Struct Signal_fields))) (JArr (map (\<lambda>g. JObj (signal_members g)) gs)) = None" for gs
    by (simp add: elem_schema_def check_signals)
  have keys: "\<exists>t. schemaKeys plan_schema = Some t \<and> t ''regime'' = Some Scalar \<and> t ''flags'' = Some (Struct Flags_fields) \<and>
      t ''policy_version'' = Some Scalar \<and> t ''consent_text_version'' = Some Scalar \<and> t ''presented_language'' = Some Scalar \<and>
      t ''scope'' = Some (Struct Scope_fields) \<and> t ''signals_used'' = Some (Elems (Struct Signal_fields)) \<and>
      t ''band_vocabulary'' = Some Scalar \<and> t ''band_vocabulary_version'' = Some Scalar \<and> t ''expires_at'' = Some Scalar \<and>
      t ''max_age_seconds'' = Some Scalar \<and> t ''signature'' = Some Scalar \<and> t ''basis'' = Some (Struct Basis_fields) \<and>
      t ''reason'' = Some Scalar"
    by (simp add: schemaKeys_def plan_schema_def Plan_fields_def)
  then obtain t where t: "schemaKeys plan_schema = Some t" "t ''regime'' = Some Scalar" "t ''flags'' = Some (Struct Flags_fields)"
      "t ''policy_version'' = Some Scalar" "t ''consent_text_version'' = Some Scalar" "t ''presented_language'' = Some Scalar"
      "t ''scope'' = Some (Struct Scope_fields)" "t ''signals_used'' = Some (Elems (Struct Signal_fields))"
      "t ''band_vocabulary'' = Some Scalar" "t ''band_vocabulary_version'' = Some Scalar" "t ''expires_at'' = Some Scalar"
      "t ''max_age_seconds'' = Some Scalar" "t ''signature'' = Some Scalar" "t ''basis'' = Some (Struct Basis_fields)"
      "t ''reason'' = Some Scalar" by auto
  have "checkObjectKeys (JObj (plan_members p)) = checkObjectBody (Some t) [] (plan_members p)"
    by (simp add: checkObjectKeys_def t)
  then show ?thesis
    by (simp add: t plan_members_def str_member_def obj_member_def arr_member_def f s b g comp_def
        del: checkValueKeys.simps(1,2) split: option.split)
qed

text \<open>A plan that states its maximum age, and signals that say whether they were available.\<close>

lemma key_path_nonempty: "whre \<noteq> [] \<Longrightarrow> hd whre \<noteq> CHR ''.'' \<Longrightarrow> key_path whre k = whre @ ''.'' @ k"
  by (cases whre) (simp_all add: key_path_def trim_prefix_def has_prefix_def)

lemma key_path_top: "key_path [] k = k"
  by (simp add: key_path_def trim_prefix_def has_prefix_def)

lemma required_signals:
  "\<forall>g \<in> set gs. sg_Available g \<noteq> None \<Longrightarrow>
   requiredElements (map (\<lambda>g. JObj (signal_members g)) gs) (Struct Signal_fields) whre i = None"
proof (induction gs arbitrary: i)
  case (Cons g gs)
  have "requiredKeysIn (JObj (signal_members g)) (Struct Signal_fields) w = None" for w
    using Cons.prems
    by (auto simp: Signal_fields_def as_map_def requiredKeys_def signal_members_def str_member_def member_value_def isJSONNull_def)
  then show ?case using Cons by simp
qed simp

lemma required_strings: "requiredElements (map JStr xs) Scalar whre i = None"
  by (induction xs arbitrary: i) simp_all

lemma required_plan_members:
  assumes "MaxAgeSeconds p \<noteq> None" and "\<forall>g \<in> set (SignalsUsed p). sg_Available g \<noteq> None"
  shows "checkRequiredKeys (JObj (plan_members p)) = None"
proof -
  have f: "requiredKeysIn (JObj (flags_members x)) (Struct Flags_fields) w = None" for x w
    by (simp add: Flags_fields_def as_map_def requiredKeys_def flags_members_def str_member_def arr_member_def member_value_def
        isJSONNull_def comp_def required_strings)
  have s: "requiredKeysIn (JObj (scope_members x)) (Struct Scope_fields) w = None" for x w
    by (simp add: Scope_fields_def as_map_def requiredKeys_def scope_members_def str_member_def member_value_def isJSONNull_def)
  have b: "requiredKeysIn (JObj (basis_members x)) (Struct Basis_fields) w = None" for x w
    by (simp add: Basis_fields_def as_map_def requiredKeys_def basis_members_def str_member_def member_value_def isJSONNull_def)
  obtain a where a: "MaxAgeSeconds p = Some a" using assms(1) by auto
  let ?v = "member_value (plan_members p)"
  have v: "?v ''regime'' = Some (JStr (PlanRegime p))" "?v ''flags'' = Some (JObj (flags_members (PlanFlags p)))"
    "?v ''policy_version'' = Some (JStr (PolicyVersion p))" "?v ''consent_text_version'' = Some (JStr (ConsentTextVersion p))"
    "?v ''presented_language'' = Some (JStr (PresentedLanguage p))" "?v ''scope'' = Some (JObj (scope_members (PlanScope p)))"
    "?v ''signals_used'' = Some (JArr (map (\<lambda>g. JObj (signal_members g)) (SignalsUsed p)))"
    "?v ''band_vocabulary'' = Some (JStr (BandVocabulary p))" "?v ''band_vocabulary_version'' = Some (JStr (BandVocabularyVersion p))"
    "?v ''expires_at'' = Some (JStr (ExpiresAt p))" "?v ''max_age_seconds'' = Some (JNum (show_int a))"
    "?v ''signature'' = Some (case Signature p of None \<Rightarrow> JNull | Some s \<Rightarrow> JStr s)"
    "?v ''basis'' = Some (JObj (basis_members (PlanBasis p)))" "?v ''reason'' = map_option JStr (PlanReason p)"
    "?v ''advisory'' = None"
    by (simp_all add: member_value_def plan_members_def str_member_def obj_member_def arr_member_def comp_def a split: option.split)
  have rf: "requiredFields (plan_members p) Plan_fields [] = None"
    unfolding Plan_fields_def
    by (simp add: v isJSONNull_def key_path_top f s b required_signals [OF assms(2)] nullableKeys_def
        del: requiredKeysIn.simps(3) split: option.split)
  show ?thesis
    using rf by (simp add: checkRequiredKeys_def plan_schema_def as_map_def) (simp add: Plan_fields_def requiredKeys_def v)
qed

section \<open>The decode gives the plan back\<close>

lemma lower_plan_names:
  "to_lower ''workspace_key'' = ''workspace_key''"
  "to_lower ''app_key'' = ''app_key''"
  "to_lower ''environment_key'' = ''environment_key''"
  "to_lower ''name'' = ''name''"
  "to_lower ''available'' = ''available''"
  "to_lower ''reason'' = ''reason''"
  "to_lower ''crash_profile'' = ''crash_profile''"
  "to_lower ''server_analytics'' = ''server_analytics''"
  "to_lower ''child_rules'' = ''child_rules''"
  "to_lower ''operation_blocks'' = ''operation_blocks''"
  "to_lower ''character'' = ''character''"
  "to_lower ''table_provenance'' = ''table_provenance''"
  "to_lower ''notice'' = ''notice''"
  "to_lower ''regime'' = ''regime''"
  "to_lower ''flags'' = ''flags''"
  "to_lower ''policy_version'' = ''policy_version''"
  "to_lower ''consent_text_version'' = ''consent_text_version''"
  "to_lower ''presented_language'' = ''presented_language''"
  "to_lower ''scope'' = ''scope''"
  "to_lower ''signals_used'' = ''signals_used''"
  "to_lower ''band_vocabulary'' = ''band_vocabulary''"
  "to_lower ''band_vocabulary_version'' = ''band_vocabulary_version''"
  "to_lower ''expires_at'' = ''expires_at''"
  "to_lower ''max_age_seconds'' = ''max_age_seconds''"
  "to_lower ''signature'' = ''signature''"
  "to_lower ''basis'' = ''basis''"
  "to_lower ''advisory'' = ''advisory''"
  by code_simp+

lemmas decode_simps = dstring_def dpointer_none dpointer_one field_of_Cons field_of_Nil decode_none decode_one lower_plan_names as_string_def

lemma decode_scope_members: "decode_scope (scope_members s) = Some s"
  by (simp add: decode_scope_def scope_members_def str_member_def decode_simps)

lemma decode_signal_members: "decode_signal (signal_members g) = Some g"
  by (cases "sg_Available g") (simp_all add: decode_signal_def signal_members_def str_member_def decode_simps as_bool_def)

lemma decode_flags_members: "decode_flags (flags_members f) = Some f"
proof -
  have "those (map (\<lambda>v. if v = JNull then Some [] else as_string v) (map JStr bs)) = Some bs" for bs
    by (induction bs) (simp_all add: as_string_def)
  then show ?thesis
    by (simp add: decode_flags_def flags_members_def str_member_def arr_member_def decode_simps as_list_def comp_def)
qed

lemma decode_basis_members: "decode_basis (basis_members b) = Some b"
  by (simp add: decode_basis_def basis_members_def str_member_def decode_simps)

lemma decode_plan_members:
  assumes "PlanAdvisory p = None" and "MaxAgeSeconds p = Some a" and "0 \<le> a" and "a < 2 ^ 63"
  shows "decode_plan (plan_members p) = Some p"
proof -
  have sig: "those (map (\<lambda>g. decode_signal (signal_members g)) gs) = Some gs" for gs
    by (induction gs) (simp_all add: decode_signal_members)
  have int: "as_int (JNum (show_int a)) = Some a"
    using assms(3,4) by (simp add: as_int_def parse_show_int)
  show ?thesis
    unfolding decode_plan_def
    by (cases p)
       (use assms in \<open>simp add: plan_members_def str_member_def obj_member_def arr_member_def decode_simps comp_def as_list_def
          as_struct_def decode_scope_members decode_flags_members decode_basis_members sig int split: option.split\<close>)
qed

section \<open>The document is ASCII\<close>

lemma ascii_simps [simp]: "ascii []" "ascii (c # s) \<longleftrightarrow> ord c < 128 \<and> ascii s" "ascii (s @ t) \<longleftrightarrow> ascii s \<and> ascii t"
  by (auto simp: ascii_def)

lemma ascii_quote [simp]: "ord quote < 128"
  by (simp add: quote_def)

lemma utf8_valid_ascii: "ascii s \<Longrightarrow> length s \<le> n \<Longrightarrow> utf8_valid_fuel n s"
proof (induction n arbitrary: s)
  case (Suc n)
  then show ?case by (cases s) auto
qed simp

lemma ascii_clean: "clean s \<Longrightarrow> ascii (enc_string s)"
  by (auto simp: enc_string_clean clean_def plain_def ascii_def list_all_iff)

lemma ascii_members: "\<forall>m \<in> set ms. ascii (fst m) \<and> ascii (snd m) \<Longrightarrow> ascii (enc_members ms)"
  by (induction ms rule: enc_members.induct) auto

lemma ascii_elems: "\<forall>t \<in> set ts. ascii t \<Longrightarrow> ascii (enc_elems ts)"
  by (induction ts rule: enc_elems.induct) auto

lemma ascii_show_int: "ascii (show_int i)"
proof -
  have "ord c < 128" if "c \<in> set (show_int i)" for c
    using show_int_chars [of i] that by (auto simp: byte_class_defs)
  then show ?thesis by (auto simp: ascii_def list_all_iff)
qed

lemma ascii_str: "ascii k \<Longrightarrow> clean s \<Longrightarrow> ascii (fst (member_pair (str_member k s))) \<and> ascii (snd (member_pair (str_member k s)))"
  by (simp add: str_member_def member_pair_def ascii_clean)

lemma ascii_obj: "\<forall>m \<in> set ms. ascii (fst (member_pair m)) \<and> ascii (snd (member_pair m)) \<Longrightarrow> ascii (enc_object (map member_pair ms))"
  using ascii_members [of "map member_pair ms"] by (simp add: enc_object_def)

lemma ascii_plan:
  assumes "plain_plan p"
  shows "ascii (marshal_plan p)"
proof -
  have "ascii (enc_object (map member_pair (signal_members g)))" if "g \<in> set (SignalsUsed p)" for g
    using assms that
    by (intro ascii_obj) (auto simp: plain_plan_def list_all_iff signal_members_def member_pair_def str_member_def enc_bool_def
        ascii_clean split: option.split)
  then have sig: "ascii (enc_array (map (\<lambda>g. enc_object (map member_pair (signal_members g))) (SignalsUsed p)))"
    by (auto simp: enc_array_def intro!: ascii_elems)
  have ops: "ascii (enc_array (map enc_string (OperationBlocks (PlanFlags p))))"
    using assms by (auto simp: enc_array_def plain_plan_def list_all_iff ascii_clean intro!: ascii_elems)
  have "ascii (enc_object (map member_pair (flags_members (PlanFlags p))))"
    using assms ops by (intro ascii_obj) (auto simp: plain_plan_def flags_members_def member_pair_def str_member_def arr_member_def
        comp_def ascii_clean)
  moreover have "ascii (enc_object (map member_pair (scope_members (PlanScope p))))"
    using assms by (intro ascii_obj) (auto simp: plain_plan_def scope_members_def member_pair_def str_member_def ascii_clean)
  moreover have "ascii (enc_object (map member_pair (basis_members (PlanBasis p))))"
    using assms by (intro ascii_obj) (auto simp: plain_plan_def basis_members_def member_pair_def str_member_def ascii_clean)
  ultimately show ?thesis
    unfolding marshal_plan_def
    using assms sig
    by (intro ascii_obj) (auto simp: plain_plan_def plan_members_def member_pair_def str_member_def obj_member_def arr_member_def
        comp_def ascii_clean ascii_show_int split: option.splits)
qed

section \<open>The round trip\<close>

text \<open>C31. The document \<open>encoding/json\<close> writes for a valid plan parses back to that plan, whatever optional
  parts it has besides the advisory, as long as its strings need no escape and it is within the
  size bound.\<close>

theorem plan_roundtrip:
  assumes "validate p = None" and "plain_plan p" and "length (marshal_plan p) \<le> 16384"
  shows "ParsePlan (marshal_plan p) = Inr p"
proof -
  obtain a where a: "MaxAgeSeconds p = Some a" "0 \<le> a" using validate_facts(11) [OF assms(1)] by blast
  have "a < 2 ^ 63" "PlanAdvisory p = None" using assms(2) a by (simp_all add: plain_plan_def)
  then have dec: "decode_plan (plan_members p) = Some p" by (intro decode_plan_members [OF _ a])
  have sg: "\<forall>g \<in> set (SignalsUsed p). sg_Available g \<noteq> None"
    using validate_facts(8) [OF assms(1)] by (auto dest!: signal_fault_None)
  have "utf8_valid (marshal_plan p)" using ascii_plan [OF assms(2)] by (simp add: utf8_valid_def utf8_valid_ascii)
  moreover have "marshal_plan p \<noteq> []" by (simp add: marshal_plan_def enc_object_def)
  ultimately show ?thesis
    using assms parse_marshal_plan [OF assms(2)] check_plan_members [of p] required_plan_members [OF _ sg] a(1) dec
    by (simp add: ParsePlan_def maxPlanBytes_def as_struct_def)
qed

text \<open>A plan the resolver could send.\<close>

definition sample_plan :: Plan where
  "sample_plan = \<lparr>PlanRegime = SoftOptOut,
     PlanFlags = \<lparr>CrashProfile = CrashOff, ServerAnalytics = ServerAnalyticsDenied, ChildRules = ChildRulesMinimised,
       OperationBlocks = [''ads'']\<rparr>,
     PolicyVersion = ''1'', ConsentTextVersion = ''1'', PresentedLanguage = ''en'',
     PlanScope = \<lparr>WorkspaceKey = ''w'', AppKey = ''a'', EnvironmentKey = ''e''\<rparr>,
     SignalsUsed = [\<lparr>sg_Name = ''age_band'', sg_Available = Some True, sg_Reason = []\<rparr>],
     BandVocabulary = ''coarse'', BandVocabularyVersion = ''1'', ExpiresAt = ''2026-09-20T12:05:00Z'',
     MaxAgeSeconds = Some 300, Signature = None,
     PlanBasis = \<lparr>Character = ''informational_reference'', TableProvenance = ''ai_draft'', Notice = ''draft''\<rparr>,
     PlanReason = None, PlanAdvisory = None\<rparr>"

lemma sample_clean:
  "clean ''SOFT_OPT_OUT''" "clean ''off''" "clean ''denied''" "clean ''minimised''" "clean ''ads''" "clean ''1''" "clean ''en''"
  "clean ''w''" "clean ''a''" "clean ''e''" "clean ''age_band''" "clean ''coarse''" "clean ''2026-09-20T12:05:00Z''"
  "clean ''informational_reference''" "clean ''ai_draft''" "clean ''draft''" "clean []"
  by code_simp+

lemma length_enc_clean: "clean s \<Longrightarrow> length (enc_string s) = length s + 2"
  by (simp add: enc_string_clean)

lemma sample_plan_ok: "validate sample_plan = None" "plain_plan sample_plan" "length (marshal_plan sample_plan) \<le> 16384"
proof -
  have t: "parse_rfc3339 ''2026-09-20T12:05:00Z'' = Some 1789905900000000000" by code_simp
  have v: "versionPattern ''1''" "versionPattern ''coarse''" by code_simp+
  show "validate sample_plan = None"
    by (simp add: validate_def sample_plan_def regime_known_def crash_known_def server_known_def child_known_def basis_known_def
        provenance_known_def scope_complete_def field_fault_def v plan_bound_defs signal_fault_def expiry_def t)
  show "plain_plan sample_plan"
    by (simp add: plain_plan_def sample_plan_def SoftOptOut_def CrashOff_def ServerAnalyticsDenied_def ChildRulesMinimised_def
        sample_clean)
  have "show_int 300 = ''300''" by code_simp
  then show "length (marshal_plan sample_plan) \<le> 16384"
    by (simp add: marshal_plan_def enc_object_def plan_members_def sample_plan_def flags_members_def scope_members_def
        basis_members_def signal_members_def str_member_def obj_member_def arr_member_def member_pair_def enc_array_def enc_bool_def
        length_enc_clean sample_clean SoftOptOut_def CrashOff_def ServerAnalyticsDenied_def ChildRulesMinimised_def)
qed

theorem plan_roundtrip_witness: "ParsePlan (marshal_plan sample_plan) = Inr sample_plan"
  by (rule plan_roundtrip [OF sample_plan_ok])

theorem ParsePlan_sound_witness: "plan_within_bounds sample_plan"
  using ParsePlan_sound [OF plan_roundtrip [OF sample_plan_ok]] by (elim conjE)

end
