(* ===== verification/HTTP_Responses.thy ===== *)
theory HTTP_Responses
  imports Batch_Outcomes Go_Json Go_Time
begin

text \<open>
  The transport of \<open>transport.go\<close>: what a response means.  Error envelopes, the \<open>Retry-After\<close> header,
  one POST with its optional gzip body (\<open>postBody\<close>), and the one retry without compression
  (\<open>postJSON\<close>), with \<open>request_compression.go\<close>.

  Parameters: \<open>http_time\<close> is \<open>http.ParseTime\<close> (its RFC 850 form depends on the local zone database),
  \<open>gzip\<close> is the compressor, \<open>send\<close> is the network: what a request is answered with.  A response
  holds the bytes of its body that arrive, and whether reading them fails.
\<close>

section \<open>Error envelopes\<close>

definition rcMaxBodyBytes :: nat where "rcMaxBodyBytes = 2 ^ 20"
definition maxErrorBodyBytes :: nat where "maxErrorBodyBytes = 64 * 1024"

record ErrorDetail =
  ed_Field :: gostring
  ed_Code :: gostring
  ed_Message :: gostring

record errorResponseWire =
  er_Code :: gostring
  er_Message :: gostring
  er_Details :: "ErrorDetail list"

definition zero_error :: errorResponseWire where "zero_error = \<lparr>er_Code = [], er_Message = [], er_Details = []\<rparr>"
definition zero_detail :: ErrorDetail where "zero_detail = \<lparr>ed_Field = [], ed_Code = [], ed_Message = []\<rparr>"

definition decode_detail :: "(gostring \<times> gostring \<times> json) list \<Rightarrow> ErrorDetail option" where
  "decode_detail ms = do {
     f \<leftarrow> dstring ''field'' ms; c \<leftarrow> dstring ''code'' ms; m \<leftarrow> dstring ''message'' ms;
     Some \<lparr>ed_Field = f, ed_Code = c, ed_Message = m\<rparr> }"

definition decode_error_body :: "(gostring \<times> gostring \<times> json) list \<Rightarrow> errorResponseWire option" where
  "decode_error_body ms = do {
     c \<leftarrow> dstring ''code'' ms; m \<leftarrow> dstring ''message'' ms;
     ds \<leftarrow> decode_field (as_list zero_detail (as_struct decode_detail)) [] ''details'' ms;
     Some \<lparr>er_Code = c, er_Message = m, er_Details = ds\<rparr> }"

text \<open>\<open>json.Unmarshal\<close> of an envelope: \<open>null\<close> leaves it zero.\<close>

definition unmarshal_error :: "gostring \<Rightarrow> errorResponseWire option" where
  "unmarshal_error body =
     (case parse_json body of
        Some JNull \<Rightarrow> Some zero_error
      | Some (JObj ms) \<Rightarrow> decode_field (as_struct decode_error_body) zero_error ''error'' ms
      | _ \<Rightarrow> None)"

definition responseError :: "gostring \<Rightarrow> bool \<Rightarrow> errorResponseWire" where
  "responseError body bodyIncomplete =
     (if bodyIncomplete \<or> length body > rcMaxBodyBytes then zero_error
      else case unmarshal_error body of None \<Rightarrow> zero_error | Some w \<Rightarrow> w)"

definition experimentBodyErrorCode :: "gostring \<Rightarrow> bool \<Rightarrow> gostring" where
  "experimentBodyErrorCode body bodyIncomplete = er_Code (responseError body bodyIncomplete)"

section \<open>Retry-After\<close>

definition maxRetryAfter :: nanos where "maxRetryAfter = 24 * Hour"

definition parseRetryAfter :: "(gostring \<Rightarrow> nanos option) \<Rightarrow> nanos \<Rightarrow> gostring \<Rightarrow> nanos \<times> bool" where
  "parseRetryAfter http_time now header =
     (let header = trim_space header
      in if header = [] then (0, False)
         else case parse_int64 header of
           PInt seconds \<Rightarrow>
             if seconds < 0 then (0, False)
             else if seconds > maxRetryAfter div Second then (maxRetryAfter, True)
             else (seconds * Second, True)
         | r \<Rightarrow>
             if r = PRange \<and> \<not> has_prefix ''-'' header then (maxRetryAfter, True)
             else case http_time header of
               Some t \<Rightarrow>
                 let retryAfter = t - now
                 in if retryAfter \<le> 0 then (0, True)
                    else if retryAfter > maxRetryAfter then (maxRetryAfter, True)
                    else (retryAfter, True)
             | None \<Rightarrow> (0, False))"

definition parseRemoteConfigRetryAfter :: "(gostring \<Rightarrow> nanos option) \<Rightarrow> nanos \<Rightarrow> gostring \<Rightarrow> int \<times> bool" where
  "parseRemoteConfigRetryAfter http_time now header =
     (let (wait, present) = parseRetryAfter http_time now header in ((wait + Second - 1) div Second, present))"

section \<open>Status errors\<close>

record HTTPStatusError =
  StatusCode :: int
  ErrorCode :: gostring
  ErrorMessage :: gostring
  Details :: "ErrorDetail list"
  RetryAfter :: nanos
  se_retryAfterPresent :: bool

definition Retryable :: "HTTPStatusError \<Rightarrow> bool" where
  "Retryable e \<longleftrightarrow> StatusCode e = 408 \<or> StatusCode e = 429 \<or> StatusCode e \<ge> 500"

definition maxErrorDetailCodes :: nat where "maxErrorDetailCodes = 5"

text \<open>The detail list of the error text: at most five codes, then an ellipsis.\<close>

fun detail_text :: "nat \<Rightarrow> ErrorDetail list \<Rightarrow> gostring" where
  "detail_text i [] = []"
| "detail_text i (d # ds) =
     (if i \<ge> maxErrorDetailCodes then '',...''
      else (if i > 0 then '','' else []) @ (if ed_Field d \<noteq> [] then ed_Field d @ '':'' else []) @ ed_Code d @
           detail_text (Suc i) ds)"

definition HTTPStatusError_Error :: "HTTPStatusError \<Rightarrow> gostring" where
  "HTTPStatusError_Error e =
     ''shardpilot ingest returned status '' @ show_int (StatusCode e) @
     (if ErrorCode e \<noteq> [] then '' ('' @ ErrorCode e @ '')'' else []) @
     (if Details e \<noteq> [] then '' ['' @ detail_text 0 (Details e) @ '']'' else [])"

record http_response =
  r_status :: int
  r_retryAfter :: gostring
  r_body :: gostring
  r_readFailed :: bool

definition newHTTPStatusError :: "(gostring \<Rightarrow> nanos option) \<Rightarrow> nanos \<Rightarrow> http_response \<Rightarrow> HTTPStatusError" where
  "newHTTPStatusError http_time now r =
     (let (wait, present) =
            (if r_status r = 429 \<or> r_status r \<ge> 500 then parseRetryAfter http_time now (r_retryAfter r) else (0, False));
          e = \<lparr>StatusCode = r_status r, ErrorCode = [], ErrorMessage = [], Details = [], RetryAfter = wait,
               se_retryAfterPresent = present\<rparr>;
          body = take (maxErrorBodyBytes + 1) (r_body r)
      in if r_readFailed r \<or> length body = 0 \<or> length body > maxErrorBodyBytes then e
         else case unmarshal_error body of
           None \<Rightarrow> e
         | Some w \<Rightarrow>
             if er_Code w = [] then e
             else e\<lparr>ErrorCode := er_Code w, ErrorMessage := er_Message w, Details := er_Details w\<rparr>)"

section \<open>Compression\<close>

definition compressionMinimumBytes :: nat where "compressionMinimumBytes = 1024"

definition compressRequestBody :: "(gostring \<Rightarrow> gostring option) \<Rightarrow> gostring \<Rightarrow> gostring option" where
  "compressRequestBody gzip payload =
     (if length payload < compressionMinimumBytes then None
      else case gzip payload of
        None \<Rightarrow> None
      | Some buf \<Rightarrow> if length buf \<ge> length payload then None else Some buf)"

section \<open>One POST\<close>

record http_post =
  p_endpoint :: gostring
  p_body :: gostring
  p_gzip :: bool
  p_token :: gostring
  p_schemaRevision :: gostring

text \<open>What became of a request: the client failed, after it may have dialled, connected or written; or
  a response arrived.\<close>

datatype do_result = DoFailed bool bool bool | DoResponse http_response

datatype post_error = EncodeError | ContextEnded | AttemptRefused | SendFailed | StatusError HTTPStatusError

definition serverRefusedCompression :: "post_error option \<Rightarrow> bool" where
  "serverRefusedCompression err =
     (case err of
        Some (StatusError e) \<Rightarrow>
          list_ex (\<lambda>d. ed_Code d = ''unsupported_content_encoding'' \<or> ed_Code d = ''invalid_content_encoding'') (Details e)
      | _ \<Rightarrow> False)"

record transport_config =
  t_http_time :: "gostring \<Rightarrow> nanos option"
  t_gzip :: "gostring \<Rightarrow> gostring option"
  t_token :: gostring
  t_compressionOptOut :: bool

text \<open>The context and the attempt hook it may carry (\<open>analyticsAttempt\<close>): whether it has ended, and
  whether the hook lets the request go.\<close>

datatype attempt = NoHook | HookRefuses | HookBegins

record 'r post_outcome =
  po_error :: "post_error option"
  po_result :: 'r
  po_sent :: "http_post list"
  po_finish :: "bool option"

definition post_request :: "transport_config \<Rightarrow> gostring \<Rightarrow> gostring \<Rightarrow> gostring \<Rightarrow> bool \<Rightarrow> http_post" where
  "post_request t endpoint payload schemaRevision allowCompression =
     (let encoded = (if allowCompression then compressRequestBody (t_gzip t) payload else None)
      in \<lparr>p_endpoint = endpoint, p_body = (case encoded of Some b \<Rightarrow> b | None \<Rightarrow> payload), p_gzip = (encoded \<noteq> None),
          p_token = t_token t, p_schemaRevision = schemaRevision\<rparr>)"

text \<open>The result of a success response: a body that is cut, too long, no object or no result of the
  expected type is malformed.\<close>

definition read_result :: "(gostring \<Rightarrow> 'r option) \<Rightarrow> 'r \<Rightarrow> http_response \<Rightarrow> 'r" where
  "read_result decode malformed r =
     (let responseBody = take (rcMaxBodyBytes + 1) (r_body r); trimmed = trim_space responseBody
      in if r_readFailed r \<or> length responseBody > rcMaxBodyBytes \<or> trimmed = [] \<or> hd trimmed \<noteq> CHR ''{''
         then malformed
         else case decode responseBody of None \<Rightarrow> malformed | Some res \<Rightarrow> res)"

definition postBody :: "transport_config \<Rightarrow> (http_post \<Rightarrow> do_result) \<Rightarrow> nanos \<Rightarrow> bool \<Rightarrow> attempt \<Rightarrow>
    (gostring \<Rightarrow> 'r option) \<Rightarrow> 'r \<Rightarrow> 'r \<Rightarrow> gostring \<Rightarrow> gostring \<Rightarrow> gostring \<Rightarrow> bool \<Rightarrow> 'r post_outcome" where
  "postBody t send now ended hook decode malformed zero endpoint payload schemaRevision allowCompression =
     (let req = post_request t endpoint payload schemaRevision allowCompression;
          out = (\<lambda>err res undelivered. \<lparr>po_error = err, po_result = res, po_sent = [req],
                   po_finish = (if hook = HookBegins then Some undelivered else None)\<rparr>)
      in if ended then \<lparr>po_error = Some ContextEnded, po_result = zero, po_sent = [], po_finish = None\<rparr>
         else if hook = HookRefuses then \<lparr>po_error = Some AttemptRefused, po_result = zero, po_sent = [], po_finish = None\<rparr>
         else case send req of
           DoFailed connecting connected wrote \<Rightarrow> out (Some SendFailed) zero (connecting \<and> \<not> connected \<and> \<not> wrote)
         | DoResponse r \<Rightarrow>
             if r_status r < 200 \<or> r_status r \<ge> 300 then
               out (Some (StatusError (newHTTPStatusError (t_http_time t) now r))) zero (r_status r \<ge> 400 \<and> r_status r < 500)
             else out None (read_result decode malformed r) False)"

text \<open>\<open>postJSON\<close>: a server that refuses the encoding is posted to once more without it, and compression
  stays off (the second component) for the rest of the process.  \<open>hook2\<close> and \<open>ended2\<close> are the attempt hook
  and the context at the second attempt.\<close>

definition postJSON :: "transport_config \<Rightarrow> (http_post \<Rightarrow> do_result) \<Rightarrow> nanos \<Rightarrow> bool \<times> bool \<Rightarrow> attempt \<times> attempt \<Rightarrow>
    (gostring \<Rightarrow> 'r option) \<Rightarrow> 'r \<Rightarrow> 'r \<Rightarrow> gostring \<Rightarrow> gostring option \<Rightarrow> gostring \<Rightarrow> bool \<Rightarrow> 'r post_outcome list \<times> bool" where
  "postJSON t send now ended hooks decode malformed zero endpoint request schemaRevision compressionRefused =
     (case request of
        None \<Rightarrow> ([\<lparr>po_error = Some EncodeError, po_result = zero, po_sent = [], po_finish = None\<rparr>], compressionRefused)
      | Some payload \<Rightarrow>
          let enabled = (\<not> t_compressionOptOut t \<and> \<not> compressionRefused);
              first = postBody t send now (fst ended) (fst hooks) decode malformed zero endpoint payload schemaRevision enabled
          in if \<not> serverRefusedCompression (po_error first) then ([first], compressionRefused)
             else ([first, postBody t send now (snd ended) (snd hooks) decode malformed zero endpoint payload schemaRevision False], True))"

section \<open>Batches\<close>

definition zero_event :: batchEventStatusWire where
  "zero_event = \<lparr>w_event_id = [], w_status = [], w_code = [], w_message = []\<rparr>"

definition zero_batch :: batchResult where
  "zero_batch = \<lparr>responseMalformed = False, Accepted = 0, Rejected = 0, Duplicates = 0, Events = []\<rparr>"

definition decode_event_status :: "(gostring \<times> gostring \<times> json) list \<Rightarrow> batchEventStatusWire option" where
  "decode_event_status ms = do {
     i \<leftarrow> dstring ''event_id'' ms; s \<leftarrow> dstring ''status'' ms; c \<leftarrow> dstring ''code'' ms; m \<leftarrow> dstring ''message'' ms;
     Some \<lparr>w_event_id = i, w_status = s, w_code = c, w_message = m\<rparr> }"

definition unmarshal_batch :: "gostring \<Rightarrow> batchResult option" where
  "unmarshal_batch body =
     (case parse_json body of
        Some (JObj ms) \<Rightarrow> do {
          a \<leftarrow> decode_field as_int 0 ''accepted'' ms; r \<leftarrow> decode_field as_int 0 ''rejected'' ms;
          d \<leftarrow> decode_field as_int 0 ''duplicates'' ms;
          es \<leftarrow> decode_field (as_list zero_event (as_struct decode_event_status)) [] ''events'' ms;
          Some \<lparr>responseMalformed = False, Accepted = a, Rejected = r, Duplicates = d, Events = es\<rparr> }
      | _ \<Rightarrow> None)"

text \<open>\<open>Publish\<close>: an error hands out the zero result.\<close>

definition Publish :: "transport_config \<Rightarrow> (http_post \<Rightarrow> do_result) \<Rightarrow> nanos \<Rightarrow> bool \<times> bool \<Rightarrow> attempt \<times> attempt \<Rightarrow> gostring \<Rightarrow>
    gostring option \<Rightarrow> gostring \<Rightarrow> bool \<Rightarrow> (post_error option \<times> batchResult) \<times> bool" where
  "Publish t send now ended hooks endpoint request schemaRevision compressionRefused =
     (let (posts, refused) = postJSON t send now ended hooks unmarshal_batch (zero_batch\<lparr>responseMalformed := True\<rparr>) zero_batch
            endpoint request schemaRevision compressionRefused;
          final = last posts
      in ((po_error final, if po_error final \<noteq> None then zero_batch else po_result final), refused))"

section \<open>Properties\<close>

lemma Second_pos [simp]: "0 < Second" "Second \<noteq> 0"
  by (simp_all add: duration_defs)

lemma parse_retry_after_bounds:
  "0 \<le> fst (parseRetryAfter http_time now header) \<and> fst (parseRetryAfter http_time now header) \<le> maxRetryAfter \<and>
   (snd (parseRetryAfter http_time now header) \<or> fst (parseRetryAfter http_time now header) = 0)"
proof -
  have m: "0 \<le> maxRetryAfter" by (simp add: maxRetryAfter_def duration_defs)
  have s: "a * Second \<le> maxRetryAfter" if "a \<le> maxRetryAfter div Second" for a
    using that by (simp add: maxRetryAfter_def duration_defs)
  have p: "0 \<le> a * Second" if "0 \<le> a" for a using that by (simp add: duration_defs)
  show ?thesis
    using m by (auto simp: parseRetryAfter_def Let_def s p split: parse_int_result.split option.split)
qed

text \<open>C32. A \<open>Retry-After\<close> header asks for a wait between zero and twenty-four hours, whatever it holds, and
  for none when it is not understood; the remote configuration's whole seconds are that wait rounded
  up.\<close>

theorem retry_after_bounded:
  "let (wait, present) = parseRetryAfter http_time now header;
       (seconds, present') = parseRemoteConfigRetryAfter http_time now header
   in 0 \<le> wait \<and> wait \<le> 24 * Hour \<and> (present \<or> wait = 0) \<and> present' = present \<and>
      wait \<le> seconds * Second \<and> seconds * Second < wait + Second \<and> seconds \<le> 24 * 60 * 60"
proof -
  obtain wait present where w: "parseRetryAfter http_time now header = (wait, present)" by (cases "parseRetryAfter http_time now header")
  then have b: "0 \<le> wait" "wait \<le> maxRetryAfter" "present \<or> wait = 0"
    using parse_retry_after_bounds [of http_time now header] by simp_all
  have "wait \<le> (wait + Second - 1) div Second * Second \<and> (wait + Second - 1) div Second * Second < wait + Second"
    using div_mult_mod_eq [of "wait + Second - 1" Second] pos_mod_bound [of Second "wait + Second - 1"]
      pos_mod_sign [of Second "wait + Second - 1"] Second_pos(1) by linarith
  moreover have "(wait + Second - 1) div Second \<le> 24 * 60 * 60"
    using b(2) by (simp add: maxRetryAfter_def duration_defs)
  ultimately show ?thesis using b by (simp add: w parseRemoteConfigRetryAfter_def maxRetryAfter_def)
qed

lemma postBody_requests:
  "po_sent (postBody t send now ended hook decode malformed zero endpoint payload srev allow) =
   (if ended \<or> hook = HookRefuses then [] else [post_request t endpoint payload srev allow])"
  by (simp add: postBody_def Let_def split: do_result.split)

lemma request_body:
  "p_endpoint (post_request t endpoint payload srev allow) = endpoint"
  "if p_gzip (post_request t endpoint payload srev allow)
   then allow \<and> t_gzip t payload = Some (p_body (post_request t endpoint payload srev allow)) \<and>
     length (p_body (post_request t endpoint payload srev allow)) < length payload
   else p_body (post_request t endpoint payload srev allow) = payload"
  by (auto simp: post_request_def compressRequestBody_def Let_def split: option.splits if_splits)

text \<open>Compression never changes what is asked for and is given up for good when the server refuses it:
  a request carries the payload, or a shorter gzip of it and only while compression is on; there are
  at most two; the second is sent exactly when the first was refused for its encoding, carries the
  payload itself, and leaves compression off.\<close>

theorem compression_fallback:
  "let (posts, refused') = postJSON t send now ended hooks decode malformed zero endpoint (Some payload) srev refused;
       requests = concat (map po_sent posts)
   in length requests \<le> 2 \<and>
      list_all (\<lambda>p. p_endpoint p = endpoint \<and>
        (if p_gzip p then \<not> refused \<and> \<not> t_compressionOptOut t \<and> t_gzip t payload = Some (p_body p) \<and> length (p_body p) < length payload
         else p_body p = payload)) requests \<and>
      (if serverRefusedCompression (po_error (hd posts)) then length posts = 2 \<and> refused' \<and> list_all (\<lambda>p. \<not> p_gzip p) (po_sent (last posts))
       else length posts = 1 \<and> refused' = refused)"
proof -
  have none: "\<not> p_gzip (post_request t endpoint payload srev False)" by (simp add: post_request_def)
  have body: "p_body (post_request t endpoint payload srev False) = payload" by (simp add: post_request_def)
  show ?thesis
    using request_body [of t endpoint payload srev "\<not> t_compressionOptOut t \<and> \<not> refused"]
    by (cases "p_gzip (post_request t endpoint payload srev (\<not> t_compressionOptOut t \<and> \<not> refused))")
       (auto simp: postJSON_def Let_def postBody_requests none body request_body(1))
qed

text \<open>C33. A request is reported as definitely not delivered only when the server answered it with a client
  error, or when no connection was made and nothing was written.\<close>

theorem undelivered_sound:
  assumes "po_finish (postBody t send now ended hook decode malformed zero endpoint payload srev allow) = Some True"
  shows "\<exists>p. po_sent (postBody t send now ended hook decode malformed zero endpoint payload srev allow) = [p] \<and>
    (case send p of
       DoFailed connecting connected wrote \<Rightarrow> connecting \<and> \<not> connected \<and> \<not> wrote
     | DoResponse r \<Rightarrow> 400 \<le> r_status r \<and> r_status r < 500)"
  using assms
  by (cases "send (post_request t endpoint payload srev allow)")
     (auto simp: postBody_def Let_def split: if_splits)

definition refusing_transport :: transport_config where
  "refusing_transport = \<lparr>t_http_time = \<lambda>_. None, t_gzip = \<lambda>_. None, t_token = ''k'', t_compressionOptOut = True\<rparr>"

theorem undelivered_sound_witness:
  "length (po_sent (postBody refusing_transport (\<lambda>_. DoFailed True False False) 0 False HookBegins (\<lambda>_. Some ()) () ()
     ''/v1'' ''{}'' [] True)) = 1"
proof -
  have "po_finish (postBody refusing_transport (\<lambda>_. DoFailed True False False) 0 False HookBegins (\<lambda>_. Some ()) () ()
     ''/v1'' ''{}'' [] True) = Some True"
    by (simp add: postBody_def Let_def)
  from undelivered_sound [OF this] show ?thesis by auto
qed

lemma postBody_ok:
  assumes "po_error (postBody t send now ended hook decode malformed zero endpoint payload srev allow) = None"
  shows "\<exists>p r. send p = DoResponse r \<and> 200 \<le> r_status r \<and> r_status r < 300 \<and>
    (let res = po_result (postBody t send now ended hook decode malformed zero endpoint payload srev allow)
     in res = malformed \<or> \<not> r_readFailed r \<and> length (r_body r) \<le> rcMaxBodyBytes \<and> decode (r_body r) = Some res)"
proof -
  have small: "length (take (rcMaxBodyBytes + 1) b) \<le> rcMaxBodyBytes \<Longrightarrow> length b \<le> rcMaxBodyBytes \<and> take (rcMaxBodyBytes + 1) b = b"
    for b :: gostring by (cases "length b \<le> rcMaxBodyBytes") auto
  let ?req = "post_request t endpoint payload srev allow"
  obtain r where r: "send ?req = DoResponse r" "200 \<le> r_status r" "r_status r < 300" and
      res: "po_result (postBody t send now ended hook decode malformed zero endpoint payload srev allow) = read_result decode malformed r"
    using assms by (cases "send ?req") (auto simp: postBody_def Let_def not_less split: if_splits)
  have "read_result decode malformed r = malformed \<or> \<not> r_readFailed r \<and> length (r_body r) \<le> rcMaxBodyBytes \<and>
      decode (r_body r) = Some (read_result decode malformed r)"
    using small [of "r_body r"] by (auto simp: read_result_def Let_def not_less split: option.split)
  then show ?thesis unfolding res using r by (auto simp: Let_def)
qed

text \<open>A published batch has a result or an error: an error comes with the zero result; a result comes
  from a success response, and is either marked malformed or what that response's whole body decodes to.\<close>

theorem Publish_result:
  "let ((err, res), refused') = Publish t send now ended hooks endpoint request srev refused
   in if err \<noteq> None then res = zero_batch
      else \<exists>p r. send p = DoResponse r \<and> 200 \<le> r_status r \<and> r_status r < 300 \<and>
        (responseMalformed res \<or> \<not> r_readFailed r \<and> length (r_body r) \<le> rcMaxBodyBytes \<and> unmarshal_batch (r_body r) = Some res)"
proof -
  obtain posts refused' where j: "postJSON t send now ended hooks unmarshal_batch (zero_batch\<lparr>responseMalformed := True\<rparr>) zero_batch
      endpoint request srev refused = (posts, refused')" by (cases "postJSON t send now ended hooks unmarshal_batch (zero_batch\<lparr>responseMalformed := True\<rparr>) zero_batch
      endpoint request srev refused")
  show ?thesis
  proof (cases "po_error (last posts)")
    case (Some e)
    then show ?thesis by (simp add: Publish_def j)
  next
    case None
    then obtain p where p: "request = Some p" using j by (cases request) (auto simp: postJSON_def)
    let ?post = "\<lambda>e h a. postBody t send now e h unmarshal_batch (zero_batch\<lparr>responseMalformed := True\<rparr>) zero_batch endpoint p srev a"
    have "last posts = ?post (fst ended) (fst hooks) (\<not> t_compressionOptOut t \<and> \<not> refused) \<or>
        last posts = ?post (snd ended) (snd hooks) False"
      using j p by (auto simp: postJSON_def Let_def simp del: de_Morgan_conj split: if_splits)
    then obtain e h a where l: "last posts = ?post e h a" by blast
    from postBody_ok [OF None [unfolded l]] obtain q r where "send q = DoResponse r" "200 \<le> r_status r" "r_status r < 300"
      "po_result (last posts) = zero_batch\<lparr>responseMalformed := True\<rparr> \<or> \<not> r_readFailed r \<and> length (r_body r) \<le> rcMaxBodyBytes \<and>
         unmarshal_batch (r_body r) = Some (po_result (last posts))" by (auto simp: l Let_def)
    then have "\<exists>p r. send p = DoResponse r \<and> 200 \<le> r_status r \<and> r_status r < 300 \<and>
        (responseMalformed (po_result (last posts)) \<or> \<not> r_readFailed r \<and> length (r_body r) \<le> rcMaxBodyBytes \<and>
         unmarshal_batch (r_body r) = Some (po_result (last posts)))"
      by (intro exI [of _ q] exI [of _ r]) auto
    then show ?thesis using None by (simp add: Publish_def j)
  qed
qed

end
