(* ===== verification/Remote_Config.thy ===== *)
theory Remote_Config
  imports HTTP_Responses Spool_Disk
begin

text \<open>
  The remote configuration of \<open>remote_config.go\<close>: the request it sends, the classification of a response
  (\<open>applyRemoteConfig\<close>), the durable cache, and the settlement of a fetch under the state's lock.

  A float64 of a decoded document is kept as its number text; a version that the document does not
  give is \<open>None\<close>.  A decoded JSON object is the list of its members, of which the last of a name counts.
  Maps that Go creates on first use are total or partial functions; a map whose values may be nil
  pointers (\<open>cleared\<close>) maps to an option.  \<open>sha\<close> is SHA-256 in hex.  The cache file is one file whose
  calls take their outcome from an explicit list, as in \<open>Spool_Disk\<close>.
\<close>

section \<open>Requests\<close>

definition rcCooldownClampSeconds :: int where "rcCooldownClampSeconds = 24 * 60 * 60"
definition rcScopeSeparator :: gostring where "rcScopeSeparator = [CHR 0x1F]"

definition unreserved :: "char \<Rightarrow> bool" where
  "unreserved c \<longleftrightarrow> is_alnum c \<or> c \<in> set ''._~-''"

definition upper_hex :: "nat \<Rightarrow> char" where
  "upper_hex n = (if n < 10 then char_of (48 + n) else char_of (55 + n))"

definition escape_segment_byte :: "char \<Rightarrow> gostring" where
  "escape_segment_byte c =
     (if unreserved c then [c] else [CHR ''%'', upper_hex (ord c div 16), upper_hex (ord c mod 16)])"

definition escapeRemoteConfigSegment :: "gostring \<Rightarrow> gostring" where
  "escapeRemoteConfigSegment s = concat (map escape_segment_byte s)"

definition buildRemoteConfigURL :: "gostring \<Rightarrow> gostring \<Rightarrow> gostring \<Rightarrow> gostring" where
  "buildRemoteConfigURL base workspace environment =
     trim_right_char (CHR ''/'') base @ ''/config/v1/'' @ escapeRemoteConfigSegment workspace @ ''/'' @
     escapeRemoteConfigSegment environment"

definition remoteConfigHeaderIdentity :: "gostring \<Rightarrow> gostring" where
  "remoteConfigHeaderIdentity s =
     (if s = [] \<or> hd s = CHR '' '' \<or> last s = CHR '' '' then []
      else if list_ex (\<lambda>c. ord c < 32 \<or> ord c = 127) s then [] else s)"

record expAttribute =
  at_Name :: gostring
  at_Value :: gostring

fun append_pairs :: "nat \<Rightarrow> expAttribute list \<Rightarrow> gostring" where
  "append_pairs i [] = []"
| "append_pairs i (a # as) =
     (if i = 0 then ''?'' else ''&'') @ escapeRemoteConfigSegment (at_Name a) @ ''='' @ escapeRemoteConfigSegment (at_Value a) @
     append_pairs (Suc i) as"

definition appendRemoteConfigAttributes :: "gostring \<Rightarrow> expAttribute list \<Rightarrow> gostring" where
  "appendRemoteConfigAttributes fetchURL attributes = (if attributes = [] then fetchURL else fetchURL @ append_pairs 0 attributes)"

definition buildRemoteConfigScope :: "gostring \<Rightarrow> gostring \<Rightarrow> gostring \<Rightarrow> gostring \<Rightarrow> gostring" where
  "buildRemoteConfigScope workspace environment client base =
     escapeRemoteConfigSegment workspace @ rcScopeSeparator @ escapeRemoteConfigSegment environment @ rcScopeSeparator @
     escapeRemoteConfigSegment client @ rcScopeSeparator @ trim_right_char (CHR ''/'') base"

text \<open>\<open>normalizeExperimentAttributes\<close> of \<open>experiments.go\<close>: sorted by name, trimmed, the valid ones, at
  most the cap.\<close>

definition expAllowedAttributes :: "gostring list" where
  "expAllowedAttributes = [''geo'', ''app_version'', ''device_type'', ''install_date'', ''user_segment'']"
definition expCustomAttributePrefix :: gostring where "expCustomAttributePrefix = ''custom_attribute_''"
definition expMaxAttributeValueBytes :: nat where "expMaxAttributeValueBytes = 512"
definition expMaxAttributes :: nat where "expMaxAttributes = 64"
definition expMaxCustomAttributeName :: nat where "expMaxCustomAttributeName = 64"

definition validExperimentAttributeName :: "gostring \<Rightarrow> bool" where
  "validExperimentAttributeName name \<longleftrightarrow>
     (if name \<in> set expAllowedAttributes then True
      else if has_prefix expCustomAttributePrefix name then
        (let suffix = length name - length expCustomAttributePrefix in 1 \<le> suffix \<and> suffix \<le> expMaxCustomAttributeName)
      else False)"

definition string_le :: "gostring \<Rightarrow> gostring \<Rightarrow> bool" where
  "string_le s t \<longleftrightarrow> lexordp_eq (map ord s) (map ord t)"

fun insert_name :: "gostring \<times> gostring \<Rightarrow> (gostring \<times> gostring) list \<Rightarrow> (gostring \<times> gostring) list" where
  "insert_name x [] = [x]"
| "insert_name x (y # ys) = (if string_le (fst x) (fst y) then x # y # ys else y # insert_name x ys)"

definition sort_names :: "(gostring \<times> gostring) list \<Rightarrow> (gostring \<times> gostring) list" where
  "sort_names xs = foldr insert_name xs []"

definition attribute_step :: "gostring \<times> gostring \<Rightarrow> expAttribute list \<times> nat \<Rightarrow> expAttribute list \<times> nat" where
  "attribute_step nv acc =
     (let (pairs, dropped) = acc; val = trim_space (snd nv)
      in if \<not> validExperimentAttributeName (fst nv) \<or> val = [] \<or> length val > expMaxAttributeValueBytes then (pairs, dropped + 1)
         else if length pairs \<ge> expMaxAttributes then (pairs, dropped + 1)
         else (pairs @ [\<lparr>at_Name = fst nv, at_Value = val\<rparr>], dropped))"

definition normalizeExperimentAttributes :: "(gostring \<times> gostring) list \<Rightarrow> expAttribute list \<times> nat" where
  "normalizeExperimentAttributes attributes =
     (if attributes = [] then ([], 0) else fold attribute_step (sort_names attributes) ([], 0))"

definition rcAttributeSignature :: "(gostring \<Rightarrow> gostring) \<Rightarrow> gostring \<Rightarrow> gostring" where
  "rcAttributeSignature sha query = (if query = [] then [] else sha query)"

section \<open>Bodies\<close>

text \<open>Whether \<open>strconv.ParseFloat\<close> finds a JSON number out of the range of a float64, which fails the
  decode.  The exponent's digits stop counting at 10000, as there.\<close>

definition exponent_of :: "gostring \<Rightarrow> int" where
  "exponent_of s =
     (case s of [] \<Rightarrow> 0
      | _ # t \<Rightarrow>
          (let neg = (t \<noteq> [] \<and> hd t = CHR ''-''); ds = (if t \<noteq> [] \<and> (hd t = CHR ''-'' \<or> hd t = CHR ''+'') then tl t else t);
               e = foldl (\<lambda>e c. if e < 10000 then e * 10 + int (digit_val c) else e) 0 ds
           in if neg then - e else e))"

definition float_overflows :: "gostring \<Rightarrow> bool" where
  "float_overflows t =
     (let s = (if t \<noteq> [] \<and> hd t = CHR ''-'' then tl t else t);
          whole = takeWhile is_digit s; rest = dropWhile is_digit s;
          (frac, tail) = (if rest \<noteq> [] \<and> hd rest = CHR ''.'' then (takeWhile is_digit (tl rest), dropWhile is_digit (tl rest)) else ([], rest));
          m = int (nat_of_digits (whole @ frac)); e = exponent_of tail - int (length frac);
          bound = (2 :: int) ^ 1024 - 2 ^ 970
      in if e \<ge> 0 then m * 10 ^ nat e \<ge> bound else m \<ge> bound * 10 ^ nat (- e))"

fun floats_ok :: "json \<Rightarrow> bool" where
  "floats_ok (JNum t) = (\<not> float_overflows t)"
| "floats_ok (JArr vs) = list_all floats_ok vs"
| "floats_ok (JObj ms) = list_all (\<lambda>(k, r, v). floats_ok v) ms"
| "floats_ok v = True"

type_synonym members = "(gostring \<times> gostring \<times> json) list"

definition map_value :: "members \<Rightarrow> gostring \<Rightarrow> json option" where
  "map_value ms k = map_of (rev (map (\<lambda>(k, _, v). (k, v)) ms)) k"

definition parseRemoteConfigBody :: "gostring \<Rightarrow> (members \<times> gostring option) option" where
  "parseRemoteConfigBody body =
     (case parse_json body of
        Some (JObj decoded) \<Rightarrow>
          if \<not> floats_ok (JObj decoded) then None
          else (case map_value decoded ''values'' of
              Some (JObj obj) \<Rightarrow>
                Some (obj, (case map_value decoded ''version'' of Some (JNum t) \<Rightarrow> Some t | _ \<Rightarrow> None))
            | _ \<Rightarrow> None)
      | _ \<Rightarrow> None)"

section \<open>Classifying a response\<close>

record RemoteConfigResult =
  FromCache :: bool
  rcr_Reason :: gostring
  Values :: "members option"
  Version :: "gostring option"

definition zero_result :: RemoteConfigResult where
  "zero_result = \<lparr>FromCache = False, rcr_Reason = [], Values = None, Version = None\<rparr>"

record rcCache =
  rc_Scope :: gostring
  rc_ETag :: gostring
  rc_Body :: gostring
  FetchedAtMS :: int
  AttributeSignature :: gostring

record remoteConfigResponse =
  rr_status :: int
  rr_body :: gostring
  rr_bodyIncomplete :: bool
  rr_etag :: gostring
  rr_retryAfterSeconds :: int
  rr_retryAfterPresent :: bool

definition zero_response :: remoteConfigResponse where
  "zero_response = \<lparr>rr_status = 0, rr_body = [], rr_bodyIncomplete = False, rr_etag = [], rr_retryAfterSeconds = 0,
     rr_retryAfterPresent = False\<rparr>"

definition serveRemoteConfigCache :: "rcCache option \<Rightarrow> gostring \<Rightarrow> RemoteConfigResult \<times> gostring" where
  "serveRemoteConfigCache cache reason =
     (case Option.bind cache (\<lambda>c. parseRemoteConfigBody (rc_Body c)) of
        Some (values, version) \<Rightarrow>
          (\<lparr>FromCache = True, rcr_Reason = reason, Values = Some values, Version = version\<rparr>, [])
      | None \<Rightarrow> (zero_result, reason))"

record rc_outcome =
  o_result :: RemoteConfigResult
  o_newCache :: "rcCache option"
  o_authoritative :: bool
  o_revalidated :: "rcCache option"
  o_failure :: gostring

definition served :: "RemoteConfigResult \<times> gostring \<Rightarrow> rc_outcome" where
  "served rf = \<lparr>o_result = fst rf, o_newCache = None, o_authoritative = False, o_revalidated = None, o_failure = snd rf\<rparr>"

definition refused :: "bool \<Rightarrow> gostring \<Rightarrow> rc_outcome" where
  "refused authoritative failure =
     \<lparr>o_result = zero_result, o_newCache = None, o_authoritative = authoritative, o_revalidated = None, o_failure = failure\<rparr>"

definition applyRemoteConfig :: "rcCache option \<Rightarrow> remoteConfigResponse \<Rightarrow> int \<Rightarrow> rc_outcome" where
  "applyRemoteConfig cache resp nowMS =
     (let status = rr_status resp; code = experimentBodyErrorCode (rr_body resp) (rr_bodyIncomplete resp)
      in if status \<ge> 200 \<and> status < 300 then
           (case (if \<not> rr_bodyIncomplete resp \<and> length (rr_body resp) \<le> rcMaxBodyBytes then parseRemoteConfigBody (rr_body resp) else None) of
              Some (values, version) \<Rightarrow>
                \<lparr>o_result = \<lparr>FromCache = False, rcr_Reason = [], Values = Some values, Version = version\<rparr>,
                 o_newCache = Some \<lparr>rc_Scope = [], rc_ETag = rr_etag resp, rc_Body = rr_body resp, FetchedAtMS = nowMS, AttributeSignature = []\<rparr>,
                 o_authoritative = True, o_revalidated = None, o_failure = []\<rparr>
            | None \<Rightarrow> served (serveRemoteConfigCache cache ''malformed_response''))
         else if status = 304 \<and> cache \<noteq> None then
           (case parseRemoteConfigBody (rc_Body (the cache)) of
              Some (values, version) \<Rightarrow>
                \<lparr>o_result = \<lparr>FromCache = True, rcr_Reason = [], Values = Some values, Version = version\<rparr>,
                 o_newCache = None, o_authoritative = True,
                 o_revalidated = Some \<lparr>rc_Scope = [], rc_ETag = rc_ETag (the cache), rc_Body = rc_Body (the cache), FetchedAtMS = nowMS,
                   AttributeSignature = []\<rparr>,
                 o_failure = []\<rparr>
            | None \<Rightarrow> refused False ''cache_unreadable_after_304'')
         else if status = 401 \<or> status = 403 then
           (if status = 403 \<and> code = ''runtime_disabled'' then refused True ''runtime_disabled'' else refused True ''unauthorized'')
         else if status = 404 \<and> code = ''remote_config_not_published'' then refused True ''remote_config_not_published''
         else if status = 0 then served (serveRemoteConfigCache cache ''http_0'')
         else if status = 408 then served (serveRemoteConfigCache cache ''transient_408'')
         else if status = 429 then served (serveRemoteConfigCache cache ''transient_429'')
         else if status \<ge> 500 then served (serveRemoteConfigCache cache (''transient_'' @ show_int status))
         else refused True (''http_'' @ show_int status))"

end
