(* ===== verification/Private_File.thy ===== *)
theory Private_File
  imports Spool_Disk
begin

text \<open>
  One private state file of the client, replaced as a whole by \<open>writePrivateFileAtomic\<close>
  (\<open>remote_config.go\<close>): the durable remote-config cache, the consent record and the consent outbox are
  each one.  A call takes its outcome from the front of an explicit list, as in \<open>Spool_Disk\<close>; a write
  that reports a failure may have landed.

  The locale \<open>atomic_file\<close> states what the components rely on, and what follows for any codec; the model's
  file is an instance of it.
\<close>

record private_file =
  pf_data :: "gostring option"
  pf_outcomes :: "fs_outcome list"

datatype file_read = Absent | Unreadable | Content gostring

definition pf_next :: "private_file \<Rightarrow> fs_outcome \<times> private_file" where
  "pf_next f = (case pf_outcomes f of [] \<Rightarrow> (FsOk, f) | x # xs \<Rightarrow> (x, f\<lparr>pf_outcomes := xs\<rparr>))"

definition pf_write :: "gostring \<Rightarrow> private_file \<Rightarrow> bool \<times> private_file" where
  "pf_write payload f =
     (let (x, f) = pf_next f in (x = FsOk, if landed x then f\<lparr>pf_data := Some payload\<rparr> else f))"

definition pf_read :: "private_file \<Rightarrow> file_read \<times> private_file" where
  "pf_read f =
     (let (x, f) = pf_next f
      in (if x \<noteq> FsOk then Unreadable else case pf_data f of None \<Rightarrow> Absent | Some data \<Rightarrow> Content data, f))"

definition good_file :: "private_file \<Rightarrow> bool" where "good_file f \<longleftrightarrow> pf_outcomes f = []"

section \<open>The contract of an atomically replaced file\<close>

locale atomic_file =
  fixes put :: "gostring \<Rightarrow> 'f \<Rightarrow> bool \<times> 'f"
    and get :: "'f \<Rightarrow> file_read \<times> 'f"
    and holds :: "'f \<Rightarrow> gostring option"
  assumes write_ok: "put t f = (True, f') \<Longrightarrow> holds f' = Some t"
    and write_either: "put t f = (ok, f') \<Longrightarrow> holds f' = holds f \<or> holds f' = Some t"
    and read_same: "get f = (r, f') \<Longrightarrow> holds f' = holds f"
    and read_content: "get f = (Content d, f') \<Longrightarrow> holds f = Some d"
    and read_absent: "get f = (Absent, f') \<Longrightarrow> holds f = None"
begin

text \<open>What was written is what the next read that succeeds finds, so a value stored through a codec that reads
  its own text back is found again; a read after a failed write finds the old text or the new one, never a
  mixture.\<close>

lemma written_then_read:
  assumes "put t f = (True, f1)" "get f1 = (r, f2)"
  shows "r = Unreadable \<or> r = Content t"
  using write_ok [OF assms(1)] read_content [of f1 _ f2] read_absent [of f1 f2] assms(2) by (cases r) auto

lemma stored_then_read:
  assumes "put (render x) f = (True, f1)" "get f1 = (r, f2)" "parse (render x) = Some x"
  shows "r = Unreadable \<or> (\<exists>d. r = Content d \<and> parse d = Some x)"
  using written_then_read [OF assms(1,2)] assms(3) by blast

lemma failed_then_read:
  assumes "put t f = (ok, f1)" "get f1 = (Content d, f2)"
  shows "d = t \<or> holds f = Some d"
  using write_either [OF assms(1)] read_content [OF assms(2)] by auto

end

interpretation pf: atomic_file pf_write pf_read pf_data
  by unfold_locales
     (auto simp: pf_write_def pf_read_def pf_next_def landed_def split: list.splits if_splits option.splits prod.splits)

text \<open>On a good disk every call succeeds.\<close>

lemma good_write: "good_file f \<Longrightarrow> pf_write t f = (True, f\<lparr>pf_data := Some t\<rparr>)"
  by (simp add: good_file_def pf_write_def pf_next_def landed_def)

lemma good_read: "good_file f \<Longrightarrow> pf_read f = (case pf_data f of None \<Rightarrow> Absent | Some d \<Rightarrow> Content d, f)"
  by (simp add: good_file_def pf_read_def pf_next_def)

end
