(* ===== verification/Remote_Config_State.thy ===== *)
theory Remote_Config_State
  imports Remote_Config Private_File Json_Strings
begin

text \<open>
  The state of the remote configuration (\<open>remoteConfigState\<close>), its durable cache, and a fetch: the section
  that takes a sequence number and reads the caches (\<open>fetch_begin\<close>), the one that chooses what to ask for
  or serves a cooldown (\<open>fetch_request\<close>), and the one that settles the response (\<open>fetch_settle\<close>).
  Between them the lock is free and other fetches may run.  Whether consent is granted is read where the
  code reads it and is an argument.
\<close>

section \<open>The cache file\<close>

type_synonym cache_file = private_file

definition cf_read :: "cache_file \<Rightarrow> gostring option \<times> cache_file" where
  "cf_read f = (let (r, f) = pf_read f in (case r of Content data \<Rightarrow> Some data | _ \<Rightarrow> None, f))"

text \<open>\<open>json.Encoder\<close> without HTML escaping.\<close>

definition escape_byte_raw :: "char \<Rightarrow> gostring" where
  "escape_byte_raw c = (if c = CHR ''<'' \<or> c = CHR ''>'' \<or> c = CHR ''&'' then [c] else escape_byte c)"

definition enc_string_raw :: "gostring \<Rightarrow> gostring" where
  "enc_string_raw s = [quote] @ escape_with escape_byte_raw (length s) s @ [quote]"

definition marshalRCCache :: "rcCache \<Rightarrow> gostring" where
  "marshalRCCache r =
     enc_object [(''scope'', enc_string_raw (rc_Scope r)), (''etag'', enc_string_raw (rc_ETag r)),
       (''body'', enc_string_raw (rc_Body r)), (''fetched_at_ms'', show_int (FetchedAtMS r))] @ [CHR 0x0A]"

definition zero_cache :: rcCache where
  "zero_cache = \<lparr>rc_Scope = [], rc_ETag = [], rc_Body = [], FetchedAtMS = 0, AttributeSignature = []\<rparr>"

definition unmarshal_cache :: "gostring \<Rightarrow> rcCache option" where
  "unmarshal_cache data =
     (case parse_json data of
        Some JNull \<Rightarrow> Some zero_cache
      | Some (JObj ms) \<Rightarrow> do {
          s \<leftarrow> dstring ''scope'' ms; e \<leftarrow> dstring ''etag'' ms; b \<leftarrow> dstring ''body'' ms;
          t \<leftarrow> decode_field as_int 0 ''fetched_at_ms'' ms;
          Some \<lparr>rc_Scope = s, rc_ETag = e, rc_Body = b, FetchedAtMS = t, AttributeSignature = []\<rparr> }
      | _ \<Rightarrow> None)"

section \<open>The state\<close>

record rcRetryWindow =
  until :: nanos
  rw_reason :: gostring

record rcState =
  rs_fetchURL :: gostring
  rs_apiKey :: gostring
  rs_cachePath :: gostring
  rs_clientID :: gostring
  rs_headerIdentity :: gostring
  rs_scope :: gostring
  rs_anonymousScope :: gostring
  rs_attributes :: "(gostring \<times> gostring) list"
  rs_held :: "rcCache option"
  rs_snapshot :: "members option"
  rs_version :: "gostring option"
  rs_fetchSeq :: u64
  rs_settled :: "gostring \<Rightarrow> u64"
  rs_retryWindows :: "gostring \<Rightarrow> rcRetryWindow option"
  rs_closedScopes :: "gostring \<Rightarrow> gostring"
  rs_cleared :: "gostring \<Rightarrow> rcCache option option"
  rs_file :: cache_file

definition newRemoteConfigState :: "gostring \<Rightarrow> gostring \<Rightarrow> gostring \<Rightarrow> gostring \<Rightarrow> gostring \<Rightarrow> gostring \<Rightarrow> cache_file \<Rightarrow> rcState" where
  "newRemoteConfigState appURL workspace environment key cachePath anonymousID disk =
     (let anonymousScope = buildRemoteConfigScope workspace environment [] appURL;
          identity = remoteConfigHeaderIdentity anonymousID
      in \<lparr>rs_fetchURL = buildRemoteConfigURL appURL workspace environment, rs_apiKey = key, rs_cachePath = cachePath,
          rs_clientID = anonymousID, rs_headerIdentity = identity,
          rs_scope = (if identity \<noteq> [] then buildRemoteConfigScope workspace environment anonymousID appURL else anonymousScope),
          rs_anonymousScope = anonymousScope, rs_attributes = [], rs_held = None, rs_snapshot = None, rs_version = None,
          rs_fetchSeq = 0, rs_settled = (\<lambda>_. 0), rs_retryWindows = (\<lambda>_. None), rs_closedScopes = (\<lambda>_. []),
          rs_cleared = (\<lambda>_. None), rs_file = disk\<rparr>)"

section \<open>The durable cache\<close>

definition rcCacheReadLimit :: int where "rcCacheReadLimit = 2 * 1048576 + 64 * 1024"

definition durableRecord :: "gostring \<Rightarrow> rcState \<Rightarrow> rcCache option \<times> rcState" where
  "durableRecord scope s =
     (if rs_cachePath s = [] then (None, s)
      else let (data, f) = cf_read (rs_file s); s = s\<lparr>rs_file := f\<rparr>
        in (case data of
              None \<Rightarrow> None
            | Some data \<Rightarrow>
                if int (length data) > rcCacheReadLimit then None
                else case unmarshal_cache data of
                  None \<Rightarrow> None
                | Some r \<Rightarrow> if rc_Scope r \<noteq> scope then None
                            else if parseRemoteConfigBody (rc_Body r) = None then None else Some r, s))"

definition loadCacheLocked :: "gostring \<Rightarrow> rcState \<Rightarrow> rcCache option \<times> rcState" where
  "loadCacheLocked scope s =
     (if rs_cleared s scope \<noteq> None then (None, s)
      else let held = (case rs_held s of Some h \<Rightarrow> if rc_Scope h = scope then Some h else None | None \<Rightarrow> None);
               (durable, s) = durableRecord scope s
        in (case held of
              Some h \<Rightarrow> if durable = None \<or> FetchedAtMS (the durable) \<le> FetchedAtMS h then Some h else durable
            | None \<Rightarrow> durable, s))"

definition saveDurable :: "rcCache \<Rightarrow> rcState \<Rightarrow> bool \<times> rcState" where
  "saveDurable record s =
     (let durable = (if AttributeSignature record \<noteq> [] then record\<lparr>rc_ETag := []\<rparr> else record);
          (ok, f) = pf_write (marshalRCCache durable) (rs_file s)
      in (ok, s\<lparr>rs_file := f\<rparr>))"

definition tombstoneDurable :: "rcState \<Rightarrow> bool \<times> rcState" where
  "tombstoneDurable s = (let (ok, f) = pf_write ''{}'' (rs_file s) in (ok, s\<lparr>rs_file := f\<rparr>))"

definition clearPublicationLocked :: "gostring \<Rightarrow> rcCache option \<Rightarrow> rcState \<Rightarrow> bool \<times> rcState" where
  "clearPublicationLocked scope srv s =
     (let (durable, s) = durableRecord scope s;
          s = (case rs_held s of Some h \<Rightarrow> if rc_Scope h = scope then s\<lparr>rs_held := None\<rparr> else s | None \<Rightarrow> s);
          srv = (if srv = None then (case rs_cleared s scope of Some c \<Rightarrow> c | None \<Rightarrow> None) else srv);
          s = s\<lparr>rs_cleared := (rs_cleared s)(scope \<mapsto> srv)\<rparr>
      in if durable \<noteq> None \<and> srv \<noteq> None \<and> FetchedAtMS (the durable) \<le> FetchedAtMS (the srv)
         then (let (ok, s) = tombstoneDurable s in (\<not> ok, s)) else (False, s))"

definition preload :: "bool \<Rightarrow> rcState \<Rightarrow> rcState" where
  "preload granted s =
     (if rs_clientID s = [] \<or> rs_cachePath s = [] then s
      else let (record, s) = durableRecord (if granted then rs_scope s else rs_anonymousScope s) s
        in case record of
             None \<Rightarrow> s
           | Some r \<Rightarrow>
               (case parseRemoteConfigBody (rc_Body r) of
                  None \<Rightarrow> s
                | Some (values, version) \<Rightarrow> s\<lparr>rs_held := Some r, rs_snapshot := Some values, rs_version := version\<rparr>))"

section \<open>Settling\<close>

definition stamp_of :: "rcCache option \<Rightarrow> int" where
  "stamp_of c = (case c of None \<Rightarrow> 0 | Some r \<Rightarrow> FetchedAtMS r)"

definition raiseStampAboveSuperseded :: "rcCache \<Rightarrow> rcCache option \<Rightarrow> rcCache option \<Rightarrow> rcCache option \<Rightarrow> rcCache" where
  "raiseStampAboveSuperseded record srv held durable =
     (let floor = 0;
          floor = (if srv \<noteq> None \<and> FetchedAtMS (the srv) > floor then FetchedAtMS (the srv) else floor);
          floor = (if held \<noteq> None \<and> rc_Scope (the held) = rc_Scope record \<and> FetchedAtMS (the held) > floor then FetchedAtMS (the held) else floor);
          floor = (if durable \<noteq> None \<and> FetchedAtMS (the durable) > floor then FetchedAtMS (the durable) else floor)
      in if FetchedAtMS record \<le> floor then record\<lparr>FetchedAtMS := wrap64 (floor + 1)\<rparr> else record)"

definition install_snapshot :: "RemoteConfigResult \<Rightarrow> rcState \<Rightarrow> rcState" where
  "install_snapshot result s = s\<lparr>rs_snapshot := Values result, rs_version := Version result\<rparr>"

text \<open>Writing an installed record: a write that fails deletes an older record that would contradict it.\<close>

definition persist_record :: "gostring \<Rightarrow> rcCache \<Rightarrow> rcCache option \<Rightarrow> bool \<Rightarrow> rcState \<Rightarrow> bool \<times> rcState" where
  "persist_record scope r srv fresh s =
     (if rs_cachePath s \<noteq> [] then
        (let (saved, s) = saveDurable r s
         in if saved then (False, s)
            else let (durable, s) = durableRecord scope s
              in if durable \<noteq> None \<and> srv \<noteq> None \<and> FetchedAtMS (the durable) \<le> FetchedAtMS (the srv) \<and>
                    (fresh \<or> rc_Body (the durable) \<noteq> rc_Body r)
                 then (True, snd (tombstoneDurable s)) else (True, s))
      else (False, s))"

definition installLocked :: "u64 \<Rightarrow> gostring \<Rightarrow> RemoteConfigResult \<Rightarrow> bool \<Rightarrow> rcCache option \<Rightarrow> bool \<Rightarrow> rcCache option \<Rightarrow> rcCache option
    \<Rightarrow> rcState \<Rightarrow> bool \<times> rcState" where
  "installLocked seq scope result ok newCache authoritative srv revalidated s =
     (if seq \<le> rs_settled s scope then (False, s)
      else
        let s = (if authoritative then s\<lparr>rs_settled := (rs_settled s)(scope := seq)\<rparr> else s)
        in if \<not> ok then (False, if authoritative then s\<lparr>rs_snapshot := None, rs_version := None\<rparr> else s)
           else
             let record = (if newCache = None then revalidated else newCache);
                 (durable, s) = (if record \<noteq> None then durableRecord scope s else (None, s));
                 srv = (if srv = None then (case rs_cleared s scope of Some c \<Rightarrow> c | None \<Rightarrow> None) else srv)
             in if record \<noteq> None \<and> durable \<noteq> None \<and> rc_Body (the durable) \<noteq> rc_Body (the record) \<and>
                   (srv = None \<or> FetchedAtMS (the durable) > FetchedAtMS (the srv))
                then (False, s)
                else case record of
                  Some r \<Rightarrow>
                    (let s = s\<lparr>rs_closedScopes := (rs_closedScopes s)(scope := []), rs_cleared := (rs_cleared s)(scope := None)\<rparr>;
                         r = raiseStampAboveSuperseded (r\<lparr>rc_Scope := scope\<rparr>) srv (rs_held s) durable;
                         s = s\<lparr>rs_held := Some r\<rparr>;
                         (persistFailed, s) = persist_record scope r srv (newCache \<noteq> None) s
                     in (persistFailed, install_snapshot result s))
                | None \<Rightarrow>
                    if srv \<noteq> None \<and> (rs_held s = None \<or> rc_Scope (the (rs_held s)) \<noteq> scope \<or> FetchedAtMS (the srv) > FetchedAtMS (the (rs_held s)))
                    then (False, install_snapshot result (s\<lparr>rs_held := srv\<rparr>))
                    else (False, s))"

definition armCooldownLocked :: "gostring \<Rightarrow> gostring \<Rightarrow> nanos \<Rightarrow> remoteConfigResponse \<Rightarrow> rcState \<Rightarrow> rcState" where
  "armCooldownLocked scope reason now resp s =
     (let seconds = rr_retryAfterSeconds resp
      in if \<not> rr_retryAfterPresent resp \<or> seconds \<le> 0 \<or> (rr_status resp \<noteq> 429 \<and> rr_status resp < 500) then s
         else let seconds = (if seconds > rcCooldownClampSeconds then rcCooldownClampSeconds else seconds);
                  deadline = now + seconds * Second
           in if (case rs_retryWindows s scope of None \<Rightarrow> True | Some w \<Rightarrow> deadline > until w)
              then s\<lparr>rs_retryWindows := (rs_retryWindows s)(scope \<mapsto> \<lparr>until = deadline, rw_reason = reason\<rparr>)\<rparr> else s)"

definition currentRemoteConfigScope :: "bool \<Rightarrow> rcState \<Rightarrow> gostring" where
  "currentRemoteConfigScope granted s = (if granted then rs_scope s else rs_anonymousScope s)"

definition settleRemoteConfigLocked :: "bool \<Rightarrow> u64 \<Rightarrow> gostring \<Rightarrow> rc_outcome \<Rightarrow> rcCache option \<Rightarrow> remoteConfigResponse \<Rightarrow> nanos \<Rightarrow> rcState
    \<Rightarrow> (RemoteConfigResult \<times> gostring \<times> bool) \<times> rcState" where
  "settleRemoteConfigLocked granted seq scope out srv resp now s =
     (let failure = o_failure out; result = o_result out;
          (persistFailed, s) =
            (if scope = currentRemoteConfigScope granted s \<and> seq > rs_settled s scope then
               (let (pf, s) =
                      (if o_authoritative out \<and> failure \<noteq> [] then
                         (let s = s\<lparr>rs_closedScopes := (rs_closedScopes s)(scope := failure)\<rparr>
                          in if failure = ''remote_config_not_published'' then clearPublicationLocked scope srv s else (False, s))
                       else (False, s));
                    s = armCooldownLocked scope (if failure = [] then rcr_Reason result else failure) now resp s
                in if rs_closedScopes s scope = [] \<or> o_authoritative out then
                     (let (pf2, s) = installLocked seq scope result (failure = []) (o_newCache out) (o_authoritative out) srv (o_revalidated out) s
                      in (pf2 \<or> pf, s))
                   else (pf, s))
             else (False, s))
      in if rs_closedScopes s scope \<noteq> []
         then ((zero_result, if failure = [] then rs_closedScopes s scope else failure, persistFailed), s)
         else ((result, failure, persistFailed), s))"

section \<open>Fetching\<close>

definition SetRemoteConfigAttributes :: "bool \<Rightarrow> (gostring \<times> gostring) list \<Rightarrow> rcState \<Rightarrow> rcState" where
  "SetRemoteConfigAttributes enabled attributes s = (if \<not> enabled then s else s\<lparr>rs_attributes := attributes\<rparr>)"

record fetch_prep =
  fp_seq :: u64
  fp_identified :: "rcCache option"
  fp_anonymous :: "rcCache option"
  fp_attributes :: "(gostring \<times> gostring) list"

definition fetch_begin :: "bool \<Rightarrow> rcState \<Rightarrow> fetch_prep option \<times> rcState" where
  "fetch_begin attributesEnabled s =
     (if rs_clientID s = [] then (None, s)
      else let s = s\<lparr>rs_fetchSeq := rs_fetchSeq s + 1\<rparr>; seq = rs_fetchSeq s;
               (identified, s) = loadCacheLocked (rs_scope s) s;
               (anonymous, s) = loadCacheLocked (rs_anonymousScope s) s
        in (Some \<lparr>fp_seq = seq, fp_identified = identified, fp_anonymous = anonymous,
                  fp_attributes = (if attributesEnabled then rs_attributes s else [])\<rparr>, s))"

record fetch_plan =
  pl_url :: gostring
  pl_identity :: gostring
  pl_etag :: gostring
  pl_scope :: gostring
  pl_cache :: "rcCache option"
  pl_signature :: gostring

text \<open>The request a fetch makes.  An ETag is sent only for the body it was received with: an attributed
  body's tag only with the same attributes, a baseline body's only without.\<close>

definition fetch_plan_of :: "(gostring \<Rightarrow> gostring) \<Rightarrow> bool \<Rightarrow> bool \<Rightarrow> fetch_prep \<Rightarrow> rcState \<Rightarrow> fetch_plan" where
  "fetch_plan_of sha granted gateArmed p s =
     (let etag = (case fp_identified p of None \<Rightarrow> [] | Some c \<Rightarrow> rc_ETag c);
          cacheSignature = (case fp_identified p of None \<Rightarrow> [] | Some c \<Rightarrow> AttributeSignature c);
          pairs = fst (normalizeExperimentAttributes (fp_attributes p));
          attributedURL = (if pairs = [] then [] else appendRemoteConfigAttributes (rs_fetchURL s) pairs);
          attributedSignature = (if pairs = [] then [] else rcAttributeSignature sha (trim_prefix (rs_fetchURL s) attributedURL));
          baselineEtag = (if fp_identified p \<noteq> None \<and> cacheSignature \<noteq> [] then [] else etag);
          attributedEtag = (if fp_identified p \<noteq> None \<and> cacheSignature \<noteq> attributedSignature then [] else etag);
          attributesAllowed = (attributedURL \<noteq> [] \<and> \<not> gateArmed)
      in if granted \<and> rs_headerIdentity s \<noteq> [] then
           \<lparr>pl_url = (if attributesAllowed then attributedURL else rs_fetchURL s), pl_identity = rs_headerIdentity s,
            pl_etag = (if attributesAllowed then attributedEtag else baselineEtag), pl_scope = rs_scope s,
            pl_cache = fp_identified p, pl_signature = (if attributesAllowed then attributedSignature else [])\<rparr>
         else
           \<lparr>pl_url = rs_fetchURL s, pl_identity = [],
            pl_etag = (case fp_anonymous p of Some c \<Rightarrow> if AttributeSignature c = [] then rc_ETag c else [] | None \<Rightarrow> []),
            pl_scope = rs_anonymousScope s, pl_cache = fp_anonymous p, pl_signature = []\<rparr>)"

datatype fetch_next = AskServer fetch_plan | CallerEnded | Served "RemoteConfigResult \<times> gostring"

definition fetch_request :: "(gostring \<Rightarrow> gostring) \<Rightarrow> bool \<Rightarrow> bool \<Rightarrow> bool \<Rightarrow> nanos \<Rightarrow> fetch_prep \<Rightarrow> rcState \<Rightarrow> fetch_next \<times> rcState" where
  "fetch_request sha granted gateArmed callerEnded now p s =
     (let plan = fetch_plan_of sha granted gateArmed p s
      in case rs_retryWindows s (pl_scope plan) of
           Some w \<Rightarrow>
             if now < until w then
               (if callerEnded then (CallerEnded, s)
                else let ((result, failure, _), s) =
                       settleRemoteConfigLocked granted (fp_seq p) (pl_scope plan) (served (serveRemoteConfigCache (pl_cache plan) (rw_reason w)))
                         (pl_cache plan) zero_response now s
                  in (Served (result, failure), s))
             else (AskServer plan, s)
         | None \<Rightarrow> (AskServer plan, s))"

definition sign_cache :: "gostring \<Rightarrow> rcCache option \<Rightarrow> rcCache option" where
  "sign_cache sig c = map_option (\<lambda>c. c\<lparr>AttributeSignature := sig\<rparr>) c"

text \<open>What the transport returned: a response, or an error with the response read so far and whether it
  is the caller's own context that ended.\<close>

datatype fetch_reply = Reply remoteConfigResponse | ReplyError bool remoteConfigResponse

text \<open>The classified response, its stored record marked with the attributes it was asked with.\<close>

definition fetch_outcome :: "fetch_plan \<Rightarrow> remoteConfigResponse \<Rightarrow> nanos \<Rightarrow> rc_outcome" where
  "fetch_outcome plan resp now =
     (let out = applyRemoteConfig (pl_cache plan) resp (unix_milli now)
      in out\<lparr>o_newCache := sign_cache (pl_signature plan) (o_newCache out),
             o_revalidated := sign_cache (pl_signature plan) (o_revalidated out)\<rparr>)"

definition fetch_settle :: "bool \<Rightarrow> fetch_prep \<Rightarrow> fetch_plan \<Rightarrow> fetch_reply \<Rightarrow> nanos \<Rightarrow> rcState
    \<Rightarrow> (RemoteConfigResult \<times> gostring \<times> bool) option \<times> rcState" where
  "fetch_settle granted p plan reply now s =
     (let settle = (\<lambda>resp.
            let (r, s) = settleRemoteConfigLocked granted (fp_seq p) (pl_scope plan) (fetch_outcome plan resp now) (pl_cache plan) resp now s
            in (Some r, s))
      in case reply of
           Reply resp \<Rightarrow> settle resp
         | ReplyError callerEnded resp \<Rightarrow>
             if callerEnded then (None, s)
             else settle (if rr_status resp = 0 then zero_response else resp))"

section \<open>Reading the configuration\<close>

definition remoteConfigLookup :: "bool \<Rightarrow> gostring \<Rightarrow> rcState \<Rightarrow> json option" where
  "remoteConfigLookup granted key s =
     (if key = [] then None
      else if rs_snapshot s = None \<or> rs_closedScopes s (currentRemoteConfigScope granted s) \<noteq> [] then None
      else map_value (the (rs_snapshot s)) key)"

definition RemoteConfigValue :: "bool \<Rightarrow> gostring \<Rightarrow> rcState \<Rightarrow> json option" where
  "RemoteConfigValue granted key s = remoteConfigLookup granted key s"

definition RemoteConfigString :: "bool \<Rightarrow> gostring \<Rightarrow> gostring \<Rightarrow> rcState \<Rightarrow> gostring" where
  "RemoteConfigString granted key def s = (case remoteConfigLookup granted key s of Some (JStr t) \<Rightarrow> t | _ \<Rightarrow> def)"

definition RemoteConfigNumber :: "bool \<Rightarrow> gostring \<Rightarrow> gostring \<Rightarrow> rcState \<Rightarrow> gostring" where
  "RemoteConfigNumber granted key def s = (case remoteConfigLookup granted key s of Some (JNum t) \<Rightarrow> t | _ \<Rightarrow> def)"

definition RemoteConfigBool :: "bool \<Rightarrow> gostring \<Rightarrow> bool \<Rightarrow> rcState \<Rightarrow> bool" where
  "RemoteConfigBool granted key def s = (case remoteConfigLookup granted key s of Some (JBool b) \<Rightarrow> b | _ \<Rightarrow> def)"

definition RemoteConfigValues :: "bool \<Rightarrow> rcState \<Rightarrow> members option" where
  "RemoteConfigValues granted s =
     (if rs_closedScopes s (currentRemoteConfigScope granted s) \<noteq> [] then None else rs_snapshot s)"

definition RemoteConfigVersion :: "bool \<Rightarrow> rcState \<Rightarrow> gostring option" where
  "RemoteConfigVersion granted s =
     (if rs_closedScopes s (currentRemoteConfigScope granted s) \<noteq> [] then None else rs_version s)"

end
