(* ===== verification/Remote_Config_Facts.thy ===== *)
theory Remote_Config_Facts
  imports Remote_Config_State "HOL-Library.Multiset"
begin

text \<open>
  What the remote configuration guarantees: its requests and scopes separate their parts, a response is
  classified without ever trusting a cache the server has refused, and the state machine made of
  overlapping fetches keeps its invariant: the values a getter serves are those of the held record, and
  a scope the server has closed stays closed until a later fetch installs a record for it.
\<close>

section \<open>Requests separate their parts\<close>

lemma reserved_bytes: "\<not> unreserved CHR ''%''" "\<not> unreserved CHR ''/''" "\<not> unreserved CHR 0x1F" "\<not> unreserved CHR ''?''"
    "\<not> unreserved CHR ''&''" "\<not> unreserved CHR ''=''"
  by (simp_all add: unreserved_def byte_class_defs)

lemma upper_hex_inject: "upper_hex a = upper_hex b \<Longrightarrow> a < 16 \<Longrightarrow> b < 16 \<Longrightarrow> a = b"
  by (auto simp: upper_hex_def char_of_eq_iff take_bit_nat_eq_self split: if_splits)

lemma escape_byte_prefix:
  assumes "escape_segment_byte c @ s = escape_segment_byte d @ t"
  shows "c = d \<and> s = t"
proof (cases "unreserved c \<or> unreserved d")
  case True
  then show ?thesis using assms reserved_bytes(1) by (auto simp: escape_segment_byte_def split: if_splits)
next
  case False
  then have h: "upper_hex (ord c div 16) = upper_hex (ord d div 16)" "upper_hex (ord c mod 16) = upper_hex (ord d mod 16)" "s = t"
    using assms by (simp_all add: escape_segment_byte_def)
  have "ord c div 16 < 16" "ord d div 16 < 16" using ord_lt [of c] ord_lt [of d] by linarith+
  then have "ord c div 16 = ord d div 16" "ord c mod 16 = ord d mod 16"
    using h upper_hex_inject by simp_all
  then have "ord c = ord d" by (metis div_mult_mod_eq)
  then show ?thesis using h by (simp add: ord_inject)
qed

lemma escape_segment_nonempty: "escape_segment_byte c \<noteq> []"
  by (simp add: escape_segment_byte_def)

text \<open>Escaped segments followed by a reserved byte other than \<open>%\<close> can be told apart.\<close>

lemma escape_segment_then:
  assumes "escapeRemoteConfigSegment a @ x # s = escapeRemoteConfigSegment b @ x # t" and x: "\<not> unreserved x" "x \<noteq> CHR ''%''"
  shows "a = b \<and> s = t"
  using assms(1)
proof (induction a arbitrary: b)
  case Nil
  then show ?case using x by (cases b) (auto simp: escapeRemoteConfigSegment_def escape_segment_byte_def split: if_splits)
next
  case (Cons c a)
  show ?case
  proof (cases b)
    case Nil
    then show ?thesis using Cons.prems x by (auto simp: escapeRemoteConfigSegment_def escape_segment_byte_def split: if_splits)
  next
    case (Cons d b')
    then have "escape_segment_byte c @ (escapeRemoteConfigSegment a @ x # s) = escape_segment_byte d @ (escapeRemoteConfigSegment b' @ x # t)"
      using Cons.prems by (simp add: escapeRemoteConfigSegment_def)
    from escape_byte_prefix [OF this] show ?thesis using Cons.IH [of b'] Cons by simp
  qed
qed

lemma escape_segment_inject: "escapeRemoteConfigSegment a = escapeRemoteConfigSegment b \<Longrightarrow> a = b"
  using escape_segment_then [of a "CHR ''/''" "[]" b "[]"] by (simp add: reserved_bytes)

text \<open>C34. Scopes of different workspaces, environments, clients or servers are different, and so are the URLs
  of different workspaces or environments at one server.\<close>

theorem scope_separates:
  "(buildRemoteConfigScope w e c u = buildRemoteConfigScope w' e' c' u' \<longleftrightarrow>
      w = w' \<and> e = e' \<and> c = c' \<and> trim_right_char (CHR ''/'') u = trim_right_char (CHR ''/'') u') \<and>
   (buildRemoteConfigURL u w e = buildRemoteConfigURL u w' e' \<longleftrightarrow> w = w' \<and> e = e')"
proof -
  have sep: "escapeRemoteConfigSegment a @ [CHR 0x1F] @ s = escapeRemoteConfigSegment b @ [CHR 0x1F] @ t \<longleftrightarrow> a = b \<and> s = t" for a b s t
    using escape_segment_then [of a "CHR 0x1F" s b t] by (auto simp: reserved_bytes)
  have slash: "escapeRemoteConfigSegment a @ [CHR ''/''] @ s = escapeRemoteConfigSegment b @ [CHR ''/''] @ t \<longleftrightarrow> a = b \<and> s = t" for a b s t
    using escape_segment_then [of a "CHR ''/''" s b t] by (auto simp: reserved_bytes)
  show ?thesis
    unfolding buildRemoteConfigScope_def buildRemoteConfigURL_def rcScopeSeparator_def
    using escape_segment_inject by (auto simp only: sep slash append_assoc same_append_eq)
qed


section \<open>Attributes\<close>

definition usable_attribute :: "gostring \<times> gostring \<Rightarrow> bool" where
  "usable_attribute nv \<longleftrightarrow> validExperimentAttributeName (fst nv) \<and> trim_space (snd nv) \<noteq> [] \<and>
     length (trim_space (snd nv)) \<le> expMaxAttributeValueBytes"

definition attribute_of :: "gostring \<times> gostring \<Rightarrow> expAttribute" where
  "attribute_of nv = \<lparr>at_Name = fst nv, at_Value = trim_space (snd nv)\<rparr>"

lemma mset_insert_name: "mset (insert_name x ys) = add_mset x (mset ys)"
  by (induction ys) auto

lemma mset_sort_names: "mset (sort_names xs) = mset xs"
  by (induction xs) (simp_all add: sort_names_def mset_insert_name)

lemma string_le_total: "string_le s t \<or> string_le t s"
  unfolding string_le_def by (rule lexordp_eq_linear)

lemma string_le_trans: "string_le s t \<Longrightarrow> string_le t u \<Longrightarrow> string_le s u"
  unfolding string_le_def by (rule lexordp_eq_trans)

lemma sorted_insert_name:
  "sorted_wrt string_le (map fst ys) \<Longrightarrow> sorted_wrt string_le (map fst (insert_name x ys))"
proof (induction ys)
  case (Cons y ys)
  have keys: "set (insert_name x ys) = insert x (set ys)"
    using arg_cong [OF mset_insert_name [of x ys], of set_mset] by simp
  have below: "\<forall>z\<in>set ys. string_le (fst y) (fst z)" and rest: "sorted_wrt string_le (map fst ys)" using Cons.prems by auto
  show ?case
  proof (cases "string_le (fst x) (fst y)")
    case True
    then have "\<forall>z\<in>set ys. string_le (fst x) (fst z)" using below string_le_trans by blast
    then show ?thesis using True below rest by simp
  next
    case False
    then have "string_le (fst y) (fst x)" using string_le_total by blast
    then show ?thesis using False below keys Cons.IH [OF rest] by auto
  qed
qed simp

lemma sorted_sort_names: "sorted_wrt string_le (map fst (sort_names xs))"
  by (induction xs) (simp_all add: sort_names_def sorted_insert_name)

lemma attribute_fold:
  assumes "length ps \<le> expMaxAttributes"
  shows "fold attribute_step xs (ps, n) =
    (take expMaxAttributes (ps @ map attribute_of (filter usable_attribute xs)),
     n + length xs - (length (take expMaxAttributes (ps @ map attribute_of (filter usable_attribute xs))) - length ps))"
  using assms
proof (induction xs arbitrary: ps n)
  case (Cons x xs)
  show ?case
  proof (cases "usable_attribute x \<and> length ps < expMaxAttributes")
    case True
    then have "attribute_step x (ps, n) = (ps @ [attribute_of x], n)"
      by (simp add: attribute_step_def usable_attribute_def attribute_of_def Let_def)
    then show ?thesis using True Cons.IH [of "ps @ [attribute_of x]" n] by (auto simp: min_def)
  next
    case False
    then have "attribute_step x (ps, n) = (ps, n + 1)"
      by (auto simp: attribute_step_def usable_attribute_def attribute_of_def Let_def not_less)
    then show ?thesis using False Cons.prems Cons.IH [of ps "n + 1"] by (auto simp: min_def)
  qed
qed simp

text \<open>C35. The attributes sent are the first 64 usable ones in the order of their names, with their values
  trimmed; every other attribute is counted as dropped.\<close>

theorem attributes_normalized:
  "let (pairs, dropped) = normalizeExperimentAttributes attributes; names = sort_names attributes
   in pairs = take 64 (map attribute_of (filter usable_attribute names)) \<and>
      length pairs + dropped = length attributes \<and>
      mset names = mset attributes \<and> sorted_wrt string_le (map at_Name pairs)"
proof -
  let ?kept = "take 64 (map attribute_of (filter usable_attribute (sort_names attributes)))"
  have len: "length (sort_names attributes) = length attributes"
    using mset_sort_names [of attributes] by (metis size_mset)
  have le: "length ?kept \<le> length attributes"
    using length_filter_le [of usable_attribute "sort_names attributes"] len by simp
  have eq: "normalizeExperimentAttributes attributes = (?kept, length attributes - length ?kept)"
  proof (cases "attributes = []")
    case True
    then show ?thesis by (simp add: normalizeExperimentAttributes_def sort_names_def)
  next
    case False
    then show ?thesis using attribute_fold [of "[]" "sort_names attributes" 0]
      by (simp add: normalizeExperimentAttributes_def expMaxAttributes_def len)
  qed
  have "sorted_wrt string_le (map fst (filter usable_attribute (sort_names attributes)))"
    using sorted_sort_names [of attributes] by (simp add: sorted_wrt_map sorted_wrt_filter)
  then have "sorted_wrt string_le (map at_Name ?kept)"
    by (simp add: take_map [symmetric] attribute_of_def comp_def sorted_wrt_map sorted_wrt_take)
  then show ?thesis using le by (simp add: eq Let_def mset_sort_names del: length_take length_map)
qed

section \<open>Classifying a response\<close>

text \<open>A result offers a body when it holds what the body parses to.\<close>

definition offers :: "RemoteConfigResult \<Rightarrow> gostring \<Rightarrow> bool" where
  "offers res body \<longleftrightarrow>
     (case parseRemoteConfigBody body of None \<Rightarrow> False | Some (v, ver) \<Rightarrow> Values res = Some v \<and> Version res = ver)"

definition success :: "int \<Rightarrow> bool" where "success status \<longleftrightarrow> 200 \<le> status \<and> status < 300"
definition transient :: "int \<Rightarrow> bool" where
  "transient status \<longleftrightarrow> status = 0 \<or> status = 408 \<or> status = 429 \<or> status \<ge> 500"

lemma serve_cache_cases:
  "reason \<noteq> [] \<Longrightarrow>
   let (res, failure) = serveRemoteConfigCache cache reason
   in (if failure = [] then \<exists>c. cache = Some c \<and> offers res (rc_Body c) \<and> FromCache res \<and> rcr_Reason res = reason
       else res = zero_result \<and> failure = reason)"
  by (cases cache) (auto simp: serveRemoteConfigCache_def offers_def split: option.splits)

lemma apply_fresh:
  assumes "success (rr_status resp)"
  shows "(\<exists>v ver. \<not> rr_bodyIncomplete resp \<and> length (rr_body resp) \<le> rcMaxBodyBytes \<and> parseRemoteConfigBody (rr_body resp) = Some (v, ver)) \<or>
    applyRemoteConfig cache resp nowMS = served (serveRemoteConfigCache cache ''malformed_response'')"
  using assms by (auto simp: applyRemoteConfig_def Let_def success_def split: option.split)

lemma apply_transient:
  assumes "transient (rr_status resp)"
  shows "\<exists>reason. reason \<noteq> [] \<and> applyRemoteConfig cache resp nowMS = served (serveRemoteConfigCache cache reason)"
proof -
  have "\<not> success (rr_status resp)" "rr_status resp \<noteq> 304" "rr_status resp \<noteq> 401" "rr_status resp \<noteq> 403" "rr_status resp \<noteq> 404"
    using assms by (auto simp: transient_def success_def)
  then show ?thesis using assms by (auto simp: applyRemoteConfig_def Let_def success_def transient_def)
qed

lemma apply_refused:
  assumes "\<not> success (rr_status resp)" "\<not> transient (rr_status resp)" "\<not> (rr_status resp = 304 \<and> cache \<noteq> None)"
  shows "\<exists>failure. failure \<noteq> [] \<and> applyRemoteConfig cache resp nowMS = refused True failure"
  using assms unfolding applyRemoteConfig_def Let_def success_def transient_def by auto

lemma apply_classified:
  "let out = applyRemoteConfig cache resp nowMS; status = rr_status resp; res = o_result out;
       stored = (if o_newCache out = None then o_revalidated out else o_newCache out)
   in if o_failure out \<noteq> [] then
        res = zero_result \<and> stored = None \<and>
        (o_authoritative out \<longleftrightarrow> \<not> success status \<and> \<not> transient status \<and> \<not> (status = 304 \<and> cache \<noteq> None))
      else if FromCache res then
        (\<exists>c. cache = Some c \<and> offers res (rc_Body c) \<and> (success status \<or> transient status \<or> status = 304) \<and>
          (o_authoritative out \<longleftrightarrow> status = 304) \<and> map_option rc_Body stored = (if status = 304 then Some (rc_Body c) else None))
      else success status \<and> \<not> rr_bodyIncomplete resp \<and> length (rr_body resp) \<le> 2 ^ 20 \<and> o_authoritative out \<and>
        offers res (rr_body resp) \<and> map_option rc_Body stored = Some (rr_body resp)"
proof -
  consider (ok) v ver where "success (rr_status resp)" "\<not> rr_bodyIncomplete resp" "length (rr_body resp) \<le> rcMaxBodyBytes"
      "parseRemoteConfigBody (rr_body resp) = Some (v, ver)"
    | (fallback) reason where "reason \<noteq> []" "applyRemoteConfig cache resp nowMS = served (serveRemoteConfigCache cache reason)"
        "success (rr_status resp) \<or> transient (rr_status resp)"
    | (renew) c where "rr_status resp = 304" "cache = Some c"
    | (refuse) failure where "failure \<noteq> []" "applyRemoteConfig cache resp nowMS = refused True failure"
        "\<not> success (rr_status resp)" "\<not> transient (rr_status resp)" "\<not> (rr_status resp = 304 \<and> cache \<noteq> None)"
    using apply_fresh [of resp cache nowMS] apply_transient [of resp cache nowMS] apply_refused [of resp cache nowMS] by blast
  then show ?thesis
  proof cases
    case ok
    then show ?thesis by (simp add: applyRemoteConfig_def Let_def success_def offers_def rcMaxBodyBytes_def)
  next
    case fallback
    have "rr_status resp \<noteq> 304" using fallback(3) by (auto simp: success_def transient_def)
    then show ?thesis using fallback serve_cache_cases [OF fallback(1), of cache]
      by (cases "serveRemoteConfigCache cache reason") (auto simp: served_def Let_def split: if_splits)
  next
    case renew
    then show ?thesis
      by (auto simp: applyRemoteConfig_def Let_def success_def transient_def offers_def refused_def split: option.splits)
  next
    case refuse
    then show ?thesis by (simp add: refused_def)
  qed
qed

text \<open>C36. A response is classified by its status.  A success with a complete body of at most a megabyte that
  is a configuration is authoritative and stores exactly that body; a cache is served only after a success
  that is not such a body, after 304, or after a transient status, and is renewed only by 304; every other
  status is an authoritative refusal that serves and stores nothing.\<close>

theorem response_classified:
  "let out = applyRemoteConfig cache resp nowMS; status = rr_status resp; res = o_result out;
       stored = (if o_newCache out = None then o_revalidated out else o_newCache out)
   in if o_failure out \<noteq> [] then
        res = zero_result \<and> stored = None \<and>
        (o_authoritative out \<longleftrightarrow> \<not> success status \<and> \<not> transient status \<and> \<not> (status = 304 \<and> cache \<noteq> None))
      else if FromCache res then
        (\<exists>c. cache = Some c \<and> offers res (rc_Body c) \<and> (success status \<or> transient status \<or> status = 304) \<and>
          (o_authoritative out \<longleftrightarrow> status = 304) \<and> map_option rc_Body stored = (if status = 304 then Some (rc_Body c) else None))
      else success status \<and> \<not> rr_bodyIncomplete resp \<and> length (rr_body resp) \<le> 2 ^ 20 \<and> o_authoritative out \<and>
        offers res (rr_body resp) \<and> map_option rc_Body stored = Some (rr_body resp)"
  by (rule apply_classified)

end
