(* ===== verification/Remote_Config_Machine.thy ===== *)
theory Remote_Config_Machine
  imports Remote_Config_Facts
begin

text \<open>
  The remote configuration as a state machine: fetches overlap, each begins, asks and settles in its own
  sections, and other processes may rewrite the cache file at any time.  The invariant ties what the
  getters serve to the held record, and withdrawn publications to closed scopes.
\<close>

section \<open>The invariant of the state\<close>

definition readable :: "gostring \<Rightarrow> rcCache \<Rightarrow> bool" where
  "readable scope c \<longleftrightarrow> rc_Scope c = scope \<and> parseRemoteConfigBody (rc_Body c) \<noteq> None"

definition held_inv :: "rcState \<Rightarrow> bool" where
  "held_inv s \<longleftrightarrow> (case rs_held s of None \<Rightarrow> True | Some h \<Rightarrow> readable (rs_scope s) h \<or> readable (rs_anonymousScope s) h)"

definition served_inv :: "rcState \<Rightarrow> bool" where
  "served_inv s \<longleftrightarrow>
     (case rs_snapshot s of
        None \<Rightarrow> rs_version s = None
      | Some v \<Rightarrow> (case rs_held s of None \<Rightarrow> False | Some h \<Rightarrow> parseRemoteConfigBody (rc_Body h) = Some (v, rs_version s)))"

definition cleared_inv :: "rcState \<Rightarrow> bool" where
  "cleared_inv s \<longleftrightarrow>
     (\<forall>sc c. rs_cleared s sc = Some c \<longrightarrow>
        rs_closedScopes s sc \<noteq> [] \<and> (\<forall>h. rs_held s = Some h \<longrightarrow> rc_Scope h \<noteq> sc) \<and> (\<forall>r. c = Some r \<longrightarrow> readable sc r))"

definition rc_inv :: "rcState \<Rightarrow> bool" where
  "rc_inv s \<longleftrightarrow> held_inv s \<and> served_inv s \<and> cleared_inv s"

lemmas rc_inv_defs = rc_inv_def held_inv_def served_inv_def cleared_inv_def

lemma rc_inv_frame [simp]:
  "rc_inv (s\<lparr>rs_file := f\<rparr>) = rc_inv s" "rc_inv (s\<lparr>rs_attributes := a\<rparr>) = rc_inv s"
  "rc_inv (s\<lparr>rs_fetchSeq := n\<rparr>) = rc_inv s" "rc_inv (s\<lparr>rs_settled := t\<rparr>) = rc_inv s"
  "rc_inv (s\<lparr>rs_retryWindows := w\<rparr>) = rc_inv s"
  by (simp_all add: rc_inv_defs cong: option.case_cong)

lemma unfetched: "served_inv (s\<lparr>rs_snapshot := None, rs_version := None\<rparr>)"
  by (simp add: served_inv_def)

section \<open>Reading the cache\<close>

lemma durable_record:
  assumes "durableRecord scope s = (d, s')"
  shows "(\<exists>f. s' = s\<lparr>rs_file := f\<rparr>) \<and> (\<forall>r. d = Some r \<longrightarrow> readable scope r)"
proof (cases "rs_cachePath s = []")
  case True
  then show ?thesis using assms by (intro conjI exI [of _ "rs_file s"]) (auto simp: durableRecord_def)
next
  case False
  obtain data f where r: "cf_read (rs_file s) = (data, f)" by (cases "cf_read (rs_file s)")
  then show ?thesis using assms False
    by (auto simp: durableRecord_def Let_def readable_def split: option.splits if_splits)
qed

lemma load_cache:
  assumes inv: "held_inv s" "cleared_inv s" and l: "loadCacheLocked scope s = (c, s')"
  shows "(\<exists>f. s' = s\<lparr>rs_file := f\<rparr>) \<and> (\<forall>r. c = Some r \<longrightarrow> readable scope r) \<and> (rs_cleared s scope \<noteq> None \<longrightarrow> c = None)"
proof (cases "rs_cleared s scope = None")
  case False
  then show ?thesis using l by (intro conjI exI [of _ "rs_file s"]) (auto simp: loadCacheLocked_def)
next
  case True
  obtain d t where d: "durableRecord scope s = (d, t)" by (cases "durableRecord scope s")
  note durable_record [OF d]
  moreover have "readable scope h" if "rs_held s = Some h" "rc_Scope h = scope" for h
    using inv that by (auto simp: held_inv_def readable_def)
  ultimately show ?thesis using l True d
    by (auto simp: loadCacheLocked_def Let_def split: option.splits if_splits)
qed


section \<open>Settling\<close>

text \<open>What a settlement relies on of the outcome it is given.\<close>

definition outcome_ok :: "gostring \<Rightarrow> rcCache option \<Rightarrow> rc_outcome \<Rightarrow> bool" where
  "outcome_ok scope srv out \<longleftrightarrow>
     (\<forall>c. srv = Some c \<longrightarrow> readable scope c) \<and>
     (let stored = (if o_newCache out = None then o_revalidated out else o_newCache out)
      in if o_failure out \<noteq> [] then stored = None
         else case stored of
           Some r \<Rightarrow> o_authoritative out \<and> offers (o_result out) (rc_Body r)
         | None \<Rightarrow> \<not> o_authoritative out \<and> (\<exists>c. srv = Some c \<and> offers (o_result out) (rc_Body c)))"

lemma raise_stamp_same [simp]:
  "rc_Body (raiseStampAboveSuperseded r srv held durable) = rc_Body r"
  "rc_Scope (raiseStampAboveSuperseded r srv held durable) = rc_Scope r"
  by (simp_all add: raiseStampAboveSuperseded_def Let_def)

lemma save_durable_file: "\<exists>f. snd (saveDurable r s) = s\<lparr>rs_file := f\<rparr>"
  by (simp add: saveDurable_def Let_def split: prod.split) blast

lemma tombstone_file: "\<exists>f. snd (tombstoneDurable s) = s\<lparr>rs_file := f\<rparr>"
  by (simp add: tombstoneDurable_def split: prod.split) blast

lemma persist_record_file: "\<exists>f. snd (persist_record scope r srv fresh s) = s\<lparr>rs_file := f\<rparr>"
proof -
  obtain saved t where s: "saveDurable r s = (saved, t)" by (cases "saveDurable r s")
  then obtain f where t: "t = s\<lparr>rs_file := f\<rparr>" using save_durable_file [of r s] by auto
  obtain d u where d: "durableRecord scope t = (d, u)" by (cases "durableRecord scope t")
  then obtain g where u: "u = t\<lparr>rs_file := g\<rparr>" using durable_record by blast
  have "s = s\<lparr>rs_file := rs_file s\<rparr>" by simp
  then show ?thesis using s d tombstone_file [of "s\<lparr>rs_file := g\<rparr>"]
    by (auto simp: persist_record_def t u intro: exI [of _ "rs_file s"])
qed

text \<open>\<open>installLocked\<close> by cases: nothing of what is served changes; the served state is dropped; a record is
  installed; or the cache that answered becomes the held record.\<close>

definition settled_state :: "gostring \<Rightarrow> u64 \<Rightarrow> bool \<Rightarrow> cache_file \<Rightarrow> rcState \<Rightarrow> rcState" where
  "settled_state scope seq authoritative f s =
     s\<lparr>rs_settled := (if authoritative then (rs_settled s)(scope := seq) else rs_settled s), rs_file := f\<rparr>"

definition installed :: "gostring \<Rightarrow> rcCache \<Rightarrow> RemoteConfigResult \<Rightarrow> rcState \<Rightarrow> rcState" where
  "installed scope h result s =
     s\<lparr>rs_closedScopes := (rs_closedScopes s)(scope := []), rs_cleared := (rs_cleared s)(scope := None),
       rs_held := Some h, rs_snapshot := Values result, rs_version := Version result\<rparr>"

lemma install_failed:
  assumes "rs_settled s scope < seq"
  shows "snd (installLocked seq scope result False newCache authoritative srv revalidated s) =
    (if authoritative then (settled_state scope seq True (rs_file s) s)\<lparr>rs_snapshot := None, rs_version := None\<rparr> else s)"
  using assms by (simp add: installLocked_def settled_state_def Let_def)

lemma install_adopts:
  assumes "rs_settled s scope < seq"
  shows "snd (installLocked seq scope result True None authoritative (Some c) None s) =
    (if rs_held s = None \<or> rc_Scope (the (rs_held s)) \<noteq> scope \<or> FetchedAtMS c > FetchedAtMS (the (rs_held s))
     then install_snapshot result ((settled_state scope seq authoritative (rs_file s) s)\<lparr>rs_held := Some c\<rparr>)
     else settled_state scope seq authoritative (rs_file s) s)"
  using assms by (auto simp: installLocked_def settled_state_def Let_def)

lemma install_record:
  assumes "rs_settled s scope < seq" and r: "(if newCache = None then revalidated else newCache) = Some r"
  shows "\<exists>f h. rc_Body h = rc_Body r \<and> rc_Scope h = scope \<and>
    (snd (installLocked seq scope result True newCache authoritative srv revalidated s) = settled_state scope seq authoritative f s \<or>
     snd (installLocked seq scope result True newCache authoritative srv revalidated s) =
       installed scope h result (settled_state scope seq authoritative f s))"
proof -
  let ?s = "if authoritative then s\<lparr>rs_settled := (rs_settled s)(scope := seq)\<rparr> else s"
  obtain d t where d: "durableRecord scope ?s = (d, t)" by (cases "durableRecord scope ?s")
  then obtain f where t: "t = ?s\<lparr>rs_file := f\<rparr>" using durable_record by blast
  have st: "t = settled_state scope seq authoritative f s" by (simp add: t settled_state_def)
  define v where "v = (if srv = None then (case rs_cleared t scope of Some c \<Rightarrow> c | None \<Rightarrow> None) else srv)"
  have n: "\<not> seq \<le> rs_settled s scope" using assms(1) by simp
  show ?thesis
  proof (cases "d \<noteq> None \<and> rc_Body (the d) \<noteq> rc_Body r \<and> (v = None \<or> FetchedAtMS (the d) > FetchedAtMS (the v))")
    case True
    then have "installLocked seq scope result True newCache authoritative srv revalidated s = (False, t)"
      using r d by (simp add: installLocked_def Let_def n v_def [symmetric])
    then show ?thesis using st by (intro exI [of _ f] exI [of _ "r\<lparr>rc_Scope := scope\<rparr>"]) simp
  next
    case False
    let ?h = "raiseStampAboveSuperseded (r\<lparr>rc_Scope := scope\<rparr>) v (rs_held t) d"
    let ?u = "t\<lparr>rs_closedScopes := (rs_closedScopes t)(scope := []), rs_cleared := (rs_cleared t)(scope := None), rs_held := Some ?h\<rparr>"
    obtain pf w where p: "persist_record scope ?h v (newCache \<noteq> None) ?u = (pf, w)"
      by (cases "persist_record scope ?h v (newCache \<noteq> None) ?u")
    then obtain g where w: "w = ?u\<lparr>rs_file := g\<rparr>" using persist_record_file [of scope ?h v "newCache \<noteq> None" ?u] by auto
    have "installLocked seq scope result True newCache authoritative srv revalidated s = (pf, install_snapshot result w)"
      using r d False p by (auto simp: installLocked_def Let_def n v_def [symmetric])
    then have "snd (installLocked seq scope result True newCache authoritative srv revalidated s) =
        installed scope ?h result (settled_state scope seq authoritative g s)"
      by (simp add: w t installed_def settled_state_def install_snapshot_def)
    then show ?thesis by (intro exI [of _ g] exI [of _ ?h]) simp
  qed
qed


text \<open>The publication of a scope that the server withdrew.\<close>

definition withdrawn :: "gostring \<Rightarrow> rcCache option \<Rightarrow> cache_file \<Rightarrow> rcState \<Rightarrow> rcState" where
  "withdrawn scope srv f s =
     s\<lparr>rs_file := f,
       rs_held := (case rs_held s of Some h \<Rightarrow> if rc_Scope h = scope then None else Some h | None \<Rightarrow> None),
       rs_cleared := (rs_cleared s)(scope \<mapsto> (if srv = None then (case rs_cleared s scope of Some c \<Rightarrow> c | None \<Rightarrow> None) else srv))\<rparr>"

lemma clear_publication: "\<exists>f. snd (clearPublicationLocked scope srv s) = withdrawn scope srv f s"
proof -
  obtain d t where d: "durableRecord scope s = (d, t)" by (cases "durableRecord scope s")
  then obtain f where t: "t = s\<lparr>rs_file := f\<rparr>" using durable_record by blast
  let ?t = "withdrawn scope srv f s"
  have held: "(case rs_held t of Some h \<Rightarrow> if rc_Scope h = scope then t\<lparr>rs_held := None\<rparr> else t | None \<Rightarrow> t) =
      t\<lparr>rs_held := (case rs_held s of Some h \<Rightarrow> if rc_Scope h = scope then None else Some h | None \<Rightarrow> None)\<rparr>"
    by (auto simp: t split: option.split)
  have "clearPublicationLocked scope srv s =
    (if d \<noteq> None \<and> rs_cleared ?t scope \<noteq> Some None \<and> FetchedAtMS (the d) \<le> FetchedAtMS (the (the (rs_cleared ?t scope)))
     then (let (ok, u) = tombstoneDurable ?t in (\<not> ok, u)) else (False, ?t))"
    unfolding clearPublicationLocked_def d Let_def prod.case held unfolding withdrawn_def t
    by (cases srv; cases "rs_cleared s scope") (simp_all add: Let_def)
  moreover obtain g where "snd (tombstoneDurable ?t) = ?t\<lparr>rs_file := g\<rparr>" using tombstone_file by blast
  moreover have "?t\<lparr>rs_file := h\<rparr> = withdrawn scope srv h s" for h by (simp add: withdrawn_def)
  ultimately have "snd (clearPublicationLocked scope srv s) = ?t \<or> snd (clearPublicationLocked scope srv s) = withdrawn scope srv g s"
    by (simp add: Let_def case_prod_beta)
  then show ?thesis by blast
qed

lemma arm_cooldown: "\<exists>w. armCooldownLocked scope reason now resp s = s\<lparr>rs_retryWindows := w\<rparr>"
  by (auto simp: armCooldownLocked_def Let_def intro: exI [of _ "rs_retryWindows s"])

text \<open>A settlement that takes part (its scope is current and no later fetch has settled the scope), by
  cases.\<close>

definition closed_by :: "gostring \<Rightarrow> u64 \<Rightarrow> gostring \<Rightarrow> cache_file \<Rightarrow> rcState \<Rightarrow> rcState" where
  "closed_by scope seq failure f s =
     (settled_state scope seq True f s)\<lparr>rs_closedScopes := (rs_closedScopes s)(scope := failure), rs_snapshot := None, rs_version := None\<rparr>"

lemma settle_state:
  "snd (settleRemoteConfigLocked granted seq scope out srv resp now s) =
    (if scope = currentRemoteConfigScope granted s \<and> seq > rs_settled s scope then
       (let u = (if o_authoritative out \<and> o_failure out \<noteq> [] then
                   (let s = s\<lparr>rs_closedScopes := (rs_closedScopes s)(scope := o_failure out)\<rparr>
                    in if o_failure out = ''remote_config_not_published'' then snd (clearPublicationLocked scope srv s) else s)
                 else s);
            a = armCooldownLocked scope (if o_failure out = [] then rcr_Reason (o_result out) else o_failure out) now resp u
        in if rs_closedScopes a scope = [] \<or> o_authoritative out
           then snd (installLocked seq scope (o_result out) (o_failure out = []) (o_newCache out) (o_authoritative out) srv (o_revalidated out) a)
           else a)
     else s)"
  by (simp add: settleRemoteConfigLocked_def Let_def case_prod_beta if_distrib [of fst] if_distrib [of snd] if_distribR
      cong: if_cong)

lemma settle_cases:
  assumes ok: "outcome_ok scope srv out"
    and s': "s' = snd (settleRemoteConfigLocked granted seq scope out srv resp now s)"
  obtains
    (apart) "s' = s" "scope \<noteq> currentRemoteConfigScope granted s \<or> seq \<le> rs_settled s scope"
  | (closes) f w where "rs_settled s scope < seq" "o_authoritative out" "o_failure out \<noteq> []"
      "s' = (closed_by scope seq (o_failure out) f s)\<lparr>rs_retryWindows := w\<rparr> \<or>
       s' = (withdrawn scope srv f (closed_by scope seq (o_failure out) f s))\<lparr>rs_retryWindows := w\<rparr>"
  | (keeps) f w where "rs_settled s scope < seq"
      "s' = s\<lparr>rs_retryWindows := w\<rparr> \<or>
       o_failure out = [] \<and> s' = (settled_state scope seq (o_authoritative out) f s)\<lparr>rs_retryWindows := w\<rparr>"
  | (installs) f w h where "rs_settled s scope < seq" "o_authoritative out" "o_failure out = []" "rc_Scope h = scope"
      "offers (o_result out) (rc_Body h)" "s' = (installed scope h (o_result out) (settled_state scope seq True f s))\<lparr>rs_retryWindows := w\<rparr>"
  | (adopts) w where "rs_settled s scope < seq" "rs_closedScopes s scope = []" "o_failure out = []" "srv \<noteq> None"
      "offers (o_result out) (rc_Body (the srv))" "s' = (install_snapshot (o_result out) (s\<lparr>rs_held := srv\<rparr>))\<lparr>rs_retryWindows := w\<rparr>"
proof (cases "scope = currentRemoteConfigScope granted s \<and> rs_settled s scope < seq")
  case False
  then show ?thesis by (intro apart) (auto simp: s' settle_state)
next
  case part: True
  let ?arm = "armCooldownLocked scope (if o_failure out = [] then rcr_Reason (o_result out) else o_failure out) now resp"
  let ?install = "\<lambda>s. snd (installLocked seq scope (o_result out) (o_failure out = []) (o_newCache out) (o_authoritative out) srv (o_revalidated out) s)"
  have seq: "rs_settled s scope < seq" using part by (rule conjunct2)
  have guard: "scope = currentRemoteConfigScope granted s \<and> seq > rs_settled s scope" by (rule part)
  show ?thesis
  proof (cases "o_authoritative out \<and> o_failure out \<noteq> []")
    case True
    let ?c = "s\<lparr>rs_closedScopes := (rs_closedScopes s)(scope := o_failure out)\<rparr>"
    let ?u = "if o_failure out = ''remote_config_not_published'' then snd (clearPublicationLocked scope srv ?c) else ?c"
    define u where "u = ?u"
    obtain f where f: "snd (clearPublicationLocked scope srv ?c) = withdrawn scope srv f ?c" using clear_publication by blast
    have u: "u = ?c \<or> u = withdrawn scope srv f ?c" unfolding u_def f by simp
    obtain w where w: "?arm u = u\<lparr>rs_retryWindows := w\<rparr>" using arm_cooldown by blast
    have seqa: "rs_settled (u\<lparr>rs_retryWindows := w\<rparr>) scope < seq" using u seq by (auto simp: withdrawn_def)
    have "s' = ?install (?arm u)"
      unfolding s' settle_state if_P [OF guard] u_def using True by (simp add: Let_def)
    also have "\<dots> = (settled_state scope seq True (rs_file u) (u\<lparr>rs_retryWindows := w\<rparr>))\<lparr>rs_snapshot := None, rs_version := None\<rparr>"
      unfolding w using install_failed [OF seqa] True by simp
    finally have s'': "s' = (settled_state scope seq True (rs_file u) (u\<lparr>rs_retryWindows := w\<rparr>))\<lparr>rs_snapshot := None, rs_version := None\<rparr>" .
    from u show ?thesis
    proof
      assume "u = ?c"
      then show ?thesis using True seq s''
        by (intro closes [where f = "rs_file s" and w = w]) (auto simp: closed_by_def settled_state_def)
    next
      assume "u = withdrawn scope srv f ?c"
      then show ?thesis using True seq s''
        by (intro closes [where f = f and w = w]) (auto simp: closed_by_def settled_state_def withdrawn_def)
    qed
  next
    case False
    obtain w where w: "?arm s = s\<lparr>rs_retryWindows := w\<rparr>" using arm_cooldown by blast
    let ?a = "s\<lparr>rs_retryWindows := w\<rparr>"
    have s'': "s' = (if rs_closedScopes s scope = [] \<or> o_authoritative out then ?install ?a else ?a)"
      unfolding s' settle_state if_P [OF guard] if_not_P [OF False] Let_def w by simp
    have seqa: "rs_settled ?a scope < seq" using seq by simp
    show ?thesis
    proof (cases "(rs_closedScopes s scope = [] \<or> o_authoritative out) \<and> o_failure out = []")
      case no: False
      have "s' = ?a"
      proof (cases "rs_closedScopes s scope = [] \<or> o_authoritative out")
        case True
        then have "o_failure out \<noteq> []" "\<not> o_authoritative out" using no False by auto
        then show ?thesis using s'' install_failed [OF seqa] by simp
      next
        case False
        then show ?thesis using s'' by simp
      qed
      then show ?thesis using seq by (intro keeps) auto
    next
      case yes: True
      show ?thesis
      proof (cases "if o_newCache out = None then o_revalidated out else o_newCache out")
        case (Some r)
        then have r: "o_authoritative out" "offers (o_result out) (rc_Body r)" using ok yes by (simp_all add: outcome_ok_def Let_def)
        from install_record [OF seqa Some, of "o_result out" "o_authoritative out" srv]
        obtain f h where h: "rc_Body h = rc_Body r" "rc_Scope h = scope" and
          "?install ?a = settled_state scope seq True f ?a \<or> ?install ?a = installed scope h (o_result out) (settled_state scope seq True f ?a)"
          using r yes by auto
        then have "s' = (settled_state scope seq True f s)\<lparr>rs_retryWindows := w\<rparr> \<or>
            s' = (installed scope h (o_result out) (settled_state scope seq True f s))\<lparr>rs_retryWindows := w\<rparr>"
          using s'' yes by (auto simp: settled_state_def installed_def)
        then show ?thesis using seq r h yes by (elim disjE) (rule keeps [where f = f and w = w], auto, rule installs [where h = h and f = f and w = w], auto)
      next
        case None
        then have n: "o_newCache out = None" "o_revalidated out = None" by (auto split: if_splits)
        then obtain c where c: "\<not> o_authoritative out" "srv = Some c" "offers (o_result out) (rc_Body c)"
          using ok yes by (auto simp: outcome_ok_def Let_def)
        have "s' = ?install ?a" using s'' yes by auto
        then have "s' = (if rs_held s = None \<or> rc_Scope (the (rs_held s)) \<noteq> scope \<or> FetchedAtMS c > FetchedAtMS (the (rs_held s))
            then (install_snapshot (o_result out) (s\<lparr>rs_held := srv\<rparr>))\<lparr>rs_retryWindows := w\<rparr> else ?a)"
          using install_adopts [OF seqa, of "o_result out" False c] n c yes by (simp add: settled_state_def install_snapshot_def)
        then show ?thesis using seq yes c by (cases "rs_held s = None \<or> rc_Scope (the (rs_held s)) \<noteq> scope \<or> FetchedAtMS c > FetchedAtMS (the (rs_held s))")
            (rule adopts [where w = w], auto, rule keeps [where w = w], auto)
      qed
    qed
  qed
qed


section \<open>The invariant is kept\<close>

lemma offers_readable: "offers res (rc_Body h) \<Longrightarrow> rc_Scope h = scope \<Longrightarrow> readable scope h"
  by (auto simp: offers_def readable_def split: option.splits)

lemma offers_served:
  assumes "offers res (rc_Body h)"
  shows "served_inv (s\<lparr>rs_held := Some h, rs_snapshot := Values res, rs_version := Version res\<rparr>)"
  using assms by (auto simp: offers_def served_inv_def split: option.splits)

lemma closed_inv:
  assumes "rc_inv s" "failure \<noteq> []"
  shows "rc_inv (closed_by scope seq failure f s)"
  using assms by (auto simp: rc_inv_defs closed_by_def settled_state_def split: option.splits)

lemma withdrawn_inv:
  assumes inv: "rc_inv s" and closed: "rs_closedScopes s scope \<noteq> []" and none: "rs_snapshot s = None" "rs_version s = None"
    and srv: "\<And>c. srv = Some c \<Longrightarrow> readable scope c"
  shows "rc_inv (withdrawn scope srv f s)"
proof -
  have "held_inv (withdrawn scope srv f s)" using inv by (auto simp: rc_inv_defs withdrawn_def split: option.splits)
  moreover have "served_inv (withdrawn scope srv f s)" using none by (simp add: served_inv_def withdrawn_def)
  moreover have "cleared_inv (withdrawn scope srv f s)"
    using inv closed srv by (auto simp: rc_inv_def cleared_inv_def withdrawn_def split: option.splits if_splits)
  ultimately show ?thesis by (simp add: rc_inv_def)
qed

lemma installed_inv:
  assumes inv: "rc_inv s" and h: "rc_Scope h = scope" "offers res (rc_Body h)" and sc: "scope = rs_scope s \<or> scope = rs_anonymousScope s"
  shows "rc_inv (installed scope h res s)"
proof -
  have "held_inv (installed scope h res s)"
    using offers_readable [OF h(2,1)] sc by (auto simp: held_inv_def installed_def)
  moreover have "served_inv (installed scope h res s)"
    using h(2) by (auto simp: installed_def served_inv_def offers_def split: option.splits)
  moreover have "cleared_inv (installed scope h res s)"
    using inv h(1) by (auto simp: rc_inv_def cleared_inv_def installed_def)
  ultimately show ?thesis by (simp add: rc_inv_def)
qed

lemma adopted_inv:
  assumes inv: "rc_inv s" and srv: "readable scope c" "offers res (rc_Body c)" and sc: "scope = rs_scope s \<or> scope = rs_anonymousScope s"
    and opn: "rs_closedScopes s scope = []"
  shows "rc_inv (install_snapshot res (s\<lparr>rs_held := Some c\<rparr>))"
proof -
  have "held_inv (install_snapshot res (s\<lparr>rs_held := Some c\<rparr>))"
    using srv(1) sc by (auto simp: held_inv_def install_snapshot_def)
  moreover have "served_inv (install_snapshot res (s\<lparr>rs_held := Some c\<rparr>))"
    using srv(2) by (auto simp: install_snapshot_def served_inv_def offers_def split: option.splits)
  moreover have "cleared_inv (install_snapshot res (s\<lparr>rs_held := Some c\<rparr>))"
    using inv srv(1) opn by (auto simp: rc_inv_def cleared_inv_def install_snapshot_def readable_def)
  ultimately show ?thesis by (simp add: rc_inv_def)
qed

lemma settle_inv:
  assumes inv: "rc_inv s" and ok: "outcome_ok scope srv out" and sc: "scope = rs_scope s \<or> scope = rs_anonymousScope s"
  shows "rc_inv (snd (settleRemoteConfigLocked granted seq scope out srv resp now s))" (is "rc_inv ?s")
proof -
  have srv: "readable scope c" if "srv = Some c" for c using ok that by (simp add: outcome_ok_def)
  show ?thesis
  proof (cases rule: settle_cases [OF ok refl, where granted = granted and seq = seq and resp = resp and now = now and s = s,
        case_names apart closes keeps installs adopts])
    case apart
    then show ?thesis using inv by simp
  next
    case (closes f w)
    let ?c = "closed_by scope seq (o_failure out) f s"
    have "rc_inv ?c" by (rule closed_inv [OF inv closes(3)])
    moreover from this have "rc_inv (withdrawn scope srv f ?c)"
      by (rule withdrawn_inv) (use closes srv in \<open>auto simp: closed_by_def\<close>)
    ultimately show ?thesis using closes(4) by auto
  next
    case (keeps f w)
    then show ?thesis using inv by (auto simp: settled_state_def)
  next
    case (installs f w h)
    have "rc_inv (settled_state scope seq True f s)" using inv by (simp add: settled_state_def)
    from installed_inv [OF this installs(4,5)] show ?thesis using sc installs(6) by (simp add: settled_state_def)
  next
    case (adopts w)
    then obtain c where "srv = Some c" by blast
    then show ?thesis using adopted_inv [OF inv srv _ sc adopts(2), of c "o_result out"] adopts by simp
  qed
qed

lemma preload_inv:
  assumes "rc_inv s" "rs_cleared s = (\<lambda>_. None)"
  shows "rc_inv (preload granted s)"
proof -
  let ?sc = "if granted then rs_scope s else rs_anonymousScope s"
  obtain d t where d: "durableRecord ?sc s = (d, t)" by (cases "durableRecord ?sc s")
  from durable_record [OF d] obtain f where t: "t = s\<lparr>rs_file := f\<rparr>" and r: "\<forall>r. d = Some r \<longrightarrow> readable ?sc r" by blast
  show ?thesis
  proof (cases "rs_clientID s = [] \<or> rs_cachePath s = [] \<or> d = None")
    case True
    then have "preload granted s = s \<or> preload granted s = t" by (auto simp: preload_def d)
    then show ?thesis using assms(1) t by auto
  next
    case False
    then obtain c v ver where c: "d = Some c" "parseRemoteConfigBody (rc_Body c) = Some (v, ver)" "readable ?sc c"
      using r by (auto simp: readable_def)
    then have "preload granted s = t\<lparr>rs_held := Some c, rs_snapshot := Some v, rs_version := ver\<rparr>"
      using False by (simp add: preload_def d)
    then show ?thesis using c assms(2) t by (simp add: rc_inv_defs split: if_splits)
  qed
qed


section \<open>Cooldowns\<close>

lemma install_windows: "rs_retryWindows (snd (installLocked seq scope result ok newCache authoritative srv revalidated s)) = rs_retryWindows s"
proof (cases "rs_settled s scope < seq \<and> ok")
  case False
  then show ?thesis using install_failed [of s scope seq result newCache authoritative srv revalidated]
    by (cases "rs_settled s scope < seq") (auto simp: settled_state_def installLocked_def)
next
  case True
  show ?thesis
  proof (cases "if newCache = None then revalidated else newCache")
    case (Some r)
    from install_record [OF _ Some, of s scope seq result authoritative srv] True show ?thesis
      by (auto simp: settled_state_def installed_def)
  next
    case None
    then have "newCache = None" "revalidated = None" by (auto split: if_splits)
    then show ?thesis by (auto simp: installLocked_def Let_def install_snapshot_def split: option.split)
  qed
qed

definition armed :: "nanos \<Rightarrow> rcRetryWindow option \<Rightarrow> rcRetryWindow option \<Rightarrow> bool" where
  "armed now w w' \<longleftrightarrow>
     w' = w \<or> (case w' of None \<Rightarrow> False
       | Some n \<Rightarrow> now < until n \<and> until n \<le> now + 24 * Hour \<and> (case w of None \<Rightarrow> True | Some old \<Rightarrow> until old < until n))"

lemma arm_windows:
  "armed now (rs_retryWindows s sc) (rs_retryWindows (armCooldownLocked scope reason now resp s) sc)"
  "rr_status resp \<noteq> 429 \<and> rr_status resp < 500 \<Longrightarrow> armCooldownLocked scope reason now resp s = s"
  "sc \<noteq> scope \<Longrightarrow> rs_retryWindows (armCooldownLocked scope reason now resp s) sc = rs_retryWindows s sc"
  "rs_retryWindows (armCooldownLocked scope reason now resp s) sc = rs_retryWindows s sc \<or>
   (\<exists>w. rs_retryWindows (armCooldownLocked scope reason now resp s) sc = Some w \<and> rw_reason w = reason)"
  by (auto simp: armCooldownLocked_def armed_def Let_def duration_defs rcCooldownClampSeconds_def split: option.splits)

lemma arm_cong:
  "rs_retryWindows u = rs_retryWindows s \<Longrightarrow>
   rs_retryWindows (armCooldownLocked scope reason now resp u) = rs_retryWindows (armCooldownLocked scope reason now resp s)"
  by (simp add: armCooldownLocked_def Let_def)

lemma settle_windows:
  "rs_retryWindows (snd (settleRemoteConfigLocked granted seq scope out srv resp now s)) =
    (if scope = currentRemoteConfigScope granted s \<and> seq > rs_settled s scope
     then rs_retryWindows (armCooldownLocked scope (if o_failure out = [] then rcr_Reason (o_result out) else o_failure out) now resp s)
     else rs_retryWindows s)"
proof -
  let ?c = "s\<lparr>rs_closedScopes := (rs_closedScopes s)(scope := o_failure out)\<rparr>"
  obtain f where f: "snd (clearPublicationLocked scope srv ?c) = withdrawn scope srv f ?c" using clear_publication by blast
  show ?thesis
  proof (cases "scope = currentRemoteConfigScope granted s \<and> seq > rs_settled s scope")
    case True
    show ?thesis unfolding settle_state if_P [OF True] Let_def f
      by (auto simp: install_windows withdrawn_def intro!: arm_cong)
  next
    case False
    show ?thesis unfolding settle_state if_not_P [OF False] ..
  qed
qed


lemma settle_windows_other:
  assumes "sc \<noteq> scope"
  shows "rs_retryWindows (snd (settleRemoteConfigLocked granted seq scope out srv resp now s)) sc = rs_retryWindows s sc"
proof (cases "scope = currentRemoteConfigScope granted s \<and> seq > rs_settled s scope")
  case True
  show ?thesis unfolding settle_windows if_P [OF True] by (rule arm_windows(3) [OF assms])
next
  case False
  show ?thesis unfolding settle_windows if_not_P [OF False] ..
qed

section \<open>Overlapping fetches\<close>

record rc_world =
  w_state :: rcState
  w_begun :: "fetch_prep list"
  w_asked :: "(fetch_prep \<times> fetch_plan) list"

text \<open>One step: attributes are set, another process rewrites the file, a fetch begins (while the 64-bit
  counter of fetches is not exhausted), asks, is answered from its cache during a cooldown or is given up,
  and settles.  Consent, the receipt gate, the clock and the server are arbitrary at every step.\<close>

inductive rc_step :: "rc_world \<Rightarrow> rc_world \<Rightarrow> bool" where
  attributes: "rc_step w (w\<lparr>w_state := SetRemoteConfigAttributes enabled as (w_state w)\<rparr>)"
| rewritten: "rc_step w (w\<lparr>w_state := (w_state w)\<lparr>rs_file := f\<rparr>\<rparr>)"
| begins: "fetch_begin enabled (w_state w) = (Some p, s) \<Longrightarrow> rs_fetchSeq (w_state w) < rs_fetchSeq (w_state w) + 1 \<Longrightarrow>
    rc_step w (w\<lparr>w_state := s, w_begun := p # w_begun w\<rparr>)"
| asks: "p \<in> set (w_begun w) \<Longrightarrow> fetch_request sha granted gate ended now p (w_state w) = (AskServer plan, s) \<Longrightarrow>
    rc_step w (w\<lparr>w_state := s, w_begun := remove1 p (w_begun w), w_asked := (p, plan) # w_asked w\<rparr>)"
| waits: "p \<in> set (w_begun w) \<Longrightarrow> fetch_request sha granted gate ended now p (w_state w) = (next, s) \<Longrightarrow> (\<forall>plan. next \<noteq> AskServer plan) \<Longrightarrow>
    rc_step w (w\<lparr>w_state := s, w_begun := remove1 p (w_begun w)\<rparr>)"
| settles: "(p, plan) \<in> set (w_asked w) \<Longrightarrow>
    rc_step w (w\<lparr>w_state := snd (fetch_settle granted p plan reply now (w_state w)), w_asked := remove1 (p, plan) (w_asked w)\<rparr>)"

inductive rc_reach :: "rc_world \<Rightarrow> bool" where
  starts: "rc_reach \<lparr>w_state = preload granted (newRemoteConfigState url ws env key path anon disk), w_begun = [], w_asked = []\<rparr>"
| steps: "rc_reach w \<Longrightarrow> rc_step w w' \<Longrightarrow> rc_reach w'"

definition prep_ok :: "rcState \<Rightarrow> fetch_prep \<Rightarrow> bool" where
  "prep_ok s p \<longleftrightarrow> fp_seq p \<le> rs_fetchSeq s \<and>
     (\<forall>c. fp_identified p = Some c \<longrightarrow> readable (rs_scope s) c) \<and> (\<forall>c. fp_anonymous p = Some c \<longrightarrow> readable (rs_anonymousScope s) c)"

definition plan_ok :: "rcState \<Rightarrow> fetch_plan \<Rightarrow> bool" where
  "plan_ok s plan \<longleftrightarrow> (pl_scope plan = rs_scope s \<or> pl_scope plan = rs_anonymousScope s) \<and>
     (\<forall>c. pl_cache plan = Some c \<longrightarrow> readable (pl_scope plan) c)"

definition windows_inv :: "rcState \<Rightarrow> bool" where
  "windows_inv s \<longleftrightarrow> (\<forall>sc w. rs_retryWindows s sc = Some w \<longrightarrow> rw_reason w \<noteq> [])"

text \<open>A state's successor: it keeps the scopes, never counts fetches or settlements back.\<close>

definition follows :: "rcState \<Rightarrow> rcState \<Rightarrow> bool" where
  "follows s s' \<longleftrightarrow> rs_scope s' = rs_scope s \<and> rs_anonymousScope s' = rs_anonymousScope s \<and>
     rs_fetchSeq s \<le> rs_fetchSeq s' \<and> (\<forall>sc. rs_settled s sc \<le> rs_settled s' sc)"

definition counted :: "rcState \<Rightarrow> bool" where
  "counted s \<longleftrightarrow> (\<forall>sc. rs_settled s sc \<le> rs_fetchSeq s)"

definition world_inv :: "rc_world \<Rightarrow> bool" where
  "world_inv w \<longleftrightarrow>
     rc_inv (w_state w) \<and> windows_inv (w_state w) \<and> counted (w_state w) \<and>
     (\<forall>p\<in>set (w_begun w). prep_ok (w_state w) p) \<and>
     (\<forall>(p, plan)\<in>set (w_asked w). prep_ok (w_state w) p \<and> plan_ok (w_state w) plan)"

lemma prep_follows: "prep_ok s p \<Longrightarrow> follows s s' \<Longrightarrow> prep_ok s' p"
  by (auto simp: prep_ok_def follows_def)

lemma plan_follows: "plan_ok s plan \<Longrightarrow> follows s s' \<Longrightarrow> plan_ok s' plan"
  by (auto simp: plan_ok_def follows_def)

text \<open>The outcomes a settlement is given.\<close>

lemma served_outcome:
  assumes "\<And>c. cache = Some c \<Longrightarrow> readable scope c" "reason \<noteq> []"
  shows "outcome_ok scope cache (served (serveRemoteConfigCache cache reason))"
  using serve_cache_cases [OF assms(2), of cache] assms(1)
  by (cases "serveRemoteConfigCache cache reason") (auto simp: outcome_ok_def served_def split: if_splits)

lemma applied_outcome:
  assumes "\<And>c. cache = Some c \<Longrightarrow> readable scope c" "pl_cache plan = cache"
  shows "outcome_ok scope cache (fetch_outcome plan resp now)"
proof -
  have sign: "sign_cache sig c = None \<longleftrightarrow> c = None" for sig c by (simp add: sign_cache_def)
  let ?out = "applyRemoteConfig cache resp (unix_milli now)"
  show ?thesis using apply_classified [of cache resp "unix_milli now"] assms
    by (cases "o_newCache ?out"; cases "o_revalidated ?out"; cases "rr_status resp = 304")
       (auto simp: outcome_ok_def fetch_outcome_def Let_def sign_cache_def success_def split: if_splits)
qed

lemma applied_reason:
  assumes "rr_status resp = 429 \<or> rr_status resp \<ge> 500"
  shows "(if o_failure (fetch_outcome plan resp now) = [] then rcr_Reason (o_result (fetch_outcome plan resp now))
    else o_failure (fetch_outcome plan resp now)) \<noteq> []"
proof -
  from assms have "transient (rr_status resp)" by (auto simp: transient_def)
  from apply_transient [OF this, of "pl_cache plan" "unix_milli now"] obtain reason where
    r: "reason \<noteq> []" "applyRemoteConfig (pl_cache plan) resp (unix_milli now) = served (serveRemoteConfigCache (pl_cache plan) reason)" by blast
  show ?thesis using serve_cache_cases [OF r(1), of "pl_cache plan"] r
    by (cases "serveRemoteConfigCache (pl_cache plan) reason") (auto simp: served_def fetch_outcome_def Let_def split: if_splits)
qed


lemma settle_follows:
  assumes ok: "outcome_ok scope srv out" and seq: "seq \<le> rs_fetchSeq s" and cnt: "counted s"
  shows "follows s (snd (settleRemoteConfigLocked granted seq scope out srv resp now s)) \<and>
    counted (snd (settleRemoteConfigLocked granted seq scope out srv resp now s))"
proof (cases rule: settle_cases [OF ok refl, where granted = granted and seq = seq and resp = resp and now = now and s = s,
      case_names apart closes keeps installs adopts])
  case apart
  then show ?thesis using cnt by (simp add: follows_def)
next
  case (closes f w)
  then show ?thesis using seq cnt by (auto simp: follows_def counted_def closed_by_def withdrawn_def settled_state_def)
next
  case (keeps f w)
  then show ?thesis using seq cnt by (auto simp: follows_def counted_def settled_state_def)
next
  case (installs f w h)
  then show ?thesis using seq cnt by (auto simp: follows_def counted_def installed_def settled_state_def)
next
  case (adopts w)
  then show ?thesis using seq cnt by (auto simp: follows_def counted_def install_snapshot_def)
qed

lemma settle_windows_inv:
  assumes inv: "windows_inv s"
    and reason: "rr_status resp = 429 \<or> rr_status resp \<ge> 500 \<Longrightarrow>
      (if o_failure out = [] then rcr_Reason (o_result out) else o_failure out) \<noteq> []"
  shows "windows_inv (snd (settleRemoteConfigLocked granted seq scope out srv resp now s))"
proof -
  let ?reason = "if o_failure out = [] then rcr_Reason (o_result out) else o_failure out"
  have armed: "windows_inv (armCooldownLocked scope ?reason now resp s)"
  proof (cases "rr_status resp = 429 \<or> rr_status resp \<ge> 500")
    case True
    from reason [OF True] arm_windows(4) [of scope ?reason now resp s] inv show ?thesis
      unfolding windows_inv_def by (metis option.inject)
  next
    case False
    then have "rr_status resp \<noteq> 429 \<and> rr_status resp < 500" by auto
    from arm_windows(2) [OF this] inv show ?thesis by simp
  qed
  show ?thesis using armed inv by (simp add: windows_inv_def settle_windows)
qed

text \<open>Every section of a fetch keeps what the machine relies on.\<close>

definition keeps_all :: "rcState \<Rightarrow> rcState \<Rightarrow> bool" where
  "keeps_all s s' \<longleftrightarrow> rc_inv s' \<and> windows_inv s' \<and> counted s' \<and> follows s s'"

lemma begin_keeps:
  assumes inv: "rc_inv s" "windows_inv s" "counted s" and b: "fetch_begin enabled s = (Some p, s')"
    and room: "rs_fetchSeq s < rs_fetchSeq s + 1"
  shows "keeps_all s s' \<and> prep_ok s' p"
proof -
  let ?s = "s\<lparr>rs_fetchSeq := rs_fetchSeq s + 1\<rparr>"
  obtain c1 t where l1: "loadCacheLocked (rs_scope ?s) ?s = (c1, t)" by (cases "loadCacheLocked (rs_scope ?s) ?s")
  have i1: "held_inv ?s" "cleared_inv ?s" using inv(1) by (simp_all add: rc_inv_defs cong: option.case_cong)
  from load_cache [OF i1 l1] obtain f where t: "t = ?s\<lparr>rs_file := f\<rparr>" and c1: "\<forall>r. c1 = Some r \<longrightarrow> readable (rs_scope s) r" by auto
  obtain c2 u where l2: "loadCacheLocked (rs_anonymousScope t) t = (c2, u)" by (cases "loadCacheLocked (rs_anonymousScope t) t")
  have i2: "held_inv t" "cleared_inv t" using inv(1) by (simp_all add: rc_inv_defs t cong: option.case_cong)
  from load_cache [OF i2 l2] obtain g where u: "u = t\<lparr>rs_file := g\<rparr>" and c2: "\<forall>r. c2 = Some r \<longrightarrow> readable (rs_anonymousScope s) r"
    by (auto simp: t)
  have "rs_clientID s \<noteq> []" using b by (auto simp: fetch_begin_def)
  then have p: "s' = u" "fp_seq p = rs_fetchSeq s + 1" "fp_identified p = c1" "fp_anonymous p = c2"
    using b l1 l2 by (auto simp: fetch_begin_def Let_def)
  have le: "x \<le> rs_fetchSeq s \<Longrightarrow> x \<le> rs_fetchSeq s + 1" for x using room by (meson order_less_imp_le order_trans)
  show ?thesis using inv c1 c2 room le
    by (auto simp: p u t keeps_all_def prep_ok_def follows_def windows_inv_def counted_def)
qed

lemma plan_of_ok:
  assumes "prep_ok s p"
  shows "plan_ok s (fetch_plan_of sha granted gate p s)"
  using assms by (auto simp: fetch_plan_of_def plan_ok_def prep_ok_def Let_def)

lemma request_keeps:
  assumes inv: "rc_inv s" "windows_inv s" "counted s" and p: "prep_ok s p"
    and r: "fetch_request sha granted gate ended now p s = (n, s')"
  shows "keeps_all s s' \<and> (\<forall>plan. n = AskServer plan \<longrightarrow> s' = s \<and> plan_ok s plan)"
proof -
  let ?plan = "fetch_plan_of sha granted gate p s"
  have same: "keeps_all s s" using inv by (simp add: keeps_all_def follows_def)
  show ?thesis
  proof (cases "rs_retryWindows s (pl_scope ?plan)")
    case None
    then show ?thesis using r same plan_of_ok [OF p] by (auto simp: fetch_request_def Let_def)
  next
    case (Some w)
    let ?settle = "settleRemoteConfigLocked granted (fp_seq p) (pl_scope ?plan) (served (serveRemoteConfigCache (pl_cache ?plan) (rw_reason w)))
                         (pl_cache ?plan) zero_response now s"
    have w: "rw_reason w \<noteq> []" using inv(2) Some by (auto simp: windows_inv_def)
    have pl: "plan_ok s ?plan" by (rule plan_of_ok [OF p])
    have ok: "outcome_ok (pl_scope ?plan) (pl_cache ?plan) (served (serveRemoteConfigCache (pl_cache ?plan) (rw_reason w)))"
      by (rule served_outcome) (use pl w in \<open>auto simp: plan_ok_def\<close>)
    have "keeps_all s (snd ?settle)" unfolding keeps_all_def
      by (intro conjI settle_inv [OF inv(1) ok] settle_windows_inv [OF inv(2)] settle_follows [OF ok _ inv(3), THEN conjunct1]
          settle_follows [OF ok _ inv(3), THEN conjunct2])
         (use pl p in \<open>auto simp: plan_ok_def prep_ok_def zero_response_def\<close>)
    moreover have "s' = s \<or> s' = snd ?settle" "n = AskServer plan \<Longrightarrow> s' = s \<and> plan = ?plan" for plan
      using r Some by (auto simp: fetch_request_def Let_def split: if_splits prod.splits)
    ultimately show ?thesis using same pl by blast
  qed
qed

lemma fetch_settle_keeps:
  assumes inv: "rc_inv s" "windows_inv s" "counted s" and p: "prep_ok s p" "plan_ok s plan"
  shows "keeps_all s (snd (fetch_settle granted p plan reply now s))"
proof -
  have same: "keeps_all s s" using inv by (simp add: keeps_all_def follows_def)
  have settle: "keeps_all s (snd (settleRemoteConfigLocked granted (fp_seq p) (pl_scope plan) (fetch_outcome plan resp now) (pl_cache plan) resp now s))" for resp
  proof -
    have ok: "outcome_ok (pl_scope plan) (pl_cache plan) (fetch_outcome plan resp now)"
      by (rule applied_outcome) (use p(2) in \<open>auto simp: plan_ok_def\<close>)
    show ?thesis unfolding keeps_all_def
      by (intro conjI settle_inv [OF inv(1) ok] settle_windows_inv [OF inv(2)] settle_follows [OF ok _ inv(3), THEN conjunct1]
          settle_follows [OF ok _ inv(3), THEN conjunct2])
         (use p applied_reason [of resp plan now] in \<open>auto simp: plan_ok_def prep_ok_def\<close>)
  qed
  show ?thesis
    using settle same by (simp add: fetch_settle_def Let_def case_prod_beta split: fetch_reply.split)
qed


section \<open>Guarantees\<close>

lemma world_keeps:
  assumes w: "world_inv w" and k: "keeps_all (w_state w) s"
    and b: "\<And>p. p \<in> set begun \<Longrightarrow> p \<in> set (w_begun w) \<or> prep_ok s p"
    and a: "\<And>p plan. (p, plan) \<in> set asked \<Longrightarrow> (p, plan) \<in> set (w_asked w) \<or> prep_ok s p \<and> plan_ok s plan"
  shows "world_inv \<lparr>w_state = s, w_begun = begun, w_asked = asked\<rparr>"
proof -
  have f: "follows (w_state w) s" using k by (simp add: keeps_all_def)
  have "prep_ok s p" if "p \<in> set begun" for p
    using b [OF that] w f prep_follows by (auto simp: world_inv_def)
  moreover have "prep_ok s p \<and> plan_ok s plan" if "(p, plan) \<in> set asked" for p plan
    using a [OF that] w f prep_follows plan_follows by (fastforce simp: world_inv_def)
  ultimately show ?thesis using k by (auto simp: world_inv_def keeps_all_def)
qed

lemma step_world:
  assumes "rc_step w w'" and w: "world_inv w"
  shows "world_inv w'"
  using assms(1)
proof cases
  case (attributes enabled as)
  have "keeps_all (w_state w) (SetRemoteConfigAttributes enabled as (w_state w))"
    using w by (simp add: keeps_all_def follows_def world_inv_def windows_inv_def counted_def SetRemoteConfigAttributes_def)
  from world_keeps [OF w this, of "w_begun w" "w_asked w"] show ?thesis using attributes by (cases w) simp
next
  case (rewritten f)
  have "keeps_all (w_state w) ((w_state w)\<lparr>rs_file := f\<rparr>)"
    using w by (simp add: keeps_all_def follows_def world_inv_def windows_inv_def counted_def)
  from world_keeps [OF w this, of "w_begun w" "w_asked w"] show ?thesis using rewritten by (cases w) simp
next
  case (begins enabled p s)
  have "keeps_all (w_state w) s \<and> prep_ok s p"
    by (rule begin_keeps [OF _ _ _ begins(2,3)]) (use w in \<open>auto simp: world_inv_def\<close>)
  then show ?thesis using world_keeps [OF w, of s "p # w_begun w" "w_asked w"] begins(1) by (cases w) auto
next
  case (asks p sha granted gate ended now plan s)
  have p: "prep_ok (w_state w) p" using w asks(2) by (auto simp: world_inv_def)
  have k: "keeps_all (w_state w) s \<and> s = w_state w \<and> plan_ok (w_state w) plan"
    using request_keeps [OF _ _ _ p asks(3)] w by (auto simp: world_inv_def)
  show ?thesis using world_keeps [OF w, of s "remove1 p (w_begun w)" "(p, plan) # w_asked w"] k p asks(1)
    by (cases w) (auto dest: notin_set_remove1 set_remove1_subset [THEN subsetD])
next
  case (waits p sha granted gate ended now n s)
  have p: "prep_ok (w_state w) p" using w waits(2) by (auto simp: world_inv_def)
  have k: "keeps_all (w_state w) s" using request_keeps [OF _ _ _ p waits(3)] w by (auto simp: world_inv_def)
  show ?thesis using world_keeps [OF w k, of "remove1 p (w_begun w)" "w_asked w"] waits(1)
    by (cases w) (auto dest: set_remove1_subset [THEN subsetD])
next
  case (settles p plan granted reply now)
  have p: "prep_ok (w_state w) p" "plan_ok (w_state w) plan" using w settles(2) by (auto simp: world_inv_def)
  have k: "keeps_all (w_state w) (snd (fetch_settle granted p plan reply now (w_state w)))"
    by (rule fetch_settle_keeps [OF _ _ _ p]) (use w in \<open>auto simp: world_inv_def\<close>)
  show ?thesis using world_keeps [OF w k, of "w_begun w" "remove1 (p, plan) (w_asked w)"] settles(1)
    by (cases w) (auto dest: set_remove1_subset [THEN subsetD])
qed

lemma reach_world: "rc_reach w \<Longrightarrow> world_inv w"
proof (induction rule: rc_reach.induct)
  case (starts granted url ws env key path anon disk)
  let ?n = "newRemoteConfigState url ws env key path anon disk"
  have n: "rc_inv ?n" "rs_cleared ?n = (\<lambda>_. None)" by (simp_all add: newRemoteConfigState_def rc_inv_defs Let_def)
  obtain d t where d: "durableRecord (if granted then rs_scope ?n else rs_anonymousScope ?n) ?n = (d, t)"
    by (cases "durableRecord (if granted then rs_scope ?n else rs_anonymousScope ?n) ?n")
  then obtain f where t: "t = ?n\<lparr>rs_file := f\<rparr>" using durable_record by blast
  have "windows_inv (preload granted ?n) \<and> counted (preload granted ?n)"
    by (auto simp: preload_def d t windows_inv_def counted_def Let_def split: option.split)
       (auto simp: newRemoteConfigState_def Let_def)
  then show ?case using preload_inv [OF n] by (simp add: world_inv_def)
qed (rule step_world)

text \<open>C10. However fetches overlap and whatever the cache file holds, the values and version the getters serve
  are those of the body of the held record, which belongs to this client's scopes and is readable; a
  withdrawn publication is neither held nor offered as a fallback; no scope is settled by a fetch that has
  not begun.\<close>

theorem remote_config_invariant:
  assumes "rc_reach w"
  shows "world_inv w \<and>
    (case RemoteConfigValues granted (w_state w) of None \<Rightarrow> True
     | Some v \<Rightarrow> \<exists>h. rs_held (w_state w) = Some h \<and>
         parseRemoteConfigBody (rc_Body h) = Some (v, RemoteConfigVersion granted (w_state w)))"
proof -
  have inv: "world_inv w" by (rule reach_world [OF assms])
  then have "served_inv (w_state w)" by (simp add: world_inv_def rc_inv_def)
  then show ?thesis using inv
    by (auto simp: RemoteConfigValues_def RemoteConfigVersion_def served_inv_def split: option.splits)
qed


definition sample_world :: rc_world where
  "sample_world =
     \<lparr>w_state = preload True (newRemoteConfigState ''https://a'' ''w'' ''e'' ''k'' [] ''c'' \<lparr>pf_data = None, pf_outcomes = []\<rparr>),
      w_begun = [], w_asked = []\<rparr>"

lemma sample_reach: "rc_reach sample_world"
  unfolding sample_world_def by (rule rc_reach.starts)

lemma sample_initial:
  "rs_closedScopes (w_state sample_world) = (\<lambda>_. [])" "rs_fetchSeq (w_state sample_world) = 0" "rs_settled (w_state sample_world) = (\<lambda>_. 0)"
  "rs_clientID (w_state sample_world) = ''c''" "rs_held (w_state sample_world) = None" "rs_retryWindows (w_state sample_world) = (\<lambda>_. None)"
  "rs_snapshot (w_state sample_world) = None" "rs_cachePath (w_state sample_world) = []"
  by (simp_all add: sample_world_def preload_def newRemoteConfigState_def Let_def)

theorem remote_config_invariant_witness:
  "world_inv sample_world"
  using remote_config_invariant [OF sample_reach] by (rule conjunct1)

text \<open>The closed scopes of a successor: a section of a fetch opens a closed scope only by installing.\<close>

lemma settle_closed:
  assumes ok: "outcome_ok scope srv out" and c: "rs_closedScopes s sc \<noteq> []"
    and s': "s' = snd (settleRemoteConfigLocked granted seq scope out srv resp now s)" and opn: "rs_closedScopes s' sc = []"
  shows "sc = scope \<and> rs_settled s sc < seq \<and> rs_settled s' sc = seq \<and> o_authoritative out \<and> o_failure out = [] \<and>
    (\<exists>h. rs_held s' = Some h \<and> rc_Scope h = sc \<and> offers (o_result out) (rc_Body h))"
proof (cases rule: settle_cases [OF ok s', case_names apart closes keeps installs adopts])
  case apart
  then show ?thesis using c opn by simp
next
  case (closes f w)
  then show ?thesis using c opn by (auto simp: closed_by_def withdrawn_def settled_state_def split: if_splits)
next
  case (keeps f w)
  then show ?thesis using c opn by (auto simp: settled_state_def)
next
  case (installs f w h)
  then have "sc = scope" using c opn by (auto simp: installed_def settled_state_def split: if_splits)
  then show ?thesis using installs by (auto simp: installed_def settled_state_def)
next
  case (adopts w)
  then show ?thesis using c opn by (auto simp: install_snapshot_def)
qed

lemma fetch_settle_state:
  "snd (fetch_settle granted p plan reply now s) = s \<or>
   (\<exists>resp. snd (fetch_settle granted p plan reply now s) =
       snd (settleRemoteConfigLocked granted (fp_seq p) (pl_scope plan) (fetch_outcome plan resp now) (pl_cache plan) resp now s))"
  by (cases reply) (auto simp: fetch_settle_def Let_def case_prod_beta)

lemma request_state:
  "snd (fetch_request sha granted gate ended now p s) = s \<or>
   (\<exists>w. rs_retryWindows s (pl_scope (fetch_plan_of sha granted gate p s)) = Some w \<and>
     snd (fetch_request sha granted gate ended now p s) =
       snd (settleRemoteConfigLocked granted (fp_seq p) (pl_scope (fetch_plan_of sha granted gate p s))
         (served (serveRemoteConfigCache (pl_cache (fetch_plan_of sha granted gate p s)) (rw_reason w)))
         (pl_cache (fetch_plan_of sha granted gate p s)) zero_response now s))"
  by (auto simp: fetch_request_def Let_def case_prod_beta split: option.split)

lemma begin_closed: "rs_closedScopes (snd (fetch_begin enabled s)) = rs_closedScopes s"
proof -
  have d: "rs_closedScopes (snd (loadCacheLocked sc t)) = rs_closedScopes t" for sc t
    using durable_record [of sc t "fst (durableRecord sc t)" "snd (durableRecord sc t)"]
    by (auto simp: loadCacheLocked_def Let_def case_prod_beta)
  show ?thesis by (simp add: fetch_begin_def Let_def case_prod_beta d)
qed

text \<open>C37. While a scope is closed by an authoritative refusal, no getter serves anything for it; it is opened
  again only when a fetch that began later than every fetch settled in the scope settles with a record of
  that scope, from a success or a revalidation, which is then the held one.\<close>

theorem closed_until_installed:
  assumes reach: "rc_reach w" and step: "rc_step w w'" and closed: "rs_closedScopes (w_state w) sc \<noteq> []"
  shows "(if sc = currentRemoteConfigScope granted (w_state w)
      then RemoteConfigValues granted (w_state w) = None \<and> RemoteConfigValue granted key (w_state w) = None \<and>
        RemoteConfigString granted key def (w_state w) = def else True) \<and>
    (rs_closedScopes (w_state w') sc \<noteq> [] \<or>
     (\<exists>p plan h. (p, plan) \<in> set (w_asked w) \<and> pl_scope plan = sc \<and> rs_settled (w_state w) sc < fp_seq p \<and>
        rs_settled (w_state w') sc = fp_seq p \<and> rs_held (w_state w') = Some h \<and> rc_Scope h = sc))"
proof
  show "if sc = currentRemoteConfigScope granted (w_state w)
      then RemoteConfigValues granted (w_state w) = None \<and> RemoteConfigValue granted key (w_state w) = None \<and>
        RemoteConfigString granted key def (w_state w) = def else True"
    using closed by (auto simp: RemoteConfigValues_def RemoteConfigValue_def RemoteConfigString_def remoteConfigLookup_def)
  have inv: "world_inv w" by (rule reach_world [OF reach])
  from step show "rs_closedScopes (w_state w') sc \<noteq> [] \<or>
     (\<exists>p plan h. (p, plan) \<in> set (w_asked w) \<and> pl_scope plan = sc \<and> rs_settled (w_state w) sc < fp_seq p \<and>
        rs_settled (w_state w') sc = fp_seq p \<and> rs_held (w_state w') = Some h \<and> rc_Scope h = sc)"
  proof cases
    case (settles p plan g reply now)
    have p: "prep_ok (w_state w) p" "plan_ok (w_state w) plan" using inv settles(2) by (auto simp: world_inv_def)
    have ok: "outcome_ok (pl_scope plan) (pl_cache plan) (fetch_outcome plan resp now)" for resp
      by (rule applied_outcome) (use p in \<open>auto simp: plan_ok_def\<close>)
    show ?thesis using fetch_settle_state [of g p plan reply now "w_state w"] settle_closed [OF ok closed refl] closed settles
      by fastforce
  next
    case (asks p sha g gate ended now plan s)
    have "prep_ok (w_state w) p" using inv asks(2) by (auto simp: world_inv_def)
    then show ?thesis using request_keeps [OF _ _ _ _ asks(3)] inv asks(1) closed by (auto simp: world_inv_def)
  next
    case (waits p sha g gate ended now n s)
    let ?plan = "fetch_plan_of sha g gate p (w_state w)"
    have p: "prep_ok (w_state w) p" using inv waits(2) by (auto simp: world_inv_def)
    have ok: "outcome_ok (pl_scope ?plan) (pl_cache ?plan) (served (serveRemoteConfigCache (pl_cache ?plan) (rw_reason r)))"
      if "rs_retryWindows (w_state w) (pl_scope ?plan) = Some r" for r
      by (rule served_outcome) (use plan_of_ok [OF p] inv that in \<open>auto simp: plan_ok_def world_inv_def windows_inv_def\<close>)
    have "\<not> o_authoritative (served x)" for x by (simp add: served_def)
    then have "rs_closedScopes (snd (fetch_request sha g gate ended now p (w_state w))) sc \<noteq> []"
      using request_state [of sha g gate ended now p "w_state w"] closed settle_closed [OF ok closed refl] by metis
    then have "rs_closedScopes s sc \<noteq> []" using waits(3) by simp
    then show ?thesis using waits(1) by simp
  next
    case (begins enabled p s)
    then show ?thesis using begin_closed [of enabled "w_state w"] closed by simp
  qed (use closed in \<open>auto simp: SetRemoteConfigAttributes_def\<close>)
qed


text \<open>A client whose first fetch the server answers with 401.\<close>

definition sample_prep :: fetch_prep where
  "sample_prep = \<lparr>fp_seq = 1, fp_identified = None, fp_anonymous = None, fp_attributes = []\<rparr>"

definition unauthorized_response :: remoteConfigResponse where
  "unauthorized_response = zero_response\<lparr>rr_status := 401\<rparr>"

definition begun_world :: rc_world where
  "begun_world = sample_world\<lparr>w_state := (w_state sample_world)\<lparr>rs_fetchSeq := 1\<rparr>, w_begun := [sample_prep]\<rparr>"

definition asked_plan :: fetch_plan where
  "asked_plan = fetch_plan_of (\<lambda>s. s) True False sample_prep (w_state begun_world)"

definition asked_world :: rc_world where
  "asked_world = begun_world\<lparr>w_begun := [], w_asked := [(sample_prep, asked_plan)]\<rparr>"

definition refused_world :: rc_world where
  "refused_world = asked_world
     \<lparr>w_state := snd (fetch_settle True sample_prep asked_plan (Reply unauthorized_response) 0 (w_state asked_world)), w_asked := []\<rparr>"

lemma begun_reach: "rc_reach begun_world"
proof -
  have d: "durableRecord sc s = (None, s)" if "rs_cachePath s = []" for sc s using that by (simp add: durableRecord_def)
  have "fetch_begin False (w_state sample_world) = (Some sample_prep, (w_state sample_world)\<lparr>rs_fetchSeq := 1\<rparr>)"
    by (simp add: fetch_begin_def loadCacheLocked_def d sample_initial sample_prep_def Let_def)
  from rc_step.begins [OF this] have "rc_step sample_world begun_world"
    by (simp add: begun_world_def sample_initial) (simp add: sample_world_def)
  then show ?thesis by (rule rc_reach.steps [OF sample_reach])
qed

lemma asked_reach: "rc_reach asked_world"
proof -
  have "fetch_request (\<lambda>s. s) True False False 0 sample_prep (w_state begun_world) = (AskServer asked_plan, w_state begun_world)"
    by (simp add: fetch_request_def asked_plan_def begun_world_def sample_initial Let_def)
  from rc_step.asks [OF _ this] have "rc_step begun_world asked_world"
    by (simp add: begun_world_def asked_world_def) (simp add: sample_world_def)
  then show ?thesis by (rule rc_reach.steps [OF begun_reach])
qed

lemma refused_reach: "rc_reach refused_world"
proof -
  have "rc_step asked_world refused_world"
    using rc_step.settles [of sample_prep asked_plan asked_world True "Reply unauthorized_response" 0]
    by (simp add: asked_world_def refused_world_def)
  then show ?thesis by (rule rc_reach.steps [OF asked_reach])
qed

lemma asked_scope: "pl_scope asked_plan = currentRemoteConfigScope True (w_state asked_world)"
  by (simp add: asked_plan_def fetch_plan_of_def asked_world_def begun_world_def sample_world_def preload_def newRemoteConfigState_def
      currentRemoteConfigScope_def remoteConfigHeaderIdentity_def Let_def)

lemma refused_closed: "rs_closedScopes (w_state refused_world) (currentRemoteConfigScope True (w_state refused_world)) = ''unauthorized''"
proof -
  let ?s = "w_state asked_world"
  have cur: "currentRemoteConfigScope True (w_state refused_world) = pl_scope asked_plan"
  proof -
    have "world_inv asked_world" by (rule reach_world [OF asked_reach])
    then have "follows ?s (w_state refused_world)"
      using fetch_settle_keeps [of ?s sample_prep asked_plan True "Reply unauthorized_response" 0]
      by (simp add: world_inv_def asked_world_def refused_world_def keeps_all_def)
    then show ?thesis by (simp add: asked_scope follows_def currentRemoteConfigScope_def)
  qed
  have out: "fetch_outcome asked_plan unauthorized_response 0 = refused True ''unauthorized''"
    by (simp add: fetch_outcome_def applyRemoteConfig_def unauthorized_response_def zero_response_def refused_def sign_cache_def Let_def)
  have guard: "pl_scope asked_plan = currentRemoteConfigScope True ?s \<and> fp_seq sample_prep > rs_settled ?s (pl_scope asked_plan)"
    by (simp add: asked_scope asked_world_def begun_world_def sample_initial sample_prep_def)
  then have seq: "rs_settled ?s (pl_scope asked_plan) < fp_seq sample_prep" by (rule conjunct2)
  have arm: "armCooldownLocked (pl_scope asked_plan) reason 0 unauthorized_response u = u" for reason u
    by (rule arm_windows(2)) (simp add: unauthorized_response_def)
  have refused: "w_state refused_world = snd (settleRemoteConfigLocked True (fp_seq sample_prep) (pl_scope asked_plan)
      (refused True ''unauthorized'') (pl_cache asked_plan) unauthorized_response 0 ?s)"
    by (simp add: refused_world_def fetch_settle_def Let_def case_prod_beta out)
  have "rs_closedScopes (w_state refused_world) (pl_scope asked_plan) = ''unauthorized''"
    unfolding refused settle_state if_P [OF guard] using seq
    by (simp add: refused_def arm Let_def install_failed settled_state_def)
  then show ?thesis by (simp add: cur)
qed

theorem closed_until_installed_witness:
  "RemoteConfigValues True (w_state refused_world) = None \<and>
   rs_closedScopes (w_state refused_world) (currentRemoteConfigScope True (w_state refused_world)) = ''unauthorized''"
proof -
  have "rs_closedScopes (w_state refused_world) (currentRemoteConfigScope True (w_state refused_world)) \<noteq> []"
    by (simp add: refused_closed)
  from closed_until_installed [OF refused_reach rc_step.rewritten this, of True "[]" "[]"]
  show ?thesis by (simp add: refused_closed)
qed

text \<open>C38. Settlements of a scope are ordered by the beginning of their fetches: they never count back; a fetch
  that began before the last one settled, or for a scope that is not current any more, changes nothing,
  and any other leaves what is kept per scope of the other scopes alone.\<close>

theorem settlement_order:
  assumes "rc_reach w" "(p, plan) \<in> set (w_asked w)"
  shows "let s = w_state w; s' = snd (fetch_settle granted p plan reply now s)
    in rs_settled s sc \<le> rs_settled s' sc \<and>
       (if pl_scope plan \<noteq> currentRemoteConfigScope granted s \<or> fp_seq p \<le> rs_settled s (pl_scope plan) then s' = s
        else sc = pl_scope plan \<or> rs_settled s' sc = rs_settled s sc \<and> rs_closedScopes s' sc = rs_closedScopes s sc \<and>
          rs_cleared s' sc = rs_cleared s sc \<and> rs_retryWindows s' sc = rs_retryWindows s sc)"
proof -
  let ?s = "w_state w" and ?s' = "snd (fetch_settle granted p plan reply now (w_state w))"
  have inv: "rc_inv ?s" "windows_inv ?s" "counted ?s" "prep_ok ?s p" "plan_ok ?s plan"
    using reach_world [OF assms(1)] assms(2) by (auto simp: world_inv_def)
  have "rs_settled ?s sc \<le> rs_settled ?s' sc"
    using fetch_settle_keeps [OF inv] by (simp add: keeps_all_def follows_def)
  moreover have "?s' = ?s" if "pl_scope plan \<noteq> currentRemoteConfigScope granted ?s \<or> fp_seq p \<le> rs_settled ?s (pl_scope plan)"
    using fetch_settle_state [of granted p plan reply now ?s] that by (auto simp: settle_state)
  moreover have "sc = pl_scope plan \<or> rs_settled ?s' sc = rs_settled ?s sc \<and> rs_closedScopes ?s' sc = rs_closedScopes ?s sc \<and>
      rs_cleared ?s' sc = rs_cleared ?s sc \<and> rs_retryWindows ?s' sc = rs_retryWindows ?s sc"
    using fetch_settle_state [of granted p plan reply now ?s]
  proof (elim disjE exE)
    fix resp
    assume s': "?s' = snd (settleRemoteConfigLocked granted (fp_seq p) (pl_scope plan) (fetch_outcome plan resp now) (pl_cache plan) resp now ?s)"
    have ok: "outcome_ok (pl_scope plan) (pl_cache plan) (fetch_outcome plan resp now)"
      by (rule applied_outcome) (use inv in \<open>auto simp: plan_ok_def\<close>)
    show ?thesis
    proof (cases "sc = pl_scope plan")
      case False
      have win: "rs_retryWindows ?s' sc = rs_retryWindows ?s sc" unfolding s' by (rule settle_windows_other [OF False])
      show ?thesis
        by (cases rule: settle_cases [OF ok s']) (use win False in \<open>auto simp: closed_by_def withdrawn_def settled_state_def installed_def install_snapshot_def\<close>)
    qed simp
  qed simp
  ultimately show ?thesis unfolding Let_def by (intro conjI) (assumption, split if_split, blast)
qed


theorem settlement_order_witness:
  "snd (fetch_settle False sample_prep asked_plan (Reply unauthorized_response) 0 (w_state asked_world)) = w_state asked_world"
proof -
  have "(sample_prep, asked_plan) \<in> set (w_asked asked_world)" by (simp add: asked_world_def)
  moreover have "pl_scope asked_plan \<noteq> currentRemoteConfigScope False (w_state asked_world)"
    by (simp add: asked_scope) (simp add: asked_world_def begun_world_def sample_world_def preload_def newRemoteConfigState_def
      currentRemoteConfigScope_def remoteConfigHeaderIdentity_def buildRemoteConfigScope_def escapeRemoteConfigSegment_def escape_segment_byte_def Let_def)
  ultimately show ?thesis
    using settlement_order [OF asked_reach, of sample_prep asked_plan False "Reply unauthorized_response" 0 "[]"] by (simp add: Let_def)
qed

text \<open>A cooldown only ever moves later, and never further than twenty-four hours from the response that
  asked for it; only a response with 429 or a server error moves it, for its own scope; and before it is
  over no request is made for the scope.\<close>

theorem cooldown_bounded:
  "let s' = snd (fetch_settle granted p plan reply now s); resp = (case reply of Reply r \<Rightarrow> r | ReplyError _ r \<Rightarrow> r)
   in armed now (rs_retryWindows s sc) (rs_retryWindows s' sc) \<and>
      (rs_retryWindows s' sc = rs_retryWindows s sc \<or> sc = pl_scope plan \<and> (rr_status resp = 429 \<or> rr_status resp \<ge> 500)) \<and>
      (case (rs_retryWindows s (pl_scope (fetch_plan_of sha granted gate p s)), fst (fetch_request sha granted gate ended now p s)) of
         (Some w, AskServer _) \<Rightarrow> until w \<le> now
       | _ \<Rightarrow> True)"
proof -
  let ?s' = "snd (fetch_settle granted p plan reply now s)"
  let ?settle = "\<lambda>resp. snd (settleRemoteConfigLocked granted (fp_seq p) (pl_scope plan) (fetch_outcome plan resp now) (pl_cache plan) resp now s)"
  define resp where "resp = (case reply of Reply r \<Rightarrow> r | ReplyError _ r \<Rightarrow> r)"
  define r where "r = (case reply of Reply r \<Rightarrow> r | ReplyError _ r \<Rightarrow> if rr_status r = 0 then zero_response else r)"
  have r: "?s' = s \<or> ?s' = ?settle r" "rr_status r = rr_status resp"
    by (cases reply; simp add: r_def resp_def fetch_settle_def zero_response_def Let_def case_prod_beta)+
  have armed: "armed now (rs_retryWindows s sc) (rs_retryWindows (?settle r) sc)"
    unfolding settle_windows using arm_windows(1) [of now s sc] by (simp add: armed_def split: if_split)
  have moved: "rs_retryWindows (?settle r) sc = rs_retryWindows s sc \<or> sc = pl_scope plan \<and> (rr_status r = 429 \<or> rr_status r \<ge> 500)"
  proof (cases "sc = pl_scope plan \<and> (rr_status r = 429 \<or> rr_status r \<ge> 500)")
    case False
    then have "sc \<noteq> pl_scope plan \<or> rr_status r \<noteq> 429 \<and> rr_status r < 500" by auto
    then show ?thesis
    proof
      assume "rr_status r \<noteq> 429 \<and> rr_status r < 500"
      from arm_windows(2) [OF this] show ?thesis by (simp add: settle_windows)
    qed (simp add: settle_windows_other)
  qed simp
  have wait: "case (rs_retryWindows s (pl_scope (fetch_plan_of sha granted gate p s)), fst (fetch_request sha granted gate ended now p s)) of
         (Some w, AskServer _) \<Rightarrow> until w \<le> now
       | _ \<Rightarrow> True"
    by (auto simp: fetch_request_def Let_def case_prod_beta split: option.split fetch_next.split)
  have "armed now w w" for w by (simp add: armed_def)
  then show ?thesis using r armed moved wait by (auto simp: Let_def resp_def [symmetric])
qed

end
