(* ===== verification/Consent_Record.thy ===== *)
theory Consent_Record
  imports Consent_Actor Private_File Json_Members
begin

text \<open>
  The notice a decision names (\<open>consent_notice.go\<close>) and the durable record of the last decision
  (\<open>consent_record.go\<close>): reading it for an actor, writing it, marking it unwitnessed, and the comparisons of
  decision stamps.

  A regular expression is the predicate it denotes, over the subtags of the locale where it is one of
  subtags.  The record file is a \<open>private_file\<close>; creating the private directory is part of its write.
\<close>

section \<open>The notice\<close>

record ConsentNotice =
  NoticeVersion :: gostring
  NoticeLocale :: gostring
  NoticePolicyVersion :: gostring

definition no_notice :: ConsentNotice where
  "no_notice = \<lparr>NoticeVersion = [], NoticeLocale = [], NoticePolicyVersion = []\<rparr>"

definition consentNoticeVersion :: "gostring \<Rightarrow> bool" where
  "consentNoticeVersion s \<longleftrightarrow> 1 \<le> length s \<and> length s \<le> 64 \<and> list_all (\<lambda>c. is_alnum c \<or> c \<in> set ''._+/-'') s"

fun split_on :: "char \<Rightarrow> gostring \<Rightarrow> gostring list" where
  "split_on d [] = [[]]"
| "split_on d (c # s) = (if c = d then [] # split_on d s else (case split_on d s of [] \<Rightarrow> [[c]] | w # ws \<Rightarrow> (c # w) # ws))"

definition alphas :: "nat \<Rightarrow> nat \<Rightarrow> gostring \<Rightarrow> bool" where
  "alphas lo hi s \<longleftrightarrow> lo \<le> length s \<and> length s \<le> hi \<and> list_all is_lower s"

definition alnums :: "nat \<Rightarrow> nat \<Rightarrow> gostring \<Rightarrow> bool" where
  "alnums lo hi s \<longleftrightarrow> lo \<le> length s \<and> length s \<le> hi \<and> list_all (\<lambda>c. is_lower c \<or> is_digit c) s"

definition digits :: "nat \<Rightarrow> gostring \<Rightarrow> bool" where
  "digits n s \<longleftrightarrow> length s = n \<and> list_all is_digit s"

definition variant_subtag :: "gostring \<Rightarrow> bool" where
  "variant_subtag s \<longleftrightarrow> alnums 5 8 s \<or> alnums 4 4 s \<and> is_digit (hd s)"

text \<open>Private use: \<open>x\<close> and at least one subtag.\<close>

definition private_use :: "gostring list \<Rightarrow> bool" where
  "private_use ts \<longleftrightarrow> (case ts of [] \<Rightarrow> False | t # us \<Rightarrow> t = ''x'' \<and> us \<noteq> [] \<and> list_all (alnums 1 8) us)"

text \<open>Extensions, each a singleton other than \<open>x\<close> with at least one subtag, then private use.  The flags: a
  singleton still needs a subtag; an extension has begun.\<close>

fun extensions :: "bool \<Rightarrow> bool \<Rightarrow> gostring list \<Rightarrow> bool" where
  "extensions needs began [] = (\<not> needs)"
| "extensions needs began (t # ts) =
     (if alnums 1 1 t then
        (if needs then False else if t = ''x'' then private_use (t # ts) else extensions True True ts)
      else alnums 2 8 t \<and> began \<and> extensions False began ts)"

definition skip_if :: "(gostring \<Rightarrow> bool) \<Rightarrow> gostring list \<Rightarrow> gostring list" where
  "skip_if p ts = (case ts of [] \<Rightarrow> [] | t # us \<Rightarrow> if p t then us else ts)"

definition langtag :: "gostring list \<Rightarrow> bool" where
  "langtag ts \<longleftrightarrow>
     (case ts of [] \<Rightarrow> False
      | l # us \<Rightarrow>
          (let after = (if alphas 2 3 l then drop (min 3 (length (takeWhile (alphas 3 3) us))) us else us);
               after = skip_if (\<lambda>s. alphas 2 2 s \<or> digits 3 s) (skip_if (alphas 4 4) after)
           in alphas 2 8 l \<and> extensions False False (dropWhile variant_subtag after)))"

definition grandfathered :: "gostring list" where
  "grandfathered = ''en-gb-oed'' # map ((@) ''i-'') [''ami'', ''bnn'', ''default'', ''enochian'', ''hak'', ''klingon'', ''lux'', ''mingo'',
     ''navajo'', ''pwn'', ''tao'', ''tay'', ''tsu''] @ [''sgn-be-fr'', ''sgn-be-nl'', ''sgn-ch-de'']"

definition consentNoticeLocale :: "gostring \<Rightarrow> bool" where
  "consentNoticeLocale s \<longleftrightarrow>
     (let l = to_lower s; ts = split_on (CHR ''-'') l in langtag ts \<or> private_use ts \<or> l \<in> set grandfathered)"

fun unique_subtags :: "gostring list \<Rightarrow> char list \<Rightarrow> bool \<Rightarrow> gostring list \<Rightarrow> bool" where
  "unique_subtags variants singletons inExtension [] = True"
| "unique_subtags variants singletons inExtension (t # ts) =
     (if t = ''x'' then True
      else if length t = 1 then hd t \<notin> set singletons \<and> unique_subtags variants (hd t # singletons) True ts
      else if \<not> inExtension \<and> (length t \<ge> 5 \<or> length t = 4 \<and> is_digit (hd t)) then
        t \<notin> set variants \<and> unique_subtags (t # variants) singletons inExtension ts
      else unique_subtags variants singletons inExtension ts)"

definition uniqueConsentLocaleSubtags :: "gostring \<Rightarrow> bool" where
  "uniqueConsentLocaleSubtags locale =
     (let subtags = split_on (CHR ''-'') (to_lower locale)
      in if hd subtags = ''x'' then True else unique_subtags [] [] False (tl subtags))"

definition notice_valid :: "ConsentNotice \<Rightarrow> bool" where
  "notice_valid n \<longleftrightarrow>
     (if length (NoticeVersion n) > 64 \<or> length (NoticePolicyVersion n) > 64 \<or> length (NoticeLocale n) < 2 \<or> length (NoticeLocale n) > 35
      then False
      else if list_ex (\<lambda>c. ord c \<ge> 128) (NoticeLocale n) then False
      else consentNoticeVersion (NoticeVersion n) \<and> consentNoticeVersion (NoticePolicyVersion n) \<and>
           consentNoticeLocale (NoticeLocale n) \<and> uniqueConsentLocaleSubtags (NoticeLocale n))"

definition snapshotConsentNotice :: "ConsentNotice list \<Rightarrow> ConsentNotice \<times> bool" where
  "snapshotConsentNotice notices =
     (case notices of
        [] \<Rightarrow> (no_notice, True)
      | n # ns \<Rightarrow> if ns \<noteq> [] \<or> \<not> notice_valid n then (no_notice, False) else (n, True))"

section \<open>Decisions\<close>

datatype ConsentState = ConsentUnknown | ConsentGranted | ConsentDenied | ConsentDeniedForcedMinor

definition DecisionGranted :: gostring where "DecisionGranted = ''granted''"
definition DecisionDenied :: gostring where "DecisionDenied = ''denied''"
definition DecisionDeniedForcedMinor :: gostring where "DecisionDeniedForcedMinor = ''denied_forced_minor''"
definition consentAnalyticsUnwitnessed :: gostring where "consentAnalyticsUnwitnessed = ''denied''"

lemmas decision_defs = DecisionGranted_def DecisionDenied_def DecisionDeniedForcedMinor_def

record consentRecordWire =
  ConsentAnalytics :: gostring
  WithheldAnalytics :: gostring
  ActorDigest :: gostring
  wire_DecidedAt :: gostring
  wire_Floor :: bool
  wire_Unwitnessed :: bool
  wire_UnwitnessedAt :: gostring

record consentRecordInfo =
  info_state :: ConsentState
  info_decidedAt :: gostring
  info_floor :: bool
  info_unwitnessed :: bool
  info_unwitnessedAt :: gostring

definition consentRecordReadLimit :: nat where "consentRecordReadLimit = 8 * 1024"

text \<open>\<open>json.Marshal\<close> of the record; its \<open>omitempty\<close> fields are left out when zero.\<close>

definition record_members :: "consentRecordWire \<Rightarrow> (gostring \<times> gostring \<times> json) list" where
  "record_members w =
     [str_member ''consent_analytics'' (ConsentAnalytics w)] @ opt_str ''withheld_analytics'' (WithheldAnalytics w) @
     [str_member ''actor_digest'' (ActorDigest w)] @ opt_str ''decided_at'' (wire_DecidedAt w) @ opt_flag ''floor'' (wire_Floor w) @
     opt_flag ''unwitnessed'' (wire_Unwitnessed w) @ opt_str ''unwitnessed_at'' (wire_UnwitnessedAt w)"

definition marshal_record :: "consentRecordWire \<Rightarrow> gostring" where
  "marshal_record w = enc_object (map member_pair (record_members w))"

definition zero_record :: consentRecordWire where
  "zero_record = \<lparr>ConsentAnalytics = [], WithheldAnalytics = [], ActorDigest = [], wire_DecidedAt = [], wire_Floor = False,
     wire_Unwitnessed = False, wire_UnwitnessedAt = []\<rparr>"

definition decode_record :: "(gostring \<times> gostring \<times> json) list \<Rightarrow> consentRecordWire option" where
  "decode_record ms = do {
     a \<leftarrow> dstring ''consent_analytics'' ms; w \<leftarrow> dstring ''withheld_analytics'' ms; d \<leftarrow> dstring ''actor_digest'' ms;
     t \<leftarrow> dstring ''decided_at'' ms; f \<leftarrow> decode_field as_bool False ''floor'' ms;
     u \<leftarrow> decode_field as_bool False ''unwitnessed'' ms; ut \<leftarrow> dstring ''unwitnessed_at'' ms;
     Some \<lparr>ConsentAnalytics = a, WithheldAnalytics = w, ActorDigest = d, wire_DecidedAt = t, wire_Floor = f,
       wire_Unwitnessed = u, wire_UnwitnessedAt = ut\<rparr> }"

definition unmarshal_record :: "gostring \<Rightarrow> consentRecordWire option" where
  "unmarshal_record data =
     (case parse_json data of Some JNull \<Rightarrow> Some zero_record | Some (JObj ms) \<Rightarrow> decode_record ms | _ \<Rightarrow> None)"

section \<open>Reading\<close>

datatype consentRecordRead = RecordParsed | RecordAbsent | RecordUnusable | RecordForeign

definition no_info :: consentRecordInfo where
  "no_info = \<lparr>info_state = ConsentUnknown, info_decidedAt = [], info_floor = False, info_unwitnessed = False, info_unwitnessedAt = []\<rparr>"

definition record_state :: "gostring \<Rightarrow> ConsentState option" where
  "record_state a =
     (if a = ''granted'' then Some ConsentGranted else if a = ''denied'' then Some ConsentDenied
      else if a = ''denied_forced_minor'' then Some ConsentDeniedForcedMinor else None)"

definition interpret_record :: "gostring \<Rightarrow> consentRecordWire \<Rightarrow> consentRecordInfo \<times> bool \<times> consentRecordRead" where
  "interpret_record actorDigest r =
     (let none = no_info\<lparr>info_unwitnessed := wire_Unwitnessed r, info_unwitnessedAt := wire_UnwitnessedAt r\<rparr>
      in if ActorDigest r = [] \<or> ConsentAnalytics r = [] then (none, False, RecordUnusable)
         else if ActorDigest r \<noteq> actorDigest then (none\<lparr>info_decidedAt := wire_DecidedAt r\<rparr>, False, RecordForeign)
         else
           let withheld = (ConsentAnalytics r = consentAnalyticsUnwitnessed \<and> WithheldAnalytics r \<noteq> []);
               info = \<lparr>info_state = ConsentUnknown, info_decidedAt = wire_DecidedAt r, info_floor = wire_Floor r,
                 info_unwitnessed = wire_Unwitnessed r \<or> withheld, info_unwitnessedAt = wire_UnwitnessedAt r\<rparr>;
               none = (if withheld then none\<lparr>info_unwitnessed := True\<rparr> else none)
           in case record_state (if withheld then WithheldAnalytics r else ConsentAnalytics r) of
                None \<Rightarrow> (none, False, RecordUnusable)
              | Some st \<Rightarrow>
                  let info = info\<lparr>info_state := st\<rparr>
                  in if wire_Floor r \<and> parse_rfc3339 (wire_DecidedAt r) = None then
                       (if st = ConsentGranted then (none, False, RecordAbsent)
                        else (info\<lparr>info_decidedAt := []\<rparr>, True, RecordParsed))
                     else (info, True, RecordParsed))"

definition read_wire :: "gostring \<Rightarrow> consentRecordWire option" where
  "read_wire data = (if length data > consentRecordReadLimit then None else unmarshal_record data)"

definition read_result :: "gostring \<Rightarrow> file_read \<Rightarrow> consentRecordInfo \<times> bool \<times> consentRecordRead" where
  "read_result actorDigest got =
     (case got of
        Absent \<Rightarrow> (no_info, False, RecordAbsent)
      | Unreadable \<Rightarrow> (no_info, False, RecordUnusable)
      | Content data \<Rightarrow> (case read_wire data of None \<Rightarrow> (no_info, False, RecordUnusable) | Some r \<Rightarrow> interpret_record actorDigest r))"

definition loadConsentRecordRead :: "gostring \<Rightarrow> private_file \<Rightarrow> (consentRecordInfo \<times> bool \<times> consentRecordRead) \<times> private_file" where
  "loadConsentRecordRead actorDigest f = (let (got, f) = pf_read f in (read_result actorDigest got, f))"

definition loadConsentRecordInfo :: "gostring \<Rightarrow> private_file \<Rightarrow> (consentRecordInfo \<times> bool) \<times> private_file" where
  "loadConsentRecordInfo actorDigest f = (let ((info, ok, _), f) = loadConsentRecordRead actorDigest f in ((info, ok), f))"

definition loadConsentRecord :: "gostring \<Rightarrow> private_file \<Rightarrow> (ConsentState \<times> bool) \<times> private_file" where
  "loadConsentRecord actorDigest f =
     (let ((info, ok), f) = loadConsentRecordInfo actorDigest f
      in (if ok \<and> info_state info = ConsentGranted \<and> info_unwitnessed info then (ConsentUnknown, False) else (info_state info, ok), f))"

section \<open>Comparing stamps\<close>

definition after_stamp :: "gostring \<Rightarrow> gostring \<Rightarrow> bool" where
  "after_stamp at than =
     (case (parse_rfc3339 at, parse_rfc3339 than) of (Some t, Some b) \<Rightarrow> b < t | _ \<Rightarrow> False)"

definition consentDecisionSupersedes :: "gostring \<Rightarrow> gostring \<Rightarrow> bool" where
  "consentDecisionSupersedes at than = (if than = [] \<or> at = [] then False else after_stamp at than)"

definition consentMarkSupersededBy :: "consentRecordInfo \<Rightarrow> gostring \<Rightarrow> bool" where
  "consentMarkSupersededBy info decidedAt =
     (if \<not> info_unwitnessed info then True
      else if info_unwitnessedAt info = [] \<or> decidedAt = [] then False
      else after_stamp decidedAt (info_unwitnessedAt info))"

definition consentReceiptNewerThanRecord :: "gostring \<Rightarrow> gostring \<Rightarrow> bool" where
  "consentReceiptNewerThanRecord receiptDecidedAt recordDecidedAt =
     (if receiptDecidedAt = [] \<or> recordDecidedAt = [] then False else after_stamp receiptDecidedAt recordDecidedAt)"

definition consentReceiptSupersedesRecord :: "gostring \<Rightarrow> consentRecordInfo \<Rightarrow> bool" where
  "consentReceiptSupersedesRecord receiptDecidedAt r = consentReceiptNewerThanRecord receiptDecidedAt (info_decidedAt r)"

section \<open>Writing\<close>

definition saveConsentRecord :: "gostring \<Rightarrow> gostring \<Rightarrow> gostring \<Rightarrow> bool \<Rightarrow> private_file \<Rightarrow> bool \<times> private_file" where
  "saveConsentRecord decision actorDigest decidedAt floorAuthored f =
     pf_write (marshal_record (zero_record\<lparr>ConsentAnalytics := decision, ActorDigest := actorDigest, wire_DecidedAt := decidedAt,
       wire_Floor := floorAuthored\<rparr>)) f"

definition state_decision :: "ConsentState \<Rightarrow> gostring option" where
  "state_decision st =
     (case st of ConsentGranted \<Rightarrow> Some DecisionGranted | ConsentDenied \<Rightarrow> Some DecisionDenied
      | ConsentDeniedForcedMinor \<Rightarrow> Some DecisionDeniedForcedMinor | ConsentUnknown \<Rightarrow> None)"

definition markConsentRecordUnwitnessed :: "consentRecordInfo \<Rightarrow> gostring \<Rightarrow> gostring \<Rightarrow> private_file \<Rightarrow> bool \<times> private_file" where
  "markConsentRecordUnwitnessed info actorDigest unwitnessedAt f =
     (case state_decision (info_state info) of
        None \<Rightarrow> (True, f)
      | Some decision \<Rightarrow>
          let wire = \<lparr>ConsentAnalytics = decision, WithheldAnalytics = [], ActorDigest = actorDigest, wire_DecidedAt = info_decidedAt info,
                wire_Floor = info_floor info, wire_Unwitnessed = True, wire_UnwitnessedAt = unwitnessedAt\<rparr>;
              wire = (if decision = DecisionGranted then
                        (let wire = (if consentDecisionSupersedes unwitnessedAt (wire_DecidedAt wire) then wire\<lparr>wire_DecidedAt := unwitnessedAt\<rparr> else wire)
                         in wire\<lparr>WithheldAnalytics := decision, ConsentAnalytics := consentAnalyticsUnwitnessed\<rparr>)
                      else wire)
          in pf_write (marshal_record wire) f)"

end
