(* ===== verification/Consent_Facts.thy ===== *)
theory Consent_Facts
  imports Consent_Record
begin

text \<open>
  What the durable consent record guarantees: a record that was written reads back for its own actor and for
  no other, only a witnessed grant is ever loaded as a grant, and a record marked unwitnessed never is.
\<close>

section \<open>The record reads back\<close>

lemma record_plain:
  "plain ''consent_analytics''" "plain ''withheld_analytics''" "plain ''actor_digest''" "plain ''decided_at''" "plain ''floor''"
  "plain ''unwitnessed''" "plain ''unwitnessed_at''"
  by code_simp+

lemma record_lower:
  "to_lower ''consent_analytics'' = ''consent_analytics''"
  "to_lower ''withheld_analytics'' = ''withheld_analytics''"
  "to_lower ''actor_digest'' = ''actor_digest''"
  "to_lower ''decided_at'' = ''decided_at''"
  "to_lower ''floor'' = ''floor''"
  "to_lower ''unwitnessed'' = ''unwitnessed''"
  "to_lower ''unwitnessed_at'' = ''unwitnessed_at''"
  by code_simp+

definition record_utf8 :: "consentRecordWire \<Rightarrow> bool" where
  "record_utf8 w \<longleftrightarrow> list_all utf8_valid [ConsentAnalytics w, WithheldAnalytics w, ActorDigest w, wire_DecidedAt w, wire_UnwitnessedAt w]"

lemma decode_record_members: "decode_record (record_members w) = Some w"
proof -
  let ?ms = "record_members w"
  note f = record_members_def field_members record_lower
  have "dstring ''consent_analytics'' ?ms = Some (ConsentAnalytics w)" by (rule dstring_one) (simp add: f)
  moreover have "dstring ''withheld_analytics'' ?ms = Some (WithheldAnalytics w)" by (rule dstring_opt') (simp add: f)
  moreover have "dstring ''actor_digest'' ?ms = Some (ActorDigest w)" by (rule dstring_one) (simp add: f)
  moreover have "dstring ''decided_at'' ?ms = Some (wire_DecidedAt w)" by (rule dstring_opt') (simp add: f)
  moreover have "decode_field as_bool False ''floor'' ?ms = Some (wire_Floor w)" by (rule dflag) (simp add: f)
  moreover have "decode_field as_bool False ''unwitnessed'' ?ms = Some (wire_Unwitnessed w)" by (rule dflag) (simp add: f)
  moreover have "dstring ''unwitnessed_at'' ?ms = Some (wire_UnwitnessedAt w)" by (rule dstring_opt') (simp add: f)
  ultimately show ?thesis by (simp add: decode_record_def)
qed

lemma record_members_ok: "record_utf8 w \<Longrightarrow> list_all (member_ok d) (record_members w)"
  by (simp add: record_members_def record_utf8_def members_ok record_plain)

lemma unmarshal_marshal_record: "record_utf8 w \<Longrightarrow> unmarshal_record (marshal_record w) = Some w"
proof -
  assume "record_utf8 w"
  then have "parse_json (marshal_record w) = Some (JObj (record_members w))"
    unfolding marshal_record_def by (intro parse_object record_members_ok) (simp_all add: record_members_def)
  then show ?thesis by (simp add: unmarshal_record_def decode_record_members)
qed

lemma load_cases:
  assumes "loadConsentRecordRead a f = (res, f')"
  obtains got where "pf_read f = (got, f')" "res = read_result a got"
  using assms by (cases "pf_read f") (simp add: loadConsentRecordRead_def)

lemma written_then_loaded:
  assumes w: "pf_write (marshal_record w) f = (True, f1)" and l: "loadConsentRecordRead a f1 = (res, f2)"
    and u: "record_utf8 w"
  shows "(fst (pf_read f1) = Unreadable \<or> length (marshal_record w) > consentRecordReadLimit) \<and> res = (no_info, False, RecordUnusable)
    \<or> res = interpret_record a w"
proof -
  obtain got where got: "pf_read f1 = (got, f2)" "res = read_result a got" using load_cases [OF l] .
  have rt: "unmarshal_record (marshal_record w) = Some w" using u by (rule unmarshal_marshal_record)
  have "got = Unreadable \<or> got = Content (marshal_record w)" by (rule pf.written_then_read [OF w got(1)])
  with got rt show ?thesis by (auto simp: read_result_def read_wire_def)
qed

text \<open>C39. A saved decision is what the next load finds: for the same actor its state, stamp and origin, for any
  other actor nothing but a foreign record; the only other outcome is a load that cannot read the file and
  says so.\<close>

theorem saved_record_loads:
  assumes "saveConsentRecord decision digest at floor f = (True, f1)"
    and "loadConsentRecordRead actor f1 = ((info, ok, how), f2)"
    and "record_state decision = Some st" and "digest \<noteq> []" and "list_all utf8_valid [digest, at]"
    and "floor \<longrightarrow> parse_rfc3339 at \<noteq> None"
    and "length (marshal_record (zero_record\<lparr>ConsentAnalytics := decision, ActorDigest := digest, wire_DecidedAt := at,
           wire_Floor := floor\<rparr>)) \<le> consentRecordReadLimit"
  shows "fst (pf_read f1) = Unreadable \<and> how = RecordUnusable \<and> \<not> ok \<or>
    (if actor = digest
     then how = RecordParsed \<and> ok \<and> info = \<lparr>info_state = st, info_decidedAt = at, info_floor = floor,
            info_unwitnessed = False, info_unwitnessedAt = []\<rparr>
     else how = RecordForeign \<and> \<not> ok \<and> info_state info = ConsentUnknown)"
proof -
  let ?w = "zero_record\<lparr>ConsentAnalytics := decision, ActorDigest := digest, wire_DecidedAt := at, wire_Floor := floor\<rparr>"
  have "decision \<noteq> []" "utf8_valid decision" using assms(3) by (auto simp: record_state_def split: if_splits) (code_simp+)
  moreover have "utf8_valid []" by code_simp
  ultimately have "record_utf8 ?w" using assms(5) by (simp add: record_utf8_def zero_record_def)
  from written_then_loaded [OF assms(1) [unfolded saveConsentRecord_def] assms(2) this]
  show ?thesis
    using assms(3,4,6,7) \<open>decision \<noteq> []\<close> by (auto simp: interpret_record_def zero_record_def no_info_def Let_def split: option.splits)
qed

section \<open>Only a witnessed grant loads as one\<close>

lemma interpret_granted:
  assumes "interpret_record a w = (info, True, how)" and "info_state info = ConsentGranted" and "\<not> info_unwitnessed info"
  shows "ActorDigest w = a \<and> ConsentAnalytics w = DecisionGranted \<and> \<not> wire_Unwitnessed w \<and>
    (wire_Floor w \<longrightarrow> parse_rfc3339 (wire_DecidedAt w) \<noteq> None)"
  using assms
  by (auto simp: interpret_record_def no_info_def Let_def record_state_def DecisionGranted_def consentAnalyticsUnwitnessed_def
      split: if_splits option.splits)

text \<open>A client starts with analytics granted only from a record in its file that names its own actor, says
  granted in the field every reader honours, carries no mark, and, when a receipt authored it, carries a
  decision time that parses.\<close>

theorem granted_is_witnessed:
  assumes "loadConsentRecord actor f = ((ConsentGranted, ok), f')"
  shows "ok \<and> (\<exists>data w. pf_data f = Some data \<and> length data \<le> consentRecordReadLimit \<and> unmarshal_record data = Some w \<and>
    ActorDigest w = actor \<and> ConsentAnalytics w = DecisionGranted \<and> \<not> wire_Unwitnessed w \<and>
    (wire_Floor w \<longrightarrow> parse_rfc3339 (wire_DecidedAt w) \<noteq> None))"
proof -
  obtain info ok' how f1 where l: "loadConsentRecordRead actor f = ((info, ok', how), f1)" by (metis prod_cases3 surj_pair)
  then have g: "info_state info = ConsentGranted" "ok' = ok" "ok \<longrightarrow> \<not> info_unwitnessed info"
    using assms by (auto simp: loadConsentRecord_def loadConsentRecordInfo_def split: if_splits)
  obtain got where got: "pf_read f = (got, f1)" "(info, ok', how) = read_result actor got" using load_cases [OF l] .
  have "info \<noteq> no_info" using g(1) by (auto simp: no_info_def)
  with got(2) obtain data w where d: "got = Content data" "read_wire data = Some w" "interpret_record actor w = (info, ok', how)"
    by (auto simp: read_result_def split: file_read.splits option.splits)
  have "ok'" using g(1) d(3) by (auto simp: interpret_record_def no_info_def Let_def split: if_splits option.splits)
  then show ?thesis
    using interpret_granted [of actor w info how] d g pf.read_content [OF got(1) [unfolded d(1)]]
    by (auto simp: read_wire_def split: if_splits)
qed

section \<open>A marked record\<close>

lemma mark_written:
  assumes "markConsentRecordUnwitnessed info digest at f = (True, f1)" and "info_state info \<noteq> ConsentUnknown"
    and "list_all utf8_valid [digest, info_decidedAt info, at]"
  obtains w where "pf_write (marshal_record w) f = (True, f1)" "ConsentAnalytics w \<noteq> DecisionGranted" "wire_Unwitnessed w"
    "record_utf8 w"
proof -
  have lits: "utf8_valid []" "utf8_valid DecisionGranted" "utf8_valid DecisionDenied" "utf8_valid DecisionDeniedForcedMinor"
    "utf8_valid consentAnalyticsUnwitnessed" "consentAnalyticsUnwitnessed \<noteq> DecisionGranted" "DecisionDenied \<noteq> DecisionGranted"
    "DecisionDeniedForcedMinor \<noteq> DecisionGranted"
    by code_simp+
  from assms(2) consider "info_state info = ConsentGranted" | "info_state info = ConsentDenied" | "info_state info = ConsentDeniedForcedMinor"
    by (cases "info_state info") auto
  then show ?thesis
    using assms(1,3) lits
    by cases (auto simp: markConsentRecordUnwitnessed_def state_decision_def Let_def record_utf8_def split: if_splits intro!: that)
qed

lemma unwitnessed_not_granted:
  assumes "wire_Unwitnessed w"
  shows "interpret_record a w = (info, ok, how) \<Longrightarrow> info_state info = ConsentGranted \<Longrightarrow> ok \<and> info_unwitnessed info"
  using assms by (auto simp: interpret_record_def no_info_def Let_def split: if_splits option.splits)

text \<open>C40. Marking a record unwitnessed closes it, whatever the record said: a later load never starts any actor
  with a grant, and the decision a reader unaware of marks finds in the file is not a grant either.\<close>

theorem marked_never_grants:
  assumes "markConsentRecordUnwitnessed info digest at f = (True, f1)" and "info_state info \<noteq> ConsentUnknown"
    and "list_all utf8_valid [digest, info_decidedAt info, at]"
  shows "fst (fst (loadConsentRecord actor f1)) \<noteq> ConsentGranted \<and>
    (\<exists>w. pf_data f1 = Some (marshal_record w) \<and> unmarshal_record (marshal_record w) = Some w \<and> ConsentAnalytics w \<noteq> DecisionGranted)"
proof -
  obtain w where w: "pf_write (marshal_record w) f = (True, f1)" "ConsentAnalytics w \<noteq> DecisionGranted" "wire_Unwitnessed w"
      "record_utf8 w"
    using mark_written [OF assms] .
  obtain info' ok how f2 where l: "loadConsentRecordRead actor f1 = ((info', ok, how), f2)" by (metis prod_cases3 surj_pair)
  have "(info', ok, how) = (no_info, False, RecordUnusable) \<or> (info', ok, how) = interpret_record actor w"
    using written_then_loaded [OF w(1) l w(4)] by blast
  then have "info_state info' = ConsentGranted \<longrightarrow> ok \<and> info_unwitnessed info'"
    using unwitnessed_not_granted [OF w(3), of actor info' ok how] by (auto simp: no_info_def)
  then have "fst (fst (loadConsentRecord actor f1)) \<noteq> ConsentGranted"
    by (auto simp: loadConsentRecord_def loadConsentRecordInfo_def l)
  then show ?thesis using w(2) pf.write_ok [OF w(1)] unmarshal_marshal_record [OF w(4)] by auto
qed

section \<open>Witnesses\<close>

definition sample_file :: private_file where "sample_file = \<lparr>pf_data = None, pf_outcomes = []\<rparr>"
definition sample_stamp :: gostring where "sample_stamp = ''2024-05-01T10:00:00Z''"

definition sample_saved :: private_file where
  "sample_saved = snd (saveConsentRecord DecisionGranted ''d1'' sample_stamp True sample_file)"

lemma record_sample_save: "saveConsentRecord DecisionGranted ''d1'' sample_stamp True sample_file = (True, sample_saved)"
  by (simp add: sample_saved_def saveConsentRecord_def good_write sample_file_def good_file_def)

lemma record_sample_load: "loadConsentRecordRead ''d1'' sample_saved =
  ((\<lparr>info_state = ConsentGranted, info_decidedAt = sample_stamp, info_floor = True, info_unwitnessed = False,
     info_unwitnessedAt = []\<rparr>, True, RecordParsed), sample_saved)"
  by code_simp

theorem saved_record_loads_witness:
  "fst (loadConsentRecordRead ''d1'' sample_saved) = (\<lparr>info_state = ConsentGranted, info_decidedAt = sample_stamp,
     info_floor = True, info_unwitnessed = False, info_unwitnessedAt = []\<rparr>, True, RecordParsed)"
proof -
  have "record_state DecisionGranted = Some ConsentGranted" "''d1'' \<noteq> []" "list_all utf8_valid [''d1'', sample_stamp]"
    "True \<longrightarrow> parse_rfc3339 sample_stamp \<noteq> None"
    "length (marshal_record (zero_record\<lparr>ConsentAnalytics := DecisionGranted, ActorDigest := ''d1'', wire_DecidedAt := sample_stamp,
       wire_Floor := True\<rparr>)) \<le> consentRecordReadLimit"
    by code_simp+
  from saved_record_loads [OF record_sample_save record_sample_load this] show ?thesis by (simp add: record_sample_load)
qed

theorem granted_is_witnessed_witness: "pf_data sample_saved \<noteq> None"
proof -
  have "loadConsentRecord ''d1'' sample_saved = ((ConsentGranted, True), sample_saved)" by code_simp
  from granted_is_witnessed [OF this] show ?thesis by auto
qed

definition sample_info :: consentRecordInfo where
  "sample_info = \<lparr>info_state = ConsentGranted, info_decidedAt = sample_stamp, info_floor = True, info_unwitnessed = False,
     info_unwitnessedAt = []\<rparr>"

theorem marked_never_grants_witness:
  "fst (fst (loadConsentRecord ''d1'' (snd (markConsentRecordUnwitnessed sample_info ''d1'' sample_stamp sample_saved)))) \<noteq> ConsentGranted"
proof -
  have "markConsentRecordUnwitnessed sample_info ''d1'' sample_stamp sample_saved =
      (True, snd (markConsentRecordUnwitnessed sample_info ''d1'' sample_stamp sample_saved))"
    "info_state sample_info \<noteq> ConsentUnknown" "list_all utf8_valid [''d1'', info_decidedAt sample_info, sample_stamp]"
    by code_simp+
  from marked_never_grants [OF this, of "''d1''"] show ?thesis by blast
qed

end
