(* ===== verification/Consent_Outbox.thy ===== *)
theory Consent_Outbox
  imports Consent_Record
begin

text \<open>
  The outbox of consent receipts (\<open>consentOutbox\<close> of \<open>consent_outbox.go\<close>): the receipts a process still
  owes the server, in order, mirrored in one private file it shares with other processes of the same
  directory.

  Each operation is one section under the outbox's lock.  A Go set is a set, a zero time is \<open>None\<close>; an empty
  directory name is an outbox without a file.  The waiters of a claimed dispatch are numbered.
\<close>

section \<open>Receipts\<close>

record consentReceipt =
  rc_notice :: ConsentNotice
  noticePresent :: bool
  noticeInvalid :: bool
  IdempotencyKey :: gostring
  rcp_WorkspaceID :: gostring
  rcp_AppID :: gostring
  rcp_EnvironmentID :: gostring
  rcp_ActorIdentifier :: gostring
  rcp_Kind :: gostring
  Analytics :: "bool option"
  rcp_DecidedAt :: gostring
  rcp_Reason :: gostring
  rcp_AnonymousID :: gostring

definition zero_receipt :: consentReceipt where
  "zero_receipt = \<lparr>rc_notice = no_notice, noticePresent = False, noticeInvalid = False, IdempotencyKey = [], rcp_WorkspaceID = [],
     rcp_AppID = [], rcp_EnvironmentID = [], rcp_ActorIdentifier = [], rcp_Kind = [], Analytics = None, rcp_DecidedAt = [],
     rcp_Reason = [], rcp_AnonymousID = []\<rparr>"

definition maxConsentOutboxEntries :: nat where "maxConsentOutboxEntries = 32"
definition maxConsentIdentifierBytes :: nat where "maxConsentIdentifierBytes = 512"
definition consentOutboxReadLimit :: nat where "consentOutboxReadLimit = 256 * 1024"
definition consentOutboxRecordVersion :: int where "consentOutboxRecordVersion = 1"
definition consentSettledMemory :: nat where "consentSettledMemory = 256"
definition consentDecisionReason :: gostring where "consentDecisionReason = ''denied_forced_minor''"

definition validConsentIdentifier :: "gostring \<Rightarrow> bool" where
  "validConsentIdentifier s \<longleftrightarrow> s \<noteq> [] \<and> length s \<le> maxConsentIdentifierBytes"

definition malformedNotice :: "consentReceipt \<Rightarrow> bool" where
  "malformedNotice r \<longleftrightarrow> noticeInvalid r \<or> (noticePresent r \<or> rc_notice r \<noteq> no_notice) \<and> \<not> notice_valid (rc_notice r)"

definition analyticsGranted :: "consentReceipt \<Rightarrow> bool" where
  "analyticsGranted r \<longleftrightarrow> Analytics r = Some True"

definition sanitizeConsentReceipt :: "consentReceipt \<Rightarrow> consentReceipt option" where
  "sanitizeConsentReceipt e =
     (if IdempotencyKey e = [] \<or> rcp_WorkspaceID e = [] \<or> rcp_AppID e = [] \<or> rcp_EnvironmentID e = [] \<or> rcp_DecidedAt e = [] then None
      else case Analytics e of
        None \<Rightarrow> None
      | Some analytics \<Rightarrow>
          if \<not> validConsentIdentifier (rcp_ActorIdentifier e) \<or> \<not> validConsentKind (rcp_Kind e) then None
          else if rcp_AnonymousID e \<noteq> [] \<and> \<not> validConsentIdentifier (rcp_AnonymousID e) then None
          else if malformedNotice e \<and> analyticsGranted e then None
          else let e = (if malformedNotice e then e\<lparr>rc_notice := no_notice, noticeInvalid := True\<rparr> else e)
            in if rcp_Reason e \<noteq> [] \<and> (rcp_Reason e \<noteq> consentDecisionReason \<or> analytics) then None
               else if parse_rfc3339 (rcp_DecidedAt e) = None then None
               else Some (e\<lparr>noticePresent := False\<rparr>))"

section \<open>The file\<close>

definition notice_members :: "ConsentNotice \<Rightarrow> member_text list" where
  "notice_members n = opt_str ''notice_version'' (NoticeVersion n) @ opt_str ''notice_locale'' (NoticeLocale n) @
     opt_str ''policy_version'' (NoticePolicyVersion n)"

definition analytics_member :: "bool option \<Rightarrow> member_text" where
  "analytics_member a = (case a of None \<Rightarrow> (''analytics'', ''null'', JNull) | Some b \<Rightarrow> bool_member ''analytics'' b)"

definition receipt_members :: "consentReceipt \<Rightarrow> member_text list" where
  "receipt_members r =
     notice_members (rc_notice r) @
     [str_member ''idempotency_key'' (IdempotencyKey r), str_member ''workspace_id'' (rcp_WorkspaceID r),
      str_member ''app_id'' (rcp_AppID r), str_member ''environment_id'' (rcp_EnvironmentID r),
      str_member ''actor_identifier'' (rcp_ActorIdentifier r), str_member ''kind'' (rcp_Kind r),
      obj_member ''categories'' [analytics_member (Analytics r)], str_member ''decided_at'' (rcp_DecidedAt r)] @
     opt_str ''reason'' (rcp_Reason r) @ opt_str ''anonymous_id'' (rcp_AnonymousID r)"

definition receipt_text :: "consentReceipt \<Rightarrow> gostring \<times> json" where
  "receipt_text r = (enc_object (map member_pair (receipt_members r)), JObj (receipt_members r))"

definition outbox_members :: "consentReceipt list \<Rightarrow> member_text list" where
  "outbox_members rs = [int_member ''version'' consentOutboxRecordVersion, arr_member ''receipts'' (map receipt_text rs)]"

definition marshal_outbox :: "consentReceipt list \<Rightarrow> gostring" where
  "marshal_outbox rs = enc_object (map member_pair (outbox_members rs))"

text \<open>A notice field is kept apart from the decode: a value that is no string marks the notice invalid.\<close>

definition notice_field :: "gostring \<Rightarrow> (gostring \<times> gostring \<times> json) list \<Rightarrow> gostring \<times> bool \<times> bool" where
  "notice_field k ms =
     (case rev (field k ms) of
        [] \<Rightarrow> ([], False, False)
      | (_, v) # _ \<Rightarrow> (case v of JStr s \<Rightarrow> (s, True, False) | JNull \<Rightarrow> ([], True, False) | _ \<Rightarrow> ([], True, True)))"

definition decode_categories :: "(gostring \<times> gostring \<times> json) list \<Rightarrow> bool option option" where
  "decode_categories ms = dpointer as_bool ''analytics'' ms"

text \<open>The members of a struct field: a second object decodes into the struct the first one filled.\<close>

definition struct_field :: "gostring \<Rightarrow> (gostring \<times> gostring \<times> json) list \<Rightarrow> (gostring \<times> gostring \<times> json) list option" where
  "struct_field name ms =
     fold (\<lambda>(_, v) acc. case acc of None \<Rightarrow> None
             | Some old \<Rightarrow> (case v of JNull \<Rightarrow> Some old | JObj ps \<Rightarrow> Some (old @ ps) | _ \<Rightarrow> None))
       (field name ms) (Some [])"

definition decode_receipt :: "(gostring \<times> gostring \<times> json) list \<Rightarrow> consentReceipt option" where
  "decode_receipt ms = do {
     k \<leftarrow> dstring ''idempotency_key'' ms; w \<leftarrow> dstring ''workspace_id'' ms; a \<leftarrow> dstring ''app_id'' ms;
     e \<leftarrow> dstring ''environment_id'' ms; i \<leftarrow> dstring ''actor_identifier'' ms; kd \<leftarrow> dstring ''kind'' ms;
     ps \<leftarrow> struct_field ''categories'' ms; c \<leftarrow> decode_categories ps;
     t \<leftarrow> dstring ''decided_at'' ms; r \<leftarrow> dstring ''reason'' ms; n \<leftarrow> dstring ''anonymous_id'' ms;
     (let (v, vp, vi) = notice_field ''notice_version'' ms; (l, lp, li) = notice_field ''notice_locale'' ms;
          (p, pp, pi) = notice_field ''policy_version'' ms
      in Some \<lparr>rc_notice = \<lparr>NoticeVersion = v, NoticeLocale = l, NoticePolicyVersion = p\<rparr>, noticePresent = vp \<or> lp \<or> pp,
           noticeInvalid = vi \<or> li \<or> pi, IdempotencyKey = k, rcp_WorkspaceID = w, rcp_AppID = a, rcp_EnvironmentID = e,
           rcp_ActorIdentifier = i, rcp_Kind = kd, Analytics = c, rcp_DecidedAt = t, rcp_Reason = r, rcp_AnonymousID = n\<rparr>) }"

definition decode_outbox :: "(gostring \<times> gostring \<times> json) list \<Rightarrow> (int \<times> consentReceipt list option) option" where
  "decode_outbox ms = do {
     v \<leftarrow> decode_field as_int 0 ''version'' ms;
     rs \<leftarrow> dpointer (as_list zero_receipt (as_struct decode_receipt)) ''receipts'' ms;
     Some (v, rs) }"

definition unmarshal_outbox :: "gostring \<Rightarrow> (int \<times> consentReceipt list option) option" where
  "unmarshal_outbox data =
     (case parse_json data of Some JNull \<Rightarrow> Some (0, None) | Some (JObj ms) \<Rightarrow> decode_outbox ms | _ \<Rightarrow> None)"

datatype consentOutboxRead = OutboxParsed | OutboxAbsent | OutboxUnusable

text \<open>The scope of a receipt, as the loop joins it with zero bytes.\<close>

definition receipt_scope :: "consentReceipt \<Rightarrow> gostring" where
  "receipt_scope r = rcp_WorkspaceID r @ [CHR 0x00] @ rcp_AppID r @ [CHR 0x00] @ rcp_EnvironmentID r @ [CHR 0x00] @
     rcp_ActorIdentifier r @ [CHR 0x00] @ rcp_Kind r"

text \<open>One entry of the file: the loaded receipts, the keys seen, whether an entry was rejected, and the last
  stamp of each scope.\<close>

definition read_entry :: "consentReceipt \<Rightarrow> consentReceipt list \<times> gostring set \<times> bool \<times> (gostring \<Rightarrow> gostring option)
    \<Rightarrow> consentReceipt list \<times> gostring set \<times> bool \<times> (gostring \<Rightarrow> gostring option)" where
  "read_entry entry acc =
     (let (loaded, seen, rejected, last) = acc
      in case sanitizeConsentReceipt entry of
           None \<Rightarrow> (loaded, seen, True, last)
         | Some r \<Rightarrow>
             if IdempotencyKey r \<in> seen then (loaded, seen, True, last)
             else let scope = receipt_scope r;
                      rejected = (rejected \<or> (case last scope of None \<Rightarrow> False | Some prev \<Rightarrow> \<not> consentDecisionSupersedes (rcp_DecidedAt r) prev))
               in (loaded @ [r], insert (IdempotencyKey r) seen, rejected, last(scope \<mapsto> rcp_DecidedAt r)))"

definition read_entries :: "consentReceipt list \<Rightarrow> consentReceipt list \<times> consentOutboxRead" where
  "read_entries entries =
     (let (loaded, _, rejected, _) = fold read_entry entries ([], {}, False, \<lambda>_. None)
      in (loaded, if rejected then OutboxUnusable else OutboxParsed))"

text \<open>The decoded file, before and after the entries are checked.\<close>

definition file_entries :: "file_read \<Rightarrow> consentReceipt list option" where
  "file_entries got =
     (case got of
        Content data \<Rightarrow>
          if length data > consentOutboxReadLimit then None
          else (case unmarshal_outbox data of
              Some (v, Some rs) \<Rightarrow> if v \<noteq> consentOutboxRecordVersion then None else Some rs
            | _ \<Rightarrow> None)
      | _ \<Rightarrow> None)"

definition read_receipts :: "file_read \<Rightarrow> consentReceipt list \<times> consentOutboxRead" where
  "read_receipts got =
     (case got of
        Absent \<Rightarrow> ([], OutboxAbsent)
      | _ \<Rightarrow> (case file_entries got of None \<Rightarrow> ([], OutboxUnusable) | Some rs \<Rightarrow> read_entries rs))"


section \<open>The outbox\<close>

record consentOutbox =
  ob_dir :: gostring
  receipts :: "consentReceipt list"
  grantsUnprovable :: bool
  preserveUnusable :: bool
  lastRead :: consentOutboxRead
  noticeInvalidAtLoad :: bool
  ob_dirty :: bool
  evictedSinceSave :: nat
  dispatching :: bool
  dispatchWaiters :: "nat list"
  dispatchMissed :: bool
  deferUntil :: "nanos option"
  backoffAttempt :: int
  settledKeys :: "gostring set"
  settledFIFO :: "gostring list"
  ownKeys :: "gostring set"
  recordOwedKeys :: "gostring set"
  ob_file :: private_file

definition newConsentOutbox :: "gostring \<Rightarrow> private_file \<Rightarrow> consentOutbox" where
  "newConsentOutbox dir f =
     \<lparr>ob_dir = dir, receipts = [], grantsUnprovable = False, preserveUnusable = False, lastRead = OutboxParsed,
      noticeInvalidAtLoad = False, ob_dirty = False, evictedSinceSave = 0, dispatching = False, dispatchWaiters = [],
      dispatchMissed = False, deferUntil = None, backoffAttempt = 0, settledKeys = {}, settledFIFO = [], ownKeys = {},
      recordOwedKeys = {}, ob_file = f\<rparr>"

definition ob_recordSettledLocked :: "gostring \<Rightarrow> consentOutbox \<Rightarrow> consentOutbox" where
  "ob_recordSettledLocked key ob =
     (if key = [] \<or> key \<in> settledKeys ob then ob
      else let ob = ob\<lparr>settledKeys := insert key (settledKeys ob), settledFIFO := settledFIFO ob @ [key]\<rparr>
        in if length (settledFIFO ob) > consentSettledMemory
           then ob\<lparr>settledKeys := settledKeys ob - {hd (settledFIFO ob)}, settledFIFO := tl (settledFIFO ob)\<rparr> else ob)"

definition durable :: "consentOutbox \<Rightarrow> bool" where "durable ob \<longleftrightarrow> ob_dir ob \<noteq> []"

definition readRecordReceipts :: "consentOutbox \<Rightarrow> (consentReceipt list \<times> consentOutboxRead) \<times> consentOutbox" where
  "readRecordReceipts ob =
     (if \<not> durable ob then (([], OutboxAbsent), ob)
      else let (got, f) = pf_read (ob_file ob) in (read_receipts got, ob\<lparr>ob_file := f\<rparr>))"

text \<open>Loading: \<open>own\<close> tells the receipts of this client's scope.  A file with a malformed notice is owed a
  rewrite.\<close>

definition ob_load :: "(consentReceipt \<Rightarrow> bool) \<Rightarrow> consentOutbox \<Rightarrow> consentOutbox" where
  "ob_load own ob =
     (if \<not> durable ob then ob
      else
        let (got, f) = pf_read (ob_file ob);
            bad = (case file_entries got of None \<Rightarrow> [] | Some rs \<Rightarrow> filter malformedNotice rs);
            (loaded, st) = read_receipts got
        in ob\<lparr>ob_file := f, noticeInvalidAtLoad := noticeInvalidAtLoad ob \<or> list_ex own bad, lastRead := st,
             ownKeys := ownKeys ob \<union> IdempotencyKey ` set (filter own loaded), receipts := loaded,
             ob_dirty := ob_dirty ob \<or> bad \<noteq> []\<rparr>)"

definition setGrantsUnprovable :: "bool \<Rightarrow> consentOutbox \<Rightarrow> consentOutbox" where
  "setGrantsUnprovable v ob = ob\<lparr>grantsUnprovable := v\<rparr>"

definition preserveEvidence :: "consentOutbox \<Rightarrow> consentOutbox" where
  "preserveEvidence ob = ob\<lparr>preserveUnusable := True\<rparr>"

section \<open>Saving\<close>

datatype save_error = EvidenceHeld | RecordTooLarge | WriteFailed

text \<open>The merge: the file's receipts that are not settled, then this process's own, each key once.\<close>

fun merge_disk :: "gostring set \<Rightarrow> gostring set \<Rightarrow> consentReceipt list \<Rightarrow> consentReceipt list" where
  "merge_disk settled seen [] = []"
| "merge_disk settled seen (e # es) =
     (if IdempotencyKey e \<in> settled \<or> IdempotencyKey e \<in> seen then merge_disk settled seen es
      else e # merge_disk settled (insert (IdempotencyKey e) seen) es)"

fun merge_own :: "gostring set \<Rightarrow> gostring set \<Rightarrow> consentReceipt list \<Rightarrow> consentReceipt list" where
  "merge_own own seen [] = []"
| "merge_own own seen (e # es) =
     (case sanitizeConsentReceipt e of
        None \<Rightarrow> merge_own own seen es
      | Some r \<Rightarrow> if IdempotencyKey r \<notin> own \<or> IdempotencyKey r \<in> seen then merge_own own seen es
                  else r # merge_own own (insert (IdempotencyKey r) seen) es)"

definition merge_receipts :: "consentReceipt list \<Rightarrow> consentOutbox \<Rightarrow> consentReceipt list" where
  "merge_receipts disk ob =
     (let kept = merge_disk (settledKeys ob) {} disk in kept @ merge_own (ownKeys ob) (IdempotencyKey ` set kept) (receipts ob))"

text \<open>Cutting the record to the read limit: only a settled receipt may be cut.  The result is what is left and
  what was cut, or nothing when the record cannot be made to fit.\<close>

fun fit_record :: "gostring set \<Rightarrow> gostring list \<Rightarrow> consentReceipt list \<Rightarrow> (consentReceipt list \<times> gostring list) option" where
  "fit_record settled evicted [] = (if length (marshal_outbox []) > consentOutboxReadLimit then None else Some ([], evicted))"
| "fit_record settled evicted (m # ms) =
     (if length (marshal_outbox (m # ms)) \<le> consentOutboxReadLimit then Some (m # ms, evicted)
      else if ms = [] then None
      else if IdempotencyKey m \<notin> settled then None
      else fit_record settled (evicted @ [IdempotencyKey m]) ms)"

definition settle_eviction :: "gostring \<Rightarrow> consentOutbox \<Rightarrow> consentOutbox" where
  "settle_eviction key ob =
     (let ob = ob_recordSettledLocked key ob in ob\<lparr>recordOwedKeys := recordOwedKeys ob - {key}, ownKeys := ownKeys ob - {key}\<rparr>)"

definition settle_evictions :: "gostring list \<Rightarrow> consentOutbox \<Rightarrow> consentOutbox" where
  "settle_evictions keys ob =
     (let ob = fold settle_eviction keys ob in ob\<lparr>evictedSinceSave := evictedSinceSave ob + length keys\<rparr>)"

text \<open>The last part of a save: the cap, the cut and the write; then the first part, what it merges.\<close>

definition write_merged :: "consentReceipt list \<Rightarrow> consentOutbox \<Rightarrow> save_error option \<times> consentOutbox" where
  "write_merged merged ob =
     (let surplus = length merged - maxConsentOutboxEntries;
          evict = map IdempotencyKey (take surplus merged); merged = drop surplus merged
      in if \<not> durable ob then (None, settle_evictions evict (ob\<lparr>receipts := merged\<rparr>))
         else case fit_record (settledKeys ob) evict merged of
           None \<Rightarrow> (Some RecordTooLarge, ob\<lparr>ob_dirty := True\<rparr>)
         | Some (merged, evict) \<Rightarrow>
             let (ok, f) = pf_write (marshal_outbox merged) (ob_file ob); ob = ob\<lparr>ob_file := f\<rparr>
             in if \<not> ok then (Some WriteFailed, ob\<lparr>ob_dirty := True\<rparr>)
                else (None, (settle_evictions evict (ob\<lparr>receipts := merged\<rparr>))\<lparr>ob_dirty := False\<rparr>))"

definition ob_saveLocked :: "bool \<Rightarrow> consentOutbox \<Rightarrow> save_error option \<times> consentOutbox" where
  "ob_saveLocked carriesFreshDecision ob =
     (let ((disk, st), ob) = readRecordReceipts ob;
          disk = (if carriesFreshDecision \<and> st = OutboxUnusable then filter (\<lambda>e. IdempotencyKey e \<notin> ownKeys ob) disk else disk);
          ob = (if carriesFreshDecision then ob\<lparr>lastRead := OutboxParsed, grantsUnprovable := False, preserveUnusable := False\<rparr> else ob)
      in if durable ob \<and> preserveUnusable ob \<and> st = OutboxUnusable then (Some EvidenceHeld, ob\<lparr>ob_dirty := True\<rparr>)
         else write_merged (merge_receipts disk ob) ob)"

definition consentSaveFailedDurably :: "save_error option \<Rightarrow> bool" where
  "consentSaveFailedDurably err \<longleftrightarrow> err \<noteq> None \<and> err \<noteq> Some EvidenceHeld"

section \<open>Operations\<close>

definition ob_append :: "consentReceipt \<Rightarrow> consentOutbox \<Rightarrow> bool \<times> consentOutbox" where
  "ob_append receipt ob =
     (let ob = ob\<lparr>ownKeys := insert (IdempotencyKey receipt) (ownKeys ob), receipts := receipts ob @ [receipt]\<rparr>;
          (err, ob) = ob_saveLocked True ob
      in (consentSaveFailedDurably err, ob))"

definition ob_head :: "consentOutbox \<Rightarrow> consentReceipt option" where
  "ob_head ob = (case receipts ob of [] \<Rightarrow> None | r # _ \<Rightarrow> Some r)"

definition ob_tail :: "consentOutbox \<Rightarrow> consentReceipt option" where
  "ob_tail ob = (if receipts ob = [] then None else Some (last (receipts ob)))"

fun max_decided :: "gostring \<times> nanos \<Rightarrow> consentReceipt list \<Rightarrow> gostring" where
  "max_decided best [] = fst best"
| "max_decided best (e # es) =
     (case parse_rfc3339 (rcp_DecidedAt e) of
        None \<Rightarrow> max_decided best es
      | Some at \<Rightarrow> if fst best = [] \<or> at > snd best then max_decided (rcp_DecidedAt e, at) es else max_decided best es)"

definition maxDecidedAt :: "consentOutbox \<Rightarrow> gostring" where
  "maxDecidedAt ob = max_decided ([], 0) (receipts ob)"

definition latestMatching :: "(consentReceipt \<Rightarrow> bool) \<Rightarrow> consentOutbox \<Rightarrow> consentReceipt option" where
  "latestMatching match ob = List.find match (rev (receipts ob))"

fun remove_key :: "gostring \<Rightarrow> consentReceipt list \<Rightarrow> consentReceipt list option" where
  "remove_key k [] = None"
| "remove_key k (e # es) = (if IdempotencyKey e = k then Some es else map_option (Cons e) (remove_key k es))"

definition prune :: "gostring \<Rightarrow> consentOutbox \<Rightarrow> bool \<times> consentOutbox" where
  "prune key ob =
     (case remove_key key (receipts ob) of
        None \<Rightarrow> (False, ob)
      | Some pruned \<Rightarrow>
          let ob = ob_recordSettledLocked key ob;
              ob = ob\<lparr>recordOwedKeys := recordOwedKeys ob - {key}, ownKeys := ownKeys ob - {key}, receipts := pruned\<rparr>;
              (err, ob) = ob_saveLocked False ob
          in (consentSaveFailedDurably err, ob))"

definition markRecordOwed :: "gostring \<Rightarrow> consentOutbox \<Rightarrow> consentOutbox" where
  "markRecordOwed key ob = (if key = [] then ob else ob\<lparr>recordOwedKeys := insert key (recordOwedKeys ob)\<rparr>)"

definition markRecordOwedWhere :: "(consentReceipt \<Rightarrow> bool) \<Rightarrow> consentOutbox \<Rightarrow> consentOutbox" where
  "markRecordOwedWhere match ob = ob\<lparr>recordOwedKeys := recordOwedKeys ob \<union> IdempotencyKey ` set (filter match (receipts ob))\<rparr>"

definition clearRecordOwedMarks :: "consentOutbox \<Rightarrow> consentOutbox" where
  "clearRecordOwedMarks ob = ob\<lparr>recordOwedKeys := {}\<rparr>"

definition recordOwedFor :: "gostring \<Rightarrow> consentOutbox \<Rightarrow> bool" where
  "recordOwedFor key ob \<longleftrightarrow> key \<in> recordOwedKeys ob"

definition ob_snapshot :: "consentOutbox \<Rightarrow> consentReceipt list" where
  "ob_snapshot ob = receipts ob"

definition nextDispatchable :: "(consentReceipt \<Rightarrow> bool) \<Rightarrow> consentOutbox \<Rightarrow> consentReceipt option" where
  "nextDispatchable inScope ob =
     (let holdGrants = (durable ob \<and> (lastRead ob = OutboxUnusable \<or> grantsUnprovable ob))
      in List.find (\<lambda>e. inScope e \<and> \<not> (holdGrants \<and> analyticsGranted e)) (receipts ob))"

definition writeOwed :: "consentOutbox \<Rightarrow> bool" where "writeOwed ob = ob_dirty ob"

definition ob_retryPersist :: "consentOutbox \<Rightarrow> (bool \<times> bool) \<times> consentOutbox" where
  "ob_retryPersist ob =
     (if \<not> ob_dirty ob then ((False, False), ob)
      else let (err, ob) = ob_saveLocked False ob in ((True, consentSaveFailedDurably err), ob))"

definition takeEvicted :: "consentOutbox \<Rightarrow> nat \<times> consentOutbox" where
  "takeEvicted ob = (evictedSinceSave ob, ob\<lparr>evictedSinceSave := 0\<rparr>)"

definition ob_pending :: "consentOutbox \<Rightarrow> bool" where
  "ob_pending ob \<longleftrightarrow> receipts ob \<noteq> [] \<or> ob_dirty ob"

definition pendingDurability :: "consentOutbox \<Rightarrow> bool \<times> bool" where
  "pendingDurability ob = (receipts ob \<noteq> [] \<or> ob_dirty ob, durable ob \<and> \<not> ob_dirty ob)"

definition grantPendingDispatch :: "gostring set \<Rightarrow> (consentReceipt \<Rightarrow> bool) \<Rightarrow> consentOutbox \<Rightarrow> bool" where
  "grantPendingDispatch handed inScope ob \<longleftrightarrow>
     list_ex (\<lambda>e. analyticsGranted e \<and> inScope e \<and> IdempotencyKey e \<notin> handed) (receipts ob)"

definition claimDispatch :: "bool \<Rightarrow> consentOutbox \<Rightarrow> bool \<times> consentOutbox" where
  "claimDispatch byWorker ob =
     (if dispatching ob then (False, if byWorker then ob\<lparr>dispatchMissed := True\<rparr> else ob)
      else (True, ob\<lparr>dispatching := True\<rparr>))"

text \<open>One turn of the waiting claim: it claims, or it registers a new waiter.\<close>

definition claimDispatchWait :: "nat \<Rightarrow> consentOutbox \<Rightarrow> bool \<times> consentOutbox" where
  "claimDispatchWait waiter ob =
     (if \<not> dispatching ob then (True, ob\<lparr>dispatching := True\<rparr>)
      else (False, ob\<lparr>dispatchWaiters := dispatchWaiters ob @ [waiter]\<rparr>))"

text \<open>Releasing wakes every waiter and tells whether a worker's claim was missed.\<close>

definition releaseDispatch :: "consentOutbox \<Rightarrow> (bool \<times> nat list) \<times> consentOutbox" where
  "releaseDispatch ob =
     ((dispatchMissed ob, dispatchWaiters ob), ob\<lparr>dispatching := False, dispatchMissed := False, dispatchWaiters := []\<rparr>)"

definition deferralActive :: "nanos \<Rightarrow> consentOutbox \<Rightarrow> bool" where
  "deferralActive now ob \<longleftrightarrow> (case deferUntil ob of None \<Rightarrow> False | Some t \<Rightarrow> now < t)"

definition consumeElapsedDeferral :: "nanos \<Rightarrow> consentOutbox \<Rightarrow> bool \<times> consentOutbox" where
  "consumeElapsedDeferral now ob =
     (case deferUntil ob of None \<Rightarrow> (False, ob) | Some t \<Rightarrow> if now < t then (False, ob) else (True, ob\<lparr>deferUntil := None\<rparr>))"

definition deferralElapsed :: "nanos \<Rightarrow> consentOutbox \<Rightarrow> bool" where
  "deferralElapsed now ob \<longleftrightarrow> (case deferUntil ob of None \<Rightarrow> False | Some t \<Rightarrow> \<not> now < t)"

definition hasDeferral :: "consentOutbox \<Rightarrow> bool" where "hasDeferral ob \<longleftrightarrow> deferUntil ob \<noteq> None"

definition deferRemaining :: "nanos \<Rightarrow> consentOutbox \<Rightarrow> nanos" where
  "deferRemaining now ob = (case deferUntil ob of None \<Rightarrow> 0 | Some t \<Rightarrow> if t - now > 0 then t - now else 0)"

end
