(* ===== verification/Outbox_Invariant.thy ===== *)
theory Outbox_Invariant
  imports Consent_Outbox
begin

text \<open>
  The invariant of the consent outbox and what each operation does under it: the merge of a save, the cut to
  the read limit, and the memory of settled keys.
\<close>

section \<open>Keys\<close>

abbreviation keys :: "consentReceipt list \<Rightarrow> gostring list" where "keys rs \<equiv> map IdempotencyKey rs"

definition scrub :: "consentReceipt \<Rightarrow> consentReceipt" where
  "scrub e = (if malformedNotice e then e\<lparr>rc_notice := no_notice, noticeInvalid := True, noticePresent := False\<rparr> else e\<lparr>noticePresent := False\<rparr>)"

definition sound_fields :: "consentReceipt \<Rightarrow> bool" where
  "sound_fields e \<longleftrightarrow> IdempotencyKey e \<noteq> [] \<and> rcp_WorkspaceID e \<noteq> [] \<and> rcp_AppID e \<noteq> [] \<and> rcp_EnvironmentID e \<noteq> [] \<and>
     rcp_DecidedAt e \<noteq> [] \<and> Analytics e \<noteq> None \<and> validConsentIdentifier (rcp_ActorIdentifier e) \<and> validConsentKind (rcp_Kind e) \<and>
     (rcp_AnonymousID e = [] \<or> validConsentIdentifier (rcp_AnonymousID e)) \<and>
     (rcp_Reason e = [] \<or> rcp_Reason e = consentDecisionReason \<and> Analytics e = Some False) \<and> parse_rfc3339 (rcp_DecidedAt e) \<noteq> None"

lemma sanitize_eq:
  "sanitizeConsentReceipt e = (if sound_fields e \<and> \<not> (malformedNotice e \<and> analyticsGranted e) then Some (scrub e) else None)"
proof (cases "IdempotencyKey e = [] \<or> rcp_WorkspaceID e = [] \<or> rcp_AppID e = [] \<or> rcp_EnvironmentID e = [] \<or> rcp_DecidedAt e = [] \<or> Analytics e = None")
  case True
  then show ?thesis by (auto simp: sanitizeConsentReceipt_def sound_fields_def)
next
  case False
  then obtain b where b: "Analytics e = Some b" by auto
  show ?thesis
  proof (cases "malformedNotice e")
    case True
    with False b show ?thesis
      by (simp add: sanitizeConsentReceipt_def sound_fields_def scrub_def analyticsGranted_def Let_def)
  next
    case nm: False
    with False b show ?thesis
      by (simp add: sanitizeConsentReceipt_def sound_fields_def scrub_def analyticsGranted_def Let_def)
  qed
qed

lemma scrub_fields [simp]:
  "IdempotencyKey (scrub e) = IdempotencyKey e" "Analytics (scrub e) = Analytics e" "analyticsGranted (scrub e) = analyticsGranted e"
  "rcp_DecidedAt (scrub e) = rcp_DecidedAt e" "sound_fields (scrub e) = sound_fields e" "malformedNotice (scrub e) = malformedNotice e"
  "scrub (scrub e) = scrub e"
  by (auto simp: scrub_def analyticsGranted_def sound_fields_def malformedNotice_def no_notice_def)

lemma sanitize_key: "sanitizeConsentReceipt e = Some r \<Longrightarrow> IdempotencyKey r = IdempotencyKey e"
  by (auto simp: sanitize_eq split: if_splits)

lemma sanitize_idem: "sanitizeConsentReceipt e = Some r \<Longrightarrow> sanitizeConsentReceipt r = Some r"
  by (auto simp: sanitize_eq split: if_splits)

text \<open>The settled memory is a bounded FIFO and its set of keys.\<close>

definition memory_ok :: "consentOutbox \<Rightarrow> bool" where
  "memory_ok ob \<longleftrightarrow> settledKeys ob = set (settledFIFO ob) \<and> distinct (settledFIFO ob) \<and> length (settledFIFO ob) \<le> consentSettledMemory"

lemma recordSettled_memory: "memory_ok ob \<Longrightarrow> memory_ok (ob_recordSettledLocked k ob)"
proof -
  assume m: "memory_ok ob"
  show ?thesis
  proof (cases "k = [] \<or> k \<in> settledKeys ob")
    case False
    show ?thesis
    proof (cases "settledFIFO ob")
      case Nil
      with m False show ?thesis by (auto simp: ob_recordSettledLocked_def memory_ok_def consentSettledMemory_def)
    next
      case (Cons x xs)
      with m False show ?thesis by (auto simp: ob_recordSettledLocked_def memory_ok_def Let_def)
    qed
  qed (use m in \<open>simp add: ob_recordSettledLocked_def\<close>)
qed

lemma recordSettled_keys: "settledKeys (ob_recordSettledLocked k ob) \<subseteq> insert k (settledKeys ob)"
  by (auto simp: ob_recordSettledLocked_def Let_def)

lemma recordSettled_same [simp]:
  "receipts (ob_recordSettledLocked k ob) = receipts ob" "ownKeys (ob_recordSettledLocked k ob) = ownKeys ob"
  "recordOwedKeys (ob_recordSettledLocked k ob) = recordOwedKeys ob" "ob_file (ob_recordSettledLocked k ob) = ob_file ob"
  "ob_dir (ob_recordSettledLocked k ob) = ob_dir ob" "dispatching (ob_recordSettledLocked k ob) = dispatching ob"
  "dispatchMissed (ob_recordSettledLocked k ob) = dispatchMissed ob" "dispatchWaiters (ob_recordSettledLocked k ob) = dispatchWaiters ob"
  "evictedSinceSave (ob_recordSettledLocked k ob) = evictedSinceSave ob" "lastRead (ob_recordSettledLocked k ob) = lastRead ob"
  "grantsUnprovable (ob_recordSettledLocked k ob) = grantsUnprovable ob" "preserveUnusable (ob_recordSettledLocked k ob) = preserveUnusable ob"
  "ob_dirty (ob_recordSettledLocked k ob) = ob_dirty ob"
  by (simp_all add: ob_recordSettledLocked_def Let_def)

section \<open>The merge\<close>

lemma merge_disk_keys:
  "distinct (keys (merge_disk settled seen es)) \<and> set (keys (merge_disk settled seen es)) \<inter> (settled \<union> seen) = {} \<and>
   set (merge_disk settled seen es) \<subseteq> set es"
proof (induction es arbitrary: seen)
  case (Cons e es)
  from Cons [of seen] Cons [of "insert (IdempotencyKey e) seen"] show ?case by auto
qed simp

lemma merge_own_keys:
  "distinct (keys (merge_own own seen es)) \<and> set (keys (merge_own own seen es)) \<inter> seen = {} \<and> set (keys (merge_own own seen es)) \<subseteq> own"
proof (induction es arbitrary: seen)
  case (Cons e es)
  show ?case
  proof (cases "sanitizeConsentReceipt e")
    case (Some r)
    with Cons [of seen] Cons [of "insert (IdempotencyKey r) seen"] show ?thesis by auto
  qed (use Cons in simp)
qed simp

lemma merge_receipts_keys:
  "distinct (keys (merge_receipts disk ob))"
  "ownKeys ob \<inter> settledKeys ob = {} \<Longrightarrow> set (keys (merge_receipts disk ob)) \<inter> settledKeys ob = {}"
proof -
  let ?kept = "merge_disk (settledKeys ob) {} disk"
  have k: "distinct (keys ?kept)" "set (keys ?kept) \<inter> settledKeys ob = {}" using merge_disk_keys [of "settledKeys ob" "{}" disk] by auto
  have o: "distinct (keys (merge_own (ownKeys ob) (set (keys ?kept)) (receipts ob)))"
    "set (keys (merge_own (ownKeys ob) (set (keys ?kept)) (receipts ob))) \<inter> set (keys ?kept) = {}"
    "set (keys (merge_own (ownKeys ob) (set (keys ?kept)) (receipts ob))) \<subseteq> ownKeys ob"
    using merge_own_keys [of "ownKeys ob" "set (keys ?kept)" "receipts ob"] by auto
  have m: "keys (merge_receipts disk ob) = keys ?kept @ keys (merge_own (ownKeys ob) (set (keys ?kept)) (receipts ob))"
    by (simp add: merge_receipts_def Let_def)
  show "distinct (keys (merge_receipts disk ob))" unfolding m using k o by auto
  show "set (keys (merge_receipts disk ob)) \<inter> settledKeys ob = {}" if "ownKeys ob \<inter> settledKeys ob = {}"
    unfolding m using k o that by auto
qed

text \<open>Every receipt the disk view holds, unless settled, and every receipt of this process that sanitizes, has
  its key in the merge.\<close>

lemma merge_disk_complete: "e \<in> set es \<Longrightarrow> IdempotencyKey e \<notin> settled \<union> seen \<Longrightarrow> IdempotencyKey e \<in> set (keys (merge_disk settled seen es))"
  by (induction es arbitrary: seen) auto

lemma merge_own_complete:
  "e \<in> set es \<Longrightarrow> sanitizeConsentReceipt e = Some r \<Longrightarrow> IdempotencyKey r \<in> own - seen \<Longrightarrow>
   IdempotencyKey r \<in> set (keys (merge_own own seen es))"
  by (induction es arbitrary: seen) (auto split: option.splits)

lemma merge_receipts_complete:
  "e \<in> set disk \<Longrightarrow> IdempotencyKey e \<notin> settledKeys ob \<Longrightarrow> IdempotencyKey e \<in> set (keys (merge_receipts disk ob))"
  "e \<in> set (receipts ob) \<Longrightarrow> sanitizeConsentReceipt e = Some r \<Longrightarrow> IdempotencyKey r \<in> ownKeys ob \<Longrightarrow>
   IdempotencyKey r \<in> set (keys (merge_receipts disk ob))"
proof -
  show "IdempotencyKey e \<in> set (keys (merge_receipts disk ob))" if "e \<in> set disk" "IdempotencyKey e \<notin> settledKeys ob"
    using merge_disk_complete [OF that(1), of "settledKeys ob" "{}"] that(2) by (auto simp: merge_receipts_def Let_def)
  show "IdempotencyKey r \<in> set (keys (merge_receipts disk ob))"
    if "e \<in> set (receipts ob)" "sanitizeConsentReceipt e = Some r" "IdempotencyKey r \<in> ownKeys ob"
    using merge_own_complete [OF that(1,2), of "ownKeys ob" "set (keys (merge_disk (settledKeys ob) {} disk))"] that(3)
    by (auto simp: merge_receipts_def Let_def)
qed

section \<open>The cut to the read limit\<close>

text \<open>A record that fits is left alone; one that does not is refused, unless settled receipts are in it.\<close>

lemma fit_record_unsettled:
  "set (keys ms) \<inter> settled = {} \<Longrightarrow>
   fit_record settled ev ms = (if length (marshal_outbox ms) \<le> consentOutboxReadLimit then Some (ms, ev) else None)"
  by (cases ms) auto

section \<open>Settling evictions\<close>

lemma settle_eviction_same [simp]:
  "receipts (settle_eviction k ob) = receipts ob" "ob_file (settle_eviction k ob) = ob_file ob" "ob_dir (settle_eviction k ob) = ob_dir ob"
  "dispatching (settle_eviction k ob) = dispatching ob" "dispatchMissed (settle_eviction k ob) = dispatchMissed ob"
  "dispatchWaiters (settle_eviction k ob) = dispatchWaiters ob" "lastRead (settle_eviction k ob) = lastRead ob"
  "grantsUnprovable (settle_eviction k ob) = grantsUnprovable ob" "evictedSinceSave (settle_eviction k ob) = evictedSinceSave ob"
  "ownKeys (settle_eviction k ob) = ownKeys ob - {k}" "ob_dirty (settle_eviction k ob) = ob_dirty ob"
  "preserveUnusable (settle_eviction k ob) = preserveUnusable ob"
  by (simp_all add: settle_eviction_def Let_def)

lemma settle_fold_same:
  "receipts (fold settle_eviction ks ob) = receipts ob" "ob_file (fold settle_eviction ks ob) = ob_file ob"
  "ob_dir (fold settle_eviction ks ob) = ob_dir ob" "dispatching (fold settle_eviction ks ob) = dispatching ob"
  "dispatchMissed (fold settle_eviction ks ob) = dispatchMissed ob" "dispatchWaiters (fold settle_eviction ks ob) = dispatchWaiters ob"
  "lastRead (fold settle_eviction ks ob) = lastRead ob" "grantsUnprovable (fold settle_eviction ks ob) = grantsUnprovable ob"
  "evictedSinceSave (fold settle_eviction ks ob) = evictedSinceSave ob" "ownKeys (fold settle_eviction ks ob) = ownKeys ob - set ks"
  "ob_dirty (fold settle_eviction ks ob) = ob_dirty ob" "preserveUnusable (fold settle_eviction ks ob) = preserveUnusable ob"
  by (induction ks arbitrary: ob) auto

lemma settle_fold_memory: "memory_ok ob \<Longrightarrow> memory_ok (fold settle_eviction ks ob)"
proof (induction ks arbitrary: ob)
  case (Cons k ks)
  have "memory_ok (settle_eviction k ob)"
    using recordSettled_memory [OF Cons.prems, of k] by (simp add: settle_eviction_def memory_ok_def Let_def)
  then show ?case using Cons.IH by simp
qed simp

lemma settle_fold_keys: "settledKeys (fold settle_eviction ks ob) \<subseteq> set ks \<union> settledKeys ob"
proof (induction ks arbitrary: ob)
  case (Cons k ks)
  have "settledKeys (settle_eviction k ob) \<subseteq> insert k (settledKeys ob)"
    using recordSettled_keys [of k ob] by (simp add: settle_eviction_def Let_def)
  with Cons [of "settle_eviction k ob"] show ?case by auto
qed simp

lemma settle_evictions_same [simp]:
  "receipts (settle_evictions ks ob) = receipts ob" "ob_file (settle_evictions ks ob) = ob_file ob"
  "ob_dir (settle_evictions ks ob) = ob_dir ob" "dispatching (settle_evictions ks ob) = dispatching ob"
  "dispatchMissed (settle_evictions ks ob) = dispatchMissed ob" "dispatchWaiters (settle_evictions ks ob) = dispatchWaiters ob"
  "lastRead (settle_evictions ks ob) = lastRead ob" "grantsUnprovable (settle_evictions ks ob) = grantsUnprovable ob"
  "evictedSinceSave (settle_evictions ks ob) = evictedSinceSave ob + length ks" "ownKeys (settle_evictions ks ob) = ownKeys ob - set ks"
  "ob_dirty (settle_evictions ks ob) = ob_dirty ob" "preserveUnusable (settle_evictions ks ob) = preserveUnusable ob"
  by (simp_all add: settle_evictions_def Let_def settle_fold_same)

lemma settle_evictions_memory: "memory_ok ob \<Longrightarrow> memory_ok (settle_evictions ks ob)"
  using settle_fold_memory [of ob ks] by (simp add: settle_evictions_def memory_ok_def Let_def)

lemma settle_evictions_keys: "settledKeys (settle_evictions ks ob) \<subseteq> set ks \<union> settledKeys ob"
  using settle_fold_keys [of ks ob] by (simp add: settle_evictions_def Let_def)

section \<open>A save\<close>

text \<open>The disk view a save merges: one with a fresh decision drops this process's own entries from a damaged
  file.\<close>

definition disk_view :: "bool \<Rightarrow> consentOutbox \<Rightarrow> consentReceipt list" where
  "disk_view fresh ob =
     (let (disk, st) = fst (readRecordReceipts ob)
      in if fresh \<and> st = OutboxUnusable then filter (\<lambda>e. IdempotencyKey e \<notin> ownKeys ob) disk else disk)"

definition save_merge :: "bool \<Rightarrow> consentOutbox \<Rightarrow> consentReceipt list" where
  "save_merge fresh ob = merge_receipts (disk_view fresh ob) ob"

definition surplus :: "consentReceipt list \<Rightarrow> nat" where
  "surplus ms = length ms - maxConsentOutboxEntries"

definition opened :: "bool \<Rightarrow> consentOutbox \<Rightarrow> consentOutbox" where
  "opened fresh ob =
     (let ob = snd (readRecordReceipts ob)
      in if fresh then ob\<lparr>lastRead := OutboxParsed, grantsUnprovable := False, preserveUnusable := False\<rparr> else ob)"

lemma opened_same [simp]:
  "receipts (opened fresh ob) = receipts ob" "ownKeys (opened fresh ob) = ownKeys ob" "settledKeys (opened fresh ob) = settledKeys ob"
  "settledFIFO (opened fresh ob) = settledFIFO ob" "ob_dir (opened fresh ob) = ob_dir ob" "dispatching (opened fresh ob) = dispatching ob"
  "dispatchMissed (opened fresh ob) = dispatchMissed ob" "dispatchWaiters (opened fresh ob) = dispatchWaiters ob"
  "evictedSinceSave (opened fresh ob) = evictedSinceSave ob" "recordOwedKeys (opened fresh ob) = recordOwedKeys ob"
  by (auto simp: opened_def readRecordReceipts_def split: prod.splits)

lemma opened_flags:
  "lastRead (opened fresh ob) = (if fresh then OutboxParsed else lastRead ob)"
  "grantsUnprovable (opened fresh ob) \<longleftrightarrow> \<not> fresh \<and> grantsUnprovable ob"
  "preserveUnusable (opened fresh ob) \<longleftrightarrow> \<not> fresh \<and> preserveUnusable ob"
  by (auto simp: opened_def readRecordReceipts_def split: prod.splits)

lemma durable_opened [simp]: "durable (opened fresh ob) = durable ob" by (simp add: durable_def)

lemma saveLocked_eq:
  "ob_saveLocked fresh ob =
    (if durable ob \<and> \<not> fresh \<and> preserveUnusable ob \<and> snd (fst (readRecordReceipts ob)) = OutboxUnusable
     then (Some EvidenceHeld, (opened fresh ob)\<lparr>ob_dirty := True\<rparr>)
     else write_merged (save_merge fresh ob) (opened fresh ob))"
proof -
  obtain disk st ob1 where r: "readRecordReceipts ob = ((disk, st), ob1)" by (metis surj_pair)
  have same: "ownKeys ob1 = ownKeys ob" "settledKeys ob1 = settledKeys ob" "receipts ob1 = receipts ob" "ob_dir ob1 = ob_dir ob"
      "preserveUnusable ob1 = preserveUnusable ob"
    using r by (auto simp: readRecordReceipts_def split: if_splits prod.splits)
  then show ?thesis
    by (simp add: ob_saveLocked_def r opened_def save_merge_def disk_view_def merge_receipts_def durable_def Let_def)
qed

text \<open>Under the invariant nothing settled is in the merge, so a save writes the newest receipts up to the cap or
  refuses.\<close>

lemma write_merged_eq:
  assumes "set (keys merged) \<inter> settledKeys ob = {}"
  shows "write_merged merged ob =
     (let n = surplus merged; evict = keys (take n merged); kept = drop n merged
      in if \<not> durable ob then (None, settle_evictions evict (ob\<lparr>receipts := kept\<rparr>))
         else if length (marshal_outbox kept) > consentOutboxReadLimit then (Some RecordTooLarge, ob\<lparr>ob_dirty := True\<rparr>)
         else let (ok, f) = pf_write (marshal_outbox kept) (ob_file ob)
              in if \<not> ok then (Some WriteFailed, ob\<lparr>ob_file := f, ob_dirty := True\<rparr>)
                 else (None, settle_evictions evict (ob\<lparr>ob_file := f, receipts := kept\<rparr>)\<lparr>ob_dirty := False\<rparr>))"
proof -
  have "set (keys (drop (surplus merged) merged)) \<inter> settledKeys ob = {}" using assms by (auto dest: in_set_dropD)
  from fit_record_unsettled [OF this, of "keys (take (surplus merged) merged)"]
  show ?thesis by (simp add: write_merged_def surplus_def Let_def)
qed

text \<open>A save that fails changes nothing but the file and the owed write.\<close>

lemma write_merged_failed:
  assumes "write_merged merged ob = (Some e, ob')" and "set (keys merged) \<inter> settledKeys ob = {}"
  shows "e \<noteq> EvidenceHeld \<and> ob' = ob\<lparr>ob_file := ob_file ob', ob_dirty := True\<rparr>"
  using assms(1) by (auto simp: write_merged_eq [OF assms(2)] Let_def split: if_splits prod.splits)

lemma write_merged_ok:
  assumes "write_merged merged ob = (None, ob')" and dis: "set (keys merged) \<inter> settledKeys ob = {}"
  shows "receipts ob' = drop (surplus merged) merged \<and> ownKeys ob' = ownKeys ob - set (keys (take (surplus merged) merged)) \<and>
    evictedSinceSave ob' = evictedSinceSave ob + surplus merged \<and>
    settledKeys ob' \<subseteq> set (keys (take (surplus merged) merged)) \<union> settledKeys ob \<and> (memory_ok ob \<longrightarrow> memory_ok ob') \<and>
    (durable ob \<longrightarrow> pf_data (ob_file ob') = Some (marshal_outbox (receipts ob')) \<and>
       length (marshal_outbox (receipts ob')) \<le> consentOutboxReadLimit \<and> \<not> ob_dirty ob')"
proof -
  let ?n = "surplus merged" let ?ev = "keys (take ?n merged)"
  have n: "length ?ev = ?n" by (simp add: surplus_def)
  have mem: "memory_ok (settle_evictions ?ev (ob\<lparr>ob_file := f, receipts := k\<rparr>))" if "memory_ok ob" for f k
    by (rule settle_evictions_memory) (use that in \<open>simp add: memory_ok_def\<close>)
  have mem': "memory_ok (settle_evictions ?ev (ob\<lparr>receipts := k\<rparr>))" if "memory_ok ob" for k
    by (rule settle_evictions_memory) (use that in \<open>simp add: memory_ok_def\<close>)
  have keys: "settledKeys (settle_evictions ?ev (ob\<lparr>ob_file := f, receipts := k\<rparr>)) \<subseteq> set ?ev \<union> settledKeys ob"
    "settledKeys (settle_evictions ?ev (ob\<lparr>receipts := k\<rparr>)) \<subseteq> set ?ev \<union> settledKeys ob" for f k
    using settle_evictions_keys [of ?ev "ob\<lparr>ob_file := f, receipts := k\<rparr>"] settle_evictions_keys [of ?ev "ob\<lparr>receipts := k\<rparr>"]
    by simp_all
  show ?thesis
  proof (cases "durable ob")
    case False
    then have "ob' = settle_evictions ?ev (ob\<lparr>receipts := drop ?n merged\<rparr>)" using assms(1) by (simp add: write_merged_eq [OF dis] Let_def)
    then show ?thesis using False n mem' keys(2) by simp
  next
    case True
    then obtain f where f: "pf_write (marshal_outbox (drop ?n merged)) (ob_file ob) = (True, f)"
        "length (marshal_outbox (drop ?n merged)) \<le> consentOutboxReadLimit"
        "ob' = settle_evictions ?ev (ob\<lparr>ob_file := f, receipts := drop ?n merged\<rparr>)\<lparr>ob_dirty := False\<rparr>"
      using assms(1) by (auto simp: write_merged_eq [OF dis] Let_def split: if_splits prod.splits)
    then show ?thesis using n mem [where f = f and k = "drop ?n merged"] keys(1) pf.write_ok [OF f(1)] by (simp add: memory_ok_def)
  qed
qed

end
