(* ===== verification/Outbox_Machine.thy ===== *)
theory Outbox_Machine
  imports Outbox_Invariant
begin

text \<open>
  The outbox as a state machine: its operations in any order, with other processes replacing the file in
  between.  The invariant holds of every reachable outbox, and the properties of single operations rest on it.
\<close>

section \<open>The invariant\<close>

definition ob_inv :: "consentOutbox \<Rightarrow> bool" where
  "ob_inv ob \<longleftrightarrow> memory_ok ob \<and> distinct (keys (receipts ob)) \<and> set (keys (receipts ob)) \<inter> settledKeys ob = {} \<and>
     ownKeys ob \<inter> settledKeys ob = {} \<and> (dispatchMissed ob \<or> dispatchWaiters ob \<noteq> [] \<longrightarrow> dispatching ob)"

lemma ob_inv_other [simp]:
  "ob_inv (ob\<lparr>ob_file := f\<rparr>) = ob_inv ob" "ob_inv (ob\<lparr>ob_dirty := d\<rparr>) = ob_inv ob" "ob_inv (ob\<lparr>lastRead := st\<rparr>) = ob_inv ob"
  "ob_inv (ob\<lparr>grantsUnprovable := b\<rparr>) = ob_inv ob" "ob_inv (ob\<lparr>preserveUnusable := b\<rparr>) = ob_inv ob"
  "ob_inv (ob\<lparr>evictedSinceSave := n\<rparr>) = ob_inv ob" "ob_inv (ob\<lparr>recordOwedKeys := ks\<rparr>) = ob_inv ob"
  "ob_inv (ob\<lparr>deferUntil := t\<rparr>) = ob_inv ob" "ob_inv (ob\<lparr>backoffAttempt := a\<rparr>) = ob_inv ob"
  by (simp_all add: ob_inv_def memory_ok_def)

text \<open>What a save needs of the outbox; a prune may call it with the pruned receipts already gone.\<close>

lemma save_merge_keys:
  "ownKeys ob \<inter> settledKeys ob = {} \<Longrightarrow>
   distinct (keys (save_merge fresh ob)) \<and> set (keys (save_merge fresh ob)) \<inter> settledKeys (opened fresh ob) = {}"
  using merge_receipts_keys [where disk = "disk_view fresh ob" and ob = ob] by (auto simp: save_merge_def)

lemma split_keys:
  assumes "distinct (keys ms)"
  shows "distinct (keys (drop n ms))" "set (keys (drop n ms)) \<inter> set (keys (take n ms)) = {}"
proof -
  have "distinct (take n (keys ms) @ drop n (keys ms))" using assms by simp
  then show "distinct (keys (drop n ms))" "set (keys (drop n ms)) \<inter> set (keys (take n ms)) = {}"
    unfolding distinct_append by (auto simp: take_map drop_map)
qed

lemma write_merged_inv:
  assumes "ob_inv ob" and "distinct (keys merged)" and dis: "set (keys merged) \<inter> settledKeys ob = {}" and w: "write_merged merged ob = (err, ob')"
  shows "ob_inv ob'"
proof (cases err)
  case None
  note ok = write_merged_ok [OF w [unfolded None] dis]
  have r: "receipts ob' = drop (surplus merged) merged" "settledKeys ob' \<subseteq> set (keys (take (surplus merged) merged)) \<union> settledKeys ob"
    "ownKeys ob' = ownKeys ob - set (keys (take (surplus merged) merged))" "memory_ok ob'"
    using ok assms(1) by (auto simp: ob_inv_def)
  have d: "dispatching ob' = dispatching ob" "dispatchMissed ob' = dispatchMissed ob" "dispatchWaiters ob' = dispatchWaiters ob"
    using w by (auto simp: write_merged_eq [OF dis] Let_def split: if_splits prod.splits)
  have "set (keys (drop (surplus merged) merged)) \<subseteq> set (keys merged)" by (auto dest: in_set_dropD)
  then have "set (keys (receipts ob')) \<inter> settledKeys ob' = {}"
    unfolding r(1) using r(2) split_keys(2) [OF assms(2), of "surplus merged"] dis by blast
  moreover have "ownKeys ob' \<inter> settledKeys ob' = {}" using r(2,3) assms(1) by (auto simp: ob_inv_def)
  ultimately show ?thesis
    using r(1,4) d split_keys(1) [OF assms(2), of "surplus merged"] assms(1) by (simp add: ob_inv_def)
next
  case (Some e)
  then have eq: "ob' = ob\<lparr>ob_file := ob_file ob', ob_dirty := True\<rparr>" using write_merged_failed [OF w [unfolded Some] dis] by blast
  show ?thesis by (subst eq) (simp add: assms(1))
qed

lemma opened_inv: "ob_inv (opened fresh ob) = ob_inv ob"
  by (simp add: ob_inv_def memory_ok_def)

lemma saveLocked_inv:
  assumes "ob_inv ob" and s: "ob_saveLocked fresh ob = (err, ob')"
  shows "ob_inv ob'"
proof -
  have k: "distinct (keys (save_merge fresh ob))" "set (keys (save_merge fresh ob)) \<inter> settledKeys (opened fresh ob) = {}"
    using save_merge_keys [of ob fresh] assms(1) by (auto simp: ob_inv_def)
  show ?thesis
    using s assms(1) write_merged_inv [OF _ k, of err ob']
    by (auto simp: saveLocked_eq opened_inv split: if_splits)
qed

section \<open>Steps\<close>

text \<open>The operations, with a fresh key for a receipt appended (a receipt's key is a new random one), and the write
  of another process.\<close>

datatype outbox_op =
    Append consentReceipt | Prune gostring | Retry | SetUnprovable bool | Preserve | MarkOwed gostring
  | MarkOwedWhere "consentReceipt \<Rightarrow> bool" | ClearMarks | TakeEvicted | Claim bool | ClaimWait nat | Release
  | Consume nanos | Foreign private_file

fun perform :: "outbox_op \<Rightarrow> consentOutbox \<Rightarrow> consentOutbox" where
  "perform (Append r) ob = snd (ob_append r ob)"
| "perform (Prune k) ob = snd (prune k ob)"
| "perform Retry ob = snd (ob_retryPersist ob)"
| "perform (SetUnprovable v) ob = setGrantsUnprovable v ob"
| "perform Preserve ob = preserveEvidence ob"
| "perform (MarkOwed k) ob = markRecordOwed k ob"
| "perform (MarkOwedWhere p) ob = markRecordOwedWhere p ob"
| "perform ClearMarks ob = clearRecordOwedMarks ob"
| "perform TakeEvicted ob = snd (takeEvicted ob)"
| "perform (Claim byWorker) ob = snd (claimDispatch byWorker ob)"
| "perform (ClaimWait w) ob = snd (claimDispatchWait w ob)"
| "perform Release ob = snd (releaseDispatch ob)"
| "perform (Consume now) ob = snd (consumeElapsedDeferral now ob)"
| "perform (Foreign f) ob = ob\<lparr>ob_file := f\<rparr>"

definition allowed :: "outbox_op \<Rightarrow> consentOutbox \<Rightarrow> bool" where
  "allowed act ob = (case act of Append r \<Rightarrow> IdempotencyKey r \<notin> set (keys (receipts ob)) \<union> settledKeys ob | _ \<Rightarrow> True)"

inductive ob_step :: "consentOutbox \<Rightarrow> outbox_op \<Rightarrow> consentOutbox \<Rightarrow> bool" where
  step: "allowed act ob \<Longrightarrow> ob_step ob act (perform act ob)"

inductive_cases ob_stepE: "ob_step ob act ob'"

inductive ob_reach :: "consentOutbox \<Rightarrow> outbox_op list \<Rightarrow> consentOutbox \<Rightarrow> bool" where
  reach_start: "ob_reach ob [] ob"
| reach_step: "ob_reach ob acts ob1 \<Longrightarrow> ob_step ob1 act ob2 \<Longrightarrow> ob_reach ob (acts @ [act]) ob2"

section \<open>Every operation keeps the invariant\<close>

lemma remove_key_keys:
  "remove_key k rs = Some rs' \<Longrightarrow> distinct (keys rs) \<Longrightarrow>
   distinct (keys rs') \<and> set (keys rs') = set (keys rs) - {k} \<and> k \<in> set (keys rs)"
proof (induction rs arbitrary: rs')
  case (Cons a rs)
  show ?case
  proof (cases "IdempotencyKey a = k")
    case False
    then obtain z where z: "remove_key k rs = Some z" "rs' = a # z" using Cons.prems(1) by auto
    with Cons have "distinct (keys z)" "IdempotencyKey ` set z = IdempotencyKey ` set rs - {k}" "k \<in> IdempotencyKey ` set rs" by auto
    then show ?thesis using Cons.prems(2) False by (simp add: z(2) insert_Diff_if)
  qed (use Cons.prems in auto)
qed simp

lemma remove_key_None: "remove_key k rs = None \<longleftrightarrow> k \<notin> set (keys rs)"
  by (induction rs) auto

lemma append_inv:
  assumes "ob_inv ob" and "IdempotencyKey r \<notin> set (keys (receipts ob)) \<union> settledKeys ob"
  shows "ob_inv (snd (ob_append r ob))"
proof -
  let ?ob = "ob\<lparr>ownKeys := insert (IdempotencyKey r) (ownKeys ob), receipts := receipts ob @ [r]\<rparr>"
  have "ob_inv ?ob" using assms by (auto simp: ob_inv_def memory_ok_def)
  moreover obtain err ob' where s: "ob_saveLocked True ?ob = (err, ob')" by (metis surj_pair)
  ultimately show ?thesis using saveLocked_inv [OF _ s] by (simp add: ob_append_def s)
qed

definition pruned :: "gostring \<Rightarrow> consentReceipt list \<Rightarrow> consentOutbox \<Rightarrow> consentOutbox" where
  "pruned k rs ob =
     (let ob = ob_recordSettledLocked k ob
      in ob\<lparr>recordOwedKeys := recordOwedKeys ob - {k}, ownKeys := ownKeys ob - {k}, receipts := rs\<rparr>)"

lemma prune_eq:
  "prune k ob = (case remove_key k (receipts ob) of None \<Rightarrow> (False, ob)
     | Some rs \<Rightarrow> (consentSaveFailedDurably (fst (ob_saveLocked False (pruned k rs ob))), snd (ob_saveLocked False (pruned k rs ob))))"
  by (simp add: prune_def pruned_def Let_def split: option.splits prod.splits)

lemma pruned_inv:
  assumes "ob_inv ob" and "remove_key k (receipts ob) = Some rs"
  shows "ob_inv (pruned k rs ob)"
proof -
  have rs: "distinct (keys rs)" "set (keys rs) = set (keys (receipts ob)) - {k}"
    using remove_key_keys [OF assms(2)] assms(1) by (auto simp: ob_inv_def)
  have sub: "settledKeys (pruned k rs ob) \<subseteq> insert k (settledKeys ob)"
    using recordSettled_keys [of k ob] by (simp add: pruned_def Let_def)
  have "memory_ok (ob_recordSettledLocked k ob)" by (rule recordSettled_memory) (use assms(1) in \<open>simp add: ob_inv_def\<close>)
  then have "memory_ok (pruned k rs ob)" by (simp add: pruned_def memory_ok_def Let_def)
  moreover have "set (keys rs) \<inter> settledKeys (pruned k rs ob) = {}"
    using sub assms(1) unfolding rs(2) ob_inv_def by blast
  moreover have "(ownKeys ob - {k}) \<inter> settledKeys (pruned k rs ob) = {}"
    using sub assms(1) unfolding ob_inv_def by blast
  ultimately show ?thesis
    using assms(1) rs(1) by (simp add: ob_inv_def) (simp add: pruned_def Let_def)
qed

lemma prune_inv: "ob_inv ob \<Longrightarrow> ob_inv (snd (prune k ob))"
  by (auto simp: prune_eq pruned_inv split: option.split intro: saveLocked_inv [OF pruned_inv prod.collapse [symmetric]])

lemma retry_inv: "ob_inv ob \<Longrightarrow> ob_inv (snd (ob_retryPersist ob))"
  using saveLocked_inv [of ob False] by (auto simp: ob_retryPersist_def split: prod.splits)

lemma claim_inv:
  assumes "ob_inv ob"
  shows "ob_inv (snd (claimDispatch b ob))" "ob_inv (snd (claimDispatchWait w ob))" "ob_inv (snd (releaseDispatch ob))"
  using assms by (auto simp: claimDispatch_def claimDispatchWait_def releaseDispatch_def ob_inv_def memory_ok_def)

lemma perform_inv: "ob_inv ob \<Longrightarrow> allowed act ob \<Longrightarrow> ob_inv (perform act ob)"
  by (cases act)
     (auto simp: allowed_def append_inv prune_inv retry_inv claim_inv setGrantsUnprovable_def preserveEvidence_def markRecordOwed_def
       markRecordOwedWhere_def clearRecordOwedMarks_def takeEvicted_def consumeElapsedDeferral_def split: option.splits)

lemma reach_inv: "ob_reach ob0 acts ob \<Longrightarrow> ob_inv ob0 \<Longrightarrow> ob_inv ob"
  by (induction rule: ob_reach.induct) (auto elim!: ob_stepE intro: perform_inv)

text \<open>A fresh outbox, and one that has loaded its file, start with the invariant.\<close>

lemma new_inv: "ob_inv (newConsentOutbox dir f)"
  by (simp add: ob_inv_def newConsentOutbox_def memory_ok_def)

lemma read_entries_keys:
  "distinct (keys (fst (fold read_entry es acc))) \<and> fst (snd (fold read_entry es acc)) = set (keys (fst (fold read_entry es acc)))"
  if "distinct (keys (fst acc)) \<and> fst (snd acc) = set (keys (fst acc))"
  using that
proof (induction es arbitrary: acc)
  case (Cons e es)
  have "distinct (keys (fst (read_entry e acc))) \<and> fst (snd (read_entry e acc)) = set (keys (fst (read_entry e acc)))"
    using Cons.prems by (auto simp: read_entry_def Let_def split: prod.splits option.splits)
  then show ?case using Cons.IH by simp
qed simp

lemma read_receipts_distinct: "distinct (keys (fst (read_receipts got)))"
proof -
  have "distinct (keys (fst (read_entries es)))" for es
    using read_entries_keys [of "([], {}, False, \<lambda>_. None)" es] by (auto simp: read_entries_def split: prod.splits)
  then show ?thesis by (auto simp: read_receipts_def split: file_read.splits option.splits)
qed

lemma ob_load_inv: "ob_inv (ob_load own (newConsentOutbox dir f))"
proof -
  have "distinct (keys loaded)" if "read_receipts got = (loaded, st)" for got loaded st
    using read_receipts_distinct [of got] that by simp
  then show ?thesis
    by (auto simp: ob_load_def newConsentOutbox_def ob_inv_def memory_ok_def Let_def split: prod.splits)
qed

end
