(* ===== verification/Outbox_Format.thy ===== *)
theory Outbox_Format
  imports Consent_Facts Outbox_Machine
begin

text \<open>
  The outbox file reads back: a record the client wrote decodes to the receipts it was written from, in their
  order, each passing the checks of a load.
\<close>

section \<open>One receipt\<close>

lemma receipt_plain:
  "plain ''notice_version''" "plain ''notice_locale''" "plain ''policy_version''" "plain ''idempotency_key''" "plain ''workspace_id''"
  "plain ''app_id''" "plain ''environment_id''" "plain ''actor_identifier''" "plain ''kind''" "plain ''categories''" "plain ''analytics''"
  "plain ''reason''" "plain ''anonymous_id''" "plain ''version''" "plain ''receipts''"
  by code_simp+

lemma receipt_lower:
  "to_lower ''notice_version'' = ''notice_version''"
  "to_lower ''notice_locale'' = ''notice_locale''"
  "to_lower ''policy_version'' = ''policy_version''"
  "to_lower ''idempotency_key'' = ''idempotency_key''"
  "to_lower ''workspace_id'' = ''workspace_id''"
  "to_lower ''app_id'' = ''app_id''"
  "to_lower ''environment_id'' = ''environment_id''"
  "to_lower ''actor_identifier'' = ''actor_identifier''"
  "to_lower ''kind'' = ''kind''"
  "to_lower ''categories'' = ''categories''"
  "to_lower ''analytics'' = ''analytics''"
  "to_lower ''reason'' = ''reason''"
  "to_lower ''anonymous_id'' = ''anonymous_id''"
  "to_lower ''version'' = ''version''"
  "to_lower ''receipts'' = ''receipts''"
  by code_simp+

definition receipt_utf8 :: "consentReceipt \<Rightarrow> bool" where
  "receipt_utf8 r \<longleftrightarrow> list_all utf8_valid [NoticeVersion (rc_notice r), NoticeLocale (rc_notice r), NoticePolicyVersion (rc_notice r),
     IdempotencyKey r, rcp_WorkspaceID r, rcp_AppID r, rcp_EnvironmentID r, rcp_ActorIdentifier r, rcp_Kind r, rcp_DecidedAt r,
     rcp_Reason r, rcp_AnonymousID r]"

lemma analytics_member_ok: "member_ok d (analytics_member a)"
  using bool_member_ok [OF receipt_plain(11)]
  by (cases a) (simp_all add: analytics_member_def receipt_plain member_ok_def value_text_null)

lemma receipt_members_ok: "receipt_utf8 r \<Longrightarrow> d < 9000 \<Longrightarrow> list_all (member_ok d) (receipt_members r)"
  by (simp add: receipt_utf8_def receipt_members_def notice_members_def members_ok receipt_plain record_plain obj_member_ok
      analytics_member_ok max_depth_def)

lemma notice_field_opt:
  "field k ms = (if s \<noteq> [] then [(t, JStr s)] else []) \<Longrightarrow> notice_field k ms = (s, s \<noteq> [], False)"
  by (cases "s = []") (simp_all add: notice_field_def)

lemma decode_categories_member: "decode_categories [analytics_member a] = Some a"
  by (cases a) (simp_all add: decode_categories_def analytics_member_def bool_member_def dpointer_one field_of_Cons field_of_Nil as_bool_def)

text \<open>What a decode sets that the receipt in memory does not keep: whether a notice was present.\<close>

definition as_decoded :: "consentReceipt \<Rightarrow> consentReceipt" where
  "as_decoded r = r\<lparr>noticePresent := rc_notice r \<noteq> no_notice, noticeInvalid := False\<rparr>"

lemma decode_receipt_members: "decode_receipt (receipt_members r) = Some (as_decoded r)"
proof -
  let ?ms = "receipt_members r"
  note f = receipt_members_def notice_members_def field_members receipt_lower record_lower
  have "dstring ''idempotency_key'' ?ms = Some (IdempotencyKey r)" by (rule dstring_one) (simp add: f)
  moreover have "dstring ''workspace_id'' ?ms = Some (rcp_WorkspaceID r)" by (rule dstring_one) (simp add: f)
  moreover have "dstring ''app_id'' ?ms = Some (rcp_AppID r)" by (rule dstring_one) (simp add: f)
  moreover have "dstring ''environment_id'' ?ms = Some (rcp_EnvironmentID r)" by (rule dstring_one) (simp add: f)
  moreover have "dstring ''actor_identifier'' ?ms = Some (rcp_ActorIdentifier r)" by (rule dstring_one) (simp add: f)
  moreover have "dstring ''kind'' ?ms = Some (rcp_Kind r)" by (rule dstring_one) (simp add: f)
  moreover have "struct_field ''categories'' ?ms = Some [analytics_member (Analytics r)]"
  proof -
    have "field ''categories'' ?ms = [(enc_object (map member_pair [analytics_member (Analytics r)]), JObj [analytics_member (Analytics r)])]"
      by (simp add: f)
    then show ?thesis by (simp add: struct_field_def)
  qed
  moreover have "dstring ''decided_at'' ?ms = Some (rcp_DecidedAt r)" by (rule dstring_one) (simp add: f)
  moreover have "dstring ''reason'' ?ms = Some (rcp_Reason r)" by (rule dstring_opt') (simp add: f)
  moreover have "dstring ''anonymous_id'' ?ms = Some (rcp_AnonymousID r)" by (rule dstring_opt') (simp add: f)
  moreover have "notice_field ''notice_version'' ?ms = (NoticeVersion (rc_notice r), NoticeVersion (rc_notice r) \<noteq> [], False)"
    by (rule notice_field_opt) (simp add: f)
  moreover have "notice_field ''notice_locale'' ?ms = (NoticeLocale (rc_notice r), NoticeLocale (rc_notice r) \<noteq> [], False)"
    by (rule notice_field_opt) (simp add: f)
  moreover have "notice_field ''policy_version'' ?ms = (NoticePolicyVersion (rc_notice r), NoticePolicyVersion (rc_notice r) \<noteq> [], False)"
    by (rule notice_field_opt) (simp add: f)
  moreover have "rc_notice r \<noteq> no_notice \<longleftrightarrow> NoticeVersion (rc_notice r) \<noteq> [] \<or> NoticeLocale (rc_notice r) \<noteq> [] \<or> NoticePolicyVersion (rc_notice r) \<noteq> []"
    by (cases "rc_notice r") (auto simp: no_notice_def)
  ultimately show ?thesis
    by (simp add: decode_receipt_def as_decoded_def decode_categories_member)
qed

section \<open>The file\<close>

lemma unmarshal_marshal_outbox:
  assumes "list_all receipt_utf8 rs"
  shows "unmarshal_outbox (marshal_outbox rs) = Some (consentOutboxRecordVersion, Some (map as_decoded rs))"
proof -
  have elems: "list_all (\<lambda>(t, v). value_text 2 t v) (map receipt_text rs)"
    using assms by (auto simp: list_all_iff receipt_text_def intro!: value_text_object receipt_members_ok)
       (simp_all add: receipt_members_def max_depth_def)
  have "list_all (member_ok 1) (outbox_members rs)"
    using elems by (simp add: outbox_members_def int_member_ok receipt_plain numeral_2_eq_2 max_depth_def)
      (rule arr_member_ok; simp add: receipt_plain max_depth_def numeral_2_eq_2)
  then have p: "parse_json (marshal_outbox rs) = Some (JObj (outbox_members rs))"
    unfolding marshal_outbox_def by (intro parse_object) (simp_all add: outbox_members_def)
  have "decode_field as_int 0 ''version'' (outbox_members rs) = Some consentOutboxRecordVersion"
  proof -
    have "field ''version'' (outbox_members rs) = [(show_int consentOutboxRecordVersion, JNum (show_int consentOutboxRecordVersion))]"
      by (simp add: outbox_members_def field_members receipt_lower)
    moreover have "as_int (JNum (show_int consentOutboxRecordVersion)) = Some consentOutboxRecordVersion" by code_simp
    ultimately show ?thesis by (simp add: decode_one)
  qed
  moreover have "dpointer (as_list zero_receipt (as_struct decode_receipt)) ''receipts'' (outbox_members rs) = Some (Some (map as_decoded rs))"
  proof -
    have "field ''receipts'' (outbox_members rs) = [(enc_array (map fst (map receipt_text rs)), JArr (map snd (map receipt_text rs)))]"
      by (simp add: outbox_members_def field_members receipt_lower)
    moreover have "those (map (\<lambda>v. if v = JNull then Some zero_receipt else as_struct decode_receipt v) (map snd (map receipt_text rs))) =
        Some (map as_decoded rs)"
      by (induction rs) (simp_all add: receipt_text_def as_struct_def decode_receipt_members)
    ultimately show ?thesis by (simp add: dpointer_one as_list_def)
  qed
  ultimately show ?thesis by (simp add: unmarshal_outbox_def p decode_outbox_def)
qed

text \<open>A receipt that passed the checks passes them again.\<close>

definition forget_invalid :: "consentReceipt \<Rightarrow> consentReceipt" where "forget_invalid r = r\<lparr>noticeInvalid := False\<rparr>"

lemma sanitize_fixed:
  assumes "sanitizeConsentReceipt r = Some r"
  shows "sound_fields r" "\<not> noticePresent r" "rc_notice r \<noteq> no_notice \<Longrightarrow> notice_valid (rc_notice r)"
proof -
  have s: "sound_fields r" "scrub r = r" using assms by (auto simp: sanitize_eq split: if_splits)
  show "sound_fields r" by (rule s)
  have "\<not> noticePresent (scrub r)" "malformedNotice r \<Longrightarrow> rc_notice (scrub r) = no_notice" by (simp_all add: scrub_def)
  then show "\<not> noticePresent r" "rc_notice r \<noteq> no_notice \<Longrightarrow> notice_valid (rc_notice r)"
    by (auto simp: s(2) malformedNotice_def)
qed

lemma forget_decoded: "\<not> noticePresent r \<Longrightarrow> (as_decoded r)\<lparr>noticePresent := False\<rparr> = forget_invalid r"
  by (cases r) (simp add: as_decoded_def forget_invalid_def)

lemma sanitize_decoded:
  assumes "sanitizeConsentReceipt r = Some r"
  shows "sanitizeConsentReceipt (as_decoded r) = Some (forget_invalid r)"
proof -
  note p = sanitize_fixed [OF assms]
  have m: "\<not> malformedNotice (as_decoded r)" using p(3) by (auto simp: as_decoded_def malformedNotice_def)
  have "sound_fields (as_decoded r)" using p(1) by (simp add: sound_fields_def as_decoded_def)
  then show ?thesis using m forget_decoded [OF p(2)] by (simp add: sanitize_eq scrub_def)
qed

lemma read_entries_all:
  assumes "\<forall>e \<in> set es. sanitizeConsentReceipt e = Some (g e)" and "distinct (keys es)"
  shows "fst (read_entries es) = map g es"
proof -
  have "fst (fold read_entry es (acc, seen, rej, last)) = acc @ map g es" if "set (keys es) \<inter> seen = {}" for acc seen rej last
    using assms that
  proof (induction es arbitrary: acc seen rej last)
    case (Cons e es)
    have s: "sanitizeConsentReceipt e = Some (g e)" "IdempotencyKey (g e) = IdempotencyKey e" "IdempotencyKey e \<notin> seen"
      using Cons.prems sanitize_key [of e "g e"] by auto
    have "set (keys es) \<inter> insert (IdempotencyKey e) seen = {}" using Cons.prems by auto
    then show ?case using Cons.IH Cons.prems s by (simp add: read_entry_def Let_def)
  qed simp
  from this [of "{}" "[]" False "\<lambda>_. None"] show ?thesis by (auto simp: read_entries_def split: prod.splits)
qed

lemma read_marshalled:
  assumes "list_all receipt_utf8 rs" and "\<forall>r \<in> set rs. sanitizeConsentReceipt r = Some r" and "distinct (keys rs)"
    and "length (marshal_outbox rs) \<le> consentOutboxReadLimit"
  shows "fst (read_receipts (Content (marshal_outbox rs))) = map forget_invalid rs"
proof -
  have "file_entries (Content (marshal_outbox rs)) = Some (map as_decoded rs)"
    using assms(1,4) by (simp add: file_entries_def unmarshal_marshal_outbox)
  moreover have "fst (read_entries (map as_decoded rs)) = map (\<lambda>e. e\<lparr>noticePresent := False\<rparr>) (map as_decoded rs)"
  proof (rule read_entries_all)
    show "distinct (keys (map as_decoded rs))" using assms(3) by (simp add: as_decoded_def comp_def)
    show "\<forall>e \<in> set (map as_decoded rs). sanitizeConsentReceipt e = Some (e\<lparr>noticePresent := False\<rparr>)"
      using assms(2) sanitize_decoded sanitize_fixed(2) by (auto simp: forget_decoded)
  qed
  moreover have "map (\<lambda>e. e\<lparr>noticePresent := False\<rparr>) (map as_decoded rs) = map forget_invalid rs"
    using assms(2) sanitize_fixed(2) by (auto simp: forget_decoded)
  ultimately show ?thesis by (simp add: read_receipts_def)
qed

end
