(* ===== verification/Outbox_Guarantees.thy ===== *)
theory Outbox_Guarantees
  imports Outbox_Format
begin

text \<open>
  What the consent outbox guarantees in every order of its operations: its invariant, saves that lose nothing,
  appends that are durable and read back after a restart, what a prune leaves, and grants withheld while the
  trail is damaged.
\<close>

section \<open>The invariant\<close>

abbreviation started :: "(consentReceipt \<Rightarrow> bool) \<Rightarrow> gostring \<Rightarrow> private_file \<Rightarrow> outbox_op list \<Rightarrow> consentOutbox \<Rightarrow> bool" where
  "started own dir f acts ob \<equiv> ob_reach (ob_load own (newConsentOutbox dir f)) acts ob"

lemma started_inv: "started own dir f acts ob \<Longrightarrow> ob_inv ob"
  using reach_inv ob_load_inv by blast

text \<open>C8. In every order of operations, with other processes rewriting the file at any point, the outbox holds no
  receipt twice, holds none it has settled and owns none it has settled; it remembers at most 256 settled keys;
  and a missed claim or a waiter is recorded only while some dispatch holds the claim, so none is ever left
  without a release to wake it.\<close>

theorem outbox_invariant:
  assumes "started own dir f acts ob"
  shows "distinct (map IdempotencyKey (receipts ob)) \<and> IdempotencyKey ` set (receipts ob) \<inter> settledKeys ob = {} \<and>
    ownKeys ob \<inter> settledKeys ob = {} \<and> settledKeys ob = set (settledFIFO ob) \<and> length (settledFIFO ob) \<le> 256 \<and>
    (dispatchMissed ob \<or> dispatchWaiters ob \<noteq> [] \<longrightarrow> dispatching ob)"
  using started_inv [OF assms] by (auto simp: ob_inv_def memory_ok_def consentSettledMemory_def)

section \<open>Saving\<close>

lemma save_all:
  assumes inv: "ob_inv ob" and s: "ob_saveLocked fresh ob = (err, ob')"
  shows "err \<noteq> None \<Longrightarrow> receipts ob' = receipts ob \<and> settledKeys ob' = settledKeys ob \<and> ownKeys ob' = ownKeys ob \<and>
      evictedSinceSave ob' = evictedSinceSave ob \<and> ob_dirty ob'"
    and "err = None \<Longrightarrow> receipts ob' = drop (surplus (save_merge fresh ob)) (save_merge fresh ob) \<and>
      evictedSinceSave ob' = evictedSinceSave ob + surplus (save_merge fresh ob) \<and>
      (durable ob \<longrightarrow> pf_data (ob_file ob') = Some (marshal_outbox (receipts ob')) \<and>
         length (marshal_outbox (receipts ob')) \<le> consentOutboxReadLimit \<and> \<not> ob_dirty ob')"
proof -
  have dis: "set (keys (save_merge fresh ob)) \<inter> settledKeys (opened fresh ob) = {}"
    using save_merge_keys [of ob fresh] inv by (simp add: ob_inv_def)
  show "receipts ob' = receipts ob \<and> settledKeys ob' = settledKeys ob \<and> ownKeys ob' = ownKeys ob \<and>
      evictedSinceSave ob' = evictedSinceSave ob \<and> ob_dirty ob'" if ne: "err \<noteq> None"
  proof (cases "write_merged (save_merge fresh ob) (opened fresh ob) = (err, ob')")
    case True
    moreover obtain e where "err = Some e" using ne by (cases err) auto
    ultimately have "write_merged (save_merge fresh ob) (opened fresh ob) = (Some e, ob')" by simp
    then have eq: "ob' = (opened fresh ob)\<lparr>ob_file := ob_file ob', ob_dirty := True\<rparr>" using write_merged_failed [OF _ dis] by blast
    show ?thesis
      using arg_cong [OF eq, of receipts] arg_cong [OF eq, of settledKeys] arg_cong [OF eq, of ownKeys]
        arg_cong [OF eq, of evictedSinceSave] arg_cong [OF eq, of ob_dirty] by simp
  next
    case False
    then have "ob' = (opened fresh ob)\<lparr>ob_dirty := True\<rparr>" using s by (auto simp: saveLocked_eq split: if_splits)
    then show ?thesis by simp
  qed
  show "receipts ob' = drop (surplus (save_merge fresh ob)) (save_merge fresh ob) \<and>
      evictedSinceSave ob' = evictedSinceSave ob + surplus (save_merge fresh ob) \<and>
      (durable ob \<longrightarrow> pf_data (ob_file ob') = Some (marshal_outbox (receipts ob')) \<and>
         length (marshal_outbox (receipts ob')) \<le> consentOutboxReadLimit \<and> \<not> ob_dirty ob')" if "err = None"
  proof -
    have "write_merged (save_merge fresh ob) (opened fresh ob) = (None, ob')" using s that by (auto simp: saveLocked_eq split: if_splits)
    from write_merged_ok [OF this dis] show ?thesis by auto
  qed
qed

text \<open>What a save merges, without its loops: the checked receipts of the file, in their order, that are not settled
  (without this process's own when a fresh decision meets a damaged file), then the receipts of memory that pass
  the checks, are this process's own and are not yet there, in their order.\<close>

lemma merge_disk_filter:
  "distinct (keys es) \<Longrightarrow> merge_disk settled seen es = filter (\<lambda>e. IdempotencyKey e \<notin> settled \<union> seen) es"
proof (induction es arbitrary: seen)
  case (Cons e es)
  have "merge_disk settled (insert (IdempotencyKey e) seen) es = filter (\<lambda>x. IdempotencyKey x \<notin> settled \<union> insert (IdempotencyKey e) seen) es"
    by (rule Cons.IH) (use Cons.prems in simp)
  also have "\<dots> = filter (\<lambda>x. IdempotencyKey x \<notin> settled \<union> seen) es"
    using Cons.prems by (intro filter_cong) (auto simp: image_iff)
  finally show ?case using Cons.IH [of seen] Cons.prems by simp
qed simp

lemma merge_own_filter:
  "distinct (keys es) \<Longrightarrow>
   merge_own own seen es = filter (\<lambda>r. IdempotencyKey r \<in> own \<and> IdempotencyKey r \<notin> seen) (List.map_filter sanitizeConsentReceipt es)"
proof (induction es arbitrary: seen)
  case (Cons e es)
  show ?case
  proof (cases "sanitizeConsentReceipt e")
    case None
    then show ?thesis using Cons by (simp add: List.map_filter_simps)
  next
    case (Some r)
    have k: "IdempotencyKey r = IdempotencyKey e" by (rule sanitize_key [OF Some])
    have "IdempotencyKey x \<noteq> IdempotencyKey r" if "x \<in> set (List.map_filter sanitizeConsentReceipt es)" for x
    proof -
      from that obtain y where y: "y \<in> set es" "sanitizeConsentReceipt y = Some x" by (auto simp: List.map_filter_def)
      then have "IdempotencyKey x \<in> IdempotencyKey ` set es" using sanitize_key [OF y(2)] by simp
      then show ?thesis using Cons.prems k by auto
    qed
    then have "filter (\<lambda>x. IdempotencyKey x \<in> own \<and> IdempotencyKey x \<notin> insert (IdempotencyKey r) seen) (List.map_filter sanitizeConsentReceipt es) =
        filter (\<lambda>x. IdempotencyKey x \<in> own \<and> IdempotencyKey x \<notin> seen) (List.map_filter sanitizeConsentReceipt es)"
      by (intro filter_cong) auto
    then show ?thesis using Cons Some by (simp add: List.map_filter_simps)
  qed
qed (simp add: List.map_filter_simps)

definition on_file :: "consentOutbox \<Rightarrow> consentReceipt list" where
  "on_file ob = fst (fst (readRecordReceipts ob))"

lemma disk_view_eq:
  "disk_view fresh ob = filter (\<lambda>e. fresh \<and> snd (fst (readRecordReceipts ob)) = OutboxUnusable \<longrightarrow> IdempotencyKey e \<notin> ownKeys ob) (on_file ob)"
  by (cases "fst (readRecordReceipts ob)") (cases "fresh \<and> snd (fst (readRecordReceipts ob)) = OutboxUnusable"; auto simp: disk_view_def on_file_def)

lemma on_file_distinct: "distinct (keys (on_file ob))"
  using read_receipts_distinct by (auto simp: on_file_def readRecordReceipts_def split: prod.splits)

lemma save_merge_filter:
  assumes "ob_inv ob"
  shows "save_merge fresh ob =
    (let disk = filter (\<lambda>e. IdempotencyKey e \<notin> settledKeys ob \<and>
                  \<not> (fresh \<and> snd (fst (readRecordReceipts ob)) = OutboxUnusable \<and> IdempotencyKey e \<in> ownKeys ob)) (on_file ob)
     in disk @ filter (\<lambda>r. IdempotencyKey r \<in> ownKeys ob \<and> IdempotencyKey r \<notin> IdempotencyKey ` set disk)
                 (List.map_filter sanitizeConsentReceipt (receipts ob)))"
proof -
  have "distinct (keys (disk_view fresh ob))" using on_file_distinct by (simp add: disk_view_eq distinct_map_filter)
  then have d: "merge_disk (settledKeys ob) {} (disk_view fresh ob) = filter (\<lambda>e. IdempotencyKey e \<notin> settledKeys ob) (disk_view fresh ob)"
    by (simp add: merge_disk_filter)
  have o: "distinct (keys (receipts ob))" using assms by (simp add: ob_inv_def)
  have v: "filter (\<lambda>e. IdempotencyKey e \<notin> settledKeys ob) (disk_view fresh ob) =
      filter (\<lambda>e. IdempotencyKey e \<notin> settledKeys ob \<and>
        \<not> (fresh \<and> snd (fst (readRecordReceipts ob)) = OutboxUnusable \<and> IdempotencyKey e \<in> ownKeys ob)) (on_file ob)"
    by (auto simp: disk_view_eq intro!: filter_cong)
  show ?thesis by (simp add: save_merge_def merge_receipts_def d merge_own_filter [OF o] v Let_def)
qed

lemma save_failed_state:
  assumes "ob_inv ob" and "ob_saveLocked fresh ob = (Some e, ob')"
  shows "\<exists>f. ob' = (if fresh then ob\<lparr>lastRead := OutboxParsed, grantsUnprovable := False, preserveUnusable := False\<rparr> else ob)\<lparr>ob_file := f, ob_dirty := True\<rparr> \<and>
    (pf_data f = pf_data (ob_file ob) \<or> pf_data f = Some (marshal_outbox (drop (surplus (save_merge fresh ob)) (save_merge fresh ob))))"
proof -
  let ?m = "save_merge fresh ob"
  have dis: "set (keys ?m) \<inter> settledKeys (opened fresh ob) = {}" using save_merge_keys [of ob fresh] assms(1) by (simp add: ob_inv_def)
  obtain g where o: "opened fresh ob = (if fresh then ob\<lparr>lastRead := OutboxParsed, grantsUnprovable := False, preserveUnusable := False\<rparr> else ob)\<lparr>ob_file := g\<rparr>"
    "pf_data g = pf_data (ob_file ob)"
  proof (cases "durable ob")
    case False
    then have "opened fresh ob = (if fresh then ob\<lparr>lastRead := OutboxParsed, grantsUnprovable := False, preserveUnusable := False\<rparr> else ob)\<lparr>ob_file := ob_file ob\<rparr>"
      by (simp add: opened_def readRecordReceipts_def)
    then show ?thesis using that by blast
  next
    case True
    obtain got g where p: "pf_read (ob_file ob) = (got, g)" by (metis surj_pair)
    have "opened fresh ob = (if fresh then ob\<lparr>lastRead := OutboxParsed, grantsUnprovable := False, preserveUnusable := False\<rparr> else ob)\<lparr>ob_file := g\<rparr>"
      using True by (simp add: opened_def readRecordReceipts_def p)
    then show ?thesis using that pf.read_same [OF p] by blast
  qed
  have end_same: "ob'' = opened fresh ob\<lparr>ob_file := h, ob_dirty := True\<rparr> \<Longrightarrow> ob'' =
      (if fresh then ob\<lparr>lastRead := OutboxParsed, grantsUnprovable := False, preserveUnusable := False\<rparr> else ob)\<lparr>ob_file := h, ob_dirty := True\<rparr>" for ob'' h
    by (simp add: o(1))
  show ?thesis
  proof (cases "write_merged ?m (opened fresh ob) = (Some e, ob')")
    case True
    note eq = write_merged_failed [OF True dis]
    have "pf_data (ob_file ob') = pf_data (ob_file (opened fresh ob)) \<or> pf_data (ob_file ob') = Some (marshal_outbox (drop (surplus ?m) ?m))"
      using True by (auto simp: write_merged_eq [OF dis] Let_def split: if_splits prod.splits dest!: pf.write_either)
    moreover have "pf_data (ob_file (opened fresh ob)) = pf_data (ob_file ob)" by (simp add: o)
    ultimately show ?thesis using end_same [OF conjunct2 [OF eq]] by metis
  next
    case False
    then have "ob' = (opened fresh ob)\<lparr>ob_dirty := True\<rparr>" using assms(2) by (auto simp: saveLocked_eq split: if_splits)
    then have "ob' = opened fresh ob\<lparr>ob_file := g, ob_dirty := True\<rparr>" using o(1) by simp
    then show ?thesis using end_same o(2) by blast
  qed
qed

text \<open>C12. A save of any reachable outbox is all or nothing.  The record it means to write is the newest 32 of the
  file's unsettled receipts followed by this process's own; no receipt is shed to make the record fit.  A save
  that fails leaves memory as it was (a fresh decision clears its three flags of doubt first) and owes the write; the file
  holds what it held or, when the write landed all the same, that whole record.  A save that succeeds holds
  that record in memory, counts every older receipt as evicted, and a durable one leaves exactly it in the
  file, short enough for the next reader.\<close>

theorem save_all_or_nothing:
  assumes "started own dir f acts ob" and "ob_saveLocked fresh ob = (err, ob')"
  shows "let disk = filter (\<lambda>e. IdempotencyKey e \<notin> settledKeys ob \<and>
                  \<not> (fresh \<and> snd (fst (readRecordReceipts ob)) = OutboxUnusable \<and> IdempotencyKey e \<in> ownKeys ob)) (on_file ob);
      own = filter (\<lambda>r. IdempotencyKey r \<in> ownKeys ob \<and> IdempotencyKey r \<notin> IdempotencyKey ` set disk) (List.map_filter sanitizeConsentReceipt (receipts ob));
      n = length (disk @ own) - 32; record = drop n (disk @ own)
    in if err \<noteq> None
    then \<exists>g. ob' = (if fresh then ob\<lparr>lastRead := OutboxParsed, grantsUnprovable := False, preserveUnusable := False\<rparr> else ob)\<lparr>ob_file := g, ob_dirty := True\<rparr> \<and>
      (pf_data g = pf_data (ob_file ob) \<or> pf_data g = Some (marshal_outbox record))
    else receipts ob' = record \<and> evictedSinceSave ob' = evictedSinceSave ob + n \<and>
      (durable ob \<longrightarrow> pf_data (ob_file ob') = Some (marshal_outbox record) \<and> length (marshal_outbox record) \<le> 256 * 1024 \<and> \<not> ob_dirty ob')"
proof -
  have inv: "ob_inv ob" by (rule started_inv [OF assms(1)])
  note m = save_merge_filter [OF inv, of fresh, unfolded Let_def]
  show ?thesis
  proof (cases err)
    case (Some e)
    from save_failed_state [OF inv assms(2) [unfolded Some]] show ?thesis
      unfolding Let_def m [symmetric] by (simp add: Some surplus_def maxConsentOutboxEntries_def)
  next
    case None
    note sv = save_all(2) [OF inv assms(2) None]
    then have r: "receipts ob' = drop (length (save_merge fresh ob) - 32) (save_merge fresh ob)"
      by (simp add: surplus_def maxConsentOutboxEntries_def)
    show ?thesis using sv
      unfolding Let_def m [symmetric] by (simp add: None surplus_def maxConsentOutboxEntries_def consentOutboxReadLimit_def r)
  qed
qed

section \<open>Appending\<close>

lemma merge_own_last:
  assumes "sanitizeConsentReceipt r = Some r'" "IdempotencyKey r' \<in> own" "IdempotencyKey r' \<notin> seen" "IdempotencyKey r' \<notin> set (keys es)"
  shows "\<exists>pre. merge_own own seen (es @ [r]) = pre @ [r']"
  using assms(3,4)
proof (induction es arbitrary: seen)
  case Nil
  then show ?case using assms(1,2) by simp
next
  case (Cons e es)
  show ?case
  proof (cases "sanitizeConsentReceipt e")
    case None
    then show ?thesis using Cons by simp
  next
    case (Some e')
    then have "IdempotencyKey e' = IdempotencyKey e" by (rule sanitize_key)
    then have "IdempotencyKey r' \<notin> insert (IdempotencyKey e') seen" using Cons.prems by auto
    then obtain pre where "merge_own own (insert (IdempotencyKey e') seen) (es @ [r]) = pre @ [r']"
      using Cons.IH [of "insert (IdempotencyKey e') seen"] Cons.prems by auto
    then have "\<exists>pre. e' # merge_own own (insert (IdempotencyKey e') seen) (es @ [r]) = pre @ [r']"
      by (intro exI [of _ "e' # pre"]) simp
    with Cons Some show ?thesis by (cases "IdempotencyKey e' \<notin> own \<or> IdempotencyKey e' \<in> seen") auto
  qed
qed

lemma saveLocked_flags:
  assumes "ob_saveLocked fresh ob = (err, ob')"
  shows "lastRead ob' = (if fresh then OutboxParsed else lastRead ob)" "grantsUnprovable ob' \<longleftrightarrow> \<not> fresh \<and> grantsUnprovable ob"
    "ob_dir ob' = ob_dir ob"
  using assms
  by (auto simp: saveLocked_eq write_merged_def opened_flags Let_def split: if_splits option.splits prod.splits)

lemma append_all:
  assumes "started own dir f acts ob" and "durable ob" and "allowed (Append r) ob" and "sanitizeConsentReceipt r = Some r'"
    and "IdempotencyKey r \<notin> IdempotencyKey ` set (on_file ob)" and "ob_append r ob = (failed, ob')"
  shows "if failed then r \<in> set (receipts ob') \<and> ob_dirty ob'
    else pf_data (ob_file ob') = Some (marshal_outbox (receipts ob')) \<and> receipts ob' \<noteq> [] \<and> last (receipts ob') = r' \<and>
      length (receipts ob') \<le> 32 \<and> lastRead ob' = OutboxParsed \<and> \<not> grantsUnprovable ob' \<and>
      (\<exists>evicted. evictedSinceSave ob' = evictedSinceSave ob + length evicted \<and>
         (\<forall>e \<in> set (disk_view True ob). IdempotencyKey e \<notin> settledKeys ob \<longrightarrow> IdempotencyKey e \<in> IdempotencyKey ` set (evicted @ receipts ob')))"
proof -
  let ?ob = "ob\<lparr>ownKeys := insert (IdempotencyKey r) (ownKeys ob), receipts := receipts ob @ [r]\<rparr>"
  have fresh: "IdempotencyKey r \<notin> set (keys (receipts ob))" "IdempotencyKey r \<notin> settledKeys ob" using assms(3) by (simp_all add: allowed_def)
  have inv: "ob_inv ?ob" using started_inv [OF assms(1)] fresh by (auto simp: ob_inv_def memory_ok_def)
  obtain err ob2 where s: "ob_saveLocked True ?ob = (err, ob2)" by (metis surj_pair)
  have eq: "ob' = ob2" "failed = consentSaveFailedDurably err" using assms(6) s by (simp_all add: ob_append_def)
  have ne: "err \<noteq> Some EvidenceHeld"
  proof
    assume "err = Some EvidenceHeld"
    then have "write_merged (save_merge True ?ob) (opened True ?ob) = (Some EvidenceHeld, ob2)" using s by (simp add: saveLocked_eq)
    moreover have "set (keys (save_merge True ?ob)) \<inter> settledKeys (opened True ?ob) = {}"
      using save_merge_keys [of ?ob True] inv by (simp add: ob_inv_def)
    ultimately show False using write_merged_failed by blast
  qed
  have same: "fst (readRecordReceipts ?ob) = fst (readRecordReceipts ob)"
    by (simp add: readRecordReceipts_def durable_def split: prod.splits)
  show ?thesis
  proof (cases "err = None")
    case False
    then have "failed" using ne by (simp add: eq consentSaveFailedDurably_def)
    then show ?thesis using save_all(1) [OF inv s False] by (simp add: eq(1))
  next
    case True
    let ?m = "save_merge True ?ob"
    have m: "receipts ob2 = drop (surplus ?m) ?m" "evictedSinceSave ob2 = evictedSinceSave ob + surplus ?m"
      "pf_data (ob_file ob2) = Some (marshal_outbox (receipts ob2))"
      using save_all(2) [OF inv s True] assms(2) by (auto simp: durable_def)
    have view: "disk_view True ?ob = filter (\<lambda>e. snd (fst (readRecordReceipts ob)) = OutboxUnusable \<longrightarrow>
        IdempotencyKey e \<notin> insert (IdempotencyKey r) (ownKeys ob)) (on_file ob)"
      by (simp add: disk_view_eq same on_file_def)
    have key: "IdempotencyKey r' = IdempotencyKey r" by (rule sanitize_key [OF assms(4)])
    have no: "IdempotencyKey r \<notin> set (keys (disk_view True ?ob))" using assms(5) unfolding view by auto
    have sub: "set (merge_disk (settledKeys ob) {} (disk_view True ?ob)) \<subseteq> set (disk_view True ?ob)"
      using merge_disk_keys by blast
    define D where "D = merge_disk (settledKeys ob) {} (disk_view True ?ob)"
    have "IdempotencyKey r' \<notin> IdempotencyKey ` set D" using sub no by (auto simp: key D_def)
    moreover have "IdempotencyKey r' \<in> ownKeys ?ob" by (simp add: key)
    ultimately obtain pre0 where "merge_own (ownKeys ?ob) (IdempotencyKey ` set D) (receipts ob @ [r]) = pre0 @ [r']"
      using merge_own_last [OF assms(4)] fresh(1) key by metis
    then have "?m = (D @ pre0) @ [r']" by (simp add: save_merge_def merge_receipts_def D_def Let_def)
    then obtain pre where pre: "?m = pre @ [r']" by blast
    have len: "surplus ?m < length ?m" by (simp add: surplus_def pre maxConsentOutboxEntries_def)
    have last: "receipts ob2 \<noteq> []" "last (receipts ob2) = r'" using len by (simp_all add: m(1) last_drop) (simp add: pre)
    have flags: "lastRead ob2 = OutboxParsed" "\<not> grantsUnprovable ob2"
      using saveLocked_flags [OF s] True by simp_all
    have ev: "\<forall>e \<in> set (disk_view True ob). IdempotencyKey e \<notin> settledKeys ob \<longrightarrow>
        IdempotencyKey e \<in> IdempotencyKey ` set (take (surplus ?m) ?m @ receipts ob2)"
    proof (intro ballI impI)
      fix e assume e: "e \<in> set (disk_view True ob)" "IdempotencyKey e \<notin> settledKeys ob"
      have "e \<in> set (on_file ob)" using e(1) by (simp add: disk_view_eq)
      then have "IdempotencyKey e \<noteq> IdempotencyKey r" using assms(5) by (metis imageI)
      then have "e \<in> set (disk_view True ?ob)" using e(1) unfolding view by (auto simp: disk_view_eq)
      then have "IdempotencyKey e \<in> set (keys ?m)"
        using merge_receipts_complete(1) [of e "disk_view True ?ob" ?ob] e(2) by (simp add: save_merge_def)
      moreover have "take (surplus ?m) ?m @ receipts ob2 = ?m" by (simp add: m(1))
      ultimately show "IdempotencyKey e \<in> IdempotencyKey ` set (take (surplus ?m) ?m @ receipts ob2)" by simp
    qed
    have n: "length (take (surplus ?m) ?m) = surplus ?m" "length (receipts ob2) \<le> 32"
      by (simp add: surplus_def) (subst m(1), simp add: surplus_def maxConsentOutboxEntries_def)
    have nf: "\<not> failed" using True by (simp add: eq consentSaveFailedDurably_def)
    have "evictedSinceSave ob2 = evictedSinceSave ob + length (take (surplus ?m) ?m)" using m(2) n(1) by simp
    then show ?thesis unfolding if_not_P [OF nf] eq(1) using ev m(3) last n(2) flags by blast
  qed
qed

text \<open>C13. Appending a decision whose receipt passes the checks either reports a failure, and then keeps the receipt
  and owes the write, or makes the trail durable: the new receipt, as checked, is the last of at most 32 in the
  file; every receipt another process had in the file unsettled is among them or counted as evicted; and the
  grants a damaged trail held back are free again.\<close>

theorem append_durable:
  assumes "started own dir f acts ob" and "durable ob" and "allowed (Append r) ob" and "sanitizeConsentReceipt r = Some r'"
    and "IdempotencyKey r \<notin> IdempotencyKey ` set (on_file ob)" and "ob_append r ob = (failed, ob')"
  shows "if failed then r \<in> set (receipts ob') \<and> ob_dirty ob'
    else pf_data (ob_file ob') = Some (marshal_outbox (receipts ob')) \<and> receipts ob' \<noteq> [] \<and> last (receipts ob') = r' \<and>
      length (receipts ob') \<le> 32 \<and> lastRead ob' = OutboxParsed \<and> \<not> grantsUnprovable ob' \<and>
      (\<exists>evicted. evictedSinceSave ob' = evictedSinceSave ob + length evicted \<and>
         (\<forall>e \<in> set (disk_view True ob). IdempotencyKey e \<notin> settledKeys ob \<longrightarrow> IdempotencyKey e \<in> IdempotencyKey ` set (evicted @ receipts ob')))"
  by (rule append_all [OF assms])

section \<open>Pruning\<close>

lemma recordSettled_in: "memory_ok ob \<Longrightarrow> k \<noteq> [] \<Longrightarrow> k \<in> settledKeys (ob_recordSettledLocked k ob)"
  by (cases "settledFIFO ob") (auto simp: ob_recordSettledLocked_def memory_ok_def consentSettledMemory_def Let_def)

lemma remove_key_filter:
  "remove_key k es = Some es' \<Longrightarrow> distinct (keys es) \<Longrightarrow> es' = filter (\<lambda>e. IdempotencyKey e \<noteq> k) es"
proof (induction es arbitrary: es')
  case (Cons e es)
  show ?case
  proof (cases "IdempotencyKey e = k")
    case True
    with Cons.prems have "\<forall>x \<in> set es. IdempotencyKey x \<noteq> k" by (metis distinct.simps(2) image_eqI list.set_map list.simps(9))
    then show ?thesis using True Cons.prems(1) by (simp add: filter_id_conv)
  qed (use Cons in auto)
qed simp

text \<open>Right after a prune the receipt is gone from memory and no longer this process's own, whatever the file still
  holds of it; when the rewrite fails the other receipts stay, in order, and the write is owed; otherwise the
  file holds what memory holds, unless a damaged file is kept as evidence, which also leaves the write owed.\<close>

lemma prune_removes:
  assumes "started own dir f acts ob" and "durable ob" and "key \<in> IdempotencyKey ` set (receipts ob)" and "key \<noteq> []"
    and "prune key ob = (failed, ob')"
  shows "key \<notin> IdempotencyKey ` set (receipts ob') \<and> key \<notin> ownKeys ob' \<and>
    (failed \<longrightarrow> receipts ob' = filter (\<lambda>e. IdempotencyKey e \<noteq> key) (receipts ob) \<and> ob_dirty ob') \<and>
    (\<not> failed \<longrightarrow> ob_dirty ob' \<or> pf_data (ob_file ob') = Some (marshal_outbox (receipts ob')))"
proof -
  have inv: "ob_inv ob" by (rule started_inv [OF assms(1)])
  obtain rs where rs: "remove_key key (receipts ob) = Some rs"
    using assms(3) remove_key_None [of key "receipts ob"] by (cases "remove_key key (receipts ob)") auto
  have rf: "rs = filter (\<lambda>e. IdempotencyKey e \<noteq> key) (receipts ob)"
    using remove_key_filter [OF rs] inv by (simp add: ob_inv_def)
  let ?ob = "pruned key rs ob"
  have pinv: "ob_inv ?ob" by (rule pruned_inv [OF inv rs])
  obtain err ob2 where s: "ob_saveLocked False ?ob = (err, ob2)" by (metis surj_pair)
  have eq: "ob' = ob2" "failed = consentSaveFailedDurably err" using assms(5) s by (simp_all add: prune_eq rs)
  have p: "receipts ?ob = rs" "ownKeys ?ob = ownKeys ob - {key}" "durable ?ob" using assms(2) by (simp_all add: pruned_def durable_def Let_def)
  have "key \<in> settledKeys (ob_recordSettledLocked key ob)"
    by (rule recordSettled_in [OF _ assms(4)]) (use inv in \<open>simp add: ob_inv_def\<close>)
  then have settled: "key \<in> settledKeys ?ob" by (simp add: pruned_def Let_def)
  have gone: "key \<notin> set (keys (receipts ob2))"
  proof (cases err)
    case (Some e)
    then have "receipts ob2 = rs" using save_all(1) [OF pinv s] p(1) by simp
    then show ?thesis by (auto simp: rf)
  next
    case None
    have "key \<notin> set (keys (save_merge False ?ob))" using save_merge_keys [of ?ob False] pinv settled by (auto simp: ob_inv_def)
    then show ?thesis using save_all(2) [OF pinv s None] by (auto dest: in_set_dropD)
  qed
  have own: "ownKeys ob2 \<subseteq> ownKeys ?ob"
  proof (cases err)
    case (Some e)
    then show ?thesis using save_all(1) [OF pinv s] by simp
  next
    case None
    have "set (keys (save_merge False ?ob)) \<inter> settledKeys (opened False ?ob) = {}"
      using save_merge_keys [of ?ob False] pinv by (simp add: ob_inv_def)
    moreover have "write_merged (save_merge False ?ob) (opened False ?ob) = (None, ob2)"
      using s None by (auto simp: saveLocked_eq split: if_splits)
    ultimately show ?thesis using write_merged_ok [of "save_merge False ?ob" "opened False ?ob" ob2] by auto
  qed
  then have "key \<notin> ownKeys ob'" unfolding eq(1) p(2) by auto
  moreover have "failed \<longrightarrow> receipts ob' = rs \<and> ob_dirty ob'"
    using save_all(1) [OF pinv s] p(1) by (auto simp: eq consentSaveFailedDurably_def)
  moreover have "\<not> failed \<longrightarrow> ob_dirty ob' \<or> pf_data (ob_file ob') = Some (marshal_outbox (receipts ob'))"
    using save_all [OF pinv s] p(3) by (cases err) (auto simp: eq consentSaveFailedDurably_def)
  ultimately show ?thesis using gone unfolding rf eq(1) by simp
qed

section \<open>A damaged trail\<close>

definition is_append :: "outbox_op \<Rightarrow> bool" where
  "is_append act = (case act of Append _ \<Rightarrow> True | _ \<Rightarrow> False)"

lemmas saveLocked_snd = saveLocked_flags [OF prod.collapse [symmetric]]

lemma perform_keeps:
  assumes "\<not> is_append act"
  shows "lastRead (perform act ob) = lastRead ob" "ob_dir (perform act ob) = ob_dir ob"
  using assms
  by (cases act;
      auto simp: is_append_def prune_eq pruned_def ob_retryPersist_def setGrantsUnprovable_def preserveEvidence_def
        markRecordOwed_def markRecordOwedWhere_def clearRecordOwedMarks_def takeEvicted_def claimDispatch_def claimDispatchWait_def
        releaseDispatch_def consumeElapsedDeferral_def Let_def case_prod_beta saveLocked_snd split: option.splits)+

lemma reach_keeps:
  "ob_reach ob0 acts ob \<Longrightarrow> list_all (\<lambda>act. \<not> is_append act) acts \<Longrightarrow> lastRead ob = lastRead ob0 \<and> ob_dir ob = ob_dir ob0"
  by (induction rule: ob_reach.induct) (auto elim!: ob_stepE simp: perform_keeps)

text \<open>C16. While the trail a client loaded is damaged, no grant leaves it: after a load that could not trust the file,
  in every order of operations that appends no new decision, the receipt offered for delivery is never a
  grant; it is the first receipt in scope that is not one.\<close>

theorem damaged_trail_holds_grants:
  assumes "ob_reach (ob_load own (newConsentOutbox dir f)) acts ob" and "lastRead (ob_load own (newConsentOutbox dir f)) = OutboxUnusable"
    and "list_all (\<lambda>act. \<not> is_append act) acts"
  shows "nextDispatchable inScope ob = List.find (\<lambda>e. inScope e \<and> Analytics e \<noteq> Some True) (receipts ob)"
proof -
  have dir: "dir \<noteq> []"
    using assms(2) by (auto simp: ob_load_def newConsentOutbox_def durable_def split: if_splits)
  have "ob_dir (ob_load own (newConsentOutbox dir f)) = dir"
    by (simp add: ob_load_def newConsentOutbox_def Let_def split: prod.splits)
  then have "lastRead ob = OutboxUnusable \<and> ob_dir ob = dir" using reach_keeps [OF assms(1,3)] assms(2) by simp
  then have "durable ob \<and> lastRead ob = OutboxUnusable" using dir by (simp add: durable_def)
  then show ?thesis by (simp add: nextDispatchable_def analyticsGranted_def)
qed

section \<open>Restart\<close>

text \<open>Whatever a save writes has passed the checks of a load.\<close>

lemma read_entry_checked:
  "(\<forall>r \<in> set (fst acc). sanitizeConsentReceipt r = Some r) \<Longrightarrow>
   (\<forall>r \<in> set (fst (fold read_entry es acc)). sanitizeConsentReceipt r = Some r)"
proof (induction es arbitrary: acc)
  case (Cons e es)
  have "\<forall>r \<in> set (fst (read_entry e acc)). sanitizeConsentReceipt r = Some r"
    using Cons.prems by (auto simp: read_entry_def Let_def sanitize_idem split: prod.splits option.splits)
  then show ?case using Cons.IH by simp
qed simp

lemma on_file_checked: "\<forall>r \<in> set (on_file ob). sanitizeConsentReceipt r = Some r"
proof -
  have "\<forall>r \<in> set (fst (read_entries es)). sanitizeConsentReceipt r = Some r" for es
    using read_entry_checked [of "([], {}, False, \<lambda>_. None)" es] by (auto simp: read_entries_def split: prod.splits)
  then have "\<forall>r \<in> set (fst (read_receipts got)). sanitizeConsentReceipt r = Some r" for got
    by (auto simp: read_receipts_def split: file_read.splits option.splits)
  then show ?thesis by (auto simp: on_file_def readRecordReceipts_def split: prod.splits)
qed

lemma merge_own_checked: "\<forall>r \<in> set (merge_own own seen es). sanitizeConsentReceipt r = Some r"
  by (induction es arbitrary: seen) (auto simp: sanitize_idem split: option.splits)

lemma save_merge_checked: "\<forall>r \<in> set (save_merge fresh ob). sanitizeConsentReceipt r = Some r"
proof -
  have "set (merge_disk (settledKeys ob) {} (disk_view fresh ob)) \<subseteq> set (on_file ob)"
    using merge_disk_keys [of "settledKeys ob" "{}" "disk_view fresh ob"] by (auto simp: disk_view_eq)
  then show ?thesis
    using on_file_checked merge_own_checked by (auto simp: save_merge_def merge_receipts_def Let_def)
qed

text \<open>C14. A restart after a crash loses nothing that was saved: when a durable save succeeds, the next process that
  can read the file starts with exactly the saved receipts, in their order (a refused notice is no longer
  remembered as such), whatever happened to the first process after the write.\<close>

theorem restart_keeps_receipts:
  assumes "started own dir f acts ob" and "dir \<noteq> []" and "ob_dir ob = dir" and "ob_saveLocked fresh ob = (None, ob')"
    and "list_all receipt_utf8 (receipts ob')" and "fst (pf_read (ob_file ob')) \<noteq> Unreadable"
  shows "receipts (ob_load own' (newConsentOutbox dir (ob_file ob'))) = map forget_invalid (receipts ob')"
proof -
  have inv: "ob_inv ob" by (rule started_inv [OF assms(1)])
  have dur: "durable ob" using assms(2,3) by (simp add: durable_def)
  have sv: "receipts ob' = drop (surplus (save_merge fresh ob)) (save_merge fresh ob)"
    "pf_data (ob_file ob') = Some (marshal_outbox (receipts ob'))" "length (marshal_outbox (receipts ob')) \<le> consentOutboxReadLimit"
    using save_all(2) [OF inv assms(4)] dur by auto
  have "\<forall>r \<in> set (receipts ob'). sanitizeConsentReceipt r = Some r"
    using save_merge_checked [of fresh ob] by (subst sv(1)) (auto dest: in_set_dropD)
  moreover have "distinct (keys (receipts ob'))" using saveLocked_inv [OF inv assms(4)] by (simp add: ob_inv_def)
  ultimately have read: "fst (read_receipts (Content (marshal_outbox (receipts ob')))) = map forget_invalid (receipts ob')"
    using read_marshalled assms(5) sv(3) by blast
  obtain got g where got: "pf_read (ob_file ob') = (got, g)" by (metis surj_pair)
  have "got = Content (marshal_outbox (receipts ob'))"
    using got assms(6) sv(2) pf.read_content [of "ob_file ob'" _ g] pf.read_absent [of "ob_file ob'" g] by (cases got) auto
  then show ?thesis
    using read got assms(2) by (auto simp add: ob_load_def newConsentOutbox_def durable_def Let_def split: prod.splits)
qed

section \<open>The trail on disk\<close>

text \<open>While no other process writes the file, an outbox that owes no write has every receipt it holds in the file: the
  file holds nothing it would not hold, or reads as its receipts.\<close>

definition foreign_write :: "outbox_op \<Rightarrow> bool" where
  "foreign_write act = (case act of Foreign _ \<Rightarrow> True | _ \<Rightarrow> False)"

definition trail_on_disk :: "consentOutbox \<Rightarrow> bool" where
  "trail_on_disk ob \<longleftrightarrow> receipts ob = [] \<or>
     (\<exists>d. pf_data (ob_file ob) = Some d \<and>
        (d = marshal_outbox (receipts ob) \<and> length d \<le> consentOutboxReadLimit \<and> (\<forall>r \<in> set (receipts ob). sanitizeConsentReceipt r = Some r) \<or>
         fst (read_receipts (Content d)) = receipts ob))"

definition trail_kept :: "consentOutbox \<Rightarrow> bool" where
  "trail_kept ob \<longleftrightarrow> (durable ob \<and> \<not> ob_dirty ob \<longrightarrow> trail_on_disk ob)"

lemma kept_other [simp]:
  "trail_kept (ob\<lparr>grantsUnprovable := b\<rparr>) = trail_kept ob" "trail_kept (ob\<lparr>preserveUnusable := b\<rparr>) = trail_kept ob"
  "trail_kept (ob\<lparr>recordOwedKeys := ks\<rparr>) = trail_kept ob" "trail_kept (ob\<lparr>evictedSinceSave := n\<rparr>) = trail_kept ob"
  "trail_kept (ob\<lparr>dispatching := b\<rparr>) = trail_kept ob" "trail_kept (ob\<lparr>dispatchMissed := b\<rparr>) = trail_kept ob"
  "trail_kept (ob\<lparr>dispatchWaiters := ws\<rparr>) = trail_kept ob" "trail_kept (ob\<lparr>deferUntil := t\<rparr>) = trail_kept ob"
  by (simp_all add: trail_kept_def trail_on_disk_def durable_def)

lemma save_kept:
  assumes "ob_inv ob" and "ob_saveLocked fresh ob = (err, ob')"
  shows "trail_kept ob'"
proof (cases err)
  case (Some e)
  then show ?thesis using save_all(1) [OF assms] by (simp add: trail_kept_def)
next
  case None
  note sv = save_all(2) [OF assms None]
  have "\<forall>r \<in> set (receipts ob'). sanitizeConsentReceipt r = Some r"
    using save_merge_checked [of fresh ob] sv by (auto dest: in_set_dropD)
  moreover have "durable ob' = durable ob" using saveLocked_flags(3) [OF assms(2)] by (simp add: durable_def)
  ultimately show ?thesis using sv by (auto simp: trail_kept_def trail_on_disk_def)
qed

lemma perform_kept:
  assumes "ob_inv ob" and "allowed act ob" and "\<not> foreign_write act" and "trail_kept ob"
  shows "trail_kept (perform act ob)"
proof (cases act)
  case (Append r)
  let ?ob = "ob\<lparr>ownKeys := insert (IdempotencyKey r) (ownKeys ob), receipts := receipts ob @ [r]\<rparr>"
  have "ob_inv ?ob" using assms(1,2) Append by (auto simp: ob_inv_def memory_ok_def allowed_def)
  from save_kept [OF this prod.collapse [symmetric], of True] show ?thesis by (simp add: Append ob_append_def Let_def case_prod_beta)
next
  case (Prune k)
  show ?thesis
  proof (cases "remove_key k (receipts ob)")
    case (Some rs)
    from save_kept [OF pruned_inv [OF assms(1) this] prod.collapse [symmetric], of False] show ?thesis by (simp add: Prune prune_eq Some)
  qed (simp add: Prune prune_eq assms(4))
next
  case Retry
  then show ?thesis using save_kept [OF assms(1) prod.collapse [symmetric], of False] assms(4)
    by (simp add: ob_retryPersist_def Let_def case_prod_beta)
qed (use assms(3,4) in \<open>simp_all add: foreign_write_def setGrantsUnprovable_def preserveEvidence_def markRecordOwed_def markRecordOwedWhere_def
      clearRecordOwedMarks_def takeEvicted_def claimDispatch_def claimDispatchWait_def releaseDispatch_def consumeElapsedDeferral_def
      split: option.split\<close>)

lemma load_trail_kept: "trail_kept (ob_load own (newConsentOutbox dir f))"
proof -
  obtain got g where p: "pf_read f = (got, g)" by (metis surj_pair)
  have "receipts (ob_load own (newConsentOutbox dir f)) = (if dir = [] then [] else fst (read_receipts got))"
    "ob_file (ob_load own (newConsentOutbox dir f)) = (if dir = [] then f else g)"
    by (simp_all add: ob_load_def newConsentOutbox_def durable_def p Let_def case_prod_beta)
  moreover have "pf_data g = Some d" if "got = Content d" for d
    using that pf.read_content [of f d g] pf.read_same [OF p] p by simp
  moreover have "fst (read_receipts got) = []" if "got = Absent \<or> got = Unreadable"
    using that by (auto simp: read_receipts_def file_entries_def)
  ultimately show ?thesis by (cases got) (auto simp: trail_kept_def trail_on_disk_def)
qed

lemma reach_kept:
  "ob_reach ob0 acts ob \<Longrightarrow> ob_inv ob0 \<Longrightarrow> trail_kept ob0 \<Longrightarrow> list_all (\<lambda>act. \<not> foreign_write act) acts \<Longrightarrow> trail_kept ob"
proof (induction rule: ob_reach.induct)
  case (reach_step ob0 acts ob1 act ob2)
  then have "trail_kept ob1" "ob_inv ob1" using reach_inv by auto
  with reach_step.hyps(2) reach_step.prems(3) show ?case by (auto elim!: ob_stepE intro: perform_kept)
qed simp

lemma started_kept: "started own dir f acts ob \<Longrightarrow> list_all (\<lambda>act. \<not> foreign_write act) acts \<Longrightarrow> trail_kept ob"
  using reach_kept ob_load_inv load_trail_kept by blast

text \<open>What the next start finds of such a trail.\<close>

lemma next_start_finds:
  assumes "trail_kept ob" and "ob_inv ob" and "ob_dir ob = dir" and "dir \<noteq> []" and "\<not> ob_dirty ob"
    and "list_all receipt_utf8 (receipts ob)" and "fst (pf_read (ob_file ob)) \<noteq> Unreadable"
  shows "receipts ob = [] \<or> map forget_invalid (receipts (ob_load own' (newConsentOutbox dir (ob_file ob)))) = map forget_invalid (receipts ob)"
proof (cases "receipts ob = []")
  case False
  have "trail_on_disk ob" using assms(1,3-5) by (simp add: trail_kept_def durable_def)
  then obtain d where d: "pf_data (ob_file ob) = Some d" and e:
    "d = marshal_outbox (receipts ob) \<and> length d \<le> consentOutboxReadLimit \<and> (\<forall>r \<in> set (receipts ob). sanitizeConsentReceipt r = Some r) \<or>
     fst (read_receipts (Content d)) = receipts ob"
    using False by (auto simp: trail_on_disk_def)
  have idem: "map forget_invalid (map forget_invalid rs) = map forget_invalid rs" for rs by (simp add: forget_invalid_def)
  have "distinct (keys (receipts ob))" using assms(2) by (simp add: ob_inv_def)
  then have r: "map forget_invalid (fst (read_receipts (Content d))) = map forget_invalid (receipts ob)"
    using e read_marshalled [of "receipts ob"] assms(6) idem by metis
  obtain got g where got: "pf_read (ob_file ob) = (got, g)" by (metis surj_pair)
  have "got = Content d"
    using got assms(7) d pf.read_content [of "ob_file ob" _ g] pf.read_absent [of "ob_file ob" g] by (cases got) auto
  then have "receipts (ob_load own' (newConsentOutbox dir (ob_file ob))) = fst (read_receipts (Content d))"
    using got assms(4) by (simp add: ob_load_def newConsentOutbox_def durable_def Let_def case_prod_beta)
  then show ?thesis using r by simp
qed simp

section \<open>Witnesses\<close>

definition sample_receipt :: consentReceipt where
  "sample_receipt = zero_receipt\<lparr>IdempotencyKey := ''k1'', rcp_WorkspaceID := ''w'', rcp_AppID := ''a'', rcp_EnvironmentID := ''e'',
     rcp_ActorIdentifier := ''u1'', rcp_Kind := consentKindUserVerified, Analytics := Some False, rcp_DecidedAt := sample_stamp\<rparr>"

definition sample_ob :: consentOutbox where "sample_ob = ob_load (\<lambda>_. True) (newConsentOutbox ''d'' sample_file)"
definition sample_appended :: consentOutbox where "sample_appended = snd (ob_append sample_receipt sample_ob)"

lemma sample_sanitized: "sanitizeConsentReceipt sample_receipt = Some sample_receipt" by code_simp

lemma sample_small: "length (marshal_outbox [sample_receipt]) \<le> consentOutboxReadLimit"
proof -
  have "length (marshal_outbox [sample_receipt]) < 400" by code_simp
  then show ?thesis by (simp add: consentOutboxReadLimit_def)
qed

lemma sample_file_good: "good_file sample_file" "pf_data sample_file = None" by (simp_all add: good_file_def sample_file_def)

lemma sample_ob_eq: "sample_ob = (newConsentOutbox ''d'' sample_file)\<lparr>lastRead := OutboxAbsent\<rparr>"
  by (simp add: sample_ob_def ob_load_def newConsentOutbox_def durable_def good_read sample_file_good read_receipts_def file_entries_def)

lemma sample_on_file: "readRecordReceipts sample_ob = (([], OutboxAbsent), sample_ob)"
  by (simp add: sample_ob_eq readRecordReceipts_def newConsentOutbox_def durable_def good_read sample_file_good read_receipts_def)

definition sample_written :: private_file where "sample_written = sample_file\<lparr>pf_data := Some (marshal_outbox [sample_receipt])\<rparr>"

lemma append_alone:
  assumes "sanitizeConsentReceipt r = Some r" and k: "IdempotencyKey r = ''k1''" and "length (marshal_outbox [r]) \<le> consentOutboxReadLimit"
  shows "ob_append r sample_ob =
    (False, (newConsentOutbox ''d'' (sample_file\<lparr>pf_data := Some (marshal_outbox [r])\<rparr>))\<lparr>receipts := [r], ownKeys := {''k1''}\<rparr>)"
proof -
  let ?ob = "sample_ob\<lparr>ownKeys := {''k1''}, receipts := [r]\<rparr>"
  have "readRecordReceipts ?ob = (([], OutboxAbsent), ?ob)"
    by (simp add: sample_ob_eq readRecordReceipts_def newConsentOutbox_def durable_def good_read sample_file_good read_receipts_def)
  then have "ob_saveLocked True ?ob = write_merged [r] (?ob\<lparr>lastRead := OutboxParsed, grantsUnprovable := False, preserveUnusable := False\<rparr>)"
    by (simp add: ob_saveLocked_def merge_receipts_def assms(1) k)
  also have "\<dots> = (None, (newConsentOutbox ''d'' (sample_file\<lparr>pf_data := Some (marshal_outbox [r])\<rparr>))\<lparr>receipts := [r], ownKeys := {''k1''}\<rparr>)"
    using assms(3)
    by (simp add: write_merged_def sample_ob_eq newConsentOutbox_def durable_def maxConsentOutboxEntries_def good_write sample_file_good
        settle_evictions_def)
  finally show ?thesis by (simp add: ob_append_def sample_ob_eq newConsentOutbox_def k consentSaveFailedDurably_def)
qed

lemma sample_append: "ob_append sample_receipt sample_ob =
  (False, (newConsentOutbox ''d'' sample_written)\<lparr>receipts := [sample_receipt], ownKeys := {''k1''}\<rparr>)"
  using append_alone [OF sample_sanitized _ sample_small] by (simp add: sample_receipt_def sample_written_def)

lemma sample_appended_eq: "sample_appended = (newConsentOutbox ''d'' sample_written)\<lparr>receipts := [sample_receipt], ownKeys := {''k1''}\<rparr>"
  by (simp add: sample_appended_def sample_append)

lemma sample_started: "started (\<lambda>_. True) ''d'' sample_file [] sample_ob"
  unfolding sample_ob_def by (rule reach_start)

lemma sample_allowed: "allowed (Append sample_receipt) sample_ob"
  by (simp add: allowed_def sample_ob_eq newConsentOutbox_def)

lemma sample_started2: "started (\<lambda>_. True) ''d'' sample_file [Append sample_receipt] sample_appended"
proof -
  have "ob_step sample_ob (Append sample_receipt) (perform (Append sample_receipt) sample_ob)" by (rule step [OF sample_allowed])
  then have "ob_step sample_ob (Append sample_receipt) sample_appended" by (simp add: sample_appended_def)
  from reach_step [OF sample_started this] show ?thesis by simp
qed

theorem outbox_invariant_witness: "distinct (map IdempotencyKey (receipts sample_appended))"
  using outbox_invariant [OF sample_started2] by blast

lemma sample_resave: "ob_saveLocked False sample_ob =
  (None, sample_ob\<lparr>ob_file := sample_file\<lparr>pf_data := Some (marshal_outbox [])\<rparr>\<rparr>)"
proof -
  have "ob_saveLocked False sample_ob = write_merged [] sample_ob"
    using sample_on_file by (simp add: ob_saveLocked_def merge_receipts_def sample_ob_eq newConsentOutbox_def)
  moreover have "length (marshal_outbox []) < 400" by code_simp
  ultimately show ?thesis
    by (simp add: write_merged_def sample_ob_eq newConsentOutbox_def durable_def maxConsentOutboxEntries_def good_write sample_file_good
        settle_evictions_def consentOutboxReadLimit_def)
qed

theorem save_all_or_nothing_witness:
  "pf_data (ob_file (snd (ob_saveLocked False sample_ob))) = Some (marshal_outbox (receipts (snd (ob_saveLocked False sample_ob))))"
proof -
  have "durable sample_ob" by (simp add: durable_def sample_ob_eq newConsentOutbox_def)
  then show ?thesis using save_all_or_nothing [OF sample_started sample_resave] by (simp only: Let_def sample_resave snd_conv refl if_not_P not_True_eq_False simp_thms)
qed

theorem append_durable_witness: "pf_data (ob_file sample_appended) = Some (marshal_outbox [sample_receipt]) \<and> last (receipts sample_appended) = sample_receipt"
proof -
  have "durable sample_ob" by (simp add: durable_def sample_ob_eq newConsentOutbox_def)
  moreover have "IdempotencyKey sample_receipt \<notin> IdempotencyKey ` set (on_file sample_ob)" by (simp add: on_file_def sample_on_file)
  moreover have "ob_append sample_receipt sample_ob = (False, sample_appended)" by (simp add: sample_append sample_appended_eq)
  moreover have "receipts sample_appended = [sample_receipt]" by (simp add: sample_appended_eq)
  ultimately show ?thesis
    using append_durable [OF sample_started _ sample_allowed sample_sanitized] by force
qed

definition damaged_file :: private_file where "damaged_file = \<lparr>pf_data = Some ''{'', pf_outcomes = []\<rparr>"

theorem damaged_trail_holds_grants_witness:
  "nextDispatchable (\<lambda>_. True) (ob_load (\<lambda>_. True) (newConsentOutbox ''d'' damaged_file)) = None"
proof -
  have "parse_json ''{'' = None" by code_simp
  then have "read_receipts (Content ''{'') = ([], OutboxUnusable)"
    by (simp add: read_receipts_def file_entries_def unmarshal_outbox_def consentOutboxReadLimit_def)
  then have "lastRead (ob_load (\<lambda>_. True) (newConsentOutbox ''d'' damaged_file)) = OutboxUnusable"
    "receipts (ob_load (\<lambda>_. True) (newConsentOutbox ''d'' damaged_file)) = []"
    by (simp_all add: ob_load_def newConsentOutbox_def durable_def good_read good_file_def damaged_file_def Let_def split: prod.splits)
  with damaged_trail_holds_grants [OF reach_start, of "\<lambda>_. True" "''d''" damaged_file "\<lambda>_. True"] show ?thesis by simp
qed

theorem restart_keeps_receipts_witness:
  "receipts (ob_load (\<lambda>_. True) (newConsentOutbox ''d'' sample_written)) = [sample_receipt]"
proof -
  have ok: "list_all receipt_utf8 [sample_receipt]" "forget_invalid sample_receipt = sample_receipt" by code_simp+
  have "fst (read_receipts (Content (marshal_outbox [sample_receipt]))) = map forget_invalid [sample_receipt]"
    by (rule read_marshalled) (use ok(1) sample_sanitized sample_small in auto)
  then obtain st where rd: "read_receipts (Content (marshal_outbox [sample_receipt])) = ([sample_receipt], st)"
    using ok(2) by (metis list.simps(8,9) prod.collapse)
  have k: "IdempotencyKey sample_receipt = ''k1''" by (simp add: sample_receipt_def)
  have "readRecordReceipts sample_appended = (([sample_receipt], st), sample_appended)"
    by (simp add: sample_appended_eq readRecordReceipts_def durable_def newConsentOutbox_def sample_written_def good_read good_file_def
        sample_file_def rd)
  then have "ob_saveLocked False sample_appended = write_merged [sample_receipt] sample_appended"
    by (simp add: ob_saveLocked_def merge_receipts_def sample_appended_eq newConsentOutbox_def sample_sanitized k)
  also have "\<dots> = (None, sample_appended)"
    using sample_small
    by (simp add: write_merged_def sample_appended_eq newConsentOutbox_def durable_def maxConsentOutboxEntries_def good_write good_file_def
        sample_file_def settle_evictions_def sample_written_def)
  finally have sv: "ob_saveLocked False sample_appended = (None, sample_appended)" .
  from ok show ?thesis
    using restart_keeps_receipts [OF sample_started2 _ _ sv, of "\<lambda>_. True"]
    by (simp add: sample_appended_eq newConsentOutbox_def sample_written_def good_read good_file_def sample_file_def)
qed

end
