(* ===== verification/Go_Time_Format.thy ===== *)
theory Go_Time_Format
  imports Go_Time
begin

text \<open>
  \<open>time.Time.Format\<close> of an instant in UTC, with the layouts \<open>RFC3339\<close> and \<open>RFC3339Nano\<close>, and its round trip
  with \<open>time.Parse\<close>.
\<close>

section \<open>The date of a day\<close>

definition year_days :: "int \<Rightarrow> int" where "year_days y = 365 * y + y div 4 - y div 100"
definition month_days :: "int \<Rightarrow> int" where "month_days m = (153 * m + 2) div 5"

text \<open>Within an era of 400 years the year and the month, counted from March, are the last that have begun.\<close>

definition civil_of_days :: "int \<Rightarrow> int \<times> int \<times> int" where
  "civil_of_days day =
     (let z = day + 719468; era = z div 146097; doe = z mod 146097;
          yoe = int (length (takeWhile (\<lambda>y. year_days (int y + 1) \<le> doe) [0..<399]));
          doy = doe - year_days yoe;
          mp = int (length (takeWhile (\<lambda>m. month_days (int m + 1) \<le> doy) [0..<11]));
          d = doy - month_days mp + 1;
          m = (if mp < 10 then mp + 3 else mp - 9)
      in (yoe + era * 400 + (if m \<le> 2 then 1 else 0), m, d))"

lemma takeWhile_upt:
  "(\<forall>i < length (takeWhile P [0..<n]). P i) \<and> length (takeWhile P [0..<n]) \<le> n \<and>
    (length (takeWhile P [0..<n]) < n \<longrightarrow> \<not> P (length (takeWhile P [0..<n])))"
proof (induction n)
  case (Suc n)
  show ?case
  proof (cases "length (takeWhile P [0..<n]) < n")
    case True
    then have "\<not> (\<forall>x \<in> set [0..<n]. P x)" by (metis length_upt minus_nat.diff_0 nat_neq_iff takeWhile_eq_all_conv)
    then have "takeWhile P ([0..<n] @ [n]) = takeWhile P [0..<n]" by (auto simp: takeWhile_append)
    then show ?thesis using Suc True by simp
  next
    case False
    then have all: "\<forall>x \<in> set [0..<n]. P x" using Suc by (metis atLeastLessThan_iff le_neq_implies_less set_upt)
    then show ?thesis using Suc False by (auto simp: takeWhile_append less_Suc_eq)
  qed
qed simp

lemma civil_fields:
  assumes "0 \<le> doe" "doe < 146097"
  defines "yoe \<equiv> int (length (takeWhile (\<lambda>y. year_days (int y + 1) \<le> doe) [0..<399]))"
  shows "0 \<le> yoe \<and> yoe \<le> 399 \<and> year_days yoe \<le> doe \<and> (yoe < 399 \<longrightarrow> doe < year_days (yoe + 1))"
proof -
  let ?P = "\<lambda>y. year_days (int y + 1) \<le> doe" let ?n = "length (takeWhile ?P [0..<399])"
  note t = takeWhile_upt [of ?P 399]
  have "year_days (int ?n) \<le> doe"
  proof (cases ?n)
    case 0
    then show ?thesis using assms(1) by (simp add: year_days_def)
  next
    case (Suc k)
    have "\<forall>i < ?n. ?P i" using t by blast
    then have "?P k" using Suc by simp
    then show ?thesis using Suc by (simp add: add.commute)
  qed
  moreover have "?n < 399 \<longrightarrow> \<not> ?P ?n" "?n \<le> 399" using t by blast+
  ultimately show ?thesis by (auto simp: yoe_def)
qed

lemma month_fields:
  assumes "0 \<le> doy"
  defines "mp \<equiv> int (length (takeWhile (\<lambda>m. month_days (int m + 1) \<le> doy) [0..<11]))"
  shows "0 \<le> mp \<and> mp \<le> 11 \<and> month_days mp \<le> doy \<and> (mp < 11 \<longrightarrow> doy < month_days (mp + 1))"
proof -
  let ?P = "\<lambda>y. month_days (int y + 1) \<le> doy" let ?n = "length (takeWhile ?P [0..<11])"
  note t = takeWhile_upt [of ?P 11]
  have "month_days (int ?n) \<le> doy"
  proof (cases ?n)
    case 0
    then show ?thesis using assms(1) by (simp add: month_days_def)
  next
    case (Suc k)
    have "\<forall>i < ?n. ?P i" using t by blast
    then have "?P k" using Suc by simp
    then show ?thesis using Suc by (simp add: add.commute)
  qed
  moreover have "?n < 11 \<longrightarrow> \<not> ?P ?n" "?n \<le> 11" using t by blast+
  ultimately show ?thesis by (auto simp: mp_def)
qed

text \<open>The length of a year counted from March, which ends with February of the next calendar year.\<close>

lemma div_step:
  fixes x k :: int
  assumes "0 < k"
  shows "(x + 1) div k = x div k + (if (x + 1) mod k = 0 then 1 else 0)"
proof -
  define q where "q = x div k" define r where "r = x mod k"
  have x: "x = r + k * q" and r: "0 \<le> r" "r < k" using assms by (simp_all add: q_def r_def)
  have e: "x + 1 = (r + 1) + k * q" by (simp add: x)
  have "(x + 1) div k = q + (r + 1) div k" "(x + 1) mod k = (r + 1) mod k" unfolding e using assms by simp_all
  moreover have "(r + 1) div k = (if (r + 1) mod k = 0 then 1 else 0)"
  proof (cases "r + 1 = k")
    case False
    then have "0 \<le> r + 1" "r + 1 < k" using r by simp_all
    then show ?thesis using r by (simp add: div_pos_pos_trivial mod_pos_pos_trivial)
  qed (use assms in simp)
  ultimately show ?thesis by (simp add: q_def)
qed

lemma year_length:
  assumes "0 \<le> yoe" "yoe < 399"
  shows "year_days (yoe + 1) - year_days yoe = (if leap (yoe + 1 + era * 400) then 366 else 365)"
proof -
  have e: "yoe + 1 + era * 400 = (yoe + 1) + 4 * (100 * era)" by simp
  have m4: "(yoe + 1 + era * 400) mod 4 = (yoe + 1) mod 4" unfolding e by (rule mod_mult_self2)
  have e: "yoe + 1 + era * 400 = (yoe + 1) + 100 * (4 * era)" by simp
  have m100: "(yoe + 1 + era * 400) mod 100 = (yoe + 1) mod 100" unfolding e by (rule mod_mult_self2)
  have e: "yoe + 1 + era * 400 = (yoe + 1) + 400 * era" by simp
  have m': "(yoe + 1 + era * 400) mod 400 = (yoe + 1) mod 400" unfolding e by (rule mod_mult_self2)
  note m = m4 m100 m'
  have m400: "(yoe + 1) mod 400 \<noteq> 0" using assms by (simp add: mod_pos_pos_trivial)
  have i: "(yoe + 1) mod 4 = 0" if "(yoe + 1) mod 100 = 0"
    using that dvd_trans [of 4 100 "yoe + 1"] by (simp add: dvd_eq_mod_eq_0)
  define a b where "a \<longleftrightarrow> (yoe + 1) mod 4 = 0" and "b \<longleftrightarrow> (yoe + 1) mod 100 = 0"
  have s: "(yoe + 1) div 4 = yoe div 4 + (if a then 1 else 0)" "(yoe + 1) div 100 = yoe div 100 + (if b then 1 else 0)"
    unfolding a_def b_def by (rule div_step, simp)+
  have "year_days (yoe + 1) - year_days yoe = 365 + (if a then 1 else 0) - (if b then 1 else 0)"
    unfolding year_days_def s by simp
  moreover have "leap (yoe + 1 + era * 400) \<longleftrightarrow> a \<and> \<not> b" unfolding leap_def m using m400 by (simp only: a_def b_def) simp
  moreover have "b \<longrightarrow> a" using i by (simp add: a_def b_def)
  ultimately show ?thesis by auto
qed

lemma day_bound:
  assumes doe: "0 \<le> doe" "doe < 146097" and y: "0 \<le> yoe" "yoe \<le> 399" "year_days yoe \<le> doe" "yoe < 399 \<longrightarrow> doe < year_days (yoe + 1)"
  shows "doe - year_days yoe < (if leap (yoe + 1 + era * 400) then 366 else 365)"
proof (cases "yoe = 399")
  case True
  have "399 + 1 + era * 400 = 400 * (era + 1)" "399 + 1 + era * 400 = 4 * (100 * (era + 1))" by simp_all
  then have "leap (yoe + 1 + era * 400)" unfolding True leap_def by (metis mod_mult_self1_is_0)
  moreover have "year_days 399 = 145731" by (simp add: year_days_def)
  ultimately show ?thesis using doe True by simp
next
  case False
  then have "yoe < 399" using y(2) by simp
  then show ?thesis using y(4) year_length [OF y(1), of era] by simp
qed

lemma month_bound:
  assumes mp: "0 \<le> mp" "mp \<le> 11" "month_days mp \<le> doy" "mp < 11 \<longrightarrow> doy < month_days (mp + 1)"
    and last: "mp = 11 \<longrightarrow> doy < (if leap y then 366 else 365)"
    and m: "m = (if mp < 10 then mp + 3 else mp - 9)"
  shows "1 \<le> doy - month_days mp + 1 \<and> doy - month_days mp + 1 \<le> days_in m y"
proof -
  have "set [0..11] = {0, 1, 2, 3, 4, 5, 6, 7, 8, 9, 10, 11 :: int}" by code_simp
  then have "mp \<in> {0, 1, 2, 3, 4, 5, 6, 7, 8, 9, 10, 11}" using mp(1,2) by (metis atLeastAtMost_iff set_upto)
  then show ?thesis using mp(3,4) last unfolding m
    by (elim insertE emptyE; simp add: month_days_def days_in_def split: if_splits)
qed

lemma civil_of_days_inverse:
  assumes "civil_of_days day = (y, m, d)"
  shows "days_civil y m d = day \<and> 1 \<le> m \<and> m \<le> 12 \<and> 1 \<le> d \<and> d \<le> days_in m y"
proof -
  define z where "z = day + 719468"
  define era where "era = z div 146097"
  define doe where "doe = z mod 146097"
  define yoe where "yoe = int (length (takeWhile (\<lambda>y. year_days (int y + 1) \<le> doe) [0..<399]))"
  define doy where "doy = doe - year_days yoe"
  define mp where "mp = int (length (takeWhile (\<lambda>m. month_days (int m + 1) \<le> doy) [0..<11]))"
  have e: "d = doy - month_days mp + 1" "m = (if mp < 10 then mp + 3 else mp - 9)" "y = yoe + era * 400 + (if m \<le> 2 then 1 else 0)"
    using assms by (auto simp: civil_of_days_def Let_def z_def era_def doe_def yoe_def doy_def mp_def)
  have doe: "0 \<le> doe" "doe < 146097" by (simp_all add: doe_def)
  have yb: "0 \<le> yoe" "yoe \<le> 399" "year_days yoe \<le> doe" "yoe < 399 \<longrightarrow> doe < year_days (yoe + 1)"
    using civil_fields [OF doe] by (simp_all add: yoe_def)
  have "0 \<le> doy" using yb(3) by (simp add: doy_def)
  then have mb: "0 \<le> mp" "mp \<le> 11" "month_days mp \<le> doy" "mp < 11 \<longrightarrow> doy < month_days (mp + 1)"
    using month_fields [of doy] by (simp_all add: mp_def)
  have small: "m \<le> 2 \<longleftrightarrow> mp \<ge> 10" using mb(1,2) e(2) by auto
  have "mp = 11 \<longrightarrow> doy < (if leap y then 366 else 365)"
    using day_bound [OF doe yb, of era] e(3) small by (simp add: doy_def algebra_simps)
  then have d: "1 \<le> d" "d \<le> days_in m y" using month_bound [OF mb _ e(2), of y] e(1) by simp_all
  have y': "(if m \<le> 2 then y - 1 else y) = yoe + era * 400" using e(3) by simp
  have mm: "(if m > 2 then m - 3 else m + 9) = mp" using e(2) mb(1,2) by auto
  have "(yoe + era * 400) div 400 = era" "(yoe + era * 400) mod 400 = yoe" using yb(1,2) by simp_all
  then have "days_civil y m d = era * 146097 + (yoe * 365 + yoe div 4 - yoe div 100 + ((153 * mp + 2) div 5 + d - 1)) - 719468"
    unfolding days_civil_def Let_def y' mm by simp
  also have "\<dots> = era * 146097 + doe - 719468" using e(1) by (simp add: doy_def year_days_def month_days_def)
  also have "\<dots> = day" by (simp add: era_def doe_def z_def)
  finally show ?thesis using d e(2) mb(1,2) by auto
qed

section \<open>Formatting\<close>

fun pad :: "nat \<Rightarrow> nat \<Rightarrow> gostring" where
  "pad 0 n = []"
| "pad (Suc k) n = pad k (n div 10) @ [char_of (48 + n mod 10)]"

text \<open>\<open>appendInt\<close>: at least \<open>k\<close> digits.\<close>

definition append_int :: "nat \<Rightarrow> int \<Rightarrow> gostring" where
  "append_int k i = (if i < 0 then CHR ''-'' # (if nat (- i) < 10 ^ k then pad k (nat (- i)) else digits_of (nat (- i)))
     else if nat i < 10 ^ k then pad k (nat i) else digits_of (nat i))"

text \<open>The nine digits of the fraction without trailing zeros, after a point.\<close>

definition fraction_text :: "int \<Rightarrow> gostring" where
  "fraction_text frac =
     (if frac = 0 then [] else CHR ''.'' # rev (dropWhile (\<lambda>c. c = CHR ''0'') (rev (pad 9 (nat frac)))))"

definition format_with :: "bool \<Rightarrow> nanos \<Rightarrow> gostring" where
  "format_with nano t =
     (let day = t div (86400 * Second); sod = t mod (86400 * Second) div Second; (y, m, d) = civil_of_days day
      in append_int 4 y @ ''-'' @ append_int 2 m @ ''-'' @ append_int 2 d @ ''T'' @ append_int 2 (sod div 3600) @ '':'' @
         append_int 2 (sod div 60 mod 60) @ '':'' @ append_int 2 (sod mod 60) @ (if nano then fraction_text (t mod Second) else []) @ ''Z'')"

definition format_rfc3339 :: "nanos \<Rightarrow> gostring" where "format_rfc3339 t = format_with False t"
definition format_rfc3339_nano :: "nanos \<Rightarrow> gostring" where "format_rfc3339_nano t = format_with True t"

section \<open>The round trip\<close>

lemma nat_of_digits_snoc: "nat_of_digits (s @ [c]) = 10 * nat_of_digits s + digit_val c"
  by (simp add: nat_of_digits_def)

lemma pad_digits: "length (pad k n) = k \<and> list_all is_digit (pad k n) \<and> nat_of_digits (pad k n) = n mod 10 ^ k"
proof (induction k arbitrary: n)
  case 0
  then show ?case by (simp add: nat_of_digits_def)
next
  case (Suc k)
  have "n mod 10 ^ Suc k = 10 * (n div 10 mod 10 ^ k) + n mod 10" by (simp add: mod_mult2_eq)
  with Suc [of "n div 10"] show ?case by (simp add: nat_of_digits_snoc digit_val_def)
qed

lemma take_digits_pad: "n < 10 ^ k \<Longrightarrow> take_digits k (pad k n @ s) = Some (int n, s)"
  using pad_digits [of k n] by (simp add: take_digits_def)

lemma take_digits_int: "0 \<le> i \<Longrightarrow> i < 10 ^ k \<Longrightarrow> take_digits k (append_int k i @ s) = Some (i, s)"
  using take_digits_pad [of "nat i" k s] by (simp add: append_int_def nat_less_iff)

lemma take_hour_int: "0 \<le> i \<Longrightarrow> i < 100 \<Longrightarrow> take_hour (append_int 2 i @ s) = Some (i, s)"
  using take_digits_int [of i 2 s] by (simp add: take_hour_def)

lemma expect_Cons [simp]: "expect c (c # s) = Some s"
  by (simp add: expect_def)

text \<open>Digits with their trailing zeros cut read as the fraction they stand for.\<close>

lemma strip_zeros:
  assumes "list_all is_digit ds"
  defines "st \<equiv> rev (dropWhile (\<lambda>c. c = CHR ''0'') (rev ds))"
  shows "list_all is_digit st \<and> length st \<le> length ds \<and> nat_of_digits ds = nat_of_digits st * 10 ^ (length ds - length st)"
  unfolding st_def using assms(1)
proof (induction ds rule: rev_induct)
  case (snoc c ds)
  show ?case
  proof (cases "c = CHR ''0''")
    case True
    then have "digit_val c = 0" by (simp add: digit_val_def)
    with snoc True show ?thesis by (simp add: nat_of_digits_snoc Suc_diff_le)
  qed (use snoc in simp)
qed simp

lemma take_fraction_text:
  assumes "0 \<le> frac" "frac < Second"
  shows "take_fraction (fraction_text frac @ ''Z'') = (frac, ''Z'')"
proof (cases "frac = 0")
  case True
  then show ?thesis by (simp add: fraction_text_def take_fraction_def)
next
  case False
  define ds where "ds = pad 9 (nat frac)"
  define st where "st = rev (dropWhile (\<lambda>c. c = CHR ''0'') (rev ds))"
  have lt: "nat frac < 10 ^ 9" using assms by (simp add: Second_def Millisecond_def nat_less_iff)
  have p: "length ds = 9" "list_all is_digit ds" "nat_of_digits ds = nat frac"
    using pad_digits [of 9 "nat frac"] lt by (simp_all add: ds_def)
  have q: "list_all is_digit st" "length st \<le> 9" "nat frac = nat_of_digits st * 10 ^ (9 - length st)"
    using strip_zeros [OF p(2)] p by (simp_all add: st_def)
  have ne: "st \<noteq> []" using q(3) False assms(1) by (auto simp: nat_of_digits_def)
  have z: "\<not> is_digit (CHR ''Z'')" by (simp add: byte_class_defs ord_def)
  have tw: "takeWhile is_digit (st @ ''Z'') = st" using q(1) z by (simp add: list_all_iff)
  have "fraction_text frac = CHR ''.'' # st" using False by (simp add: fraction_text_def st_def ds_def)
  moreover have "is_digit (hd st)" using q(1) ne by (cases st) auto
  moreover have "int (nat_of_digits st) * 10 ^ (9 - length st) = frac"
    using arg_cong [OF q(3), of int] assms(1) by simp
  ultimately show ?thesis using tw ne q(2) by (simp add: take_fraction_def)
qed

lemma parse_parts:
  assumes "parse_date s = Some ((y, m, d), CHR ''T'' # append_int 2 h @ CHR '':'' # append_int 2 mi @ CHR '':'' # append_int 2 sec @ tail)"
    and "0 \<le> h" "h < 24" "0 \<le> mi" "mi < 60" "0 \<le> sec" "sec < 60" and "take_fraction tail = (frac, ''Z'')"
  shows "parse_rfc3339 s = Some (((days_civil y m d * 24 + h) * 60 + mi) * Minute + sec * Second + frac)"
proof -
  have "take_hour (append_int 2 h @ u) = Some (h, u)" "take_digits 2 (append_int 2 mi @ u) = Some (mi, u)"
    "take_digits 2 (append_int 2 sec @ u) = Some (sec, u)" for u
    using assms(2-7) by (auto intro: take_hour_int take_digits_int)
  then show ?thesis using assms by (simp add: parse_rfc3339_def check_def take_zone_def)
qed

definition four_digit_year :: "nanos \<Rightarrow> bool" where
  "four_digit_year t \<longleftrightarrow> (let (y, _, _) = civil_of_days (t div (86400 * Second)) in 0 \<le> y \<and> y \<le> 9999)"

lemma parse_format_with:
  assumes "four_digit_year t" and "nano \<or> t mod Second = 0"
  shows "parse_rfc3339 (format_with nano t) = Some t"
proof -
  define day where "day = t div (86400 * Second)"
  define r where "r = t mod (86400 * Second)"
  define sod where "sod = r div Second"
  obtain y m d where c: "civil_of_days day = (y, m, d)" by (cases "civil_of_days day")
  note inv = civil_of_days_inverse [OF c]
  have y: "0 \<le> y" "y < 10 ^ 4" using assms(1) c by (simp_all add: four_digit_year_def day_def)
  have d31: "days_in m y \<le> 31" by (simp add: days_in_def)
  have md: "0 \<le> m" "m < 10 ^ 2" "0 \<le> d" "d < 10 ^ 2" using inv d31 by auto
  have sp: "0 < Second" "(86400 :: int) * Second = Second * 86400" by (simp_all add: Second_def Millisecond_def)
  have rb: "0 \<le> r" "r < 86400 * Second" using sp by (simp_all add: r_def)
  have sb: "0 \<le> sod" "sod < 86400"
  proof -
    have "0 \<le> r" "r < 86400 * 1000000000" using rb by (simp_all add: Second_def Millisecond_def)
    then have "0 \<le> r div 1000000000" "r div 1000000000 < 86400" by linarith+
    then show "0 \<le> sod" "sod < 86400" by (simp_all add: sod_def Second_def Millisecond_def)
  qed
  have h: "0 \<le> sod div 3600" "sod div 3600 < 24" using sb by auto
  have mi: "0 \<le> sod div 60 mod 60" "sod div 60 mod 60 < 60" "0 \<le> sod mod 60" "sod mod 60 < 60" by simp_all
  have frac: "r mod Second = t mod Second" by (simp add: r_def sp(2) mod_mod_cancel)
  have fb: "0 \<le> t mod Second" "t mod Second < Second" using sp by simp_all
  have rest: "take_fraction ((if nano then fraction_text (t mod Second) else []) @ ''Z'') = (t mod Second, ''Z'')"
  proof (cases nano)
    case False
    then show ?thesis using assms(2) by (simp add: take_fraction_def)
  qed (use take_fraction_text [OF fb] in simp)
  have total: "((day * 24 + sod div 3600) * 60 + sod div 60 mod 60) * Minute + (sod mod 60) * Second + t mod Second = t"
  proof -
    have "sod div 3600 = sod div 60 div 60" using zdiv_zmult2_eq [of 60 sod 60] by simp
    then have "sod = (sod div 3600) * 3600 + (sod div 60 mod 60) * 60 + sod mod 60"
      using div_mult_mod_eq [of sod 60] div_mult_mod_eq [of "sod div 60" 60] by linarith
    then have "((day * 24 + sod div 3600) * 60 + sod div 60 mod 60) * 60 + sod mod 60 = day * 86400 + sod" by simp
    then have "(((day * 24 + sod div 3600) * 60 + sod div 60 mod 60) * 60 + sod mod 60) * Second = (day * 86400 + sod) * Second" by simp
    moreover have "((day * 24 + sod div 3600) * 60 + sod div 60 mod 60) * Minute + (sod mod 60) * Second =
        (((day * 24 + sod div 3600) * 60 + sod div 60 mod 60) * 60 + sod mod 60) * Second"
      by (simp add: Minute_def distrib_right)
    ultimately have "((day * 24 + sod div 3600) * 60 + sod div 60 mod 60) * Minute + (sod mod 60) * Second = (day * 86400 + sod) * Second"
      by simp
    moreover have "r = sod * Second + t mod Second" using div_mult_mod_eq [of r Second] frac by (simp add: sod_def)
    moreover have "t = day * (86400 * Second) + r" unfolding day_def r_def by (rule div_mult_mod_eq [symmetric])
    ultimately show ?thesis by (simp add: algebra_simps)
  qed
  define tail where "tail = (if nano then fraction_text (t mod Second) else []) @ ''Z''"
  have shown: "format_with nano t = append_int 4 y @ CHR ''-'' # append_int 2 m @ CHR ''-'' # append_int 2 d @ CHR ''T'' #
      append_int 2 (sod div 3600) @ CHR '':'' # append_int 2 (sod div 60 mod 60) @ CHR '':'' # append_int 2 (sod mod 60) @ tail"
    by (simp add: format_with_def c day_def [symmetric] r_def [symmetric] sod_def [symmetric] tail_def)
  have b: "sod div 3600 < 100" "sod div 60 mod 60 < 10 ^ 2" "sod mod 60 < 10 ^ 2" 
    using h(2) less_trans [OF mi(2), of 100] less_trans [OF mi(4), of 100] by simp_all
  have digits: "take_digits 4 (append_int 4 y @ s) = Some (y, s)" "take_digits 2 (append_int 2 m @ s) = Some (m, s)"
    "take_digits 2 (append_int 2 d @ s) = Some (d, s)" "take_hour (append_int 2 (sod div 3600) @ s) = Some (sod div 3600, s)"
    "take_digits 2 (append_int 2 (sod div 60 mod 60) @ s) = Some (sod div 60 mod 60, s)"
    "take_digits 2 (append_int 2 (sod mod 60) @ s) = Some (sod mod 60, s)" for s
    by (rule take_digits_int [OF y] take_digits_int [OF md(1,2)] take_digits_int [OF md(3,4)] take_hour_int [OF h(1) b(1)]
        take_digits_int [OF mi(1) b(2)] take_digits_int [OF mi(3) b(3)])+
  have "parse_date (format_with nano t) = Some ((y, m, d), CHR ''T'' # append_int 2 (sod div 3600) @ CHR '':'' #
      append_int 2 (sod div 60 mod 60) @ CHR '':'' # append_int 2 (sod mod 60) @ tail)"
    using inv by (simp add: shown parse_date_def digits check_def)
  from parse_parts [OF this h mi rest [folded tail_def]] show ?thesis using inv total by simp
qed

text \<open>A time written with the nanosecond layout parses back to itself; the second layout keeps whole seconds.\<close>

lemma parse_format_nano: "four_digit_year t \<Longrightarrow> parse_rfc3339 (format_rfc3339_nano t) = Some t"
  by (simp add: format_rfc3339_nano_def parse_format_with)

end
