(* ===== verification/Consent_Floor.thy ===== *)
theory Consent_Floor
  imports Outbox_Guarantees HTTP_Responses Disk_Spool Go_Time_Format
begin

text \<open>
  The consent side of the client (\<open>consent.go\<close>, the client half of \<open>consent_outbox.go\<close>, \<open>applySpoolConsent\<close>
  of \<open>spool.go\<close>): start-up, the dispatch of receipts, the retries of what is owed, and one decision.

  The client's state is the record \<open>consent_client\<close>: the decision in force and its epoch, the outbox, the file
  of the decision record, the spool (if a directory is configured), what is owed, the last stamp, the counters
  and whether a wake-up of the worker is pending.  Each function is one turn of one goroutine; where the code
  tries a lock another goroutine may hold, the answer is an argument \<open>lock_free\<close>, and where it mints an
  identifier, reads the clock or publishes, the outcome is an argument.  The counts of experiment facts a
  consent purge discards and the log are not modelled.
\<close>

section \<open>State\<close>

record consentOwedMint =
  om_notice :: ConsentNotice
  om_decision :: gostring
  om_analyticsGranted :: bool
  om_reason :: gostring
  om_decidedAt :: gostring

record consent_stats =
  consentOutboxUnreadable :: u64
  consentOutboxPersistFailed :: u64
  consentOutboxEvicted :: u64
  consentRecorded :: u64
  consentFailed :: u64
  lastConsentError :: gostring
  lastError :: gostring

text \<open>The request of a client without the floor, and of a receipt.\<close>

record consentRequest =
  cq_notice :: ConsentNotice
  cq_WorkspaceID :: gostring
  cq_AppID :: gostring
  cq_EnvironmentID :: gostring
  cq_ActorIdentifier :: gostring
  cq_Kind :: gostring
  cq_analytics :: bool
  cq_DecidedAt :: gostring
  cq_IdempotencyKey :: gostring
  cq_Reason :: gostring

definition consentReceiptWire :: "consentReceipt \<Rightarrow> consentRequest" where
  "consentReceiptWire r = \<lparr>cq_notice = rc_notice r, cq_WorkspaceID = rcp_WorkspaceID r, cq_AppID = rcp_AppID r,
     cq_EnvironmentID = rcp_EnvironmentID r, cq_ActorIdentifier = rcp_ActorIdentifier r, cq_Kind = rcp_Kind r,
     cq_analytics = analyticsGranted r, cq_DecidedAt = rcp_DecidedAt r, cq_IdempotencyKey = IdempotencyKey r, cq_Reason = rcp_Reason r\<rparr>"

record consent_client =
  cl_cfg :: actor_config
  cl_floor :: bool
  cl_digest :: gostring
  consent :: ConsentState
  consentEpoch :: nat
  cl_outbox :: consentOutbox
  cl_record :: private_file
  cl_spool :: "diskSpool option"
  consentRecordOwed :: "(gostring \<times> gostring) option"
  consentMintOwed :: "consentOwedMint option"
  consentGrantArming :: nat
  lastConsentStamp :: gostring
  consentWake :: bool
  consentSends :: "consentRequest list"
  cl_stats :: consent_stats

definition no_stats :: consent_stats where
  "no_stats = \<lparr>consentOutboxUnreadable = 0, consentOutboxPersistFailed = 0, consentOutboxEvicted = 0, consentRecorded = 0,
     consentFailed = 0, lastConsentError = [], lastError = []\<rparr>"

definition setLastError :: "gostring \<Rightarrow> consent_client \<Rightarrow> consent_client" where
  "setLastError e c = c\<lparr>cl_stats := (cl_stats c)\<lparr>lastError := e\<rparr>\<rparr>"

definition setLastConsentError :: "gostring \<Rightarrow> consent_client \<Rightarrow> consent_client" where
  "setLastConsentError e c = c\<lparr>cl_stats := (cl_stats c)\<lparr>lastConsentError := e\<rparr>\<rparr>"

definition with_outbox :: "(consentOutbox \<Rightarrow> 'a \<times> consentOutbox) \<Rightarrow> consent_client \<Rightarrow> 'a \<times> consent_client" where
  "with_outbox f c = (let (x, ob) = f (cl_outbox c) in (x, c\<lparr>cl_outbox := ob\<rparr>))"

definition consentDenied :: "consent_client \<Rightarrow> bool" where
  "consentDenied c \<longleftrightarrow> consent c = ConsentDenied \<or> consent c = ConsentDeniedForcedMinor"

definition consentUndecided :: "consent_client \<Rightarrow> bool" where
  "consentUndecided c \<longleftrightarrow> consent c = ConsentUnknown"

section \<open>Scope\<close>

definition consentReceiptInScope :: "actor_config \<Rightarrow> consentReceipt \<Rightarrow> bool" where
  "consentReceiptInScope cfg r \<longleftrightarrow>
     (let (actor, _) = configured_actor cfg
      in rcp_WorkspaceID r = cfg_WorkspaceKey cfg \<and> rcp_AppID r = cfg_AppKey cfg \<and> rcp_EnvironmentID r = cfg_EnvironmentKey cfg \<and>
         rcp_ActorIdentifier r = actor_identifier actor \<and> rcp_Kind r = kind actor \<and> rcp_AnonymousID r = cfg_AnonymousID cfg)"

abbreviation in_scope :: "consent_client \<Rightarrow> consentReceipt \<Rightarrow> bool" where
  "in_scope c \<equiv> consentReceiptInScope (cl_cfg c)"

text \<open>An event's own identity against the configured one; an empty field falls back to the configuration.\<close>

definition firstNonEmpty :: "gostring \<Rightarrow> gostring \<Rightarrow> gostring" where
  "firstNonEmpty a b = (if a \<noteq> [] then a else b)"

definition consentFloorActorMismatch :: "actor_config \<Rightarrow> gostring \<Rightarrow> gostring \<Rightarrow> bool" where
  "consentFloorActorMismatch cfg eventUser eventAnonymous =
     (if eventUser = [] \<and> eventAnonymous = [] then False
      else fst (selectConsentActor (cfg_Source cfg) (firstNonEmpty eventUser (cfg_UserID cfg)) (firstNonEmpty eventAnonymous (cfg_AnonymousID cfg)))
           \<noteq> fst (configured_actor cfg))"

definition validateConsentFloorIdentity :: "actor_config \<Rightarrow> bool" where
  "validateConsentFloorIdentity cfg \<longleftrightarrow>
     (cfg_UserID cfg = [] \<or> validConsentIdentifier (cfg_UserID cfg)) \<and>
     (cfg_AnonymousID cfg = [] \<or> validConsentIdentifier (cfg_AnonymousID cfg))"

section \<open>Small steps\<close>

definition wakeConsentDispatch :: "consent_client \<Rightarrow> consent_client" where
  "wakeConsentDispatch c = c\<lparr>consentWake := True\<rparr>"

definition recordConsentOutboxPersistFailure :: "consent_client \<Rightarrow> consent_client" where
  "recordConsentOutboxPersistFailure c =
     setLastConsentError ''consent_outbox_persist_failed''
       (c\<lparr>cl_stats := (cl_stats c)\<lparr>consentOutboxPersistFailed := consentOutboxPersistFailed (cl_stats c) + 1\<rparr>\<rparr>)"

definition drainConsentOutboxEvictions :: "consent_client \<Rightarrow> consent_client" where
  "drainConsentOutboxEvictions c =
     (let (evicted, c) = with_outbox takeEvicted c
      in if evicted > 0 then c\<lparr>cl_stats := (cl_stats c)\<lparr>consentOutboxEvicted := consentOutboxEvicted (cl_stats c) + of_nat evicted\<rparr>\<rparr>
         else c)"

definition setConsentRecordOwed :: "gostring \<Rightarrow> gostring \<Rightarrow> bool \<Rightarrow> consent_client \<Rightarrow> consent_client" where
  "setConsentRecordOwed decision decidedAt persisted c =
     (if persisted \<or> ob_dir (cl_outbox c) = [] then
        (let c = c\<lparr>consentRecordOwed := None\<rparr>
         in if persisted then c\<lparr>cl_outbox := clearRecordOwedMarks (cl_outbox c)\<rparr> else c)
      else c\<lparr>consentRecordOwed := Some (decision, decidedAt)\<rparr>)"

definition markOwed :: "gostring \<Rightarrow> consent_client \<Rightarrow> consent_client" where
  "markOwed key c = c\<lparr>cl_outbox := markRecordOwed key (cl_outbox c)\<rparr>"

definition appendReceipt :: "consentReceipt \<Rightarrow> consent_client \<Rightarrow> bool \<times> consent_client" where
  "appendReceipt r c =
     (let (failed, c) = with_outbox (ob_append r) c;
          c = (if failed then recordConsentOutboxPersistFailure c else c)
      in (failed, drainConsentOutboxEvictions c))"

text \<open>Minting: \<open>minted\<close> is the fresh identifier, or nothing when the random source fails.  No actor: no receipt.\<close>

datatype mint_result = MintFailed | NotMinted | Minted consentReceipt

definition mintConsentReceipt :: "gostring option \<Rightarrow> bool \<Rightarrow> gostring \<Rightarrow> gostring \<Rightarrow> ConsentNotice \<Rightarrow> actor_config \<Rightarrow> mint_result" where
  "mintConsentReceipt minted analytics reason decidedAt notice cfg =
     (let (actor, _) = configured_actor cfg
      in if actor_identifier actor = [] then NotMinted
         else case minted of
           None \<Rightarrow> MintFailed
         | Some key \<Rightarrow> Minted \<lparr>rc_notice = notice, noticePresent = False, noticeInvalid = False, IdempotencyKey = key,
             rcp_WorkspaceID = cfg_WorkspaceKey cfg, rcp_AppID = cfg_AppKey cfg, rcp_EnvironmentID = cfg_EnvironmentKey cfg,
             rcp_ActorIdentifier = actor_identifier actor, rcp_Kind = kind actor, Analytics = Some analytics, rcp_DecidedAt = decidedAt,
             rcp_Reason = reason, rcp_AnonymousID = (if validConsentIdentifier (cfg_AnonymousID cfg) then cfg_AnonymousID cfg else [])\<rparr>)"

text \<open>The stamp of a decision is later than the stamp before it, whatever the clock says.\<close>

definition consentDecisionStamp :: "nanos \<Rightarrow> consent_client \<Rightarrow> gostring \<times> consent_client" where
  "consentDecisionStamp now c =
     (let now = (if lastConsentStamp c = [] then now
                 else case parse_rfc3339 (lastConsentStamp c) of None \<Rightarrow> now | Some prior \<Rightarrow> if prior < now then now else prior + 1);
          stamp = format_rfc3339_nano now
      in (stamp, c\<lparr>lastConsentStamp := stamp\<rparr>))"

definition seed_step :: "gostring \<Rightarrow> gostring \<Rightarrow> gostring" where
  "seed_step stamp seeded =
     (if stamp = [] then seeded
      else case parse_rfc3339 stamp of None \<Rightarrow> seeded
      | Some at \<Rightarrow>
          if seeded = [] then stamp
          else case parse_rfc3339 seeded of None \<Rightarrow> stamp | Some prior \<Rightarrow> if prior < at then stamp else seeded)"

definition seedConsentStamp :: "gostring list \<Rightarrow> consent_client \<Rightarrow> consent_client" where
  "seedConsentStamp stamps c = c\<lparr>lastConsentStamp := fold seed_step stamps (lastConsentStamp c)\<rparr>"

section \<open>The decision on disk\<close>

text \<open>\<open>applySpoolConsent\<close>: what it drops, whether the decision's record is on disk, and whether the spool is
  purged.  A denial whose record cannot be written owes the wipe durably, writes the record again, or
  removes the spool.\<close>

definition save_decision :: "gostring \<Rightarrow> gostring \<Rightarrow> consent_client \<Rightarrow> bool \<times> consent_client" where
  "save_decision decision decidedAt c =
     (let (ok, f) = saveConsentRecord decision (cl_digest c) decidedAt (cl_floor c) (cl_record c) in (ok, c\<lparr>cl_record := f\<rparr>))"

definition purge_after :: "spoolEntry list \<Rightarrow> bool \<Rightarrow> diskSpool \<Rightarrow> consent_client \<Rightarrow> (spoolEntry list \<times> bool \<times> bool) \<times> consent_client" where
  "purge_after condemned persisted s c =
     (let (dropped, err, s) = purge s; c = c\<lparr>cl_spool := Some s\<rparr>;
          c = (if err \<noteq> None then setLastError ''spool_purge_failed'' c else c)
      in ((condemned @ dropped, persisted, err = None), c))"

definition deny_on_disk :: "gostring \<Rightarrow> gostring \<Rightarrow> diskSpool \<Rightarrow> consent_client \<Rightarrow> (spoolEntry list \<times> bool \<times> bool) \<times> consent_client" where
  "deny_on_disk decision decidedAt s c =
     (let s = s\<lparr>s_grantPersisted := False\<rparr>; (ok, c) = save_decision decision decidedAt c
      in if ok then purge_after [] True s c
         else
           let c = setLastError ''consent_record_persist_failed'' c;
               (condemned, s) = condemnEntriesLocked s;
               (marked, s) = on_disk createWipeOwedMarker (s\<lparr>s_owed := True\<rparr>)
           in if marked then ((condemned, False, False), c\<lparr>cl_spool := Some s\<rparr>)
              else let (ok, c) = save_decision decision decidedAt c
                in if ok then purge_after condemned True s c
                   else let (wiped, s) = settleOwedWipeLocked s
                     in if wiped then ((condemned, False, True), c\<lparr>cl_spool := Some s\<rparr>)
                        else ((condemned, False, False), setLastError ''spool_purge_failed'' (c\<lparr>cl_spool := Some s\<rparr>)))"

definition grant_on_disk :: "gostring \<Rightarrow> diskSpool \<Rightarrow> consent_client \<Rightarrow> (spoolEntry list \<times> bool \<times> bool) \<times> consent_client" where
  "grant_on_disk decidedAt s c =
     (let (wiped, s) = settleOwedWipeLocked s
      in if \<not> wiped then (([], False, False), setLastError ''spool_purge_failed'' (c\<lparr>cl_spool := Some s\<rparr>))
         else let (ok, c) = save_decision DecisionGranted decidedAt c
           in if \<not> ok then (([], False, True), setLastError ''consent_record_persist_failed'' (c\<lparr>cl_spool := Some (s\<lparr>s_grantPersisted := False\<rparr>)\<rparr>))
              else (([], True, True), c\<lparr>cl_spool := Some (s\<lparr>s_grantPersisted := True\<rparr>)\<rparr>))"

definition applySpoolConsent :: "gostring \<Rightarrow> gostring \<Rightarrow> consent_client \<Rightarrow> (spoolEntry list \<times> bool \<times> bool) \<times> consent_client" where
  "applySpoolConsent decision decidedAt c =
     (case cl_spool c of
        None \<Rightarrow> (([], True, True), c)
      | Some s \<Rightarrow> if decision \<noteq> DecisionGranted then deny_on_disk decision decidedAt s c else grant_on_disk decidedAt s c)"

section \<open>Start-up\<close>

definition consentOutboxMarkStamp :: "consentRecordInfo \<Rightarrow> consentOutbox \<Rightarrow> gostring" where
  "consentOutboxMarkStamp info ob = (let at = maxDecidedAt ob in if at \<noteq> [] then at else info_decidedAt info)"

definition tailBlockedByUnusableTrail :: "consentOutboxRead \<Rightarrow> consentRecordRead \<Rightarrow> consentRecordInfo \<Rightarrow> consentReceipt \<Rightarrow> bool" where
  "tailBlockedByUnusableTrail outboxRead recordRead info t \<longleftrightarrow>
     (if \<not> analyticsGranted t then False
      else if outboxRead = OutboxUnusable \<or> recordRead = RecordUnusable then True
      else if recordRead = RecordForeign then True
      else \<not> consentMarkSupersededBy info (rcp_DecidedAt t))"

text \<open>The decision a receipt of the trail carries.\<close>

definition tail_decision :: "consentReceipt \<Rightarrow> gostring \<times> ConsentState" where
  "tail_decision t =
     (if analyticsGranted t then (DecisionGranted, ConsentGranted)
      else if rcp_Reason t = consentDecisionReason then (DecisionDeniedForcedMinor, ConsentDeniedForcedMinor)
      else (DecisionDenied, ConsentDenied))"

text \<open>What the start-up decides with: the record as read, or healed from the newest receipt of the trail.\<close>

record startup =
  st_info :: consentRecordInfo
  st_ok :: bool
  st_read :: consentRecordRead

definition heal_record :: "startup \<Rightarrow> consentReceipt \<Rightarrow> consent_client \<Rightarrow> startup \<times> consent_client" where
  "heal_record st t c =
     (let (decision, state) = tail_decision t;
          (saved, f) = saveConsentRecord decision (cl_digest c) (rcp_DecidedAt t) True (cl_record c);
          c = c\<lparr>cl_record := f\<rparr>;
          healed = \<lparr>st_info = no_info\<lparr>info_state := state, info_decidedAt := rcp_DecidedAt t, info_floor := True\<rparr>, st_ok = True, st_read = RecordParsed\<rparr>
      in if saved then (healed, c)
         else
           let c = setConsentRecordOwed decision (rcp_DecidedAt t) False (setLastError ''consent_record_persist_failed'' c);
               owed = (\<lambda>e. in_scope c e \<and> (\<not> st_ok st \<or> consentReceiptSupersedesRecord (rcp_DecidedAt e) (st_info st)))
           in (healed, c\<lparr>cl_outbox := markRecordOwedWhere owed (cl_outbox c)\<rparr>))"

definition heal_from_trail :: "startup \<Rightarrow> consent_client \<Rightarrow> startup \<times> consent_client" where
  "heal_from_trail st c =
     (case latestMatching (in_scope c) (cl_outbox c) of
        None \<Rightarrow> (st, c)
      | Some t \<Rightarrow>
          if info_state (st_info st) \<noteq> ConsentDeniedForcedMinor \<and>
             \<not> tailBlockedByUnusableTrail (lastRead (cl_outbox c)) (st_read st) (st_info st) t \<and>
             (\<not> st_ok st \<or> consentReceiptSupersedesRecord (rcp_DecidedAt t) (st_info st))
          then heal_record st t c else (st, c))"

definition grants_unprovable :: "startup \<Rightarrow> consent_client \<Rightarrow> bool" where
  "grants_unprovable st c \<longleftrightarrow>
     lastRead (cl_outbox c) = OutboxUnusable \<or> st_read st = RecordUnusable \<or> st_read st = RecordForeign \<or> info_unwitnessed (st_info st)"

text \<open>Withholding is made durable: the record is marked, or the trail is kept as evidence.  The flag tells
  whether the mark failed.\<close>

definition withhold :: "startup \<Rightarrow> consent_client \<Rightarrow> bool \<times> consent_client" where
  "withhold st c =
     (if \<not> grants_unprovable st c then (False, c)
      else let at = consentOutboxMarkStamp (st_info st) (cl_outbox c)
        in if st_ok st \<and> info_state (st_info st) \<noteq> ConsentUnknown \<and> consentMarkSupersededBy (st_info st) at then
             (let (ok, f) = markConsentRecordUnwitnessed (st_info st) (cl_digest c) at (cl_record c); c = c\<lparr>cl_record := f\<rparr>
              in if ok then (False, c)
                 else (True, setLastConsentError ''consent_unwitnessed_mark_failed'' (c\<lparr>cl_outbox := preserveEvidence (cl_outbox c)\<rparr>)))
           else if \<not> st_ok st then (False, c\<lparr>cl_outbox := preserveEvidence (cl_outbox c)\<rparr>)
           else (False, c))"

definition adopt_state :: "startup \<Rightarrow> bool \<Rightarrow> bool \<Rightarrow> consent_client \<Rightarrow> consent_client" where
  "adopt_state st unprovable markFailed c =
     (if \<not> st_ok st then c
      else if info_state (st_info st) = ConsentGranted \<and> unprovable then
        (if \<not> markFailed then setLastConsentError ''consent_grant_unwitnessed'' c else c)
      else if info_state (st_info st) = ConsentGranted \<and> \<not> info_floor (st_info st) then setLastError ''consent_record_unproven'' c
      else if info_state (st_info st) = ConsentUnknown then c
      else c\<lparr>consent := info_state (st_info st)\<rparr>)"

definition load_decision :: "consent_client \<Rightarrow> consent_client" where
  "load_decision c =
     (let ((info, ok, how), f) = loadConsentRecordRead (cl_digest c) (cl_record c);
          c = seedConsentStamp [info_decidedAt info, maxDecidedAt (cl_outbox c)] (c\<lparr>cl_record := f\<rparr>);
          (st, c) = heal_from_trail \<lparr>st_info = info, st_ok = ok, st_read = how\<rparr> c;
          unprovable = grants_unprovable st c;
          c = c\<lparr>cl_outbox := setGrantsUnprovable unprovable (cl_outbox c)\<rparr>;
          (markFailed, c) = withhold st c
      in adopt_state st unprovable markFailed c)"

definition note_invalid :: "consent_client \<Rightarrow> consent_client" where
  "note_invalid c =
     (if noticeInvalidAtLoad (cl_outbox c) \<and>
         lastConsentError (cl_stats c) \<notin> {''consent_outbox_persist_failed'', ''consent_persist_failed'', ''consent_unwitnessed_mark_failed''}
      then setLastConsentError ''consent_notice_invalid'' c else c)"

text \<open>\<open>private_ok\<close>: the state directory could be made private.\<close>

definition read_trail :: "consent_client \<Rightarrow> consent_client" where
  "read_trail c =
     (let c = c\<lparr>cl_outbox := ob_load (in_scope c) (cl_outbox c)\<rparr>;
          c = (if lastRead (cl_outbox c) = OutboxUnusable
               then setLastConsentError ''consent_outbox_unreadable'' (c\<lparr>cl_stats := (cl_stats c)\<lparr>consentOutboxUnreadable := consentOutboxUnreadable (cl_stats c) + 1\<rparr>\<rparr>)
               else c)
      in drainConsentOutboxEvictions c)"

definition take_decision :: "consent_client \<Rightarrow> consent_client" where
  "take_decision c =
     (if \<not> validateConsentFloorIdentity (cl_cfg c)
      then (let c = setLastError ''consent_identity_invalid'' c
            in if lastRead (cl_outbox c) = OutboxUnusable then c\<lparr>cl_outbox := preserveEvidence (cl_outbox c)\<rparr> else c)
      else load_decision c)"

definition wake_pending :: "consent_client \<Rightarrow> consent_client" where
  "wake_pending c = (if ob_pending (cl_outbox c) then wakeConsentDispatch c else c)"

definition initConsentFloor :: "gostring \<Rightarrow> private_file \<Rightarrow> bool \<Rightarrow> consent_client \<Rightarrow> consent_client" where
  "initConsentFloor dir outboxFile private_ok c =
     (let c = c\<lparr>cl_outbox := newConsentOutbox dir outboxFile\<rparr>
      in if dir = [] then c
         else if \<not> private_ok then setLastError ''spool_dir_private_failed'' c
         else wake_pending (note_invalid (take_decision (read_trail c))))"

end
