(* ===== verification/Consent_Dispatch.thy ===== *)
theory Consent_Dispatch
  imports Consent_Floor
begin

text \<open>
  The dispatch of consent receipts (\<open>dispatchConsentReceiptsFrom\<close> and what it calls, \<open>consent_outbox.go\<close>), the
  backoff of \<open>client.go\<close>, and one decision of the host (\<open>applyConsentDecision\<close>, \<open>consent.go\<close>).

  A turn of the dispatch loop is one definition; what happens outside the client during it is its environment:
  the clock before and after the request, whether the decision lock is free, the answer of the server, whether the context ended.  The loop
  runs over a list of such environments and stops with the list at the latest.
\<close>

section \<open>Backoff\<close>

definition publishBackoffBase :: nanos where "publishBackoffBase = Second"
definition publishBackoffCap :: nanos where "publishBackoffCap = 60 * Second"
definition minRetryNowSpacing :: nanos where "minRetryNowSpacing = 100 * Millisecond"

definition backoffCeiling :: "int \<Rightarrow> nanos" where
  "backoffCeiling attempt =
     (if attempt < 1 then 0
      else let exp = max 0 (attempt - 2); exp = min 16 exp in min publishBackoffCap (publishBackoffBase * 2 ^ nat exp))"

text \<open>\<open>jitter\<close> is the uniform value times a duration, truncated.\<close>

definition backoffDelay :: "(nanos \<Rightarrow> nanos) \<Rightarrow> int \<Rightarrow> nanos" where
  "backoffDelay jitter attempt =
     (let ceiling = backoffCeiling attempt in if ceiling \<le> 0 then 0 else publishBackoffBase + jitter (ceiling - publishBackoffBase))"

section \<open>What is owed\<close>

text \<open>The retry of an owed record: a grant's waits for its receipt.\<close>

definition retryOwedConsentRecord :: "bool \<Rightarrow> consent_client \<Rightarrow> spoolEntry list \<times> consent_client" where
  "retryOwedConsentRecord lock_free c =
     (if \<not> cl_floor c \<or> cl_spool c = None then ([], c)
      else case consentRecordOwed c of
        None \<Rightarrow> ([], c)
      | Some (decision, at) \<Rightarrow>
          if \<not> lock_free then ([], c)
          else if decision = DecisionGranted \<and>
                  (writeOwed (cl_outbox c) \<or> (case consentMintOwed c of None \<Rightarrow> False | Some m \<Rightarrow> om_decidedAt m = at)) then ([], c)
          else let ((letters, persisted, _), c) = applySpoolConsent decision at c
            in (letters, setConsentRecordOwed decision at persisted c))"

definition retryOwedConsentMint :: "bool \<Rightarrow> gostring option \<Rightarrow> consent_client \<Rightarrow> consent_client" where
  "retryOwedConsentMint lock_free minted c =
     (if \<not> cl_floor c then c
      else case consentMintOwed c of
        None \<Rightarrow> c
      | Some owed \<Rightarrow>
          if \<not> lock_free then c
          else case mintConsentReceipt minted (om_analyticsGranted owed) (om_reason owed) (om_decidedAt owed) (om_notice owed) (cl_cfg c) of
            Minted receipt \<Rightarrow>
              let (_, c) = appendReceipt receipt (c\<lparr>consentMintOwed := None\<rparr>);
                  c = (case consentRecordOwed c of
                         Some (_, at) \<Rightarrow> if at = om_decidedAt owed then markOwed (IdempotencyKey receipt) c else c
                       | None \<Rightarrow> c)
              in wakeConsentDispatch c
          | _ \<Rightarrow> c)"

definition retryOutbox :: "consent_client \<Rightarrow> consent_client" where
  "retryOutbox c =
     (let ((attempted, failed), c) = with_outbox ob_retryPersist c
      in if \<not> attempted then c
         else drainConsentOutboxEvictions (if failed then recordConsentOutboxPersistFailure c else c))"

section \<open>Guards of the order of delivery\<close>

definition consentDenyProofHeld :: "consent_client \<Rightarrow> consentReceipt \<Rightarrow> bool" where
  "consentDenyProofHeld c r \<longleftrightarrow>
     (case consentRecordOwed c of
        None \<Rightarrow> False
      | Some (decision, _) \<Rightarrow>
          decision \<noteq> DecisionGranted \<and>
          (case latestMatching (in_scope c) (cl_outbox c) of None \<Rightarrow> False | Some proof \<Rightarrow> IdempotencyKey proof = IdempotencyKey r))"

text \<open>The entries after the grant in the trail.\<close>

definition after_grant :: "consentReceipt \<Rightarrow> consentReceipt list \<Rightarrow> consentReceipt list" where
  "after_grant grant rs =
     filter (\<lambda>e. IdempotencyKey e \<noteq> IdempotencyKey grant) (dropWhile (\<lambda>e. IdempotencyKey e \<noteq> IdempotencyKey grant) rs)"

definition newerInScopeDenialHeld :: "consent_client \<Rightarrow> consentReceipt \<Rightarrow> bool" where
  "newerInScopeDenialHeld c grant \<longleftrightarrow>
     list_ex (\<lambda>e. \<not> analyticsGranted e \<and> in_scope c e \<and> (recordOwedFor (IdempotencyKey e) (cl_outbox c) \<or> consentDenyProofHeld c e))
       (after_grant grant (ob_snapshot (cl_outbox c)))"

definition newerInScopeDenialInTrail :: "consent_client \<Rightarrow> consentReceipt \<Rightarrow> bool" where
  "newerInScopeDenialInTrail c grant \<longleftrightarrow>
     list_ex (\<lambda>e. \<not> analyticsGranted e \<and> in_scope c e) (after_grant grant (ob_snapshot (cl_outbox c)))"

definition consentGrantPairIncomplete :: "consent_client \<Rightarrow> bool" where
  "consentGrantPairIncomplete c \<longleftrightarrow>
     writeOwed (cl_outbox c) \<or> consentGrantArming c > 0 \<or>
     (case consentRecordOwed c of None \<Rightarrow> False | Some (decision, _) \<Rightarrow> decision = DecisionGranted)"

definition denial_mint_owed :: "consent_client \<Rightarrow> bool" where
  "denial_mint_owed c \<longleftrightarrow> (case consentMintOwed c of None \<Rightarrow> False | Some m \<Rightarrow> om_decision m \<noteq> DecisionGranted)"

text \<open>Why the next receipt is not sent now.\<close>

definition held_back :: "bool \<Rightarrow> consent_client \<Rightarrow> consentReceipt \<Rightarrow> bool" where
  "held_back lock_free c r \<longleftrightarrow>
     (if recordOwedFor (IdempotencyKey r) (cl_outbox c) then True
      else if denial_mint_owed c \<and> analyticsGranted r then True
      else if analyticsGranted r \<and> newerInScopeDenialHeld c r then True
      else if consentDenyProofHeld c r then True
      else if analyticsGranted r \<and> consentGrantPairIncomplete c then True
      else if analyticsGranted r then
        (if \<not> lock_free then True
         else denial_mint_owed c \<or> newerInScopeDenialHeld c r \<or> (consentDenied c \<and> \<not> newerInScopeDenialInTrail c r))
      else False)"

section \<open>One turn of the loop\<close>

definition consentDeliveryRetryable :: "post_error \<Rightarrow> bool" where
  "consentDeliveryRetryable err = (case err of StatusError e \<Rightarrow> Retryable e | EncodeError \<Rightarrow> False | _ \<Rightarrow> True)"

text \<open>\<open>err_ctx\<close>: the error is the ended context's own; \<open>err_text\<close> is the error's text.\<close>

record turn_env =
  en_now :: nanos
  en_after :: nanos
  en_lock_free :: bool
  en_result :: "post_error option"
  en_ctx :: bool
  en_text :: gostring
  en_jitter :: "nanos \<Rightarrow> nanos"

definition armConsentDeferral :: "(nanos \<Rightarrow> nanos) \<Rightarrow> nanos \<Rightarrow> post_error \<Rightarrow> consent_client \<Rightarrow> consent_client" where
  "armConsentDeferral jitter now err c =
     (let ob = cl_outbox c; attempt = backoffAttempt ob + 1; ob = ob\<lparr>backoffAttempt := attempt\<rparr>;
          ob = (case err of
                  StatusError e \<Rightarrow>
                    if se_retryAfterPresent e then ob\<lparr>deferUntil := Some (now + max minRetryNowSpacing (RetryAfter e))\<rparr>
                    else (let d = backoffDelay jitter attempt in ob\<lparr>deferUntil := if d > 0 then Some (now + d) else None\<rparr>)
                | _ \<Rightarrow> (let d = backoffDelay jitter attempt in ob\<lparr>deferUntil := if d > 0 then Some (now + d) else None\<rparr>))
      in wakeConsentDispatch (c\<lparr>cl_outbox := ob\<rparr>))"

definition pruneReceipt :: "gostring \<Rightarrow> consent_client \<Rightarrow> consent_client" where
  "pruneReceipt key c =
     (let (failed, c) = with_outbox (prune key) c
      in drainConsentOutboxEvictions (if failed then recordConsentOutboxPersistFailure c else c))"

text \<open>How a turn ends: the loop goes on, or the dispatch returns (drained or not; whether it wakes the worker).\<close>

datatype turn_end = Again | Return bool bool

definition choose_receipt :: "nanos \<Rightarrow> bool \<Rightarrow> consent_client \<Rightarrow> consentReceipt option" where
  "choose_receipt now lock_free c =
     (if deferralActive now (cl_outbox c) then None
      else case nextDispatchable (in_scope c) (cl_outbox c) of
        None \<Rightarrow> None
      | Some r \<Rightarrow> if held_back lock_free c r then None else Some r)"

definition settle_receipt :: "turn_env \<Rightarrow> consentReceipt \<Rightarrow> consent_client \<Rightarrow> turn_end \<times> consent_client" where
  "settle_receipt env r c =
     (case en_result env of
        None \<Rightarrow>
          let c = c\<lparr>cl_stats := (cl_stats c)\<lparr>consentRecorded := consentRecorded (cl_stats c) + 1\<rparr>,
                    cl_outbox := (cl_outbox c)\<lparr>deferUntil := None, backoffAttempt := 0\<rparr>\<rparr>
          in (Again, pruneReceipt (IdempotencyKey r) c)
      | Some err \<Rightarrow>
          if en_ctx env then (Return False True, c)
          else
            let c = setLastConsentError (en_text env) (c\<lparr>cl_stats := (cl_stats c)\<lparr>consentFailed := consentFailed (cl_stats c) + 1\<rparr>\<rparr>)
            in if \<not> consentDeliveryRetryable err then (Again, pruneReceipt (IdempotencyKey r) c)
               else (Return True False, armConsentDeferral (en_jitter env) (en_after env) err c))"

definition answered :: "turn_env \<Rightarrow> bool" where
  "answered env = (case en_result env of None \<Rightarrow> True | Some (StatusError _) \<Rightarrow> True | _ \<Rightarrow> False)"

definition dispatch_turn :: "turn_env \<Rightarrow> gostring set \<times> consent_client \<Rightarrow> turn_end \<times> gostring set \<times> consent_client" where
  "dispatch_turn env state =
     (let (handed, c) = state
      in case choose_receipt (en_now env) (en_lock_free env) c of
           None \<Rightarrow> (Return True False, handed, c)
         | Some r \<Rightarrow>
             let handed = (if answered env then insert (IdempotencyKey r) handed else handed); (e, c) = settle_receipt env r c
             in (e, handed, c))"

fun dispatch_loop :: "turn_env list \<Rightarrow> gostring set \<times> consent_client \<Rightarrow> (bool \<times> bool) option \<times> gostring set \<times> consent_client" where
  "dispatch_loop [] state = (None, state)"
| "dispatch_loop (env # envs) state =
     (case dispatch_turn env state of
        (Again, state) \<Rightarrow> dispatch_loop envs state
      | (Return drained wake, state) \<Rightarrow> (Some (drained, wake), state))"

section \<open>A dispatch\<close>

text \<open>The outcome of the claim: a dispatch in progress refuses it, or a joining caller waits for it under \<open>waiter\<close>.
  The result is the set of receipts the server answered and whether the dispatch drained; nothing when the claim
  did not succeed or the turns given ran out.\<close>

record dispatch_env =
  de_mint_lock :: bool
  de_minted :: "gostring option"
  de_record_lock :: bool
  de_start :: nanos
  de_turns :: "turn_env list"

definition prepare_dispatch :: "dispatch_env \<Rightarrow> consent_client \<Rightarrow> consent_client" where
  "prepare_dispatch env c =
     snd (retryOwedConsentRecord (de_record_lock env) (retryOutbox (retryOwedConsentMint (de_mint_lock env) (de_minted env) c)))"

definition run_claimed :: "dispatch_env \<Rightarrow> consent_client \<Rightarrow> (gostring set \<times> bool) option \<times> consent_client" where
  "run_claimed env c =
     (let (_, c) = with_outbox (consumeElapsedDeferral (de_start env)) c;
          (ended, handed, c) = dispatch_loop (de_turns env) ({}, c)
      in case ended of
           None \<Rightarrow> (None, c)
         | Some (drained, wake) \<Rightarrow>
             let ((missed, _), c) = with_outbox releaseDispatch c
             in (Some (handed, drained), if missed \<or> wake then wakeConsentDispatch c else c))"

definition dispatchConsentReceiptsFrom :: "dispatch_env \<Rightarrow> nat option \<Rightarrow> bool \<Rightarrow> consent_client \<Rightarrow> (gostring set \<times> bool) option \<times> consent_client" where
  "dispatchConsentReceiptsFrom env join byWorker c =
     (if \<not> cl_floor c then (Some ({}, True), c)
      else let c = prepare_dispatch env c;
               (claimed, c) = with_outbox (case join of Some waiter \<Rightarrow> claimDispatchWait waiter | None \<Rightarrow> claimDispatch byWorker) c
        in if \<not> claimed then ((case join of Some _ \<Rightarrow> None | None \<Rightarrow> Some ({}, False)), c) else run_claimed env c)"

text \<open>The gate of event delivery: closed while a grant waits for its receipt.\<close>

definition grantReceiptGateArmed :: "gostring set \<Rightarrow> consent_client \<Rightarrow> bool" where
  "grantReceiptGateArmed handed c \<longleftrightarrow>
     (if \<not> cl_floor c then False
      else consentGrantArming c > 0 \<or> (case consentMintOwed c of None \<Rightarrow> False | Some m \<Rightarrow> om_analyticsGranted m) \<or>
           grantPendingDispatch handed (in_scope c) (cl_outbox c))"

datatype close_verdict = CloseOk | ConsentPending

definition consentOutboxCloseVerdict :: "consent_client \<Rightarrow> close_verdict" where
  "consentOutboxCloseVerdict c =
     (if consentMintOwed c \<noteq> None then ConsentPending
      else
        let unproven = (case consentRecordOwed c of
                          None \<Rightarrow> False
                        | Some (decision, _) \<Rightarrow>
                            if decision = DecisionGranted then True
                            else (case latestMatching (in_scope c) (cl_outbox c) of
                                    None \<Rightarrow> True
                                  | Some proof \<Rightarrow> analyticsGranted proof \<or> \<not> snd (pendingDurability (cl_outbox c))))
        in if unproven then ConsentPending
           else let (pending, safelyOnDisk) = pendingDurability (cl_outbox c)
             in if \<not> pending \<or> safelyOnDisk then CloseOk else ConsentPending)"

section \<open>One decision\<close>

datatype consent_error = ConsentShutdown | InvalidDecision | InvalidNotice | InvalidIdentity | ForcedMinor | SpoolPurgeFailed

definition decision_state :: "gostring \<Rightarrow> ConsentState option" where
  "decision_state d =
     (if d = DecisionGranted then Some ConsentGranted else if d = DecisionDenied then Some ConsentDenied
      else if d = DecisionDeniedForcedMinor then Some ConsentDeniedForcedMinor else None)"

definition warn :: "gostring \<Rightarrow> gostring list \<Rightarrow> gostring list" where
  "warn code warnings = (if code \<in> set warnings then warnings else warnings @ [code])"

definition warn_if :: "bool \<Rightarrow> gostring \<Rightarrow> gostring list \<Rightarrow> gostring list" where
  "warn_if b code warnings = (if b then warn code warnings else warnings)"

text \<open>The fast half: every refusal, then the denial in memory.  The result names the warnings so far; \<open>None\<close> ends the
  decision there (a denial of a forced minor).  Purging the event queue and the experiments is not part of
  this state.\<close>

definition begin_decision :: "bool \<Rightarrow> gostring \<Rightarrow> ConsentNotice list \<Rightarrow> consent_client
    \<Rightarrow> (consent_error + gostring list \<times> ConsentNotice \<times> bool \<times> bool) \<times> consent_client" where
  "begin_decision closed decision notices c =
     (if closed then (Inl ConsentShutdown, c)
      else case decision_state decision of
        None \<Rightarrow> (Inl InvalidDecision, c)
      | Some state \<Rightarrow>
          let (notice, validNotice) = snapshotConsentNotice notices;
              (actor, refused) = configured_actor (cl_cfg c);
              invalidActor = (refused \<or> \<not> validateConsentFloorIdentity (cl_cfg c));
              granted = (decision = DecisionGranted);
              warnings = warn_if invalidActor ''consent_actor_invalid'' (warn_if (\<not> validNotice) ''consent_notice_invalid'' [])
          in if \<not> validNotice \<and> granted then (Inl InvalidNotice, c)
             else if invalidActor \<and> granted then (Inl InvalidIdentity, c)
             else if consent c = ConsentDeniedForcedMinor \<and> granted then (Inl ForcedMinor, c)
             else if consent c = ConsentDeniedForcedMinor \<and> decision = DecisionDenied then (Inr (warnings, notice, invalidActor, False), c)
             else if granted then
               (Inr (warnings, notice, invalidActor, True), if cl_floor c then c\<lparr>consentGrantArming := consentGrantArming c + 1\<rparr> else c)
             else (Inr (warnings, notice, invalidActor, True), c\<lparr>consent := state, consentEpoch := consentEpoch c + 1\<rparr>))"

definition mint_for :: "bool \<Rightarrow> gostring option \<Rightarrow> bool \<Rightarrow> gostring \<Rightarrow> gostring \<Rightarrow> ConsentNotice \<Rightarrow> consent_client \<Rightarrow> mint_result" where
  "mint_for invalidActor minted granted reason stamp notice c =
     (if invalidActor then NotMinted else mintConsentReceipt minted granted reason stamp notice (cl_cfg c))"

definition apply_record :: "gostring \<Rightarrow> gostring \<Rightarrow> gostring list \<Rightarrow> consent_client \<Rightarrow> (gostring list \<times> bool) \<times> consent_client" where
  "apply_record decision stamp warnings c =
     (let ((_, persisted, purged), c) = applySpoolConsent decision stamp c
      in ((warn_if (\<not> purged) ''spool_purge_failed'' (warn_if (\<not> persisted) ''consent_persist_failed'' warnings), persisted), c))"

text \<open>A grant on the floor: the receipt first, then the record, which waits for a receipt that is not durable.\<close>

definition floor_grant :: "gostring \<Rightarrow> mint_result \<Rightarrow> ConsentNotice \<Rightarrow> gostring list \<Rightarrow> consent_client \<Rightarrow> gostring list \<times> consent_client" where
  "floor_grant stamp minted notice warnings c =
     (let (safe, warnings, c) =
        (case minted of
           MintFailed \<Rightarrow>
             (False, warn ''consent_outbox_persist_failed'' warnings,
              setLastConsentError ''consent_receipt_mint_failed''
                (c\<lparr>consentMintOwed := Some \<lparr>om_notice = notice, om_decision = DecisionGranted, om_analyticsGranted = True, om_reason = [], om_decidedAt = stamp\<rparr>\<rparr>))
         | Minted receipt \<Rightarrow>
             let (failed, c) = appendReceipt receipt (c\<lparr>consentMintOwed := None\<rparr>)
             in (\<not> failed, warn_if failed ''consent_outbox_persist_failed'' warnings, wakeConsentDispatch c)
         | NotMinted \<Rightarrow> (True, warnings, c\<lparr>consentMintOwed := None\<rparr>));
          key = (case minted of Minted receipt \<Rightarrow> Some (IdempotencyKey receipt) | _ \<Rightarrow> None)
      in if safe then
           (let ((warnings, persisted), c) = apply_record DecisionGranted stamp warnings c;
                c = setConsentRecordOwed DecisionGranted stamp persisted c
            in (warnings, case key of Some k \<Rightarrow> (if persisted then c else markOwed k c) | None \<Rightarrow> c))
         else
           (let c = setConsentRecordOwed DecisionGranted stamp False c
            in (warn ''consent_persist_failed'' warnings, case key of Some k \<Rightarrow> markOwed k c | None \<Rightarrow> c)))"

text \<open>A denial on the floor: the record first, then the receipt.\<close>

definition floor_deny :: "gostring \<Rightarrow> gostring \<Rightarrow> gostring \<Rightarrow> mint_result \<Rightarrow> ConsentNotice \<Rightarrow> gostring list \<Rightarrow> consent_client \<Rightarrow> gostring list \<times> consent_client" where
  "floor_deny decision reason stamp minted notice warnings c =
     (let ((warnings, persisted), c) = apply_record decision stamp warnings c;
          c = setConsentRecordOwed decision stamp persisted c
      in case minted of
           MintFailed \<Rightarrow>
             (warn ''consent_outbox_persist_failed'' warnings,
              setLastConsentError ''consent_receipt_mint_failed''
                (c\<lparr>consentMintOwed := Some \<lparr>om_notice = notice, om_decision = decision, om_analyticsGranted = False, om_reason = reason, om_decidedAt = stamp\<rparr>\<rparr>))
         | Minted receipt \<Rightarrow>
             let (failed, c) = appendReceipt receipt (c\<lparr>consentMintOwed := None\<rparr>);
                 c = (if persisted then c else markOwed (IdempotencyKey receipt) c)
             in (warn_if failed ''consent_outbox_persist_failed'' warnings, wakeConsentDispatch c)
         | NotMinted \<Rightarrow> (warnings, c\<lparr>consentMintOwed := None\<rparr>))"

text \<open>The end of a decision's turn: a grant's arming ends and the worker is woken.\<close>

definition finish_decision :: "bool \<Rightarrow> consent_client \<Rightarrow> consent_client" where
  "finish_decision arming c = (if arming then wakeConsentDispatch (c\<lparr>consentGrantArming := consentGrantArming c - 1\<rparr>) else c)"

text \<open>Without the floor the record is written and the decision queued for the consent sender, a channel of
  \<open>consentSendBuffer\<close> requests that drops its oldest when full.\<close>

definition consentSendBuffer :: nat where "consentSendBuffer = 16"

fun enqueueConsentPublish :: "consentRequest \<Rightarrow> consentRequest list \<Rightarrow> consentRequest list" where
  "enqueueConsentPublish q sends = (if length sends < consentSendBuffer then sends @ [q] else tl sends @ [q])"

definition plain_decision :: "gostring \<Rightarrow> gostring \<Rightarrow> nanos \<Rightarrow> gostring option \<Rightarrow> ConsentNotice \<Rightarrow> bool \<Rightarrow> gostring list \<Rightarrow> consent_client
    \<Rightarrow> gostring list \<times> consent_client" where
  "plain_decision decision stamp now minted notice invalidActor warnings c =
     (let ((warnings, _), c) = apply_record decision stamp warnings c; (actor, _) = configured_actor (cl_cfg c)
      in if actor_identifier actor = [] \<or> invalidActor then (warnings, c)
         else case minted of
           None \<Rightarrow> (warn ''consent_outbox_persist_failed'' warnings, c)
         | Some key \<Rightarrow>
             let q = \<lparr>cq_notice = notice, cq_WorkspaceID = cfg_WorkspaceKey (cl_cfg c), cq_AppID = cfg_AppKey (cl_cfg c),
                   cq_EnvironmentID = cfg_EnvironmentKey (cl_cfg c), cq_ActorIdentifier = actor_identifier actor, cq_Kind = kind actor,
                   cq_analytics = (decision = DecisionGranted), cq_DecidedAt = format_rfc3339 now, cq_IdempotencyKey = key,
                   cq_Reason = (if decision = DecisionDeniedForcedMinor then consentDecisionReason else [])\<rparr>
             in (warnings, c\<lparr>consentSends := enqueueConsentPublish q (consentSends c)\<rparr>))"

text \<open>The slow half, in the order of the tickets.  \<open>epoch\<close> is the epoch the decision began in: a grant overtaken by
  a denial is recorded but does not reopen the client.\<close>

definition settle_wipe :: "consent_client \<Rightarrow> bool \<times> consent_client" where
  "settle_wipe c =
     (case cl_spool c of None \<Rightarrow> (True, c) | Some s \<Rightarrow> let (ok, s) = settleOwedWipeLocked s in (ok, c\<lparr>cl_spool := Some s\<rparr>))"

definition record_decision :: "nanos \<Rightarrow> gostring option \<Rightarrow> gostring \<Rightarrow> gostring list \<Rightarrow> ConsentNotice \<Rightarrow> bool \<Rightarrow> consent_client
    \<Rightarrow> gostring list \<times> consent_client" where
  "record_decision now minted decision warnings notice invalidActor c =
     (let reason = (if decision = DecisionDeniedForcedMinor then consentDecisionReason else []);
          granted = (decision = DecisionGranted); (stamp, c) = consentDecisionStamp now c
      in if \<not> cl_floor c then plain_decision decision stamp now minted notice invalidActor warnings c
         else let m = mint_for invalidActor minted granted reason stamp notice c
           in if granted then floor_grant stamp m notice warnings c else floor_deny decision reason stamp m notice warnings c)"

definition slow_decision :: "nanos \<Rightarrow> gostring option \<Rightarrow> gostring \<Rightarrow> nat \<Rightarrow> gostring list \<Rightarrow> ConsentNotice \<Rightarrow> bool
    \<Rightarrow> consent_client \<Rightarrow> (consent_error + gostring list) \<times> consent_client" where
  "slow_decision now minted decision epoch warnings notice invalidActor c =
     (let granted = (decision = DecisionGranted); arming = (granted \<and> cl_floor c);
          (wiped, c) = (if granted then settle_wipe c else (True, c))
      in if \<not> wiped then (Inl SpoolPurgeFailed, finish_decision arming c)
         else
           let c = (if granted \<and> consentEpoch c = epoch then c\<lparr>consent := ConsentGranted\<rparr> else c);
               (warnings, c) = record_decision now minted decision warnings notice invalidActor c
           in (Inr warnings, finish_decision arming c))"

definition applyConsentDecision :: "bool \<Rightarrow> nanos \<Rightarrow> gostring option \<Rightarrow> gostring \<Rightarrow> ConsentNotice list
    \<Rightarrow> consent_client \<Rightarrow> (consent_error + gostring list) \<times> consent_client" where
  "applyConsentDecision closed now minted decision notices c =
     (let epoch = consentEpoch c; (res, c) = begin_decision closed decision notices c
      in case res of
           Inl err \<Rightarrow> (Inl err, c)
         | Inr (warnings, notice, invalidActor, go) \<Rightarrow>
             if \<not> go then (Inr warnings, c) else slow_decision now minted decision epoch warnings notice invalidActor c)"

definition SetConsent :: "bool \<Rightarrow> nanos \<Rightarrow> gostring option \<Rightarrow> bool \<Rightarrow> ConsentNotice list
    \<Rightarrow> consent_client \<Rightarrow> (consent_error + gostring list) \<times> consent_client" where
  "SetConsent closed now minted granted notices c =
     applyConsentDecision closed now minted (if granted then DecisionGranted else DecisionDenied) notices c"

end
