(* ===== verification/Consent_Guarantees.thy ===== *)
theory Consent_Guarantees
  imports Consent_Dispatch
begin

text \<open>
  What the consent side of the client guarantees: a forced minor is final, a denial holds at once, a granted
  record never precedes its receipt, no grant is sent past a denial, a start-up is open only with proof, and a
  close that reports success leaves every decision durable.
\<close>

section \<open>What the steps leave alone\<close>

lemma setLast_consent [simp]:
  "consent (setLastError e c) = consent c" "consent (setLastConsentError e c) = consent c"
  "cl_record (setLastError e c) = cl_record c" "cl_record (setLastConsentError e c) = cl_record c"
  "cl_outbox (setLastError e c) = cl_outbox c" "cl_outbox (setLastConsentError e c) = cl_outbox c"
  "cl_floor (setLastError e c) = cl_floor c" "cl_floor (setLastConsentError e c) = cl_floor c"
  "cl_cfg (setLastError e c) = cl_cfg c" "cl_cfg (setLastConsentError e c) = cl_cfg c"
  "consentEpoch (setLastError e c) = consentEpoch c" "consentEpoch (setLastConsentError e c) = consentEpoch c"
  "cl_digest (setLastError e c) = cl_digest c" "cl_digest (setLastConsentError e c) = cl_digest c"
  by (simp_all add: setLastError_def setLastConsentError_def)

lemma small_consent [simp]:
  "consent (wakeConsentDispatch c) = consent c" "consent (recordConsentOutboxPersistFailure c) = consent c"
  "consent (drainConsentOutboxEvictions c) = consent c" "consent (setConsentRecordOwed d t p c) = consent c"
  "consent (markOwed k c) = consent c" "consent (finish_decision a c) = consent c"
  "consentEpoch (wakeConsentDispatch c) = consentEpoch c" "consentEpoch (recordConsentOutboxPersistFailure c) = consentEpoch c"
  "consentEpoch (drainConsentOutboxEvictions c) = consentEpoch c" "consentEpoch (setConsentRecordOwed d t p c) = consentEpoch c"
  "consentEpoch (markOwed k c) = consentEpoch c" "consentEpoch (finish_decision a c) = consentEpoch c"
  by (simp_all add: wakeConsentDispatch_def recordConsentOutboxPersistFailure_def drainConsentOutboxEvictions_def with_outbox_def
      setConsentRecordOwed_def markOwed_def finish_decision_def Let_def case_prod_beta)

lemma appendReceipt_consent [simp]: "consent (snd (appendReceipt r c)) = consent c" "consentEpoch (snd (appendReceipt r c)) = consentEpoch c"
  by (simp_all add: appendReceipt_def with_outbox_def Let_def case_prod_beta)

lemma save_decision_consent [simp]: "consent (snd (save_decision d t c)) = consent c" "consentEpoch (snd (save_decision d t c)) = consentEpoch c"
  by (simp_all add: save_decision_def case_prod_beta)

lemma purge_after_consent [simp]: "consent (snd (purge_after x p s c)) = consent c" "consentEpoch (snd (purge_after x p s c)) = consentEpoch c"
  by (simp_all add: purge_after_def Let_def case_prod_beta)

lemma applySpoolConsent_consent [simp]:
  "consent (snd (applySpoolConsent d t c)) = consent c" "consentEpoch (snd (applySpoolConsent d t c)) = consentEpoch c"
  by (auto simp: applySpoolConsent_def deny_on_disk_def grant_on_disk_def Let_def case_prod_beta split: option.split)

lemma apply_record_consent [simp]:
  "consent (snd (apply_record d t w c)) = consent c" "consentEpoch (snd (apply_record d t w c)) = consentEpoch c"
  by (simp_all add: apply_record_def Let_def case_prod_beta)

lemma floor_grant_consent [simp]:
  "consent (snd (floor_grant t m n w c)) = consent c \<and> consentEpoch (snd (floor_grant t m n w c)) = consentEpoch c"
  using apply_record_consent appendReceipt_consent
  by (auto simp: floor_grant_def Let_def case_prod_beta split: mint_result.splits option.splits)

lemma floor_deny_consent [simp]:
  "consent (snd (floor_deny d r t m n w c)) = consent c \<and> consentEpoch (snd (floor_deny d r t m n w c)) = consentEpoch c"
  using apply_record_consent appendReceipt_consent
  by (auto simp: floor_deny_def Let_def case_prod_beta split: mint_result.splits option.splits)

lemma plain_decision_consent [simp]:
  "consent (snd (plain_decision d t now m n i w c)) = consent c \<and> consentEpoch (snd (plain_decision d t now m n i w c)) = consentEpoch c"
  using apply_record_consent by (auto simp: plain_decision_def Let_def case_prod_beta split: option.splits)

lemma record_decision_consent:
  "consent (snd (record_decision now m d w n i c)) = consent c \<and> consentEpoch (snd (record_decision now m d w n i c)) = consentEpoch c"
proof -
  obtain stamp c1 where c1: "consentDecisionStamp now c = (stamp, c1)" "consent c1 = consent c" "consentEpoch c1 = consentEpoch c"
    by (cases "consentDecisionStamp now c") (auto simp: consentDecisionStamp_def Let_def)
  then show ?thesis
    using floor_grant_consent floor_deny_consent plain_decision_consent by (auto simp: record_decision_def Let_def)
qed

section \<open>Decisions\<close>

lemma decision_neq: "DecisionDenied \<noteq> DecisionGranted" "DecisionDeniedForcedMinor \<noteq> DecisionGranted" "DecisionDeniedForcedMinor \<noteq> DecisionDenied"
  by (simp_all add: decision_defs)

lemma slow_deny_consent:
  "d \<noteq> DecisionGranted \<Longrightarrow> consent (snd (slow_decision now m d e w n i c)) = consent c \<and>
     consentEpoch (snd (slow_decision now m d e w n i c)) = consentEpoch c"
  using record_decision_consent [of now m d w n i c] by (simp add: slow_decision_def Let_def case_prod_beta finish_decision_def)

text \<open>C1. A forced-minor denial is final.  Whatever the host decides afterwards, and whatever fails on the way, the
  client stays denied as a forced minor; a grant is refused with an error and an ordinary denial is
  ignored, both without any change of state.\<close>

theorem forced_minor_final:
  assumes "consent c = ConsentDeniedForcedMinor" and "applyConsentDecision closed now minted decision notices c = (res, c')"
  shows "consent c' = ConsentDeniedForcedMinor \<and> (decision \<noteq> DecisionDeniedForcedMinor \<longrightarrow> c' = c) \<and>
    (decision = DecisionGranted \<longrightarrow> (\<exists>err. res = Inl err))"
proof (cases "decision = DecisionDeniedForcedMinor \<and> \<not> closed")
  case True
  then have "consent (snd (applyConsentDecision closed now minted decision notices c)) = ConsentDeniedForcedMinor"
    using slow_deny_consent decision_neq(2,3)
    by (auto simp: applyConsentDecision_def begin_decision_def decision_state_def Let_def case_prod_beta)
  then show ?thesis using True assms(2) decision_neq(2) by auto
next
  case False
  then show ?thesis using assms decision_neq
    by (auto simp: applyConsentDecision_def begin_decision_def decision_state_def Let_def case_prod_beta split: if_splits)
qed

text \<open>C7. A denial holds at once: a client that is not closed is denied when the decision returns, its epoch has
  moved so that no grant begun before can reopen it, and this holds whatever the files, the identity and the
  notice do; a grant begun in an earlier epoch leaves the client denied.\<close>

theorem denial_holds:
  assumes "decision = DecisionDenied \<or> decision = DecisionDeniedForcedMinor" and "consent c \<noteq> ConsentDeniedForcedMinor"
    and "applyConsentDecision False now minted decision notices c = (res, c')"
  shows "(\<exists>warnings. res = Inr warnings) \<and> decision_state decision = Some (consent c') \<and> consentDenied c' \<and> consentEpoch c' = consentEpoch c + 1 \<and>
    (epoch \<le> consentEpoch c \<longrightarrow> consent (snd (slow_decision now' minted' DecisionGranted epoch warnings' notice invalid c')) = consent c')"
proof -
  obtain st where st: "decision_state decision = Some st" "st = ConsentDenied \<or> st = ConsentDeniedForcedMinor" "decision \<noteq> DecisionGranted"
    using assms(1) decision_neq by (auto simp: decision_state_def)
  have ns: "\<not> (decision = DecisionGranted)" by (rule st(3))
  obtain w n i where b: "begin_decision False decision notices c = (Inr (w, n, i, True), c\<lparr>consent := st, consentEpoch := consentEpoch c + 1\<rparr>)"
    using st assms(2) by (auto simp: begin_decision_def Let_def case_prod_beta)
  let ?c = "c\<lparr>consent := st, consentEpoch := consentEpoch c + 1\<rparr>"
  have "applyConsentDecision False now minted decision notices c = slow_decision now minted decision (consentEpoch c) w n i ?c"
    by (simp add: applyConsentDecision_def b)
  then have r: "slow_decision now minted decision (consentEpoch c) w n i ?c = (res, c')" using assms(3) by simp
  have c': "consent c' = st" "consentEpoch c' = consentEpoch c + 1" using slow_deny_consent [OF ns, of now minted "consentEpoch c" w n i ?c] r by simp_all
  have "\<exists>warnings. res = Inr warnings" using r ns by (auto simp: slow_decision_def Let_def case_prod_beta)
  moreover have "consent (snd (slow_decision now' minted' DecisionGranted epoch warnings' notice invalid c')) = consent c'" if "epoch \<le> consentEpoch c"
  proof -
    have "consent (snd (settle_wipe c')) = consent c'" "consentEpoch (snd (settle_wipe c')) = consentEpoch c'"
      by (auto simp: settle_wipe_def split: option.splits prod.splits)
    then show ?thesis using that c'(2) record_decision_consent by (simp add: slow_decision_def Let_def case_prod_beta)
  qed
  ultimately show ?thesis using st c' by (auto simp: consentDenied_def)
qed

section \<open>The order of delivery\<close>

lemma find_rev_filter: "List.find p (rev xs) = (if filter p xs = [] then None else Some (last (filter p xs)))"
  by (induction xs rule: rev_induct) auto

lemma find_first: "List.find p xs = Some r \<Longrightarrow> \<exists>older newer. xs = older @ r # newer \<and> p r \<and> (\<forall>e \<in> set older. \<not> p e)"
proof (induction xs)
  case (Cons x xs)
  show ?case
  proof (cases "p x")
    case True
    then show ?thesis using Cons.prems by (intro exI [of _ "[]"] exI [of _ xs]) simp
  next
    case False
    then obtain older newer where "xs = older @ r # newer \<and> p r \<and> (\<forall>e \<in> set older. \<not> p e)" using Cons by auto
    then show ?thesis using False by (intro exI [of _ "x # older"] exI [of _ newer]) simp
  qed
qed simp

text \<open>The entries after a receipt are those the trail holds behind it, as no key is held twice.\<close>

lemma after_grant_split:
  assumes "distinct (map IdempotencyKey (older @ r # newer))"
  shows "after_grant r (older @ r # newer) = newer"
proof -
  have "IdempotencyKey e \<noteq> IdempotencyKey r" if "e \<in> set older \<union> set newer" for e using assms that by (auto simp: image_iff)
  then have "dropWhile (\<lambda>e. IdempotencyKey e \<noteq> IdempotencyKey r) (older @ r # newer) = r # newer"
    "filter (\<lambda>e. IdempotencyKey e \<noteq> IdempotencyKey r) newer = newer"
    by (simp_all add: dropWhile_append2 filter_id_conv)
  then show ?thesis by (simp add: after_grant_def)
qed

lemma next_split:
  assumes "nextDispatchable p ob = Some r"
  shows "\<exists>older newer. receipts ob = older @ r # newer \<and> p r \<and>
    (\<forall>e \<in> set older. p e \<longrightarrow> analyticsGranted e \<and> durable ob \<and> (lastRead ob = OutboxUnusable \<or> grantsUnprovable ob)) \<and>
    (analyticsGranted r \<longrightarrow> \<not> (durable ob \<and> (lastRead ob = OutboxUnusable \<or> grantsUnprovable ob)))"
  using find_first [OF assms [unfolded nextDispatchable_def Let_def]] by blast

text \<open>A grant that may leave: what the guards say, in terms of the receipts behind it.\<close>

lemma released_grant:
  assumes "\<not> held_back lock_free c r" and "analyticsGranted r" and "receipts (cl_outbox c) = older @ r # newer"
    and "distinct (map IdempotencyKey (receipts (cl_outbox c)))" and "in_scope c r"
  shows "(\<forall>e \<in> set newer. in_scope c e \<and> \<not> analyticsGranted e \<longrightarrow> IdempotencyKey e \<notin> recordOwedKeys (cl_outbox c))"
    and "consentRecordOwed c = Some (d, at) \<Longrightarrow> d \<noteq> DecisionGranted \<and> (\<exists>g. filter (in_scope c) newer \<noteq> [] \<and> last (filter (in_scope c) newer) = g \<and> analyticsGranted g)"
    and "consentDenied c \<Longrightarrow> \<exists>e \<in> set newer. in_scope c e \<and> \<not> analyticsGranted e"
    and "consentMintOwed c = Some m \<Longrightarrow> om_decision m = DecisionGranted"
    and "\<not> ob_dirty (cl_outbox c) \<and> consentGrantArming c = 0 \<and> IdempotencyKey r \<notin> recordOwedKeys (cl_outbox c)"
proof -
  have a: "after_grant r (ob_snapshot (cl_outbox c)) = newer"
    using after_grant_split assms(3,4) by (simp add: ob_snapshot_def)
  have h: "\<not> newerInScopeDenialHeld c r" "\<not> consentDenyProofHeld c r" "\<not> consentGrantPairIncomplete c" "\<not> denial_mint_owed c"
    "consentDenied c \<longrightarrow> newerInScopeDenialInTrail c r" "\<not> recordOwedFor (IdempotencyKey r) (cl_outbox c)"
    using assms(1,2) by (auto simp: held_back_def split: if_splits)
  show "\<forall>e \<in> set newer. in_scope c e \<and> \<not> analyticsGranted e \<longrightarrow> IdempotencyKey e \<notin> recordOwedKeys (cl_outbox c)"
    using h(1) by (auto simp: newerInScopeDenialHeld_def a recordOwedFor_def list_ex_iff)
  show "\<exists>e \<in> set newer. in_scope c e \<and> \<not> analyticsGranted e" if "consentDenied c"
    using h(5) that by (auto simp: newerInScopeDenialInTrail_def a list_ex_iff)
  show "om_decision m = DecisionGranted" if "consentMintOwed c = Some m" using h(4) that by (simp add: denial_mint_owed_def)
  show "\<not> ob_dirty (cl_outbox c) \<and> consentGrantArming c = 0 \<and> IdempotencyKey r \<notin> recordOwedKeys (cl_outbox c)"
    using h(3,6) by (simp add: consentGrantPairIncomplete_def writeOwed_def recordOwedFor_def)
  show "d \<noteq> DecisionGranted \<and> (\<exists>g. filter (in_scope c) newer \<noteq> [] \<and> last (filter (in_scope c) newer) = g \<and> analyticsGranted g)"
    if o: "consentRecordOwed c = Some (d, at)"
  proof -
    have nd: "d \<noteq> DecisionGranted" using h(3) o by (simp add: consentGrantPairIncomplete_def)
    have lm: "latestMatching (in_scope c) (cl_outbox c) = Some (last (filter (in_scope c) (r # newer)))"
      unfolding latestMatching_def find_rev_filter using assms(3,5) by simp
    have proof_of: "consentDenyProofHeld c x \<longleftrightarrow> IdempotencyKey (last (filter (in_scope c) (r # newer))) = IdempotencyKey x" for x
      using nd o by (simp add: consentDenyProofHeld_def lm)
    have ne: "filter (in_scope c) newer \<noteq> []"
    proof
      assume e: "filter (in_scope c) newer = []"
      have "last (filter (in_scope c) (r # newer)) = r" using assms(5) e by simp
      then show False using h(2) proof_of [of r] by simp
    qed
    let ?g = "last (filter (in_scope c) newer)"
    have l: "last (filter (in_scope c) (r # newer)) = ?g" using ne assms(5) by simp
    have "?g \<in> set newer \<and> in_scope c ?g" using last_in_set [OF ne] by simp
    then have "analyticsGranted ?g" using h(1) proof_of [of ?g] l by (auto simp: newerInScopeDenialHeld_def a list_ex_iff)
    then show ?thesis using nd ne by blast
  qed
qed


section \<open>A grant's record and its receipt\<close>

lemma append_keeps_record: "cl_record (snd (appendReceipt r c)) = cl_record c"
  by (simp add: appendReceipt_def with_outbox_def drainConsentOutboxEvictions_def recordConsentOutboxPersistFailure_def Let_def case_prod_beta)

lemma append_outbox:
  "appendReceipt r c = (failed, c') \<Longrightarrow> \<exists>ob. ob_append r (cl_outbox c) = (failed, ob) \<and> ob_file (cl_outbox c') = ob_file ob \<and>
     receipts (cl_outbox c') = receipts ob"
  by (auto simp: appendReceipt_def with_outbox_def drainConsentOutboxEvictions_def recordConsentOutboxPersistFailure_def takeEvicted_def
      Let_def case_prod_beta prod_eq_iff)

lemma same_outbox_file:
  "ob_file (cl_outbox (wakeConsentDispatch c)) = ob_file (cl_outbox c)" "ob_file (cl_outbox (markOwed k c)) = ob_file (cl_outbox c)"
  "ob_file (cl_outbox (setConsentRecordOwed d t p c)) = ob_file (cl_outbox c)"
  "cl_record (wakeConsentDispatch c) = cl_record c" "cl_record (markOwed k c) = cl_record c" "cl_record (setConsentRecordOwed d t p c) = cl_record c"
  by (simp_all add: wakeConsentDispatch_def markOwed_def markRecordOwed_def setConsentRecordOwed_def clearRecordOwedMarks_def Let_def)

lemma apply_record_outbox: "cl_outbox (snd (apply_record d t w c)) = cl_outbox c"
proof -
  have "cl_outbox (snd (save_decision d t c)) = cl_outbox c" for d t and c :: consent_client by (simp add: save_decision_def case_prod_beta)
  then have "cl_outbox (snd (applySpoolConsent d t c)) = cl_outbox c"
    by (auto simp: applySpoolConsent_def deny_on_disk_def grant_on_disk_def purge_after_def Let_def case_prod_beta split: option.split)
  then show ?thesis by (simp add: apply_record_def Let_def case_prod_beta)
qed

text \<open>C3. On the floor the record of a grant never precedes its receipt.  If applying a grant changes the decision
  record on disk, the outbox file already ends with the grant's receipt; a receipt that could not be minted or
  not be written leaves the record as it was.\<close>

theorem granted_record_follows_receipt:
  assumes "started own dir f acts (cl_outbox c)" and "durable (cl_outbox c)" and "allowed (Append r) (cl_outbox c)"
    and "sanitizeConsentReceipt r = Some r'" and "IdempotencyKey r \<notin> IdempotencyKey ` set (on_file (cl_outbox c))"
  shows "(pf_data (cl_record (snd (floor_grant stamp (Minted r) notice w c))) \<noteq> pf_data (cl_record c) \<longrightarrow>
      (\<exists>rs. pf_data (ob_file (cl_outbox (snd (floor_grant stamp (Minted r) notice w c)))) = Some (marshal_outbox rs) \<and> rs \<noteq> [] \<and> last rs = r')) \<and>
    cl_record (snd (floor_grant stamp MintFailed notice w c)) = cl_record c"
proof -
  let ?c = "c\<lparr>consentMintOwed := None\<rparr>"
  obtain failed c1 where a: "appendReceipt r ?c = (failed, c1)" by (metis surj_pair)
  obtain ob where ob: "ob_append r (cl_outbox c) = (failed, ob)" "ob_file (cl_outbox c1) = ob_file ob"
    using append_outbox [OF a] by auto
  have rec: "cl_record c1 = cl_record c" using append_keeps_record [of r ?c] a by simp
  have fails: "cl_record (snd (floor_grant stamp (Minted r) notice w c)) = cl_record c" if failed
    using that by (simp add: floor_grant_def a rec same_outbox_file Let_def)
  have succeeds: "\<exists>rs. pf_data (ob_file (cl_outbox (snd (floor_grant stamp (Minted r) notice w c)))) = Some (marshal_outbox rs) \<and> rs \<noteq> [] \<and> last rs = r'"
    if "\<not> failed"
  proof -
    have "ob_file (cl_outbox (snd (floor_grant stamp (Minted r) notice w c))) = ob_file (cl_outbox c1)"
      using that by (simp add: floor_grant_def a same_outbox_file apply_record_outbox Let_def case_prod_beta)
    moreover have "pf_data (ob_file ob) = Some (marshal_outbox (receipts ob)) \<and> receipts ob \<noteq> [] \<and> last (receipts ob) = r'"
      using append_all [OF assms ob(1)] that by simp
    ultimately show ?thesis using ob(2) by auto
  qed
  have "cl_record (snd (floor_grant stamp MintFailed notice w c)) = cl_record c"
    by (simp add: floor_grant_def same_outbox_file)
  then show ?thesis using fails succeeds by (cases failed) auto
qed

section \<open>Stamps\<close>

text \<open>C18. The stamps of a client's decisions only move forward: whatever the clock says, a new stamp is a time that
  parses, is later than the stamp before it and supersedes it, as long as the years have four digits.\<close>

theorem stamps_increase:
  assumes "parse_rfc3339 (lastConsentStamp c) = Some prior" and "four_digit_year (max now (prior + 1))"
    and "consentDecisionStamp now c = (stamp, c')"
  shows "\<exists>at. parse_rfc3339 stamp = Some at \<and> now \<le> at \<and> prior < at \<and> lastConsentStamp c' = stamp \<and>
    consentDecisionSupersedes stamp (lastConsentStamp c)"
proof -
  have ne: "lastConsentStamp c \<noteq> []" using assms(1) by auto
  have "(if prior < now then now else prior + 1) = max now (prior + 1)" by auto
  then have st: "stamp = format_rfc3339_nano (max now (prior + 1))" "lastConsentStamp c' = stamp"
    using assms(1,3) ne by (auto simp: consentDecisionStamp_def Let_def)
  then have p: "parse_rfc3339 stamp = Some (max now (prior + 1))" using parse_format_nano [OF assms(2)] by simp
  then have "stamp \<noteq> []" by auto
  then show ?thesis using p st(2) assms(1) ne by (auto simp: consentDecisionSupersedes_def after_stamp_def)
qed

section \<open>Closing\<close>

text \<open>C17. A close that reports success loses no decision.  Nothing is left to mint, no record of a grant is left to
  write, and a record of a denial that is owed is proved by the newest receipt of its scope, itself a denial.  A
  receipt not yet delivered is never only in memory: a client without a directory has none, and while no other
  process writes the file the next start that can read it finds every one of them, in their order.\<close>

theorem close_ok_durable:
  assumes "started own dir f acts (cl_outbox c)" and "list_all (\<lambda>act. \<not> foreign_write act) acts" and "ob_dir (cl_outbox c) = dir"
    and "consentOutboxCloseVerdict c = CloseOk"
  shows "consentMintOwed c = None \<and>
    (\<forall>d at. consentRecordOwed c = Some (d, at) \<longrightarrow> d \<noteq> DecisionGranted \<and> dir \<noteq> [] \<and>
       (\<exists>older proof_receipt newer. receipts (cl_outbox c) = older @ proof_receipt # newer \<and> in_scope c proof_receipt \<and>
          \<not> analyticsGranted proof_receipt \<and> (\<forall>e \<in> set newer. \<not> in_scope c e))) \<and>
    (dir = [] \<longrightarrow> receipts (cl_outbox c) = []) \<and>
    (list_all receipt_utf8 (receipts (cl_outbox c)) \<and> fst (pf_read (ob_file (cl_outbox c))) \<noteq> Unreadable \<and> receipts (cl_outbox c) \<noteq> [] \<longrightarrow>
       map forget_invalid (receipts (ob_load own' (newConsentOutbox dir (ob_file (cl_outbox c))))) = map forget_invalid (receipts (cl_outbox c)))"
proof -
  let ?ob = "cl_outbox c"
  have v: "consentMintOwed c = None" "receipts ?ob \<noteq> [] \<or> ob_dirty ?ob \<longrightarrow> durable ?ob \<and> \<not> ob_dirty ?ob"
    using assms(4) by (auto simp: consentOutboxCloseVerdict_def pendingDurability_def Let_def split: if_splits)
  have r: "d \<noteq> DecisionGranted \<and> durable ?ob \<and> (\<exists>g. latestMatching (in_scope c) ?ob = Some g \<and> \<not> analyticsGranted g)"
    if "consentRecordOwed c = Some (d, at)" for d at
    using assms(4) that by (auto simp: consentOutboxCloseVerdict_def pendingDurability_def Let_def split: if_splits option.splits)
  have split: "\<exists>older newer. receipts ?ob = older @ g # newer \<and> in_scope c g \<and> (\<forall>e \<in> set newer. \<not> in_scope c e)"
    if l: "latestMatching (in_scope c) ?ob = Some g" for g
  proof -
    obtain a b where "rev (receipts ?ob) = a @ g # b" "in_scope c g" "\<forall>e \<in> set a. \<not> in_scope c e"
      using find_first [OF l [unfolded latestMatching_def]] by blast
    then have "receipts ?ob = rev b @ g # rev a" by (simp add: rev_swap)
    then show ?thesis using \<open>in_scope c g\<close> \<open>\<forall>e \<in> set a. \<not> in_scope c e\<close> by (intro exI [of _ "rev b"] exI [of _ "rev a"]) simp
  qed
  have inv: "ob_inv ?ob" by (rule started_inv [OF assms(1)])
  have disk: "map forget_invalid (receipts (ob_load own' (newConsentOutbox dir (ob_file ?ob)))) = map forget_invalid (receipts ?ob)"
    if "list_all receipt_utf8 (receipts ?ob)" "fst (pf_read (ob_file ?ob)) \<noteq> Unreadable" "receipts ?ob \<noteq> []"
    using next_start_finds [OF started_kept [OF assms(1,2)] inv assms(3) _ _ that(1,2), of own'] v(2) that(3) assms(3) by (auto simp: durable_def)
  have "dir = [] \<longrightarrow> receipts ?ob = []" using v(2) assms(3) by (auto simp: durable_def)
  moreover have "d \<noteq> DecisionGranted \<and> dir \<noteq> [] \<and> (\<exists>older g newer. receipts ?ob = older @ g # newer \<and> in_scope c g \<and> \<not> analyticsGranted g \<and> (\<forall>e \<in> set newer. \<not> in_scope c e))"
    if o: "consentRecordOwed c = Some (d, at)" for d at
  proof -
    obtain g where "latestMatching (in_scope c) ?ob = Some g" "\<not> analyticsGranted g" "d \<noteq> DecisionGranted" "durable ?ob" using r [OF o] by blast
    then show ?thesis using split [of g] assms(3) by (auto simp: durable_def)
  qed
  ultimately show ?thesis using v(1) disk by blast
qed

section \<open>Witnesses\<close>

definition sample_cfg :: actor_config where
  "sample_cfg = \<lparr>cfg_Source = SourceServer, cfg_WorkspaceKey = ''w'', cfg_AppKey = ''a'', cfg_EnvironmentKey = ''e'', cfg_UserID = ''u1'', cfg_AnonymousID = []\<rparr>"

definition sample_client :: consent_client where
  "sample_client = \<lparr>cl_cfg = sample_cfg, cl_floor = True, cl_digest = ''d1'', consent = ConsentUnknown, consentEpoch = 0, cl_outbox = sample_ob,
     cl_record = sample_file, cl_spool = None, consentRecordOwed = None, consentMintOwed = None, consentGrantArming = 0, lastConsentStamp = sample_stamp,
     consentWake = False, consentSends = [], cl_stats = no_stats\<rparr>"

definition sample_forced :: consent_client where "sample_forced = sample_client\<lparr>consent := ConsentDeniedForcedMinor\<rparr>"
definition sample_grant :: consentReceipt where "sample_grant = sample_receipt\<lparr>Analytics := Some True\<rparr>"

lemma sample_grant_ok: "sanitizeConsentReceipt sample_grant = Some sample_grant" "IdempotencyKey sample_grant = ''k1''"
  "length (marshal_outbox [sample_grant]) \<le> consentOutboxReadLimit"
proof -
  show "sanitizeConsentReceipt sample_grant = Some sample_grant" "IdempotencyKey sample_grant = ''k1''" by code_simp+
  have "length (marshal_outbox [sample_grant]) < 400" by code_simp
  then show "length (marshal_outbox [sample_grant]) \<le> consentOutboxReadLimit" by (simp add: consentOutboxReadLimit_def)
qed

definition sample_waiting :: consent_client where
  "sample_waiting = sample_client\<lparr>cl_outbox := (newConsentOutbox ''d'' (sample_file\<lparr>pf_data := Some (marshal_outbox [sample_grant])\<rparr>))
     \<lparr>receipts := [sample_grant], ownKeys := {''k1''}\<rparr>\<rparr>"

theorem forced_minor_final_witness: "snd (applyConsentDecision False 0 None DecisionGranted [] sample_forced) = sample_forced"
proof -
  have "consent sample_forced = ConsentDeniedForcedMinor" by (simp add: sample_forced_def)
  from forced_minor_final [OF this prod.collapse [symmetric]] show ?thesis using decision_neq(2) by metis
qed

theorem denial_holds_witness: "consent (snd (applyConsentDecision False 0 None DecisionDenied [] sample_client)) = ConsentDenied"
proof -
  have "DecisionDenied = DecisionDenied \<or> DecisionDenied = DecisionDeniedForcedMinor" "consent sample_client \<noteq> ConsentDeniedForcedMinor"
    by (simp_all add: sample_client_def)
  from denial_holds [OF this prod.collapse [symmetric]] show ?thesis using decision_neq by (simp add: decision_state_def)
qed

lemma sample_chosen: "choose_receipt 0 True sample_waiting = Some sample_grant" "analyticsGranted sample_grant"
proof -
  show g: "analyticsGranted sample_grant" by (simp add: sample_grant_def analyticsGranted_def)
  have "in_scope sample_waiting sample_grant" by code_simp
  moreover have "\<not> held_back True sample_waiting sample_grant"
    by (simp add: held_back_def sample_waiting_def sample_client_def newConsentOutbox_def recordOwedFor_def denial_mint_owed_def
        newerInScopeDenialHeld_def after_grant_def ob_snapshot_def consentDenyProofHeld_def consentGrantPairIncomplete_def writeOwed_def
        consentDenied_def)
  ultimately show "choose_receipt 0 True sample_waiting = Some sample_grant"
    by (simp add: choose_receipt_def nextDispatchable_def sample_waiting_def sample_client_def newConsentOutbox_def deferralActive_def)
qed

lemma sample_waiting_started: "started (\<lambda>_. True) ''d'' sample_file [Append sample_grant] (cl_outbox sample_waiting)"
proof -
  have "allowed (Append sample_grant) sample_ob" by (simp add: allowed_def sample_ob_eq newConsentOutbox_def)
  from step [OF this] have "ob_step sample_ob (Append sample_grant) (cl_outbox sample_waiting)"
    by (simp add: append_alone sample_grant_ok sample_waiting_def)
  from reach_step [OF sample_started this] show ?thesis by simp
qed


theorem granted_record_follows_receipt_witness:
  "cl_record (snd (floor_grant sample_stamp MintFailed no_notice [] sample_client)) = sample_file"
proof -
  have ob: "cl_outbox sample_client = sample_ob" "cl_record sample_client = sample_file" by (simp_all add: sample_client_def)
  have "durable sample_ob" by (simp add: durable_def sample_ob_eq newConsentOutbox_def)
  moreover have "IdempotencyKey sample_receipt \<notin> IdempotencyKey ` set (on_file sample_ob)" by (simp add: on_file_def sample_on_file)
  ultimately show ?thesis
    using granted_record_follows_receipt [of _ _ _ _ sample_client, unfolded ob, OF sample_started _ sample_allowed sample_sanitized] by blast
qed

theorem stamps_increase_witness:
  "consentDecisionSupersedes (fst (consentDecisionStamp 0 sample_client)) (lastConsentStamp sample_client)"
proof -
  have st: "lastConsentStamp sample_client = sample_stamp" by (simp add: sample_client_def)
  have p: "parse_rfc3339 sample_stamp = Some 1714557600000000000" by code_simp
  have "four_digit_year (max 0 (1714557600000000000 + 1))" by code_simp
  from stamps_increase [OF p [folded st] this prod.collapse [symmetric]] show ?thesis by blast
qed

theorem close_ok_durable_witness: "consentMintOwed sample_client = None \<and> consentOutboxCloseVerdict sample_client = CloseOk"
proof -
  have ok: "consentOutboxCloseVerdict sample_client = CloseOk"
    by (simp add: consentOutboxCloseVerdict_def sample_client_def pendingDurability_def sample_ob_eq newConsentOutbox_def)
  have "started (\<lambda>_. True) ''d'' sample_file [] (cl_outbox sample_client)" "ob_dir (cl_outbox sample_client) = ''d''"
    by (simp_all add: sample_client_def sample_started) (simp add: sample_ob_eq newConsentOutbox_def)
  from close_ok_durable [OF this(1) _ this(2) ok] ok show ?thesis by simp
qed

end
