(* ===== verification/Consent_Startup.thy ===== *)
theory Consent_Startup
  imports Consent_Guarantees
begin

text \<open>
  What a start-up decides from the decision record and the trail of receipts, in every combination of what it
  can read of them.
\<close>

section \<open>The decision of a start-up\<close>

definition loaded_outbox :: "gostring \<Rightarrow> private_file \<Rightarrow> consent_client \<Rightarrow> consentOutbox" where
  "loaded_outbox dir f c = ob_load (in_scope c) (newConsentOutbox dir f)"

text \<open>The receipt that rules the record, if one does.\<close>

definition ruling_receipt :: "consentOutbox \<Rightarrow> consentRecordInfo \<times> bool \<times> consentRecordRead \<Rightarrow> consent_client \<Rightarrow> consentReceipt option" where
  "ruling_receipt ob record c =
     (let (info, ok, how) = record
      in case latestMatching (in_scope c) ob of
           None \<Rightarrow> None
         | Some t \<Rightarrow>
             if info_state info \<noteq> ConsentDeniedForcedMinor \<and> \<not> tailBlockedByUnusableTrail (lastRead ob) how info t \<and>
                (\<not> ok \<or> consentReceiptSupersedesRecord (rcp_DecidedAt t) info)
             then Some t else None)"

text \<open>The state a start-up ought to take.\<close>

definition start_state :: "consentOutbox \<Rightarrow> consentRecordInfo \<times> bool \<times> consentRecordRead \<Rightarrow> consent_client \<Rightarrow> ConsentState" where
  "start_state ob record c =
     (let (info, ok, how) = record
      in case ruling_receipt ob record c of
           Some t \<Rightarrow> if analyticsGranted t then ConsentGranted
                     else if rcp_Reason t = consentDecisionReason then ConsentDeniedForcedMinor else ConsentDenied
         | None \<Rightarrow>
             if \<not> ok then ConsentUnknown
             else if info_state info = ConsentGranted \<and>
               (lastRead ob = OutboxUnusable \<or> how = RecordUnusable \<or> how = RecordForeign \<or> info_unwitnessed info \<or> \<not> info_floor info)
             then ConsentUnknown else info_state info)"

lemma lastRead_marks [simp]:
  "lastRead (markRecordOwedWhere p ob) = lastRead ob" "lastRead (clearRecordOwedMarks ob) = lastRead ob"
  "lastRead (preserveEvidence ob) = lastRead ob" "lastRead (setGrantsUnprovable v ob) = lastRead ob"
  "receipts (markRecordOwedWhere p ob) = receipts ob" "receipts (clearRecordOwedMarks ob) = receipts ob"
  by (simp_all add: markRecordOwedWhere_def clearRecordOwedMarks_def preserveEvidence_def setGrantsUnprovable_def)

lemma setRecordOwed_lastRead [simp]: "lastRead (cl_outbox (setConsentRecordOwed d t p c)) = lastRead (cl_outbox c)"
  by (simp add: setConsentRecordOwed_def Let_def)

lemma heal_record_result:
  "fst (heal_record st t c) = \<lparr>st_info = no_info\<lparr>info_state := snd (tail_decision t), info_decidedAt := rcp_DecidedAt t, info_floor := True\<rparr>,
     st_ok = True, st_read = RecordParsed\<rparr>"
  "consent (snd (heal_record st t c)) = consent c" "lastRead (cl_outbox (snd (heal_record st t c))) = lastRead (cl_outbox c)"
  by (simp_all add: heal_record_def Let_def case_prod_beta)

lemma heal_from_trail_cases:
  assumes "heal_from_trail \<lparr>st_info = info, st_ok = ok, st_read = how\<rparr> c = (st, c')"
  shows "consent c' = consent c \<and> lastRead (cl_outbox c') = lastRead (cl_outbox c) \<and>
    (case ruling_receipt (cl_outbox c) (info, ok, how) c of
       None \<Rightarrow> st = \<lparr>st_info = info, st_ok = ok, st_read = how\<rparr>
     | Some t \<Rightarrow> st = \<lparr>st_info = no_info\<lparr>info_state := snd (tail_decision t), info_decidedAt := rcp_DecidedAt t, info_floor := True\<rparr>,
                  st_ok = True, st_read = RecordParsed\<rparr>)"
  using assms heal_record_result
  by (auto simp: heal_from_trail_def ruling_receipt_def prod_eq_iff split: option.splits if_splits)

lemma withhold_consent: "consent (snd (withhold st c)) = consent c"
  by (simp add: withhold_def Let_def case_prod_beta)

lemma adopt_state_consent:
  "consent (adopt_state st u m c) =
     (if \<not> st_ok st \<or> info_state (st_info st) = ConsentGranted \<and> (u \<or> \<not> info_floor (st_info st)) \<or> info_state (st_info st) = ConsentUnknown
      then consent c else info_state (st_info st))"
  by (auto simp: adopt_state_def)

lemma ruling_grant_readable:
  "ruling_receipt ob (info, ok, how) c = Some t \<Longrightarrow> analyticsGranted t \<Longrightarrow>
   lastRead ob \<noteq> OutboxUnusable \<and> how \<noteq> RecordUnusable \<and> how \<noteq> RecordForeign \<and> consentMarkSupersededBy info (rcp_DecidedAt t)"
  by (auto simp: ruling_receipt_def tailBlockedByUnusableTrail_def split: option.splits if_splits)

lemma load_decision_consent:
  assumes "consent c = ConsentUnknown"
  shows "consent (load_decision c) = start_state (cl_outbox c) (fst (loadConsentRecordRead (cl_digest c) (cl_record c))) c"
proof -
  obtain info ok how f where r: "loadConsentRecordRead (cl_digest c) (cl_record c) = ((info, ok, how), f)" by (metis prod_cases3 surj_pair)
  define c1 where "c1 = seedConsentStamp [info_decidedAt info, maxDecidedAt (cl_outbox c)] (c\<lparr>cl_record := f\<rparr>)"
  have c1: "consent c1 = ConsentUnknown" "cl_outbox c1 = cl_outbox c" "cl_cfg c1 = cl_cfg c"
    using assms by (simp_all add: c1_def seedConsentStamp_def)
  obtain st c2 where h: "heal_from_trail \<lparr>st_info = info, st_ok = ok, st_read = how\<rparr> c1 = (st, c2)" by (metis surj_pair)
  have same: "ruling_receipt (cl_outbox c) (info, ok, how) c1 = ruling_receipt (cl_outbox c) (info, ok, how) c"
    by (simp add: ruling_receipt_def c1)
  note hc = heal_from_trail_cases [OF h, unfolded c1(1,2) same]
  let ?u = "grants_unprovable st c2"
  let ?c3 = "c2\<lparr>cl_outbox := setGrantsUnprovable ?u (cl_outbox c2)\<rparr>"
  have load: "load_decision c = adopt_state st ?u (fst (withhold st ?c3)) (snd (withhold st ?c3))"
    by (simp add: load_decision_def r c1_def [symmetric] h Let_def case_prod_beta)
  have unk: "consent (snd (withhold st ?c3)) = ConsentUnknown" using hc by (simp add: withhold_consent)
  have u: "?u \<longleftrightarrow> lastRead (cl_outbox c) = OutboxUnusable \<or> st_read st = RecordUnusable \<or> st_read st = RecordForeign \<or> info_unwitnessed (st_info st)"
    using hc by (simp add: grants_unprovable_def)
  show ?thesis
  proof (cases "ruling_receipt (cl_outbox c) (info, ok, how) c")
    case None
    then have "st = \<lparr>st_info = info, st_ok = ok, st_read = how\<rparr>" using hc by simp
    then show ?thesis using None unk u by (auto simp: load adopt_state_consent start_state_def r)
  next
    case (Some t)
    then have st: "st = \<lparr>st_info = no_info\<lparr>info_state := snd (tail_decision t), info_decidedAt := rcp_DecidedAt t, info_floor := True\<rparr>,
                  st_ok = True, st_read = RecordParsed\<rparr>"
      using hc by simp
    show ?thesis
    proof (cases "analyticsGranted t")
      case True
      then have "lastRead (cl_outbox c) \<noteq> OutboxUnusable" using ruling_grant_readable Some by blast
      then show ?thesis using Some True st u by (simp add: load adopt_state_consent start_state_def r tail_decision_def no_info_def)
    next
      case False
      then show ?thesis using Some st by (simp add: load adopt_state_consent start_state_def r tail_decision_def)
    qed
  qed
qed

definition prepared :: "gostring \<Rightarrow> private_file \<Rightarrow> consent_client \<Rightarrow> consent_client" where
  "prepared dir f c = read_trail (c\<lparr>cl_outbox := newConsentOutbox dir f\<rparr>)"

lemma prepared_same:
  "consent (prepared dir f c) = consent c" "cl_digest (prepared dir f c) = cl_digest c" "cl_record (prepared dir f c) = cl_record c"
  "cl_cfg (prepared dir f c) = cl_cfg c" "receipts (cl_outbox (prepared dir f c)) = receipts (loaded_outbox dir f c)"
  "lastRead (cl_outbox (prepared dir f c)) = lastRead (loaded_outbox dir f c)"
  by (simp_all add: prepared_def read_trail_def loaded_outbox_def drainConsentOutboxEvictions_def with_outbox_def takeEvicted_def Let_def)

lemma ruling_prepared:
  "ruling_receipt (cl_outbox (prepared dir f c)) (info, ok, how) (prepared dir f c) = ruling_receipt (loaded_outbox dir f c) (info, ok, how) c"
  by (simp add: ruling_receipt_def latestMatching_def prepared_same cong: option.case_cong)

lemma start_state_prepared: "start_state (cl_outbox (prepared dir f c)) rec (prepared dir f c) = start_state (loaded_outbox dir f c) rec c"
  by (cases rec) (simp add: start_state_def ruling_prepared prepared_same cong: option.case_cong)

lemma init_consent:
  assumes "dir \<noteq> []" and "validateConsentFloorIdentity (cl_cfg c)" and "consent c = ConsentUnknown"
  shows "consent (initConsentFloor dir f True c) = start_state (loaded_outbox dir f c) (fst (loadConsentRecordRead (cl_digest c) (cl_record c))) c"
proof -
  have "initConsentFloor dir f True c = wake_pending (note_invalid (load_decision (prepared dir f c)))"
    using assms by (simp add: initConsentFloor_def take_decision_def prepared_def [symmetric] prepared_same Let_def)
  then show ?thesis
    using load_decision_consent [of "prepared dir f c"] assms
    by (simp add: wake_pending_def note_invalid_def prepared_same start_state_prepared)
qed

section \<open>Properties\<close>

text \<open>C4. What a start-up decides.  A client with a private directory and a valid identity takes the state of the
  newest receipt of its scope when that receipt rules the record, and of the record otherwise; a receipt rules
  when the record is no forced-minor denial, the receipt is strictly newer than the record or there is none to
  read, and it is a denial or nothing it rests on is damaged, foreign or marked.  A record's grant is taken only
  if the record is of the floor, unmarked, and the trail is readable; every other case starts undecided.\<close>

theorem startup_decides:
  assumes "dir \<noteq> []" and "validateConsentFloorIdentity (cl_cfg c)" and "consent c = ConsentUnknown"
  shows "consent (initConsentFloor dir f True c) = start_state (loaded_outbox dir f c) (fst (loadConsentRecordRead (cl_digest c) (cl_record c))) c"
  by (rule init_consent [OF assms])

section \<open>Witnesses\<close>

text \<open>A client that finds its granted record and no trail.\<close>

definition sample_starting :: consent_client where "sample_starting = sample_client\<lparr>cl_record := sample_saved\<rparr>"

lemma sample_starts: "validateConsentFloorIdentity (cl_cfg sample_starting)" "consent sample_starting = ConsentUnknown"
  by (code_simp, simp add: sample_starting_def sample_client_def)

lemma sample_record: "fst (loadConsentRecordRead (cl_digest sample_starting) (cl_record sample_starting)) = (sample_info, True, RecordParsed)"
  by (simp add: sample_starting_def sample_client_def record_sample_load sample_info_def)

lemma sample_trail: "receipts (loaded_outbox ''d'' sample_file c) = []" "lastRead (loaded_outbox ''d'' sample_file c) = OutboxAbsent"
  by (simp_all add: loaded_outbox_def ob_load_def newConsentOutbox_def durable_def good_read sample_file_good read_receipts_def file_entries_def)

lemma sample_start_state: "start_state (loaded_outbox ''d'' sample_file c) (sample_info, True, RecordParsed) c = ConsentGranted"
  by (simp add: start_state_def ruling_receipt_def latestMatching_def sample_trail sample_info_def)

theorem startup_decides_witness: "consent (initConsentFloor ''d'' sample_file True sample_starting) = ConsentGranted"
  using startup_decides [of "''d''" sample_starting sample_file] sample_starts by (simp add: sample_record sample_start_state)

end
