(* ===== verification/Dispatch_Termination.thy ===== *)
theory Dispatch_Termination
  imports Consent_Guarantees
begin

text \<open>
  A dispatch ends: every turn that goes on settles a receipt for good, whatever the server, the disk and the
  clock do, as long as no other process adds receipts and the memory of settled keys does not overflow.
\<close>

section \<open>What is left to settle\<close>

definition file_view :: "consentOutbox \<Rightarrow> consentReceipt list" where
  "file_view ob = (if \<not> durable ob then [] else case pf_data (ob_file ob) of None \<Rightarrow> [] | Some d \<Rightarrow> fst (read_receipts (Content d)))"

definition unsettled :: "consentOutbox \<Rightarrow> gostring set" where
  "unsettled ob = set (keys (receipts ob)) \<union> (set (keys (file_view ob)) - settledKeys ob)"

text \<open>The outbox a dispatch works on: the invariant, room in the memory, named receipts of valid text.\<close>

definition bounded :: "consentOutbox \<Rightarrow> bool" where
  "bounded ob \<longleftrightarrow> ob_inv ob \<and> card (unsettled ob) + length (settledFIFO ob) \<le> consentSettledMemory \<and> [] \<notin> unsettled ob \<and>
     list_all receipt_utf8 (receipts ob @ file_view ob)"

lemma finite_unsettled [simp]: "finite (unsettled ob)" by (simp add: unsettled_def)

lemma on_file_view: "set (on_file ob) \<subseteq> set (file_view ob)"
proof (cases "durable ob")
  case True
  obtain got f where g: "pf_read (ob_file ob) = (got, f)" by (metis surj_pair)
  have "fst (read_receipts Absent) = []" "fst (read_receipts Unreadable) = []" by (simp_all add: read_receipts_def file_entries_def)
  then show ?thesis
    using g True pf.read_content [of "ob_file ob" _ f] by (cases got) (auto simp: on_file_def readRecordReceipts_def file_view_def)
qed (simp add: on_file_def readRecordReceipts_def)

lemma disk_view_file: "set (disk_view fresh ob) \<subseteq> set (file_view ob)"
  using on_file_view [of ob] by (auto simp: disk_view_eq)

lemma merge_own_from:
  "set (merge_own own seen es) \<subseteq> {r. \<exists>e \<in> set es. sanitizeConsentReceipt e = Some r}"
  by (induction es arbitrary: seen) (auto split: option.splits)

lemma utf8_empty [simp]: "utf8_valid []" by code_simp

lemma sanitize_utf8: "sanitizeConsentReceipt e = Some r \<Longrightarrow> receipt_utf8 e \<Longrightarrow> receipt_utf8 r"
  by (auto simp: sanitize_eq scrub_def receipt_utf8_def no_notice_def split: if_splits)

lemma save_merge_unsettled:
  assumes "list_all receipt_utf8 (receipts ob @ file_view ob)"
  shows "set (keys (save_merge fresh ob)) \<subseteq> unsettled ob" "list_all receipt_utf8 (save_merge fresh ob)"
proof -
  let ?d = "merge_disk (settledKeys ob) {} (disk_view fresh ob)"
  have d: "set ?d \<subseteq> set (file_view ob)" "set (keys ?d) \<inter> settledKeys ob = {}"
    using merge_disk_keys [of "settledKeys ob" "{}" "disk_view fresh ob"] disk_view_file [of fresh ob] by auto
  have m: "save_merge fresh ob = ?d @ merge_own (ownKeys ob) (set (keys ?d)) (receipts ob)"
    by (simp add: save_merge_def merge_receipts_def Let_def)
  have o: "\<exists>e \<in> set (receipts ob). sanitizeConsentReceipt e = Some r" if "r \<in> set (merge_own (ownKeys ob) (set (keys ?d)) (receipts ob))" for r
    using merge_own_from that by blast
  show "set (keys (save_merge fresh ob)) \<subseteq> unsettled ob"
  proof
    fix k assume "k \<in> set (keys (save_merge fresh ob))"
    then obtain r where r: "r \<in> set (save_merge fresh ob)" "k = IdempotencyKey r" by auto
    then consider "r \<in> set ?d" | e where "e \<in> set (receipts ob)" "sanitizeConsentReceipt e = Some r" using o by (auto simp: m)
    then show "k \<in> unsettled ob"
    proof cases
      case 1
      then show ?thesis using d r(2) by (auto simp: unsettled_def)
    next
      case 2
      then show ?thesis using sanitize_key [OF 2(2)] r(2) by (auto simp: unsettled_def)
    qed
  qed
  show "list_all receipt_utf8 (save_merge fresh ob)"
  proof -
    have "receipt_utf8 r" if "r \<in> set (save_merge fresh ob)" for r
    proof -
      consider "r \<in> set ?d" | e where "e \<in> set (receipts ob)" "sanitizeConsentReceipt e = Some r" using o \<open>r \<in> _\<close> by (auto simp: m)
      then show ?thesis
      proof cases
        case 1
        then show ?thesis using d(1) assms by (auto simp: list_all_iff)
      next
        case 2
        then show ?thesis using sanitize_utf8 assms by (auto simp: list_all_iff)
      qed
    qed
    then show ?thesis by (simp add: list_all_iff)
  qed
qed

section \<open>A save\<close>

lemma recordSettled_length: "length (settledFIFO (ob_recordSettledLocked k ob)) \<le> length (settledFIFO ob) + 1"
  by (simp add: ob_recordSettledLocked_def Let_def)

lemma settle_evictions_length: "length (settledFIFO (settle_evictions ks ob)) \<le> length (settledFIFO ob) + length ks"
proof -
  have "length (settledFIFO (fold settle_eviction ks ob)) \<le> length (settledFIFO ob) + length ks"
  proof (induction ks arbitrary: ob)
    case (Cons k ks)
    have "length (settledFIFO (settle_eviction k ob)) \<le> length (settledFIFO ob) + 1"
      using recordSettled_length by (simp add: settle_eviction_def Let_def)
    with Cons [of "settle_eviction k ob"] show ?case by simp
  qed simp
  then show ?thesis by (simp add: settle_evictions_def Let_def)
qed

text \<open>The file after a write holds what it held or what was written.\<close>

lemma file_view_write:
  assumes "pf_write (marshal_outbox ms) (ob_file ob) = (ok, f)" and "list_all receipt_utf8 ms" and "\<forall>r \<in> set ms. sanitizeConsentReceipt r = Some r"
    and "distinct (keys ms)" and "length (marshal_outbox ms) \<le> consentOutboxReadLimit" and "ob_file ob' = f" and "ob_dir ob' = ob_dir ob"
  shows "(ok \<or> file_view ob' \<noteq> file_view ob) \<and> durable ob \<Longrightarrow> file_view ob' = map forget_invalid ms"
proof -
  assume a: "(ok \<or> file_view ob' \<noteq> file_view ob) \<and> durable ob"
  have "durable ob' = durable ob" using assms(7) by (simp add: durable_def)
  moreover have "pf_data f = Some (marshal_outbox ms)"
    using a assms(1,6) calculation pf.write_either [OF assms(1)] pf.write_ok [of "marshal_outbox ms" "ob_file ob" f]
    by (cases ok) (auto simp: file_view_def)
  ultimately show ?thesis using a assms(6) read_marshalled [OF assms(2-5)] by (simp add: file_view_def)
qed

lemma forget_keys [simp]: "keys (map forget_invalid ms) = keys ms" by (simp add: forget_invalid_def)
lemma forget_utf8 [simp]: "list_all receipt_utf8 (map forget_invalid ms) = list_all receipt_utf8 ms"
  by (simp add: list_all_iff forget_invalid_def receipt_utf8_def)

lemma unsettled_same:
  assumes "receipts ob' = receipts ob" "settledKeys ob' = settledKeys ob" "pf_data (ob_file ob') = pf_data (ob_file ob)" "ob_dir ob' = ob_dir ob"
  shows "file_view ob' = file_view ob" "unsettled ob' = unsettled ob"
  using assms by (simp_all add: unsettled_def file_view_def durable_def)

lemma opened_view: "file_view (opened fresh ob) = file_view ob" "unsettled (opened fresh ob) = unsettled ob"
proof -
  obtain got f where g: "pf_read (ob_file ob) = (got, f)" by (metis surj_pair)
  have "pf_data (ob_file (opened fresh ob)) = pf_data (ob_file ob)"
    using pf.read_same [OF g] by (simp add: opened_def readRecordReceipts_def g)
  then show "file_view (opened fresh ob) = file_view ob" "unsettled (opened fresh ob) = unsettled ob"
    using unsettled_same [of "opened fresh ob" ob] by simp_all
qed

lemma write_merged_bounded:
  assumes b: "bounded ob" and m: "distinct (keys ms)" "set (keys ms) \<inter> settledKeys ob = {}" "set (keys ms) \<subseteq> unsettled ob"
    "list_all receipt_utf8 ms" "\<forall>r \<in> set ms. sanitizeConsentReceipt r = Some r"
    and w: "write_merged ms ob = (err, ob')"
  shows "bounded ob' \<and> unsettled ob' \<subseteq> unsettled ob"
proof -
  let ?n = "surplus ms" let ?kept = "drop ?n ms" let ?ev = "keys (take ?n ms)"
  have inv: "ob_inv ob'" by (rule write_merged_inv [OF _ m(1,2) w]) (use b in \<open>simp add: bounded_def\<close>)
  have kept: "list_all receipt_utf8 ?kept" "\<forall>r \<in> set ?kept. sanitizeConsentReceipt r = Some r" "distinct (keys ?kept)"
    using m(4,5) split_keys(1) [OF m(1)] by (auto simp: list_all_iff dest: in_set_dropD)
  have ks: "set (keys ?kept) \<subseteq> set (keys ms)" "set ?ev \<subseteq> set (keys ms)" by (auto dest: in_set_dropD in_set_takeD)
  have sub: "bounded ob' \<and> unsettled ob' \<subseteq> unsettled ob"
    if "unsettled ob' \<subseteq> unsettled ob" "settledFIFO ob' = settledFIFO ob" "list_all receipt_utf8 (receipts ob' @ file_view ob')"
  proof -
    have "card (unsettled ob') \<le> card (unsettled ob)" by (rule card_mono [OF _ that(1)]) simp
    then show ?thesis using b inv that by (auto simp: bounded_def)
  qed
  have success: "bounded ob' \<and> unsettled ob' \<subseteq> unsettled ob"
    if "receipts ob' = ?kept" "file_view ob' = map forget_invalid ?kept \<or> file_view ob' = []"
       "length (settledFIFO ob') \<le> length (settledFIFO ob) + length ?ev"
  proof -
    have u: "unsettled ob' = set (keys ?kept)" using that(1,2) by (auto simp: unsettled_def forget_invalid_def)
    have "length ?ev + length (keys ?kept) = length (keys ms)" by (simp add: surplus_def)
    moreover have "card (set (keys ms)) = length (keys ms)" "card (set (keys ?kept)) = length (keys ?kept)"
      using m(1) kept(3) by (simp_all only: distinct_card)
    moreover have "card (set (keys ms)) \<le> card (unsettled ob)" by (rule card_mono [OF _ m(3)]) simp
    ultimately have "card (unsettled ob') + length ?ev \<le> card (unsettled ob)" by (simp add: u)
    moreover have "list_all receipt_utf8 (file_view ob')" using that(2) kept(1) by auto
    ultimately show ?thesis using b inv that(1,3) kept(1) ks(1) m(3) u by (auto simp: bounded_def)
  qed
  show ?thesis
  proof (cases "durable ob")
    case False
    then have ob': "ob' = settle_evictions ?ev (ob\<lparr>receipts := ?kept\<rparr>)" using w by (simp add: write_merged_eq [OF m(2)] Let_def)
    show ?thesis
      by (rule success) (use False settle_evictions_length [of ?ev "ob\<lparr>receipts := ?kept\<rparr>"] in \<open>simp_all add: ob' file_view_def durable_def\<close>)
  next
    case dur: True
    show ?thesis
    proof (cases "length (marshal_outbox ?kept) > consentOutboxReadLimit")
      case True
      then have ob': "ob' = ob\<lparr>ob_dirty := True\<rparr>" using w dur by (simp add: write_merged_eq [OF m(2)] Let_def)
      have "file_view ob' = file_view ob" "unsettled ob' = unsettled ob" using unsettled_same [of ob' ob] by (simp_all add: ob')
      then show ?thesis using b by (intro sub) (auto simp: ob' bounded_def)
    next
      case small: False
      obtain ok f where f: "pf_write (marshal_outbox ?kept) (ob_file ob) = (ok, f)" by (metis surj_pair)
      have eq: "ob' = (if ok then settle_evictions ?ev (ob\<lparr>ob_file := f, receipts := ?kept\<rparr>)\<lparr>ob_dirty := False\<rparr>
          else ob\<lparr>ob_file := f, ob_dirty := True\<rparr>)"
        using w dur small f by (auto simp: write_merged_eq [OF m(2)] Let_def)
      have same: "ob_file ob' = f" "ob_dir ob' = ob_dir ob" by (simp_all add: eq)
      note view = file_view_write [OF f kept _ same]
      show ?thesis
      proof (cases ok)
        case True
        then show ?thesis
          using view small dur settle_evictions_length [of ?ev "ob\<lparr>ob_file := f, receipts := ?kept\<rparr>"]
          by (intro success) (simp_all add: eq)
      next
        case False
        then have ob': "receipts ob' = receipts ob" "settledKeys ob' = settledKeys ob" "settledFIFO ob' = settledFIFO ob" by (simp_all add: eq)
        have v: "file_view ob' = file_view ob \<or> file_view ob' = map forget_invalid ?kept" using view small dur by auto
        then have "set (keys (file_view ob')) \<subseteq> set (keys (file_view ob)) \<union> set (keys ms)"
          using ks(1) by (metis Un_upper1 forget_keys sup.coboundedI2)
        then have "unsettled ob' \<subseteq> unsettled ob" using m(3) unfolding unsettled_def ob' by blast
        moreover have "list_all receipt_utf8 (receipts ob' @ file_view ob')" using v b kept(1) by (auto simp: ob' bounded_def)
        ultimately show ?thesis using sub ob'(3) by blast
      qed
    qed
  qed
qed

lemma save_bounded:
  assumes b: "bounded ob" and s: "ob_saveLocked fresh ob = (err, ob')"
  shows "bounded ob' \<and> unsettled ob' \<subseteq> unsettled ob"
proof -
  have o: "bounded (opened fresh ob)" using b by (simp add: bounded_def opened_view opened_inv)
  have inv: "ownKeys ob \<inter> settledKeys ob = {}" "list_all receipt_utf8 (receipts ob @ file_view ob)" using b by (simp_all add: bounded_def ob_inv_def)
  show ?thesis
  proof (cases "durable ob \<and> \<not> fresh \<and> preserveUnusable ob \<and> snd (fst (readRecordReceipts ob)) = OutboxUnusable")
    case True
    then have ob': "ob' = (opened fresh ob)\<lparr>ob_dirty := True\<rparr>" using s by (simp add: saveLocked_eq)
    have "file_view ob' = file_view (opened fresh ob)" "unsettled ob' = unsettled (opened fresh ob)"
      using unsettled_same [of ob' "opened fresh ob"] by (simp_all add: ob')
    then show ?thesis using o by (simp add: bounded_def ob' opened_view)
  next
    case False
    then have w: "write_merged (save_merge fresh ob) (opened fresh ob) = (err, ob')" using s by (auto simp: saveLocked_eq)
    have k: "distinct (keys (save_merge fresh ob))" "set (keys (save_merge fresh ob)) \<inter> settledKeys (opened fresh ob) = {}"
      using save_merge_keys [OF inv(1), of fresh] by auto
    have "set (keys (save_merge fresh ob)) \<subseteq> unsettled (opened fresh ob)" using save_merge_unsettled(1) [OF inv(2)] by (simp add: opened_view)
    from write_merged_bounded [OF o k this save_merge_unsettled(2) [OF inv(2)] save_merge_checked w] show ?thesis by (simp add: opened_view)
  qed
qed

section \<open>A prune\<close>

lemma prune_bounded:
  assumes b: "bounded ob" and k: "k \<in> set (keys (receipts ob))" and p: "prune k ob = (failed, ob')"
  shows "bounded ob' \<and> unsettled ob' \<subset> unsettled ob"
proof -
  have inv: "ob_inv ob" using b by (simp add: bounded_def)
  obtain rs where rs: "remove_key k (receipts ob) = Some rs"
    using k remove_key_None [of k "receipts ob"] by (cases "remove_key k (receipts ob)") auto
  have rs': "set (keys rs) = set (keys (receipts ob)) - {k}" "rs = filter (\<lambda>e. IdempotencyKey e \<noteq> k) (receipts ob)"
    using remove_key_keys [OF rs] remove_key_filter [OF rs] inv by (auto simp: ob_inv_def)
  have ku: "k \<in> unsettled ob" "k \<noteq> []" using k b unfolding unsettled_def bounded_def by blast+
  have kn: "k \<notin> settledKeys ob" using k inv by (auto simp: ob_inv_def)
  have c: "card (unsettled ob) > 0" using ku(1) by (auto simp: card_gt_0_iff)
  have room: "length (settledFIFO ob) < consentSettledMemory" using c b by (simp add: bounded_def)
  have st: "settledKeys (pruned k rs ob) = insert k (settledKeys ob)" "settledFIFO (pruned k rs ob) = settledFIFO ob @ [k]"
    "receipts (pruned k rs ob) = rs" "file_view (pruned k rs ob) = file_view ob"
    using room ku(2) kn by (simp_all add: pruned_def ob_recordSettledLocked_def Let_def file_view_def durable_def)
  have "unsettled (pruned k rs ob) = unsettled ob - {k}" using rs'(1) by (auto simp: unsettled_def st)
  moreover have "card (unsettled ob - {k}) + 1 = card (unsettled ob)" using ku(1) c by (simp add: card_Diff_singleton)
  moreover have "list_all receipt_utf8 (rs @ file_view ob)" using b rs'(2) by (auto simp: bounded_def list_all_iff)
  ultimately have "bounded (pruned k rs ob)" using b pruned_inv [OF inv rs] by (simp add: bounded_def st)
  moreover have "ob' = snd (ob_saveLocked False (pruned k rs ob))" using p by (simp add: prune_eq rs)
  ultimately have "bounded ob' \<and> unsettled ob' \<subseteq> unsettled (pruned k rs ob)" using save_bounded [OF _ prod.collapse [symmetric]] by blast
  then show ?thesis using \<open>unsettled (pruned k rs ob) = unsettled ob - {k}\<close> ku(1) by blast
qed

section \<open>The loop\<close>

lemma bounded_other [simp]:
  "bounded (ob\<lparr>deferUntil := t, backoffAttempt := a\<rparr>) = bounded ob" "bounded (ob\<lparr>evictedSinceSave := n\<rparr>) = bounded ob"
  "unsettled (ob\<lparr>deferUntil := t, backoffAttempt := a\<rparr>) = unsettled ob" "unsettled (ob\<lparr>evictedSinceSave := n\<rparr>) = unsettled ob"
  by (simp_all add: bounded_def unsettled_def file_view_def durable_def)

lemma pruneReceipt_bounded:
  assumes "bounded (cl_outbox c)" and "k \<in> set (keys (receipts (cl_outbox c)))"
  shows "bounded (cl_outbox (pruneReceipt k c)) \<and> unsettled (cl_outbox (pruneReceipt k c)) \<subset> unsettled (cl_outbox c)"
proof -
  have "cl_outbox (pruneReceipt k c) = (snd (prune k (cl_outbox c)))\<lparr>evictedSinceSave := 0\<rparr>"
    by (simp add: pruneReceipt_def with_outbox_def drainConsentOutboxEvictions_def takeEvicted_def recordConsentOutboxPersistFailure_def
        Let_def case_prod_beta)
  then show ?thesis using prune_bounded [OF assms prod.collapse [symmetric]] by simp
qed

lemma turn_progress:
  assumes "dispatch_turn env (handed, c) = (Again, handed', c')" and b: "bounded (cl_outbox c)"
  shows "bounded (cl_outbox c') \<and> unsettled (cl_outbox c') \<subset> unsettled (cl_outbox c)"
proof -
  obtain r where r: "choose_receipt (en_now env) (en_lock_free env) c = Some r" "settle_receipt env r c = (Again, c')"
    using assms(1) by (auto simp: dispatch_turn_def Let_def split: option.splits prod.splits)
  have mem: "IdempotencyKey r \<in> set (keys (receipts (cl_outbox c)))"
  proof -
    have "nextDispatchable (in_scope c) (cl_outbox c) = Some r"
      using r(1) by (auto simp: choose_receipt_def split: if_splits option.splits)
    from next_split [OF this] show ?thesis by auto
  qed
  show ?thesis
  proof (cases "en_result env")
    case None
    let ?c = "c\<lparr>cl_stats := (cl_stats c)\<lparr>consentRecorded := consentRecorded (cl_stats c) + 1\<rparr>,
                    cl_outbox := (cl_outbox c)\<lparr>deferUntil := None, backoffAttempt := 0\<rparr>\<rparr>"
    have "c' = pruneReceipt (IdempotencyKey r) ?c" using r(2) None by (simp add: settle_receipt_def)
    then show ?thesis using pruneReceipt_bounded [of ?c "IdempotencyKey r"] mem b by simp
  next
    case (Some err)
    let ?c = "setLastConsentError (en_text env) (c\<lparr>cl_stats := (cl_stats c)\<lparr>consentFailed := consentFailed (cl_stats c) + 1\<rparr>\<rparr>)"
    have "c' = pruneReceipt (IdempotencyKey r) ?c" using r(2) Some by (auto simp: settle_receipt_def Let_def split: if_splits)
    then show ?thesis using pruneReceipt_bounded [of ?c "IdempotencyKey r"] mem b by simp
  qed
qed

lemma loop_ends:
  "bounded (cl_outbox c) \<Longrightarrow> card (unsettled (cl_outbox c)) < length envs \<Longrightarrow> fst (dispatch_loop envs (handed, c)) \<noteq> None"
proof (induction envs arbitrary: handed c)
  case (Cons env envs)
  obtain e handed' c' where t: "dispatch_turn env (handed, c) = (e, handed', c')" by (metis surj_pair)
  show ?case
  proof (cases e)
    case Again
    note p = turn_progress [OF t [unfolded Again] Cons.prems(1)]
    then have "card (unsettled (cl_outbox c')) < card (unsettled (cl_outbox c))" by (intro psubset_card_mono) auto
    then show ?thesis using Cons p t Again by simp
  qed (simp add: t)
qed simp

section \<open>Properties\<close>

text \<open>C6. A dispatch always ends.  Whatever the server answers, the disk fails and the clock shows, the loop returns
  after at most as many turns as there are receipts not settled in memory and in the file, plus one; a receipt
  that was settled in this dispatch is not taken up again, even when the file could not be rewritten.\<close>

theorem dispatch_ends:
  assumes "started own dir f acts (cl_outbox c)"
    and "card (unsettled (cl_outbox c)) + length (settledFIFO (cl_outbox c)) \<le> 256" and "[] \<notin> unsettled (cl_outbox c)"
    and "list_all receipt_utf8 (receipts (cl_outbox c) @ file_view (cl_outbox c))"
    and "card (unsettled (cl_outbox c)) < length envs"
  shows "fst (dispatch_loop envs (handed, c)) \<noteq> None"
proof -
  have "bounded (cl_outbox c)" using started_inv [OF assms(1)] assms(2-4) by (simp add: bounded_def consentSettledMemory_def)
  then show ?thesis by (rule loop_ends [OF _ assms(5)])
qed

section \<open>Witnesses\<close>

definition sample_env :: turn_env where
  "sample_env = \<lparr>en_now = 0, en_after = 0, en_lock_free = True, en_result = None, en_ctx = False, en_text = [], en_jitter = \<lambda>_. 0\<rparr>"

theorem dispatch_ends_witness: "fst (dispatch_loop [sample_env, sample_env] ({}, sample_client\<lparr>cl_outbox := sample_appended\<rparr>)) \<noteq> None"
proof -
  have f: "receipts sample_appended = [sample_receipt]" "settledFIFO sample_appended = []" "settledKeys sample_appended = {}"
    "pf_data (ob_file sample_appended) = Some (marshal_outbox [sample_receipt])" "durable sample_appended"
    by (simp_all add: sample_appended_eq newConsentOutbox_def sample_written_def durable_def)
  have ok: "list_all receipt_utf8 [sample_receipt]" "forget_invalid sample_receipt = sample_receipt" by code_simp+
  have "fst (read_receipts (Content (marshal_outbox [sample_receipt]))) = map forget_invalid [sample_receipt]"
    by (rule read_marshalled) (use ok(1) sample_sanitized sample_small in auto)
  then have v: "file_view sample_appended = [sample_receipt]" using f(4,5) ok(2) by (simp add: file_view_def)
  have u: "unsettled sample_appended = {''k1''}" by (simp add: unsettled_def f v sample_receipt_def)
  from dispatch_ends [of _ _ _ _ "sample_client\<lparr>cl_outbox := sample_appended\<rparr>" "[sample_env, sample_env]"] sample_started2
  show ?thesis using u v f ok(1) by simp
qed

end
