(* ===== verification/Spool_Resend.thy ===== *)
theory Spool_Resend
  imports Disk_Spool Consent_Dispatch
begin

text \<open>
  The client half of the disk spool: the resend of what an earlier run or an outage left on disk (\<open>spool.go\<close>,
  \<open>analytics_retry.go\<close>, \<open>experiment_age_delivery.go\<close>) and the pacing of retries (\<open>client.go\<close>).

  Each function is one turn of the worker; what it meets during the turn is its environment: the clock at each
  point that reads it, the answers of the network, a denial, and the state of the experiments.  The copies of
  one event share its delivery clock and its expiry flag (a pointer in the code), so both are kept per
  identifier.  What the client hands out is part of its state: the requests on the network, the
  dead letters and the results of batches its callbacks are given.  What the experiments keep of a stored application whose event is dropped, the counts of
  experiment drops and the wake-up of the worker after a success are not modelled.
\<close>

section \<open>State\<close>

datatype SpoolDropReason = SpoolDropCapacity | SpoolDropExpired | SpoolDropTerminal | SpoolDropConsent

record resend_config =
  rf_BatchSize :: nat
  rf_OnSpoolDeadLetter :: bool
  rf_OnBatchResult :: bool
  rf_Logger :: bool
  rf_RejectionHistory :: int
  rf_secrets :: "gostring list"

record resend_client =
  rd_spool :: diskSpool
  rd_stats :: statsCollector
  rd_history :: rejectionHistory
  rd_reported :: "gostring set"
  rd_successes :: u64
  rd_letters :: "(SpoolDropReason \<times> gostring list) list"
  rd_results :: "BatchResult list"
  rd_sent :: "(nanos \<times> spoolEntry list) list"

text \<open>What the experiments are at one point: whether they run, the two withdrawal epochs, the withdrawn keys, and the
  age declarations.\<close>

record experiment_gate =
  eg_enabled :: bool
  eg_purgeEpoch :: u64
  eg_keyEpoch :: u64
  eg_keyWithdrawals :: "gostring \<Rightarrow> gostring \<Rightarrow> u64 option"
  eg_declaring :: "gostring set"
  eg_ageConfirmed :: "gostring set"

definition with_spool :: "(diskSpool \<Rightarrow> 'a \<times> diskSpool) \<Rightarrow> resend_client \<Rightarrow> 'a \<times> resend_client" where
  "with_spool f c = (let (x, s) = f (rd_spool c) in (x, c\<lparr>rd_spool := s\<rparr>))"

definition count :: "(statsCollector \<Rightarrow> statsCollector) \<Rightarrow> resend_client \<Rightarrow> resend_client" where
  "count f c = c\<lparr>rd_stats := f (rd_stats c)\<rparr>"

section \<open>Dead letters\<close>

text \<open>A stored application is never an envelope: its place is empty.\<close>

definition spoolDeadLetterFrom :: "SpoolDropReason \<Rightarrow> spoolEntry list \<Rightarrow> SpoolDropReason \<times> gostring list" where
  "spoolDeadLetterFrom reason es = (reason, map (\<lambda>e. if e_application e then [] else e_raw e) es)"

definition notifySpoolDeadLetter :: "resend_config \<Rightarrow> SpoolDropReason \<Rightarrow> spoolEntry list \<Rightarrow> resend_client \<Rightarrow> resend_client" where
  "notifySpoolDeadLetter cfg reason es c =
     (if es = [] \<or> \<not> rf_OnSpoolDeadLetter cfg then c else c\<lparr>rd_letters := rd_letters c @ [spoolDeadLetterFrom reason es]\<rparr>)"

text \<open>The entries whose expiry is not reported yet, in order, and the flags after.\<close>

definition report_step :: "spoolEntry \<Rightarrow> spoolEntry list \<times> gostring set \<Rightarrow> spoolEntry list \<times> gostring set" where
  "report_step e acc =
     (let (report, flags) = acc
      in if e_delivery e = None then (report @ [e], flags)
         else if e_id e \<in> flags then acc else (report @ [e], insert (e_id e) flags))"

definition unreportedSpoolExpired :: "spoolEntry list \<Rightarrow> gostring set \<Rightarrow> spoolEntry list \<times> gostring set" where
  "unreportedSpoolExpired expired flags = fold report_step expired ([], flags)"

definition recordSpoolExpired :: "resend_config \<Rightarrow> spoolEntry list \<Rightarrow> resend_client \<Rightarrow> nat \<times> resend_client" where
  "recordSpoolExpired cfg expired c =
     (let (report, flags) = unreportedSpoolExpired expired (rd_reported c); c = c\<lparr>rd_reported := flags\<rparr>
      in if report = [] then (0, c)
         else (length report, notifySpoolDeadLetter cfg SpoolDropExpired report
                 (count (\<lambda>st. st\<lparr>spoolExpired := spoolExpired st + of_nat (length report)\<rparr>) c)))"

definition recordSpoolPersistFailure :: "resend_client \<Rightarrow> resend_client" where
  "recordSpoolPersistFailure c = count (\<lambda>st. st\<lparr>spoolPersistFailed := spoolPersistFailed st + 1\<rparr>) c"

definition persist_failure_if :: "bool \<Rightarrow> resend_client \<Rightarrow> resend_client" where
  "persist_failure_if failed c = (if failed then recordSpoolPersistFailure c else c)"

definition drainSpoolCapacityDrops :: "resend_config \<Rightarrow> resend_client \<Rightarrow> nat \<times> resend_client" where
  "drainSpoolCapacityDrops cfg c =
     (let (became, c) = with_spool takeBecameDurable c;
          c = (if became > 0 then count (\<lambda>st. st\<lparr>spooled := spooled st + of_int became\<rparr>) c else c);
          (drops, c) = with_spool takeCapacityDrops c
      in if drops = [] then (0, c)
         else (length drops, notifySpoolDeadLetter cfg SpoolDropCapacity drops
                 (count (\<lambda>st. st\<lparr>spoolEvicted := spoolEvicted st + of_nat (length drops)\<rparr>) c)))"

section \<open>Errors of a publish\<close>

datatype publish_error =
    TransportError post_error | AgePending | RetryExpired | PersistFailed | DeniedError | LocalApplication | ReceiptPending | InvalidEvent

definition schemaRevisionMismatchCode :: gostring where "schemaRevisionMismatchCode = ''schema_revision_mismatch''"

definition status_error :: "publish_error option \<Rightarrow> HTTPStatusError option" where
  "status_error err = (case err of Some (TransportError (StatusError e)) \<Rightarrow> Some e | _ \<Rightarrow> None)"

definition isSchemaRevisionMismatch :: "publish_error option \<Rightarrow> bool" where
  "isSchemaRevisionMismatch err =
     (case status_error err of None \<Rightarrow> False | Some e \<Rightarrow> StatusCode e = 409 \<and> ErrorCode e = schemaRevisionMismatchCode)"

definition isPermanentPublishError :: "publish_error option \<Rightarrow> bool" where
  "isPermanentPublishError err =
     (if err = Some InvalidEvent then True
      else if err = Some DeniedError then True
      else if isSchemaRevisionMismatch err then True
      else case status_error err of
        Some e \<Rightarrow> \<not> Retryable e
      | None \<Rightarrow> err = Some (TransportError EncodeError))"

section \<open>Pacing\<close>

record pacing =
  pc_deferUntil :: "nanos option"
  pc_backoffAttempt :: int
  pc_seenSuccesses :: u64
  pc_fromRestore :: bool

definition applyRetryPacing :: "(nanos \<Rightarrow> nanos) \<Rightarrow> nanos \<Rightarrow> u64 \<Rightarrow> publish_error option \<Rightarrow> pacing \<Rightarrow> pacing" where
  "applyRetryPacing jitter now successes err p =
     (let p = p\<lparr>pc_seenSuccesses := successes\<rparr>
      in if err = None then p\<lparr>pc_deferUntil := None, pc_backoffAttempt := 0, pc_fromRestore := False\<rparr>
         else if err = Some ReceiptPending \<or> err = Some AgePending then p
         else case status_error err of
           Some e \<Rightarrow>
             if Retryable e \<and> se_retryAfterPresent e then
               p\<lparr>pc_deferUntil := Some (now + max minRetryNowSpacing (RetryAfter e)), pc_fromRestore := False\<rparr>
             else if isPermanentPublishError err then p\<lparr>pc_backoffAttempt := 0\<rparr>
             else (let attempt = pc_backoffAttempt p + 1; d = backoffDelay jitter attempt
                   in p\<lparr>pc_backoffAttempt := attempt, pc_fromRestore := False, pc_deferUntil := if d > 0 then Some (now + d) else None\<rparr>)
         | None \<Rightarrow>
             if err = Some DeniedError then p\<lparr>pc_backoffAttempt := 0\<rparr>
             else if isPermanentPublishError err then p
             else (let attempt = pc_backoffAttempt p + 1; d = backoffDelay jitter attempt
                   in p\<lparr>pc_backoffAttempt := attempt, pc_fromRestore := False, pc_deferUntil := if d > 0 then Some (now + d) else None\<rparr>))"

definition publishDeferred :: "nanos \<Rightarrow> nanos option \<Rightarrow> bool" where
  "publishDeferred now until = (case until of None \<Rightarrow> False | Some t \<Rightarrow> now < t)"

definition pacingDeferRemaining :: "nanos \<Rightarrow> nanos option \<Rightarrow> nanos" where
  "pacingDeferRemaining now until = (case until of None \<Rightarrow> 0 | Some t \<Rightarrow> if t - now < 0 then 0 else t - now)"

text \<open>The deadline a server's answer asks for, in Unix milliseconds.\<close>

definition spoolDeadlineFromError :: "nanos \<Rightarrow> publish_error option \<Rightarrow> millis" where
  "spoolDeadlineFromError now err =
     (case status_error err of
        None \<Rightarrow> 0
      | Some e \<Rightarrow> if \<not> Retryable e \<or> \<not> se_retryAfterPresent e then 0 else unix_milli (now + RetryAfter e))"

definition spoolStoreResendDeadline :: "(gostring \<Rightarrow> gostring option) \<Rightarrow> resend_config \<Rightarrow> nanos \<Rightarrow> publish_error option \<Rightarrow> resend_client \<Rightarrow> resend_client" where
  "spoolStoreResendDeadline app_of cfg now err c =
     (if err = Some AgePending then c
      else let deadlineMS = spoolDeadlineFromError now err;
               (failed, c) = with_spool (if deadlineMS \<le> 0 then clearRetryDeadline app_of else storeRetryDeadline app_of deadlineMS) c
        in snd (drainSpoolCapacityDrops cfg (persist_failure_if failed c)))"

section \<open>Settling a chunk\<close>

definition spoolVerdictDropReason :: "EventStatus \<Rightarrow> SpoolDropReason option" where
  "spoolVerdictDropReason status =
     (if status = EventStatusRejected then Some SpoolDropTerminal
      else if status = EventStatusSuppressedNoConsent \<or> status = EventStatusSuppressedAdRevenueConsent then Some SpoolDropConsent
      else None)"

text \<open>The verdict of an event: the last one the response gives it, or none.\<close>

definition verdict :: "batchResult \<Rightarrow> gostring \<Rightarrow> EventStatus" where
  "verdict result i = (case filter (\<lambda>e. w_event_id e = i) (rev (Events result)) of [] \<Rightarrow> [] | e # _ \<Rightarrow> w_status e)"

definition dropped_for :: "SpoolDropReason \<Rightarrow> batchResult \<Rightarrow> spoolEntry list \<Rightarrow> spoolEntry list" where
  "dropped_for reason result es = filter (\<lambda>e. spoolVerdictDropReason (verdict result (e_id e)) = Some reason) es"

definition ack_with_verdicts :: "(gostring \<Rightarrow> gostring option) \<Rightarrow> resend_config \<Rightarrow> spoolEntry list \<Rightarrow> batchResult \<Rightarrow> resend_client \<Rightarrow> resend_client" where
  "ack_with_verdicts app_of cfg es result c =
     (let ((removed, failed), c) = with_spool (\<lambda>s. let (r, f, s) = ack app_of (map e_id es) s in ((r, f), s)) c;
          c = notifySpoolDeadLetter cfg SpoolDropTerminal (dropped_for SpoolDropTerminal result removed) c;
          c = notifySpoolDeadLetter cfg SpoolDropConsent (dropped_for SpoolDropConsent result removed) c
      in snd (drainSpoolCapacityDrops cfg (persist_failure_if failed c)))"

definition settleResentChunk :: "(gostring \<Rightarrow> gostring option) \<Rightarrow> resend_config \<Rightarrow> spoolEntry list \<Rightarrow> batchResult \<Rightarrow> resend_client \<Rightarrow> resend_client" where
  "settleResentChunk app_of cfg chunk result c =
     (let resent = length (filter (\<lambda>e. spoolVerdictDropReason (verdict result (e_id e)) = None) chunk);
          c = (if resent > 0 \<and> \<not> responseMalformed result
               then count (\<lambda>st. st\<lparr>spoolResent := spoolResent st + of_nat resent\<rparr>) c else c)
      in ack_with_verdicts app_of cfg chunk result c)"

text \<open>Events a permanent outcome settles.\<close>

definition ack_terminal :: "(gostring \<Rightarrow> gostring option) \<Rightarrow> resend_config \<Rightarrow> gostring list \<Rightarrow> resend_client \<Rightarrow> resend_client" where
  "ack_terminal app_of cfg ids c =
     (let ((removed, failed), c) = with_spool (\<lambda>s. let (r, f, s) = ack app_of ids s in ((r, f), s)) c
      in persist_failure_if failed (notifySpoolDeadLetter cfg SpoolDropTerminal removed c))"

definition spoolSettleTerminalIDs :: "(gostring \<Rightarrow> gostring option) \<Rightarrow> resend_config \<Rightarrow> gostring list \<Rightarrow> resend_client \<Rightarrow> resend_client" where
  "spoolSettleTerminalIDs app_of cfg ids c = (if ids = [] then c else snd (drainSpoolCapacityDrops cfg (ack_terminal app_of cfg ids c)))"

definition settleExpiredAnalytics :: "(gostring \<Rightarrow> gostring option) \<Rightarrow> resend_config \<Rightarrow> spoolEntry list \<Rightarrow> resend_client \<Rightarrow> resend_client" where
  "settleExpiredAnalytics app_of cfg es c =
     (if es = [] then c
      else let ((_, failed), c) = with_spool (\<lambda>s. let (r, f, s) = ack app_of (map e_id es) s in ((r, f), s)) c;
               (n, c) = recordSpoolExpired cfg es (persist_failure_if failed c)
        in count (\<lambda>st. st\<lparr>dropped := dropped st + of_nat n\<rparr>) c)"

definition expireResendChunk :: "(gostring \<Rightarrow> gostring option) \<Rightarrow> resend_config \<Rightarrow> nanos \<Rightarrow> spoolEntry list \<Rightarrow> resend_client \<Rightarrow> spoolEntry list \<times> resend_client" where
  "expireResendChunk app_of cfg now chunk c =
     (filter (\<lambda>e. \<not> spoolEntryExpired e now) chunk, settleExpiredAnalytics app_of cfg (filter (\<lambda>e. spoolEntryExpired e now) chunk) c)"

section \<open>What the experiments hold back\<close>

text \<open>A string of the \<open>props\<close> of an envelope, as the decode of a nested struct reads it.\<close>

definition prop_string :: "gostring \<Rightarrow> (gostring \<times> gostring \<times> json) list \<Rightarrow> gostring option" where
  "prop_string key ms =
     fold (\<lambda>(_, v) acc. case acc of None \<Rightarrow> None
             | Some k \<Rightarrow> (case v of JNull \<Rightarrow> Some k | JObj ps \<Rightarrow> decode_field as_string k key ps | _ \<Rightarrow> None))
       (field ''props'' ms) (Some [])"

definition experimentAgeHeld :: "experiment_gate \<Rightarrow> gostring \<Rightarrow> bool" where
  "experimentAgeHeld g key \<longleftrightarrow> (if \<not> eg_enabled g then True else key \<in> eg_declaring g \<or> key \<notin> eg_ageConfirmed g)"

definition ageHeldRaw :: "experiment_gate \<Rightarrow> gostring \<Rightarrow> bool" where
  "ageHeldRaw g raw \<longleftrightarrow>
     (case members_of raw of
        None \<Rightarrow> False
      | Some ms \<Rightarrow>
          (case (decode_field as_string [] ''event_name'' ms, decode_field as_string [] ''attestation_seal'' ms, prop_string ''experiment_key'' ms) of
             (Some name, Some seal, Some key) \<Rightarrow> seal \<noteq> [] \<and> name \<in> set experiment_fact_names \<and> experimentAgeHeld g key
           | _ \<Rightarrow> False))"

definition age_held :: "experiment_gate \<Rightarrow> spoolEntry \<Rightarrow> bool" where
  "age_held g e \<longleftrightarrow> e_internalFact e \<and> ageHeldRaw g (e_raw e)"

definition separateAgeHeldSpool :: "experiment_gate \<Rightarrow> spoolEntry list \<Rightarrow> spoolEntry list \<Rightarrow> spoolEntry list \<times> spoolEntry list" where
  "separateAgeHeldSpool g chunk held = (filter (\<lambda>e. \<not> age_held g e) chunk, held @ filter (age_held g) chunk)"

definition dropWithdrawnSpoolChunkMembers :: "(gostring \<Rightarrow> gostring option) \<Rightarrow> experiment_gate \<Rightarrow> spoolEntry list \<Rightarrow> spoolEntry list" where
  "dropWithdrawnSpoolChunkMembers app_of g chunk =
     (if eg_purgeEpoch g = 0 then chunk
      else filter (\<lambda>e. \<not> (e_internalFact e \<and> e_expFactEpoch e < eg_purgeEpoch g \<and> withdrawnExperimentFactRaw app_of (e_raw e))) chunk)"

definition experimentFactKeyWithdrawn :: "experiment_gate \<Rightarrow> gostring \<Rightarrow> gostring \<Rightarrow> gostring \<Rightarrow> u64 \<Rightarrow> bool" where
  "experimentFactKeyWithdrawn g eventName experimentKey assignmentKey stamp \<longleftrightarrow>
     (if stamp \<ge> eg_keyEpoch g then False
      else if eventName \<notin> set experiment_fact_names then False
      else if assignmentKey = [] then False
      else case eg_keyWithdrawals g experimentKey assignmentKey of None \<Rightarrow> False | Some epoch \<Rightarrow> stamp < epoch)"

definition key_withdrawn :: "experiment_gate \<Rightarrow> u64 \<Rightarrow> spoolEntry \<Rightarrow> bool" where
  "key_withdrawn g pulledAt e \<longleftrightarrow>
     e_internalFact e \<and>
     (case members_of (e_raw e) of
        None \<Rightarrow> False
      | Some ms \<Rightarrow>
          (case (decode_field as_string [] ''event_name'' ms, prop_string ''experiment_key'' ms, prop_string ''assignment_key'' ms) of
             (Some name, Some ek, Some ak) \<Rightarrow> experimentFactKeyWithdrawn g name ek ak pulledAt
           | _ \<Rightarrow> False))"

definition dropKeyWithdrawnSpoolChunkMembers :: "experiment_gate \<Rightarrow> u64 \<Rightarrow> spoolEntry list \<Rightarrow> spoolEntry list" where
  "dropKeyWithdrawnSpoolChunkMembers g pulledAt chunk =
     (if pulledAt = eg_keyEpoch g then chunk else filter (\<lambda>e. \<not> key_withdrawn g pulledAt e) chunk)"

section \<open>One attempt\<close>

text \<open>The clock of a first attempt is begun before the request leaves and stopped again when it certainly did not
  arrive.\<close>

definition set_clock :: "gostring set \<Rightarrow> millis \<Rightarrow> spoolEntry \<Rightarrow> spoolEntry" where
  "set_clock ids t e = (if e_id e \<in> ids then e\<lparr>e_delivery := map_option (\<lambda>d. d\<lparr>ambiguousMS := t\<rparr>) (e_delivery e)\<rparr> else e)"

definition set_clocks :: "gostring set \<Rightarrow> millis \<Rightarrow> resend_client \<Rightarrow> resend_client" where
  "set_clocks ids t c =
     c\<lparr>rd_spool := (rd_spool c)\<lparr>s_entries := map (set_clock ids t) (s_entries (rd_spool c)), s_resend := map (set_clock ids t) (s_resend (rd_spool c))\<rparr>\<rparr>"

definition unstarted :: "spoolEntry list \<Rightarrow> gostring set" where
  "unstarted es = e_id ` set (filter (\<lambda>e. case e_delivery e of None \<Rightarrow> False | Some d \<Rightarrow> ambiguousMS d = 0) es)"

definition persist_clocks :: "(gostring \<Rightarrow> gostring option) \<Rightarrow> spoolEntry list \<Rightarrow> resend_client \<Rightarrow> spool_error option \<times> resend_client" where
  "persist_clocks app_of es c =
     (let (err, c) = with_spool (persistDelivery app_of es) c in (err, persist_failure_if (err \<noteq> None) c))"

definition begin_attempt :: "(gostring \<Rightarrow> gostring option) \<Rightarrow> experiment_gate \<Rightarrow> nanos \<Rightarrow> spoolEntry list \<Rightarrow> resend_client
    \<Rightarrow> (publish_error + gostring set \<times> spoolEntry list) \<times> resend_client" where
  "begin_attempt app_of g now es c =
     (if list_ex (age_held g) es then (Inl AgePending, c)
      else if list_ex (\<lambda>e. spoolEntryExpired e now) es then (Inl RetryExpired, c)
      else
        let begun = unstarted es; es = map (set_clock begun (unix_milli now)) es;
            (err, c) = persist_clocks app_of es (set_clocks begun (unix_milli now) c)
        in case err of
             None \<Rightarrow> (Inr (begun, es), c)
           | Some e \<Rightarrow> (Inl (if e = ErrConsentDenied then DeniedError else PersistFailed), set_clocks begun 0 c))"

definition finish_attempt :: "(gostring \<Rightarrow> gostring option) \<Rightarrow> gostring set \<Rightarrow> bool \<Rightarrow> spoolEntry list \<Rightarrow> resend_client \<Rightarrow> spoolEntry list \<times> resend_client" where
  "finish_attempt app_of begun undelivered es c =
     (if undelivered \<and> begun \<noteq> {} then
        (let es = map (set_clock begun 0) es in (es, snd (persist_clocks app_of es (set_clocks begun 0 c))))
      else (es, c))"

text \<open>The posts of one publish: a second one follows when the server refused the encoding of the first
  (\<open>postJSON\<close>).  Each has its clock, whether the context ended before it, and the answer of the network.\<close>

record attempt_post =
  at_now :: nanos
  at_ended :: bool
  at_error :: "post_error option"
  at_result :: batchResult
  at_undelivered :: bool

fun run_posts :: "(gostring \<Rightarrow> gostring option) \<Rightarrow> experiment_gate \<Rightarrow> attempt_post list \<Rightarrow> spoolEntry list \<Rightarrow> resend_client
    \<Rightarrow> (publish_error option \<times> batchResult) \<times> spoolEntry list \<times> resend_client" where
  "run_posts app_of g [] es c = ((Some (TransportError ContextEnded), zero_batch), es, c)"
| "run_posts app_of g (a # rest) es c =
     (if at_ended a then ((Some (TransportError ContextEnded), zero_batch), es, c)
      else case begin_attempt app_of g (at_now a) es c of
        (Inl err, c) \<Rightarrow> ((Some err, zero_batch), es, c)
      | (Inr (begun, es), c) \<Rightarrow>
          let (es, c) = finish_attempt app_of begun (at_undelivered a) es (c\<lparr>rd_sent := rd_sent c @ [(at_now a, es)]\<rparr>)
          in if serverRefusedCompression (at_error a) \<and> rest \<noteq> [] then run_posts app_of g rest es c
             else ((map_option TransportError (at_error a), if at_error a = None then at_result a else zero_batch), es, c))"

record publish_env =
  pe_gate :: experiment_gate
  pe_denied :: bool
  pe_cancelled :: bool
  pe_posts :: "attempt_post list"
  pe_text :: gostring

text \<open>\<open>pe_denied\<close>: analytics is denied before the request; \<open>pe_cancelled\<close>: a denial cancels it, which shows only
  where the error is the ended context's.\<close>

definition context_ended :: "publish_error option \<Rightarrow> bool" where
  "context_ended err \<longleftrightarrow> err = Some (TransportError ContextEnded) \<or> err = Some (TransportError SendFailed)"

definition record_success :: "(gostring \<Rightarrow> gostring option) \<Rightarrow> resend_config \<Rightarrow> batchResult \<Rightarrow> nat \<Rightarrow> resend_client \<Rightarrow> resend_client" where
  "record_success app_of cfg result n c =
     (let c = (if responseMalformed result then count (\<lambda>st. st\<lparr>unparsedBatchResponses := unparsedBatchResponses st + 1\<rparr>) c else c);
          c = count (recordBatch result (int n)) c;
          (h, st) = retainRejections (rf_RejectionHistory cfg) (rf_secrets cfg) result (rd_history c) (rd_stats c);
          c = c\<lparr>rd_history := h, rd_stats := st\<rparr>;
          (failed, c) = with_spool (clearRetryDeadline app_of) c;
          (_, c) = drainSpoolCapacityDrops cfg (persist_failure_if failed c)
      in c\<lparr>rd_successes := rd_successes c + 1\<rparr>)"

definition publishRequestResult :: "(gostring \<Rightarrow> gostring option) \<Rightarrow> resend_config \<Rightarrow> publish_env \<Rightarrow> spoolEntry list \<Rightarrow> resend_client
    \<Rightarrow> (publish_error option \<times> batchResult) \<times> spoolEntry list \<times> resend_client" where
  "publishRequestResult app_of cfg env es c =
     (if list_ex e_application es then ((Some LocalApplication, zero_batch), es, c)
      else if list_ex (age_held (pe_gate env)) es then ((Some AgePending, zero_batch), es, c)
      else if pe_denied env then ((Some DeniedError, zero_batch), es, c)
      else
        let n = length es; ((err, result), es, c) = run_posts app_of (pe_gate env) (pe_posts env) es c
        in if err = Some AgePending then ((err, zero_batch), es, c)
           else if context_ended err \<and> pe_cancelled env then ((Some DeniedError, zero_batch), es, c)
           else if err \<noteq> None then ((err, zero_batch), es, count (recordFailure (pe_text env)) c)
           else ((None, result), es, record_success app_of cfg result n c))"

definition notifyBatchResult :: "resend_config \<Rightarrow> BatchResult \<Rightarrow> resend_client \<Rightarrow> resend_client" where
  "notifyBatchResult cfg r c =
     (let (h, _) = warnRejections (rf_OnBatchResult cfg) (rf_Logger cfg) (rf_secrets cfg) r (rd_history c); c = c\<lparr>rd_history := h\<rparr>
      in if rf_OnBatchResult cfg then c\<lparr>rd_results := rd_results c @ [r]\<rparr> else c)"

section \<open>The resend loop\<close>

record resend_env =
  re_pulledAt :: u64
  re_pull :: nanos
  re_expire :: nanos
  re_publish :: publish_env
  re_after :: nanos
  re_jitter :: "nanos \<Rightarrow> nanos"
  re_abandoned :: bool

text \<open>The chunk a turn works on: pulled, then without what was withdrawn, expired or is held back.\<close>

definition pull_chunk :: "(gostring \<Rightarrow> gostring option) \<Rightarrow> resend_config \<Rightarrow> nanos \<Rightarrow> resend_client \<Rightarrow> spoolEntry list \<times> resend_client" where
  "pull_chunk app_of cfg now c =
     (let ((chunk, expired, failed), c) = with_spool (\<lambda>s. let (k, x, f, s) = pullResendChunk app_of (rf_BatchSize cfg) now s in ((k, x, f), s)) c;
          (_, c) = recordSpoolExpired cfg expired c
      in (chunk, snd (drainSpoolCapacityDrops cfg (persist_failure_if failed c))))"

definition ready_chunk :: "(gostring \<Rightarrow> gostring option) \<Rightarrow> resend_config \<Rightarrow> resend_env \<Rightarrow> spoolEntry list \<Rightarrow> spoolEntry list \<Rightarrow> resend_client
    \<Rightarrow> spoolEntry list \<times> spoolEntry list \<times> resend_client" where
  "ready_chunk app_of cfg env held chunk c =
     (let g = pe_gate (re_publish env); chunk = dropWithdrawnSpoolChunkMembers app_of g chunk;
          chunk = dropKeyWithdrawnSpoolChunkMembers g (re_pulledAt env) chunk;
          (chunk, c) = expireResendChunk app_of cfg (re_expire env) chunk c;
          (chunk, held) = separateAgeHeldSpool g chunk held
      in (chunk, held, c))"

datatype 'a turn_result = TurnAgain | TurnReturn 'a

definition resend_turn :: "(gostring \<Rightarrow> gostring option) \<Rightarrow> resend_config \<Rightarrow> resend_env \<Rightarrow> spoolEntry list \<times> pacing \<times> resend_client
    \<Rightarrow> bool turn_result \<times> spoolEntry list \<times> pacing \<times> resend_client" where
  "resend_turn app_of cfg env state =
     (let (held, p, c) = state; (chunk, c) = pull_chunk app_of cfg (re_pull env) c
      in if chunk = [] then (TurnReturn True, held, p, c)
         else let (chunk, held, c) = ready_chunk app_of cfg env held chunk c
           in if chunk = [] then (TurnAgain, held, p, c)
              else let ((err, result), chunk, c) = publishRequestResult app_of cfg (re_publish env) chunk c;
                       p = applyRetryPacing (re_jitter env) (re_after env) (rd_successes c) err p
                in if err = None then (TurnAgain, held, p, notifyBatchResult cfg (toPublic result) (settleResentChunk app_of cfg chunk result c))
                   else if err = Some DeniedError then (TurnReturn True, held, p, c)
                   else if isPermanentPublishError err then (TurnAgain, held, p, ack_terminal app_of cfg (map e_id chunk) c)
                   else (let c = spoolStoreResendDeadline app_of cfg (re_after env) err c
                         in (TurnReturn False, held, p, c\<lparr>rd_spool := requeueResend chunk (rd_spool c)\<rparr>)))"

fun resend_loop :: "(gostring \<Rightarrow> gostring option) \<Rightarrow> resend_config \<Rightarrow> resend_env list \<Rightarrow> spoolEntry list \<times> pacing \<times> resend_client
    \<Rightarrow> bool option \<times> spoolEntry list \<times> pacing \<times> resend_client" where
  "resend_loop app_of cfg [] state = (None, state)"
| "resend_loop app_of cfg (env # envs) state =
     (case resend_turn app_of cfg env state of
        (TurnAgain, state) \<Rightarrow> resend_loop app_of cfg envs state
      | (TurnReturn b, state) \<Rightarrow> (Some b, state))"

definition requeue_held :: "spoolEntry list \<Rightarrow> resend_client \<Rightarrow> resend_client" where
  "requeue_held held c = (if held \<noteq> [] then c\<lparr>rd_spool := requeueResend held (rd_spool c)\<rparr> else c)"

definition resendSpooledChunks :: "(gostring \<Rightarrow> gostring option) \<Rightarrow> resend_config \<Rightarrow> resend_env list \<Rightarrow> pacing \<times> resend_client
    \<Rightarrow> bool option \<times> pacing \<times> resend_client" where
  "resendSpooledChunks app_of cfg envs state =
     (let (p, c) = state; (res, held, p, c) = resend_loop app_of cfg envs ([], p, c) in (res, p, requeue_held held c))"

section \<open>The flush of the host\<close>

text \<open>The same turns under the caller's context; the first permanent failure is remembered and reported at the end.\<close>

definition flush_turn :: "(gostring \<Rightarrow> gostring option) \<Rightarrow> resend_config \<Rightarrow> resend_env \<Rightarrow> spoolEntry list \<times> int \<times> publish_error option \<times> resend_client
    \<Rightarrow> publish_error option turn_result \<times> spoolEntry list \<times> int \<times> publish_error option \<times> resend_client" where
  "flush_turn app_of cfg env state =
     (let (held, attempt, firstErr, c) = state; (chunk, c) = pull_chunk app_of cfg (re_pull env) c
      in if chunk = [] then (TurnReturn firstErr, held, attempt, firstErr, c)
         else let (chunk, held, c) = ready_chunk app_of cfg env held chunk c
           in if chunk = [] then (TurnAgain, held, attempt, firstErr, c)
              else let ((err, result), chunk, c) = publishRequestResult app_of cfg (re_publish env) chunk c
                in if err = None
                   then (TurnAgain, held, 0, firstErr, notifyBatchResult cfg (toPublic result) (settleResentChunk app_of cfg chunk result c))
                   else if err = Some DeniedError then (TurnReturn err, held, attempt, firstErr, c)
                   else if \<not> isPermanentPublishError err then
                     (let c = (if \<not> re_abandoned env then spoolStoreResendDeadline app_of cfg (re_after env) err c else c)
                      in (TurnReturn err, held, attempt, firstErr, c\<lparr>rd_spool := requeueResend chunk (rd_spool c)\<rparr>))
                   else (TurnAgain, held, if status_error err \<noteq> None then 0 else attempt,
                     if firstErr = None then err else firstErr, ack_terminal app_of cfg (map e_id chunk) c))"

fun flush_loop :: "(gostring \<Rightarrow> gostring option) \<Rightarrow> resend_config \<Rightarrow> resend_env list \<Rightarrow> spoolEntry list \<times> int \<times> publish_error option \<times> resend_client
    \<Rightarrow> publish_error option option \<times> spoolEntry list \<times> int \<times> publish_error option \<times> resend_client" where
  "flush_loop app_of cfg [] state = (None, state)"
| "flush_loop app_of cfg (env # envs) state =
     (case flush_turn app_of cfg env state of
        (TurnAgain, state) \<Rightarrow> flush_loop app_of cfg envs state
      | (TurnReturn r, state) \<Rightarrow> (Some r, state))"

definition flushSpooledChunks :: "(gostring \<Rightarrow> gostring option) \<Rightarrow> resend_config \<Rightarrow> resend_env list \<Rightarrow> int \<times> resend_client
    \<Rightarrow> publish_error option option \<times> int \<times> resend_client" where
  "flushSpooledChunks app_of cfg envs state =
     (let (attempt, c) = state; (res, held, attempt, _, c) = flush_loop app_of cfg envs ([], attempt, None, c)
      in (map_option (\<lambda>r. if held \<noteq> [] \<and> r = None then Some AgePending else r) res, attempt, requeue_held held c))"

definition spoolMaintain :: "(gostring \<Rightarrow> gostring option) \<Rightarrow> resend_config \<Rightarrow> resend_client \<Rightarrow> nat \<times> resend_client" where
  "spoolMaintain app_of cfg c =
     (let (_, c) = with_spool settleOwedWipeLocked c;
          ((attempted, failed), c) = with_spool (\<lambda>s. let (a, f, s) = retryPersist app_of s in ((a, f), s)) c
      in drainSpoolCapacityDrops cfg (persist_failure_if (attempted \<and> failed) c))"

end
