(* ===== verification/Resend_Steps.thy ===== *)
theory Resend_Steps
  imports Spool_Resend Spool_Applications
begin

text \<open>
  What the steps of a resend do to the spool below it: each keeps the spool's invariant and lets go of events only,
  and what the spool still holds stays in the resend queue or in the chunk at hand.
\<close>

section \<open>The spool under the client\<close>

text \<open>The identifiers of a list of events the host tracked, those that no withdrawal of an experiment and no age
  declaration concerns.\<close>

definition host_ids :: "spoolEntry list \<Rightarrow> gostring set" where
  "host_ids es = e_id ` set (filter (\<lambda>e. \<not> e_internalFact e) es)"

lemma host_ids_simps [simp]: "host_ids [] = {}" "host_ids (e # es) = (if e_internalFact e then {} else {e_id e}) \<union> host_ids es"
  "host_ids (es @ fs) = host_ids es \<union> host_ids fs"
  by (auto simp: host_ids_def)

lemma host_ids_sub: "host_ids es \<subseteq> e_id ` set es" by (auto simp: host_ids_def)

text \<open>A step that keeps the spool's invariant, only lets go of events, never lengthens the resend queue, and leaves in
  it what the spool still holds.\<close>

definition rd_inv :: "(gostring \<Rightarrow> gostring) \<Rightarrow> resend_client \<Rightarrow> bool" where
  "rd_inv body c \<longleftrightarrow> spool_inv (rd_spool c) \<and> bodies body (rd_spool c)"

definition mild :: "(gostring \<Rightarrow> gostring) \<Rightarrow> diskSpool \<Rightarrow> diskSpool \<Rightarrow> bool" where
  "mild body s s' \<longleftrightarrow> (spool_inv s \<and> bodies body s \<longrightarrow>
     spool_inv s' \<and> bodies body s' \<and> length (s_resend s') \<le> length (s_resend s) \<and> s_owed s' = s_owed s \<and>
     s_ids s' \<subseteq> s_ids s \<and> host_ids (s_resend s) \<inter> s_ids s' \<subseteq> host_ids (s_resend s'))"

abbreviation mild_c :: "(gostring \<Rightarrow> gostring) \<Rightarrow> resend_client \<Rightarrow> resend_client \<Rightarrow> bool" where
  "mild_c body c c' \<equiv> mild body (rd_spool c) (rd_spool c')"

lemma mild_refl [simp]: "mild body s s" by (simp add: mild_def)
lemma mild_trans: "mild body s t \<Longrightarrow> mild body t u \<Longrightarrow> mild body s u" unfolding mild_def by (blast intro: order_trans)

lemma mild_fields:
  "s_entries s' = s_entries s \<Longrightarrow> s_ids s' = s_ids s \<Longrightarrow> s_totalBytes s' = s_totalBytes s \<Longrightarrow> s_resend s' = s_resend s \<Longrightarrow>
   s_maxEvents s' = s_maxEvents s \<Longrightarrow> s_maxBytes s' = s_maxBytes s \<Longrightarrow> s_settledIDs s' = s_settledIDs s \<Longrightarrow> s_settledFIFO s' = s_settledFIFO s \<Longrightarrow>
   s_owed s' = s_owed s \<Longrightarrow> mild body s s'"
  by (auto simp: mild_def spool_inv_def mirror_ok_def caps_ok_def settled_ok_def bodies_def)

lemma save_keeps:
  assumes "mirror_ok s" and "settled_ok s"
  shows "s_resend (snd (saveLocked app_of s)) = s_resend s \<and> s_owed (snd (saveLocked app_of s)) = s_owed s \<and>
    s_ids (snd (saveLocked app_of s)) \<subseteq> s_ids s"
proof -
  obtain err s' where sv: "saveLocked app_of s = (err, s')" by (cases "saveLocked app_of s")
  note iv = saveLocked_invs [OF sv assms]
  moreover have "s_ids s' \<subseteq> s_ids s" using iv assms(1) by (auto simp: mirror_ok_def)
  ultimately show ?thesis using frameD [of s' s] by (simp add: sv)
qed

lemma mild_save: "mild body s (snd (saveLocked app_of s))"
  using save_inv [of s body app_of] save_keeps [of s app_of] unfolding mild_def spool_inv_def by auto

lemma ack_keeps:
  assumes "spool_inv s"
  shows "let s' = snd (snd (ack app_of ids s)) in length (s_resend s') \<le> length (s_resend s) \<and> s_owed s' = s_owed s \<and>
    s_ids s' \<subseteq> s_ids s - set ids \<and> host_ids (s_resend s) \<inter> s_ids s' \<subseteq> host_ids (s_resend s')"
proof -
  obtain removed s1 where d: "drop_ids (set ids) s = (removed, s1)" by (cases "drop_ids (set ids) s")
  note sp = drop_ids_spec [OF d]
  let ?s2 = "drop_resend (set ids) s1"
  have f: "s_resend s1 = s_resend s" "s_owed s1 = s_owed s" using sp frameD [of s1 s] by simp_all
  have m: "s_ids s = e_id ` set (s_entries s)" "s_ids s1 = e_id ` set (s_entries s1)"
    using sp assms by (simp_all add: spool_inv_def mirror_ok_def)
  then have i: "s_ids s1 \<subseteq> s_ids s - set ids" using sp by auto
  have "mirror_ok ?s2" "settled_ok ?s2" using sp assms by (simp_all add: spool_inv_def)
  note sv = save_keeps [OF this, of app_of]
  have q: "host_ids (s_resend s) \<inter> T \<subseteq> host_ids (s_resend ?s2)" if "T \<inter> set ids = {}" for T
    using that by (auto simp: host_ids_def drop_resend_def f)
  have sz: "s_ids ?s2 = s_ids s1" "s_owed ?s2 = s_owed s1" "length (s_resend ?s2) \<le> length (s_resend s)"
    using f by (simp_all add: drop_resend_def)
  show ?thesis
  proof (cases "ids = [] \<or> s_entries s = [] \<or> removed = []")
    case True
    then show ?thesis using d f i m by (auto simp: ack_def Let_def)
  next
    case False
    then have out: "snd (snd (ack app_of ids s)) = snd (saveLocked app_of ?s2)" by (simp add: ack_def d Let_def case_prod_beta)
    have sub: "s_ids (snd (saveLocked app_of ?s2)) \<subseteq> s_ids s - set ids" using sv i unfolding sz by blast
    then have "host_ids (s_resend s) \<inter> s_ids (snd (saveLocked app_of ?s2)) \<subseteq> host_ids (s_resend ?s2)" by (intro q) blast
    then show ?thesis using sv sub sz f by (simp add: out)
  qed
qed

lemma mild_ack: "mild body s (snd (snd (ack app_of ids s)))"
  using ack_inv [of s body app_of ids] ack_keeps [of s app_of ids] by (auto simp: mild_def Let_def)

lemma pull_loop_length:
  "pull_loop limit now chunk expired s = (chunk', expired', s') \<Longrightarrow>
   length chunk' + length (s_resend s') \<le> length chunk + length (s_resend s)"
proof (induction limit now chunk expired s rule: pull_loop.induct)
  case (1 limit now chunk expired s)
  show ?case
  proof (cases "length chunk < limit \<and> s_resend s \<noteq> []")
    case False
    then show ?thesis using "1.prems" by (subst (asm) pull_loop.simps) (auto split: list.splits if_splits)
  next
    case True
    then obtain e rest where e: "s_resend s = e # rest" by (cases "s_resend s") auto
    show ?thesis
      using "1.prems" 1(1) [OF _ e refl] 1(2) [OF _ e refl] 1(3) [OF _ e refl] True e
      by (subst (asm) pull_loop.simps) (auto simp: Let_def split: if_splits)
  qed
qed

lemma pull_loop_hosts:
  "pull_loop limit now chunk expired s = (chunk', expired', s') \<Longrightarrow>
   s_ids s' \<subseteq> s_ids s \<and> s_owed s' = s_owed s \<and> (host_ids chunk \<union> host_ids (s_resend s)) \<inter> s_ids s' \<subseteq> host_ids chunk' \<union> host_ids (s_resend s')"
proof (induction limit now chunk expired s rule: pull_loop.induct)
  case (1 limit now chunk expired s)
  show ?case
  proof (cases "length chunk < limit \<and> s_resend s \<noteq> []")
    case False
    then show ?thesis using "1.prems" by (subst (asm) pull_loop.simps) (auto split: list.splits if_splits)
  next
    case True
    then obtain e rest where e: "s_resend s = e # rest" by (cases "s_resend s") auto
    show ?thesis
      using "1.prems" 1(1) [OF _ e refl] 1(2) [OF _ e refl] 1(3) [OF _ e refl] True e
      by (subst (asm) pull_loop.simps) (auto simp: Let_def recordSettledLocked_def split: if_splits)
  qed
qed

lemma mild_pull:
  assumes "pullResendChunk app_of limit now s = (chunk, expired, failed, s')" and "spool_inv s" and "bodies body s"
  shows "spool_inv s' \<and> bodies body s' \<and> length chunk + length (s_resend s') \<le> length (s_resend s) \<and> s_owed s' = s_owed s \<and>
    s_ids s' \<subseteq> s_ids s \<and> host_ids (s_resend s) \<inter> s_ids s' \<subseteq> host_ids chunk \<union> host_ids (s_resend s')"
proof (cases "s_owed s")
  case True
  then show ?thesis using assms by (auto simp: pullResendChunk_def)
next
  case False
  obtain k x s1 where p: "pull_loop limit now [] [] s = (k, x, s1)" by (metis surj_pair)
  have m: "mirror_ok s" "settled_ok s" using assms(2) by (simp_all add: spool_inv_def)
  have i: "mirror_ok s1" "settled_ok s1" using pull_loop_inv [OF p m assms(3)] by (simp_all add: pull_inv_def)
  note sv = save_keeps [OF i, of app_of] and h = pull_loop_hosts [OF p]
  have "chunk = k" "s' = s1 \<or> s' = snd (saveLocked app_of s1)"
    using assms(1) False p by (auto simp: pullResendChunk_def Let_def case_prod_beta split: if_splits)
  then have "s_resend s' = s_resend s1" "s_owed s' = s_owed s1" "s_ids s' \<subseteq> s_ids s1" "chunk = k" using sv by auto
  moreover have "length k + length (s_resend s1) \<le> length (s_resend s)" using pull_loop_length [OF p] by simp
  ultimately show ?thesis using pull_inv_spool [OF assms(2,3), of app_of limit now] assms(1) h by auto
qed

lemma readRecord_same [simp]: "s_resend (snd (readRecordBytesLocked s)) = s_resend s" "s_owed (snd (readRecordBytesLocked s)) = s_owed s"
  "s_ids (snd (readRecordBytesLocked s)) = s_ids s"
  by (simp_all add: readRecordBytesLocked_def on_disk_def case_prod_beta)

lemma persist_keeps:
  assumes "spool_inv s" and "bodies body s"
  shows "s_resend (snd (persistDelivery app_of es s)) = s_resend s \<and> s_owed (snd (persistDelivery app_of es s)) = s_owed s \<and>
    s_ids (snd (persistDelivery app_of es s)) \<subseteq> s_ids s"
proof -
  let ?f = "\<lambda>held. if delivery_matches es held then held\<lparr>e_delivery := e_delivery (the (incoming es (e_id held)))\<rparr> else held"
  let ?s = "s\<lparr>s_entries := map ?f (s_entries s)\<rparr>"
  have f: "e_id (?f e) = e_id e" "e_raw (?f e) = e_raw e" for e by auto
  then have "entry_bytes (?f e) = entry_bytes e" for e by (simp only: entry_bytes_def)
  then have b: "bytes_of (map ?f xs) = bytes_of xs" for xs by (induction xs) (simp_all only: list.map bytes_of_simps)
  have i: "map e_id (map ?f xs) = map e_id xs" for xs using f(1) by (induction xs) (simp_all only: list.map)
  have "spool_inv ?s" using assms(1) by (simp only: spool_inv_entries [OF i b])
  then have "spool_inv (snd (readRecordBytesLocked ?s))" by (simp add: readRecordBytesLocked_def)
  then have sv: "s_resend (snd (saveLocked app_of (snd (readRecordBytesLocked ?s)))) = s_resend s \<and>
      s_owed (snd (saveLocked app_of (snd (readRecordBytesLocked ?s)))) = s_owed s \<and>
      s_ids (snd (saveLocked app_of (snd (readRecordBytesLocked ?s)))) \<subseteq> s_ids s"
    using save_keeps [of "snd (readRecordBytesLocked ?s)" app_of] by (simp add: spool_inv_def)
  have n: "s_resend (snd (readRecordBytesLocked ?s)) = s_resend s" "s_owed (snd (readRecordBytesLocked ?s)) = s_owed s"
    "s_ids (snd (readRecordBytesLocked ?s)) = s_ids s" by simp_all
  show ?thesis using sv n unfolding persistDelivery_def Let_def case_prod_beta by (simp split: read_result.splits)
qed

lemma mild_persist: "mild body s (snd (persistDelivery app_of es s))"
  using persist_delivery_inv [of s body app_of es] persist_keeps [of s body app_of es] by (auto simp: mild_def)

lemma mild_deadlines: "mild body s (snd (clearRetryDeadline app_of s))" "mild body s (snd (storeRetryDeadline app_of t s))"
proof -
  have r: "mild body s (snd (saveLocked app_of (s\<lparr>s_retryAfterUntilMS := t\<rparr>)))" for t
    by (rule mild_trans [OF mild_fields mild_save]) simp_all
  have o: "mild body s (s\<lparr>s_retryAfterUntilMS := 0\<rparr>)" by (rule mild_fields) simp_all
  show "mild body s (snd (clearRetryDeadline app_of s))" "mild body s (snd (storeRetryDeadline app_of t s))"
    using r o by (simp_all add: clearRetryDeadline_def storeRetryDeadline_def Let_def case_prod_beta)
qed

lemma set_clock_same [simp]: "e_id (set_clock ids t e) = e_id e" "e_raw (set_clock ids t e) = e_raw e"
  "e_internalFact (set_clock ids t e) = e_internalFact e" "e_application (set_clock ids t e) = e_application e"
  by (simp_all add: set_clock_def)

lemma set_clock_ids [simp]: "map e_id (map (set_clock ids t) es) = map e_id es" by simp

lemma mild_set_clocks: "mild_c body c (set_clocks ids t c)"
proof -
  have "bytes_of (map (set_clock ids t) xs) = bytes_of xs" for xs by (induction xs) (simp_all add: entry_bytes_def)
  then have "spool_inv ((rd_spool c)\<lparr>s_entries := map (set_clock ids t) (s_entries (rd_spool c))\<rparr>) = spool_inv (rd_spool c)"
    by (intro spool_inv_entries) simp_all
  moreover have "host_ids (map (set_clock ids t) es) = host_ids es" for es
    by (induction es) (simp_all only: list.map host_ids_simps set_clock_same)
  ultimately show ?thesis
    by (auto simp: mild_def set_clocks_def bodies_def carries_def spool_inv_def mirror_ok_def caps_ok_def settled_ok_def)
qed

section \<open>The steps of the client\<close>

lemma spool_same [simp]:
  "rd_spool (count f c) = rd_spool c" "rd_spool (notifySpoolDeadLetter cfg r es c) = rd_spool c"
  "rd_spool (snd (recordSpoolExpired cfg es c)) = rd_spool c" "rd_spool (recordSpoolPersistFailure c) = rd_spool c"
  "rd_spool (persist_failure_if b c) = rd_spool c" "rd_spool (notifyBatchResult cfg res c) = rd_spool c"
  by (simp_all add: count_def notifySpoolDeadLetter_def recordSpoolExpired_def recordSpoolPersistFailure_def persist_failure_if_def
      notifyBatchResult_def Let_def case_prod_beta)

lemma drain_spool:
  "rd_spool (snd (drainSpoolCapacityDrops cfg c)) = (rd_spool c)\<lparr>s_becameDurable := 0, s_pendingCapacityDrops := []\<rparr>"
  by (simp add: drainSpoolCapacityDrops_def with_spool_def takeBecameDurable_def takeCapacityDrops_def Let_def)

lemma mild_drain: "mild body s (rd_spool c) \<Longrightarrow> mild body s (rd_spool (snd (drainSpoolCapacityDrops cfg c)))"
  by (erule mild_trans) (rule mild_fields; simp add: drain_spool)

lemma mild_ack_c:
  "mild_c body c (ack_with_verdicts app_of cfg es result c)" "mild_c body c (ack_terminal app_of cfg ids c)"
  "mild_c body c (settleResentChunk app_of cfg es result c)" "mild_c body c (settleExpiredAnalytics app_of cfg es c)"
proof -
  show "mild_c body c (ack_with_verdicts app_of cfg es result c)" for c
    unfolding ack_with_verdicts_def Let_def case_prod_beta
    by (rule mild_drain) (simp add: with_spool_def Let_def case_prod_beta mild_ack)
  note a = this
  show "mild_c body c (settleResentChunk app_of cfg es result c)"
  proof -
    let ?c = "count (\<lambda>st. st\<lparr>spoolResent := spoolResent st + of_nat (length (filter (\<lambda>e. spoolVerdictDropReason (verdict result (e_id e)) = None) es))\<rparr>) c"
    have "mild_c body c (ack_with_verdicts app_of cfg es result ?c)" using a [of ?c] by (simp only: spool_same)
    then show ?thesis using a [of c] by (simp add: settleResentChunk_def Let_def)
  qed
  show "mild_c body c (ack_terminal app_of cfg ids c)"
    by (simp add: ack_terminal_def with_spool_def Let_def case_prod_beta mild_ack)
  show "mild_c body c (settleExpiredAnalytics app_of cfg es c)"
    by (simp add: settleExpiredAnalytics_def with_spool_def Let_def case_prod_beta mild_ack)
qed

lemma mild_expire: "mild_c body c (snd (expireResendChunk app_of cfg now chunk c))"
  by (simp add: expireResendChunk_def mild_ack_c)

lemma mild_store: "mild_c body c (spoolStoreResendDeadline app_of cfg now err c)"
proof (cases "err = Some AgePending")
  case False
  then show ?thesis
    unfolding spoolStoreResendDeadline_def Let_def case_prod_beta if_not_P [OF False]
    by (intro mild_drain) (auto simp: with_spool_def Let_def case_prod_beta mild_deadlines)
qed (simp add: spoolStoreResendDeadline_def)

lemma mild_persist_clocks: "mild_c body c (snd (persist_clocks app_of es c))"
  by (simp add: persist_clocks_def with_spool_def Let_def case_prod_beta mild_persist)

lemma mild_begin: "mild_c body c (snd (begin_attempt app_of g now es c))"
proof -
  let ?b = "unstarted es" let ?es = "map (set_clock ?b (unix_milli now)) es"
  let ?c = "snd (persist_clocks app_of ?es (set_clocks ?b (unix_milli now) c))"
  have "mild_c body c ?c" by (rule mild_trans [OF mild_set_clocks mild_persist_clocks])
  moreover have "mild_c body c (set_clocks ?b 0 ?c)" by (rule mild_trans [OF calculation mild_set_clocks])
  ultimately show ?thesis by (simp add: begin_attempt_def Let_def case_prod_beta split: option.split)
qed

lemma mild_finish: "mild_c body c (snd (finish_attempt app_of begun u es c))"
  using mild_trans [OF mild_set_clocks mild_persist_clocks] by (simp add: finish_attempt_def Let_def)

lemma mild_posts: "mild_c body c (snd (snd (run_posts app_of g posts es c)))"
proof (induction posts arbitrary: es c)
  case (Cons a rest)
  show ?case
  proof (cases "at_ended a")
    case False
    obtain r c1 where b: "begin_attempt app_of g (at_now a) es c = (r, c1)" by (metis surj_pair)
    have m1: "mild_c body c c1" using mild_begin [of body c app_of g "at_now a" es] by (simp add: b)
    show ?thesis
    proof (cases r)
      case (Inl err)
      then show ?thesis using False b m1 by simp
    next
      case (Inr y)
      obtain begun es1 where y: "y = (begun, es1)" by (metis surj_pair)
      let ?c = "c1\<lparr>rd_sent := rd_sent c1 @ [(at_now a, es1)]\<rparr>"
      obtain es2 c2 where f: "finish_attempt app_of begun (at_undelivered a) es1 ?c = (es2, c2)" by (metis surj_pair)
      have "mild_c body ?c c2" using mild_finish [of body ?c app_of begun "at_undelivered a" es1] by (simp add: f)
      then have m2: "mild_c body c c2" using mild_trans [OF m1] by simp
      show ?thesis using False b Inr y f m2 mild_trans [OF m2 Cons.IH [where es = es2]] by simp
    qed
  qed simp
qed simp

lemma mild_success: "mild_c body c (record_success app_of cfg result n c)"
proof -
  have "mild body (rd_spool c) (rd_spool (snd (drainSpoolCapacityDrops cfg (persist_failure_if b (d\<lparr>rd_spool := snd (clearRetryDeadline app_of (rd_spool c))\<rparr>)))))" for b d
    by (rule mild_drain) (simp add: mild_deadlines)
  then show ?thesis
    by (simp add: record_success_def with_spool_def Let_def case_prod_beta)
qed

lemma mild_publish: "mild_c body c (snd (snd (publishRequestResult app_of cfg env es c)))"
proof -
  obtain r es1 c1 where p: "run_posts app_of (pe_gate env) (pe_posts env) es c = (r, es1, c1)" by (metis surj_pair)
  have m: "mild_c body c c1" using mild_posts [of body c app_of "pe_gate env" "pe_posts env" es] by (simp add: p)
  then show ?thesis using mild_trans [OF m mild_success] by (simp add: publishRequestResult_def p Let_def case_prod_beta)
qed

lemma mildD: "mild_c body c c' \<Longrightarrow> rd_inv body c \<Longrightarrow> rd_inv body c' \<and> length (s_resend (rd_spool c')) \<le> length (s_resend (rd_spool c)) \<and>
    s_owed (rd_spool c') = s_owed (rd_spool c) \<and> s_ids (rd_spool c') \<subseteq> s_ids (rd_spool c) \<and>
    host_ids (s_resend (rd_spool c)) \<inter> s_ids (rd_spool c') \<subseteq> host_ids (s_resend (rd_spool c'))"
  by (simp add: mild_def rd_inv_def)

lemma pull_chunk_facts:
  assumes "pull_chunk app_of cfg now c = (chunk, c1)" and "rd_inv body c"
  shows "rd_inv body c1 \<and> length chunk + length (s_resend (rd_spool c1)) \<le> length (s_resend (rd_spool c)) \<and>
    s_owed (rd_spool c1) = s_owed (rd_spool c) \<and> s_ids (rd_spool c1) \<subseteq> s_ids (rd_spool c) \<and>
    host_ids (s_resend (rd_spool c)) \<inter> s_ids (rd_spool c1) \<subseteq> host_ids chunk \<union> host_ids (s_resend (rd_spool c1))"
proof -
  obtain k x f s where p: "pullResendChunk app_of (rf_BatchSize cfg) now (rd_spool c) = (k, x, f, s)" by (metis surj_pair)
  note m = mild_pull [OF p, of body]
  have out: "k = chunk" "c1 = snd (drainSpoolCapacityDrops cfg (persist_failure_if f (snd (recordSpoolExpired cfg x (c\<lparr>rd_spool := s\<rparr>)))))"
    using assms(1) p by (simp_all add: pull_chunk_def with_spool_def Let_def case_prod_beta)
  have d: "mild body s (rd_spool c1)" unfolding out(2) by (rule mild_drain) simp
  have i: "spool_inv (rd_spool c)" "bodies body (rd_spool c)" using assms(2) by (simp_all add: rd_inv_def)
  note m = m [OF i]
  have "length (s_resend (rd_spool c1)) \<le> length (s_resend s)" "spool_inv (rd_spool c1)" "bodies body (rd_spool c1)"
    "s_owed (rd_spool c1) = s_owed s" "s_ids (rd_spool c1) \<subseteq> s_ids s" "host_ids (s_resend s) \<inter> s_ids (rd_spool c1) \<subseteq> host_ids (s_resend (rd_spool c1))"
    using d m by (simp_all add: mild_def)
  then show ?thesis using m out(1) unfolding rd_inv_def by auto
qed

lemma mild_ready: "ready_chunk app_of cfg env held chunk c = (chunk', held', c') \<Longrightarrow> mild_c body c c'"
  using mild_expire by (auto simp: ready_chunk_def separateAgeHeldSpool_def expireResendChunk_def Let_def mild_ack_c)

end
