(* ===== verification/Resend_Guarantees.thy ===== *)
theory Resend_Guarantees
  imports Resend_Steps
begin

text \<open>
  What the resend guarantees: it ends, it strands no event, an acknowledged event is not handed out again, it
  sends nothing past the windows in which the server recognises a repeated event, and the pacing of retries stays
  within its bounds.
\<close>

section \<open>The resend ends\<close>

lemma turn_shortens:
  assumes "resend_turn app_of cfg env (held, p, c) = (TurnAgain, held', p', c')" and "rd_inv body c"
  shows "rd_inv body c' \<and> length (s_resend (rd_spool c')) < length (s_resend (rd_spool c)) \<and> s_ids (rd_spool c') \<subseteq> s_ids (rd_spool c)"
proof -
  obtain pulled c1 where p: "pull_chunk app_of cfg (re_pull env) c = (pulled, c1)" by (metis surj_pair)
  note pf = pull_chunk_facts [OF p assms(2)]
  have ne: "pulled \<noteq> []" using assms(1) p by (auto simp: resend_turn_def)
  then have lt: "length (s_resend (rd_spool c1)) < length (s_resend (rd_spool c))" using pf by (cases pulled) auto
  obtain chunk h c2 where r: "ready_chunk app_of cfg env held pulled c1 = (chunk, h, c2)" by (metis surj_pair)
  have m2: "mild_c body c1 c2" by (rule mild_ready [OF r])
  have "mild_c body c1 c'"
  proof (cases "chunk = []")
    case True
    then show ?thesis using assms(1) p ne r m2 by (simp add: resend_turn_def)
  next
    case False
    obtain err result es c3 where u: "publishRequestResult app_of cfg (re_publish env) chunk c2 = ((err, result), es, c3)" by (metis surj_pair)
    have m3: "mild_c body c1 c3" using mild_trans [OF m2 mild_publish [of body c2 app_of cfg "re_publish env" chunk]] by (simp add: u)
    have "c' = notifyBatchResult cfg (toPublic result) (settleResentChunk app_of cfg es result c3) \<or> c' = ack_terminal app_of cfg (map e_id es) c3"
      using assms(1) p ne r False u by (auto simp: resend_turn_def Let_def split: if_splits)
    then show ?thesis using mild_trans [OF m3 mild_ack_c(3)] mild_trans [OF m3 mild_ack_c(2)] by auto
  qed
  from mildD [OF this] pf lt show ?thesis by auto
qed

lemma resend_loop_ends:
  "rd_inv body c \<Longrightarrow> length (s_resend (rd_spool c)) < length envs \<Longrightarrow> fst (resend_loop app_of cfg envs (held, p, c)) \<noteq> None"
proof (induction envs arbitrary: held p c)
  case (Cons env envs)
  obtain r held' p' c' where t: "resend_turn app_of cfg env (held, p, c) = (r, held', p', c')" by (metis surj_pair)
  show ?case
  proof (cases r)
    case TurnAgain
    from turn_shortens [OF t [unfolded TurnAgain] Cons.prems(1)] Cons show ?thesis by (simp add: t TurnAgain)
  qed (simp add: t)
qed simp

lemma resend_returns:
  assumes "rd_inv body c" and "length (s_resend (rd_spool c)) < length envs"
  shows "fst (resendSpooledChunks app_of cfg envs (p, c)) \<noteq> None"
  using resend_loop_ends [of body c envs app_of cfg "[]" p] assms
  by (cases "resend_loop app_of cfg envs ([], p, c)") (simp add: resendSpooledChunks_def case_prod_beta)

section \<open>No event is stranded\<close>

lemma save_not_denied: "fst (saveLocked app_of s) \<noteq> Some ErrConsentDenied"
  by (simp add: saveLocked_def save_written_def Let_def case_prod_beta split: option.split)

lemma persist_denied: "fst (persistDelivery app_of es s) = Some ErrConsentDenied \<Longrightarrow> s_owed s"
  by (auto simp: persistDelivery_def Let_def case_prod_beta save_not_denied split: if_splits read_result.splits)

lemma begin_denied: "fst (begin_attempt app_of g now es c) = Inl DeniedError \<Longrightarrow> s_owed (rd_spool c)"
proof -
  let ?es = "map (set_clock (unstarted es) (unix_milli now)) es"
  assume "fst (begin_attempt app_of g now es c) = Inl DeniedError"
  then have "fst (persistDelivery app_of ?es (rd_spool (set_clocks (unstarted es) (unix_milli now) c))) = Some ErrConsentDenied"
    by (simp add: begin_attempt_def persist_clocks_def with_spool_def Let_def case_prod_beta split: if_splits option.splits)
  from persist_denied [OF this] show ?thesis by (simp add: set_clocks_def)
qed

lemma begin_hosts: "begin_attempt app_of g t es c = (Inr (begun, es'), c') \<Longrightarrow> es' = map (set_clock (unstarted es) (unix_milli t)) es"
  by (auto simp: begin_attempt_def Let_def case_prod_beta split: if_splits option.splits)

text \<open>The copies a publish works on differ from the chunk in their clocks only.\<close>

definition same_events :: "spoolEntry list \<Rightarrow> spoolEntry list \<Rightarrow> bool" where
  "same_events es es' \<longleftrightarrow> map e_id es' = map e_id es \<and> map e_internalFact es' = map e_internalFact es"

lemma same_refl [simp]: "same_events es es" by (simp add: same_events_def)
lemma same_trans: "same_events a b \<Longrightarrow> same_events b c \<Longrightarrow> same_events a c" by (simp add: same_events_def)
lemma same_clock: "same_events es (map (set_clock ids t) es)" by (simp add: same_events_def)

lemma same_hosts: "same_events es es' \<Longrightarrow> host_ids es' = host_ids es"
proof (induction es arbitrary: es')
  case (Cons e es)
  from Cons.prems obtain f fs where f: "es' = f # fs" by (cases es') (auto simp: same_events_def)
  with Cons.prems have h: "e_id f = e_id e" "e_internalFact f = e_internalFact e" and t: "same_events es fs" by (simp_all add: same_events_def)
  show ?case using Cons.IH [OF t] by (simp only: f host_ids_simps h)
qed (simp add: same_events_def)

lemma same_finish: "same_events es (fst (finish_attempt app_of begun u es c))"
  by (simp add: finish_attempt_def Let_def same_clock)

lemma posts_events:
  "run_posts app_of g posts es c = ((err, result), es', c') \<Longrightarrow> rd_inv body c \<Longrightarrow>
   same_events es es' \<and> (err = Some DeniedError \<longrightarrow> s_owed (rd_spool c))"
proof (induction posts arbitrary: es c)
  case (Cons a rest)
  show ?case
  proof (cases "at_ended a")
    case True
    then show ?thesis using Cons.prems by auto
  next
    case False
    obtain r c1 where b: "begin_attempt app_of g (at_now a) es c = (r, c1)" by (metis surj_pair)
    show ?thesis
    proof (cases r)
      case (Inl e)
      then show ?thesis using False b Cons.prems begin_denied [of app_of g "at_now a" es c] by auto
    next
      case (Inr y)
      obtain begun es1 where y: "y = (begun, es1)" by (metis surj_pair)
      have m1: "mild_c body c c1" using mild_begin [of body c app_of g "at_now a" es] by (simp add: b)
      let ?c = "c1\<lparr>rd_sent := rd_sent c1 @ [(at_now a, es1)]\<rparr>"
      obtain es2 c2 where f: "finish_attempt app_of begun (at_undelivered a) es1 ?c = (es2, c2)" by (metis surj_pair)
      have "mild_c body ?c c2" using mild_finish [of body ?c app_of begun "at_undelivered a" es1] by (simp add: f)
      then have m2: "mild_c body c c2" using mild_trans [OF m1] by simp
      have s1: "same_events es es1" using begin_hosts [OF b [unfolded Inr y]] by (simp add: same_clock)
      have "same_events es1 es2" using same_finish [of es1 app_of begun "at_undelivered a" ?c] unfolding f by simp
      with s1 have s2: "same_events es es2" by (rule same_trans)
      show ?thesis
      proof (cases "serverRefusedCompression (at_error a) \<and> rest \<noteq> []")
        case True
        then have "run_posts app_of g rest es2 c2 = ((err, result), es', c')" using Cons.prems(1) False b Inr y f by simp
        from Cons.IH [OF this] mildD [OF m2 Cons.prems(2)] same_trans [OF s2] show ?thesis by auto
      next
        case stop: False
        then have "es' = es2" "err = map_option TransportError (at_error a)" using Cons.prems(1) False b Inr y f by (auto split: if_splits)
        then show ?thesis using s2 by auto
      qed
    qed
  qed
qed auto

lemma publish_events:
  assumes "publishRequestResult app_of cfg env es c = ((err, result), es', c')" and "rd_inv body c"
    and "\<not> pe_denied env" and "\<not> pe_cancelled env"
  shows "same_events es es' \<and> (err = Some DeniedError \<longrightarrow> s_owed (rd_spool c))"
proof -
  obtain e r es1 c1 where p: "run_posts app_of (pe_gate env) (pe_posts env) es c = ((e, r), es1, c1)" by (metis surj_pair)
  show ?thesis using posts_events [OF p assms(2)] assms(1,3,4) p by (auto simp: publishRequestResult_def Let_def split: if_splits)
qed

text \<open>What a step acknowledges is gone from the spool.\<close>

lemma drain_keeps_ids: "s_ids (rd_spool (snd (drainSpoolCapacityDrops cfg c))) = s_ids (rd_spool c)" by (simp add: drain_spool)

lemma ack_leaves:
  assumes "rd_inv body c"
  shows "s_ids (rd_spool (settleResentChunk app_of cfg es result c)) \<inter> e_id ` set es = {}"
    "s_ids (rd_spool (ack_terminal app_of cfg ids c)) \<inter> set ids = {}"
    "s_ids (rd_spool (settleExpiredAnalytics app_of cfg es c)) \<inter> e_id ` set es = {}"
proof -
  have a: "s_ids (snd (snd (ack app_of is (rd_spool c)))) \<inter> set is = {}" for "is"
    using ack_keeps [of "rd_spool c" app_of "is"] assms by (auto simp: rd_inv_def Let_def)
  have v: "s_ids (rd_spool (ack_with_verdicts app_of cfg es result d)) = s_ids (snd (snd (ack app_of (map e_id es) (rd_spool d))))" for d
    by (simp add: ack_with_verdicts_def with_spool_def drain_keeps_ids Let_def case_prod_beta)
  show "s_ids (rd_spool (settleResentChunk app_of cfg es result c)) \<inter> e_id ` set es = {}"
    using a [of "map e_id es"] by (simp add: settleResentChunk_def v Let_def)
  show "s_ids (rd_spool (ack_terminal app_of cfg ids c)) \<inter> set ids = {}"
    using a [of ids] by (simp add: ack_terminal_def with_spool_def Let_def case_prod_beta)
  show "s_ids (rd_spool (settleExpiredAnalytics app_of cfg es c)) \<inter> e_id ` set es = {}"
    using a [of "map e_id es"] by (cases "es = []") (simp_all add: settleExpiredAnalytics_def with_spool_def Let_def case_prod_beta)
qed

lemma ready_hosts:
  assumes "ready_chunk app_of cfg env held chunk c = (chunk', held', c')" and "rd_inv body c"
  shows "host_ids chunk \<inter> s_ids (rd_spool c') \<subseteq> host_ids chunk'"
proof -
  let ?g = "pe_gate (re_publish env)"
  let ?k = "dropKeyWithdrawnSpoolChunkMembers ?g (re_pulledAt env) (dropWithdrawnSpoolChunkMembers app_of ?g chunk)"
  let ?x = "filter (\<lambda>e. spoolEntryExpired e (re_expire env)) ?k"
  have out: "c' = settleExpiredAnalytics app_of cfg ?x c"
    "chunk' = filter (\<lambda>e. \<not> age_held ?g e) (filter (\<lambda>e. \<not> spoolEntryExpired e (re_expire env)) ?k)"
    using assms(1) by (auto simp: ready_chunk_def expireResendChunk_def separateAgeHeldSpool_def Let_def)
  have k: "\<not> e_internalFact e \<Longrightarrow> e \<in> set chunk \<Longrightarrow> e \<in> set ?k" for e
    by (simp add: dropKeyWithdrawnSpoolChunkMembers_def dropWithdrawnSpoolChunkMembers_def key_withdrawn_def)
  have gone: "s_ids (rd_spool c') \<inter> e_id ` set ?x = {}" unfolding out(1) by (rule ack_leaves(3) [OF assms(2)])
  show ?thesis
  proof
    fix i assume i: "i \<in> host_ids chunk \<inter> s_ids (rd_spool c')"
    then obtain e where e: "e \<in> set chunk" "\<not> e_internalFact e" "i = e_id e" by (auto simp: host_ids_def)
    then have "\<not> spoolEntryExpired e (re_expire env)" using k [of e] gone i by auto
    then show "i \<in> host_ids chunk'" using e k [of e] unfolding out(2) host_ids_def by (auto simp: age_held_def)
  qed
qed

lemma pull_unowed: "pull_chunk app_of cfg now c = (chunk, c1) \<Longrightarrow> chunk \<noteq> [] \<Longrightarrow> \<not> s_owed (rd_spool c)"
  by (auto simp: pull_chunk_def with_spool_def pullResendChunk_def Let_def case_prod_beta split: if_splits)

lemma turn_keeps_hosts:
  assumes "resend_turn app_of cfg env (held, p, c) = (r, held', p', c')" and "rd_inv body c"
    and "\<not> pe_denied (re_publish env)" and "\<not> pe_cancelled (re_publish env)"
  shows "s_ids (rd_spool c') \<subseteq> s_ids (rd_spool c) \<and> host_ids (s_resend (rd_spool c)) \<inter> s_ids (rd_spool c') \<subseteq> host_ids (s_resend (rd_spool c'))"
proof -
  obtain pulled c1 where p: "pull_chunk app_of cfg (re_pull env) c = (pulled, c1)" by (metis surj_pair)
  note pf = pull_chunk_facts [OF p assms(2)]
  show ?thesis
  proof (cases "pulled = []")
    case True
    then show ?thesis using assms(1) p pf by (auto simp: resend_turn_def)
  next
    case ne: False
    obtain chunk h c2 where r: "ready_chunk app_of cfg env held pulled c1 = (chunk, h, c2)" by (metis surj_pair)
    have "rd_inv body c1" using pf by simp
    note m2 = mildD [OF mild_ready [OF r] this] and rh = ready_hosts [OF r this]
    have two: "s_ids (rd_spool c2) \<subseteq> s_ids (rd_spool c)" "host_ids (s_resend (rd_spool c)) \<inter> s_ids (rd_spool c2) \<subseteq> host_ids chunk \<union> host_ids (s_resend (rd_spool c2))"
      using pf m2 rh by blast+
    show ?thesis
    proof (cases "chunk = []")
      case True
      then show ?thesis using assms(1) p ne r two by (simp add: resend_turn_def)
    next
      case False
      obtain err result es c3 where u: "publishRequestResult app_of cfg (re_publish env) chunk c2 = ((err, result), es, c3)" by (metis surj_pair)
      have i2: "rd_inv body c2" using m2 by simp
      note ev = publish_events [OF u i2 assms(3,4)]
      have "\<not> s_owed (rd_spool c2)" using pull_unowed [OF p ne] pf m2 by simp
      then have nd: "err \<noteq> Some DeniedError" using ev by blast
      have hs: "host_ids es = host_ids chunk" using ev by (simp add: same_hosts)
      have m3: "mild_c body c2 c3" using mild_publish [of body c2 app_of cfg "re_publish env" chunk] by (simp add: u)
      have i3: "rd_inv body c3" using mildD [OF m3 i2] by simp
      have later: "s_ids (rd_spool d) \<subseteq> s_ids (rd_spool c) \<and> host_ids (s_resend (rd_spool c)) \<inter> s_ids (rd_spool d) \<subseteq> host_ids es \<union> host_ids (s_resend (rd_spool d))"
        if "mild_c body c3 d" for d
        using mildD [OF mild_trans [OF m3 that] i2] two unfolding hs by blast
      consider (settled) "c' = notifyBatchResult cfg (toPublic result) (settleResentChunk app_of cfg es result c3)"
        | (gone) "c' = ack_terminal app_of cfg (map e_id es) c3"
        | (again) d where "d = spoolStoreResendDeadline app_of cfg (re_after env) err c3" "c' = d\<lparr>rd_spool := requeueResend es (rd_spool d)\<rparr>"
        using assms(1) p ne r False u nd by (auto simp: resend_turn_def Let_def split: if_splits)
      then show ?thesis
      proof cases
        case settled
        then have "mild_c body c3 c'" "s_ids (rd_spool c') \<inter> e_id ` set es = {}"
          using mild_ack_c(3) [of body c3 app_of cfg es result] ack_leaves(1) [OF i3, of app_of cfg es result] by simp_all
        with later [of c'] host_ids_sub [of es] show ?thesis by blast
      next
        case gone
        then have "mild_c body c3 c'" "s_ids (rd_spool c') \<inter> e_id ` set es = {}"
          using mild_ack_c(2) [of body c3 app_of cfg "map e_id es"] ack_leaves(2) [OF i3, of app_of cfg "map e_id es"] by simp_all
        with later [of c'] host_ids_sub [of es] show ?thesis by blast
      next
        case again
        have "mild_c body c3 d" unfolding again(1) by (rule mild_store)
        from later [OF this] show ?thesis by (auto simp: again(2) requeueResend_def host_ids_def)
      qed
    qed
  qed
qed

lemma loop_keeps_hosts:
  "rd_inv body c \<Longrightarrow> \<forall>env \<in> set envs. \<not> pe_denied (re_publish env) \<and> \<not> pe_cancelled (re_publish env) \<Longrightarrow>
   resend_loop app_of cfg envs (held, p, c) = (res, held', p', c') \<Longrightarrow>
   s_ids (rd_spool c') \<subseteq> s_ids (rd_spool c) \<and> host_ids (s_resend (rd_spool c)) \<inter> s_ids (rd_spool c') \<subseteq> host_ids (s_resend (rd_spool c'))"
proof (induction envs arbitrary: held p c)
  case (Cons env envs)
  obtain r held1 p1 c1 where t: "resend_turn app_of cfg env (held, p, c) = (r, held1, p1, c1)" by (metis surj_pair)
  have k: "s_ids (rd_spool c1) \<subseteq> s_ids (rd_spool c) \<and> host_ids (s_resend (rd_spool c)) \<inter> s_ids (rd_spool c1) \<subseteq> host_ids (s_resend (rd_spool c1))"
    using turn_keeps_hosts [OF t Cons.prems(1)] Cons.prems(2) by simp
  show ?case
  proof (cases r)
    case TurnAgain
    then have "resend_loop app_of cfg envs (held1, p1, c1) = (res, held', p', c')" using Cons.prems(3) t by simp
    from Cons.IH [OF _ _ this] turn_shortens [OF t [unfolded TurnAgain] Cons.prems(1)] Cons.prems(2) k show ?thesis by fastforce
  qed (use Cons.prems(3) t k in simp)
qed simp

text \<open>C11. A resend returns and strands no event of the host.  Whatever the answers of the network, the faults of the disk
  and the withdrawals of experiments, the loop returns after at most as many turns as the resend queue has entries,
  plus one; and as long as analytics is not denied meanwhile, an event that was due for resending and that the
  spool still holds when the resend returns is due for resending again: it leaves the queue only by leaving the
  spool, acknowledged, expired or evicted.\<close>

theorem resend_strands_nothing:
  assumes "spool_inv (rd_spool c)" and "bodies body (rd_spool c)" and "length (s_resend (rd_spool c)) < length envs"
    and "resendSpooledChunks app_of cfg envs (p, c) = (res, p', c')"
  shows "res \<noteq> None \<and>
    ((\<forall>env \<in> set envs. \<not> pe_denied (re_publish env) \<and> \<not> pe_cancelled (re_publish env)) \<longrightarrow>
     (\<forall>e \<in> set (s_resend (rd_spool c)). \<not> e_internalFact e \<and> e_id e \<in> s_ids (rd_spool c') \<longrightarrow>
        e_id e \<in> e_id ` set (s_resend (rd_spool c'))))"
proof -
  have inv: "rd_inv body c" using assms(1,2) by (simp add: rd_inv_def)
  obtain r held q d where l: "resend_loop app_of cfg envs ([], p, c) = (r, held, q, d)" by (metis surj_pair)
  have out: "c' = requeue_held held d" using assms(4) l by (simp add: resendSpooledChunks_def)
  then have same: "s_ids (rd_spool c') = s_ids (rd_spool d)" "set (s_resend (rd_spool d)) \<subseteq> set (s_resend (rd_spool c'))"
    by (auto simp: requeue_held_def requeueResend_def)
  have kept: "e_id e \<in> e_id ` set (s_resend (rd_spool c'))"
    if "\<forall>env \<in> set envs. \<not> pe_denied (re_publish env) \<and> \<not> pe_cancelled (re_publish env)"
      "e \<in> set (s_resend (rd_spool c))" "\<not> e_internalFact e" "e_id e \<in> s_ids (rd_spool c')" for e
  proof -
    from loop_keeps_hosts [OF inv that(1) l] have "host_ids (s_resend (rd_spool c)) \<inter> s_ids (rd_spool c') \<subseteq> host_ids (s_resend (rd_spool d))"
      by (simp only: same(1))
    moreover have "e_id e \<in> host_ids (s_resend (rd_spool c))" using that(2,3) by (auto simp: host_ids_def)
    ultimately have "e_id e \<in> host_ids (s_resend (rd_spool d))" using that(4) by blast
    then show ?thesis using same(2) by (auto simp: host_ids_def)
  qed
  have "res \<noteq> None" using resend_returns [OF inv assms(3), of app_of cfg p] assms(4) by simp
  with kept show ?thesis by blast
qed

section \<open>An acknowledged event\<close>

text \<open>What a spool may go through after an acknowledgement without the host tracking anew: any of its operations but an
  append, a replacement and a load, with other processes writing its directory in between.  A requeue may put
  back a chunk that was in flight.\<close>

inductive later_step :: "(gostring \<Rightarrow> gostring option) \<Rightarrow> (gostring \<Rightarrow> gostring) \<Rightarrow> diskSpool \<Rightarrow> diskSpool \<Rightarrow> bool" for app_of body where
  later_ack: "later_step app_of body s (snd (snd (ack app_of ids s)))"
| later_pull: "later_step app_of body s (snd (snd (snd (pullResendChunk app_of limit now s))))"
| later_requeue: "carries body chunk \<Longrightarrow> later_step app_of body s (requeueResend chunk s)"
| later_retry: "later_step app_of body s (snd (snd (retryPersist app_of s)))"
| later_store: "later_step app_of body s (snd (storeRetryDeadline app_of deadline s))"
| later_clear: "later_step app_of body s (snd (clearRetryDeadline app_of s))"
| later_drops: "later_step app_of body s (snd (takeCapacityDrops s))"
| later_durable: "later_step app_of body s (snd (takeBecameDurable s))"
| later_delivery: "later_step app_of body s (snd (persistDelivery app_of es s))"
| later_grant: "later_step app_of body s (s\<lparr>s_grantPersisted := g\<rparr>)"
| later_outside: "later_step app_of body s (s\<lparr>s_disk := d\<rparr>)"

inductive later :: "(gostring \<Rightarrow> gostring option) \<Rightarrow> (gostring \<Rightarrow> gostring) \<Rightarrow> diskSpool \<Rightarrow> diskSpool \<Rightarrow> bool" for app_of body where
  later_now: "later app_of body s s"
| later_then: "later app_of body s s1 \<Longrightarrow> later_step app_of body s1 s2 \<Longrightarrow> later app_of body s s2"

lemma later_step_spool: "later_step app_of body s s' \<Longrightarrow> spool_step app_of body s s'"
  by (induction rule: later_step.induct) (auto intro: spool_step.intros)

lemma mild_ids: "mild body s s' \<Longrightarrow> spool_inv s \<Longrightarrow> bodies body s \<Longrightarrow> s_ids s' \<subseteq> s_ids s"
  by (simp add: mild_def)

lemma later_step_ids:
  "later_step app_of body s s' \<Longrightarrow> spool_inv s \<Longrightarrow> bodies body s \<Longrightarrow> s_ids s' \<subseteq> s_ids s"
proof (induction rule: later_step.induct)
  case (later_ack s ids)
  then show ?case by (rule mild_ids [OF mild_ack])
next
  case (later_pull s limit now)
  then show ?case using mild_pull [of app_of limit now s _ _ _ _ body] by (cases "pullResendChunk app_of limit now s") auto
next
  case (later_retry s)
  then show ?case using mild_ids [OF mild_save] by (simp add: retryPersist_def Let_def case_prod_beta)
next
  case (later_store s deadline)
  then show ?case by (rule mild_ids [OF mild_deadlines(2)])
next
  case (later_clear s)
  then show ?case by (rule mild_ids [OF mild_deadlines(1)])
next
  case (later_delivery s es)
  then show ?case by (rule mild_ids [OF mild_persist])
qed (simp_all add: requeueResend_def takeCapacityDrops_def takeBecameDurable_def)

lemma later_ids:
  "later app_of body s s' \<Longrightarrow> spool_inv s \<Longrightarrow> bodies body s \<Longrightarrow> spool_inv s' \<and> bodies body s' \<and> s_ids s' \<subseteq> s_ids s"
proof (induction rule: later.induct)
  case (later_then s s1 s2)
  then show ?case using step_inv [OF later_step_spool [OF later_then.hyps(2)]] later_step_ids [OF later_then.hyps(2)] by auto
qed simp


section \<open>The windows of a request\<close>

text \<open>An entry may be handed to the network at an instant only with its clock started and within both windows.\<close>

definition in_window :: "nanos \<Rightarrow> spoolEntry \<Rightarrow> bool" where
  "in_window t e \<longleftrightarrow> \<not> e_application e \<and>
     (\<exists>d. e_delivery e = Some d \<and> 0 < intakeMS d \<and> intakeMS d \<le> ambiguousMS d \<and> ambiguousMS d \<le> unix_milli t \<and>
        unix_milli t - intakeMS d < 7 * 24 * 60 * 60 * 1000 \<and> unix_milli t - ambiguousMS d < 15 * 60 * 1000)"

lemma marked_in_window:
  assumes "\<not> spoolEntryExpired e t" and "\<not> e_application e" and "e \<in> set es"
  shows "in_window t (set_clock (unstarted es) (unix_milli t) e)"
proof -
  obtain d where d: "e_delivery e = Some d" "\<not> delivery_expired (Some d) t"
    using assms(1) by (cases "e_delivery e") (auto simp: spoolEntryExpired_def delivery_expired_def)
  note w = d(2) [unfolded delivery_expired_def, simplified Let_def option.case]
  show ?thesis
  proof (cases "e_id e \<in> unstarted es")
    case True
    then show ?thesis using w d(1) assms(2) by (auto simp: in_window_def set_clock_def split: if_splits)
  next
    case False
    then have "ambiguousMS d \<noteq> 0" using assms(3) d(1) by (auto simp: unstarted_def)
    then show ?thesis using w d(1) assms(2) False by (auto simp: in_window_def set_clock_def split: if_splits)
  qed
qed

text \<open>What a step hands to the network, among the identifiers given.\<close>

definition hands_out :: "gostring set \<Rightarrow> resend_client \<Rightarrow> resend_client \<Rightarrow> bool" where
  "hands_out ids c c' \<longleftrightarrow> (\<exists>new. rd_sent c' = rd_sent c @ new \<and> (\<forall>(t, es) \<in> set new. \<forall>e \<in> set es. in_window t e \<and> e_id e \<in> ids))"

lemma hands_refl: "rd_sent c' = rd_sent c \<Longrightarrow> hands_out ids c c'" by (simp add: hands_out_def)

lemma hands_trans: "hands_out ids c d \<Longrightarrow> hands_out ids d e \<Longrightarrow> hands_out ids c e"
  by (fastforce simp: hands_out_def)

lemma hands_mono: "hands_out ids c d \<Longrightarrow> ids \<subseteq> ids' \<Longrightarrow> hands_out ids' c d"
  by (fastforce simp: hands_out_def)

lemma sent_same [simp]:
  "rd_sent (count f c) = rd_sent c" "rd_sent (notifySpoolDeadLetter cfg r es c) = rd_sent c" "rd_sent (recordSpoolPersistFailure c) = rd_sent c"
  "rd_sent (snd (with_spool f' c)) = rd_sent c" "rd_sent (notifyBatchResult cfg res c) = rd_sent c" "rd_sent (set_clocks ids t c) = rd_sent c"
  by (simp_all add: count_def notifySpoolDeadLetter_def recordSpoolPersistFailure_def notifyBatchResult_def with_spool_def set_clocks_def
      Let_def case_prod_beta)

lemma sent_failure [simp]: "rd_sent (persist_failure_if b c) = rd_sent c" by (simp add: persist_failure_if_def)

lemma sent_expired [simp]: "rd_sent (snd (recordSpoolExpired cfg es c)) = rd_sent c"
  by (simp add: recordSpoolExpired_def Let_def case_prod_beta)

lemma sent_drain [simp]: "rd_sent (snd (drainSpoolCapacityDrops cfg c)) = rd_sent c"
  by (simp add: drainSpoolCapacityDrops_def Let_def case_prod_beta)

lemma sent_persist [simp]: "rd_sent (snd (persist_clocks app_of es c)) = rd_sent c"
  by (simp add: persist_clocks_def Let_def case_prod_beta)

lemma sent_ack [simp]: "rd_sent (ack_with_verdicts app_of cfg es result c) = rd_sent c" "rd_sent (ack_terminal app_of cfg is c) = rd_sent c"
  "rd_sent (settleExpiredAnalytics app_of cfg es c) = rd_sent c"
  by (simp_all add: ack_with_verdicts_def ack_terminal_def settleExpiredAnalytics_def Let_def case_prod_beta)

lemma sent_settle [simp]: "rd_sent (settleResentChunk app_of cfg es result c) = rd_sent c"
  by (simp add: settleResentChunk_def Let_def)

lemma sent_store [simp]: "rd_sent (spoolStoreResendDeadline app_of cfg now err c) = rd_sent c"
  by (simp add: spoolStoreResendDeadline_def Let_def case_prod_beta)

lemma sent_finish [simp]: "rd_sent (snd (finish_attempt app_of begun u es c)) = rd_sent c"
  by (simp add: finish_attempt_def Let_def)

lemma sent_begin [simp]: "rd_sent (snd (begin_attempt app_of g now es c)) = rd_sent c"
  by (simp add: begin_attempt_def Let_def case_prod_beta split: option.split)

lemma sent_success [simp]: "rd_sent (record_success app_of cfg result n c) = rd_sent c"
  by (simp add: record_success_def Let_def case_prod_beta)

lemma sent_pull [simp]: "rd_sent (snd (pull_chunk app_of cfg now c)) = rd_sent c"
  by (simp add: pull_chunk_def Let_def case_prod_beta)

lemma sent_requeue [simp]: "rd_sent (requeue_held es c) = rd_sent c" by (simp add: requeue_held_def)

lemma begin_marks:
  "begin_attempt app_of g t es c = (Inr (begun, es'), c') \<Longrightarrow>
   es' = map (set_clock (unstarted es) (unix_milli t)) es \<and> (\<forall>e \<in> set es. \<not> spoolEntryExpired e t)"
  by (auto simp: begin_attempt_def Let_def case_prod_beta list_ex_iff split: if_splits option.splits)

lemma finish_same: "map e_application (fst (finish_attempt app_of begun u es c)) = map e_application es"
  "map e_id (fst (finish_attempt app_of begun u es c)) = map e_id es"
  by (simp_all add: finish_attempt_def Let_def)

lemma posts_hand_out: "\<forall>e \<in> set es. \<not> e_application e \<Longrightarrow> hands_out (e_id ` set es) c (snd (snd (run_posts app_of g posts es c)))"
proof (induction posts arbitrary: es c)
  case Nil
  then show ?case by (simp add: hands_refl)
next
  case (Cons a rest)
  show ?case
  proof (cases "at_ended a")
    case True
    then show ?thesis by (simp add: hands_refl)
  next
    case False
    obtain r c1 where b: "begin_attempt app_of g (at_now a) es c = (r, c1)" by (metis surj_pair)
    have s1: "rd_sent c1 = rd_sent c" using sent_begin [of app_of g "at_now a" es c] by (simp add: b)
    show ?thesis
    proof (cases r)
      case (Inl err)
      then show ?thesis using False b s1 by (simp add: hands_refl)
    next
      case (Inr y)
      obtain begun es1 where y: "y = (begun, es1)" by (metis surj_pair)
      note mk = begin_marks [OF b [unfolded Inr y]]
      let ?c = "c1\<lparr>rd_sent := rd_sent c1 @ [(at_now a, es1)]\<rparr>"
      obtain es2 c2 where f: "finish_attempt app_of begun (at_undelivered a) es1 ?c = (es2, c2)" by (metis surj_pair)
      have s2: "rd_sent c2 = rd_sent c @ [(at_now a, es1)]"
        using sent_finish [of app_of begun "at_undelivered a" es1 ?c] unfolding f by (simp add: s1)
      have "\<forall>e \<in> set es1. in_window (at_now a) e" using mk Cons.prems marked_in_window by auto
      moreover have i1: "e_id ` set es1 = e_id ` set es" using mk by (simp add: image_image)
      ultimately have h: "hands_out (e_id ` set es) c c2" by (auto simp: hands_out_def s2)
      have "map e_application es1 = map e_application es" using mk by simp
      then have "map e_application es2 = map e_application es"
        using finish_same(1) [of app_of begun "at_undelivered a" es1 ?c] unfolding f by simp
      then have "\<forall>e \<in> set es2. \<not> e_application e" using Cons.prems by (metis (mono_tags) imageE image_eqI list.set_map)
      note IH = Cons.IH [OF this, of c2]
      have "map e_id es2 = map e_id es1" using finish_same(2) [of app_of begun "at_undelivered a" es1 ?c] unfolding f by simp
      then have "e_id ` set es2 = e_id ` set es" using i1 by (metis list.set_map)
      then show ?thesis using False b Inr y f h hands_trans [OF h] IH by simp
    qed
  qed
qed

lemma publish_hands_out: "hands_out (e_id ` set es) c (snd (snd (publishRequestResult app_of cfg env es c)))"
proof (cases "list_ex e_application es \<or> list_ex (age_held (pe_gate env)) es \<or> pe_denied env")
  case True
  then show ?thesis by (auto simp: publishRequestResult_def hands_refl)
next
  case False
  obtain err result es1 c1 where p: "run_posts app_of (pe_gate env) (pe_posts env) es c = ((err, result), es1, c1)" by (metis surj_pair)
  have h: "hands_out (e_id ` set es) c c1" using posts_hand_out [of es c app_of "pe_gate env" "pe_posts env"] False by (simp add: p list_ex_iff)
  then show ?thesis using False p
    by (auto simp: publishRequestResult_def Let_def intro: hands_trans [OF h hands_refl])
qed

lemma pulled_held:
  assumes "pull_chunk app_of cfg now c = (chunk, c1)" and "rd_inv body c"
  shows "e_id ` set chunk \<subseteq> s_ids (rd_spool c)"
proof -
  obtain k x f s where p: "pullResendChunk app_of (rf_BatchSize cfg) now (rd_spool c) = (k, x, f, s)" by (metis surj_pair)
  have "k = chunk" using assms(1) p by (simp add: pull_chunk_def with_spool_def Let_def case_prod_beta)
  moreover have "s_ids (rd_spool c) = e_id ` set (s_entries (rd_spool c))" using assms(2) by (simp add: rd_inv_def spool_inv_def mirror_ok_def)
  ultimately show ?thesis using pull_sound [OF p, of body] assms(2) by (auto simp: rd_inv_def)
qed

lemma ready_part: "ready_chunk app_of cfg env held pulled c = (chunk, h, c') \<Longrightarrow> set chunk \<subseteq> set pulled \<and> rd_sent c' = rd_sent c"
  by (auto simp: ready_chunk_def expireResendChunk_def separateAgeHeldSpool_def dropKeyWithdrawnSpoolChunkMembers_def
      dropWithdrawnSpoolChunkMembers_def Let_def split: if_splits)

lemma turn_hands_out:
  assumes "rd_inv body c"
  shows "hands_out (s_ids (rd_spool c)) c (snd (snd (snd (resend_turn app_of cfg env (held, p, c)))))"
proof -
  obtain pulled c1 where p: "pull_chunk app_of cfg (re_pull env) c = (pulled, c1)" by (metis surj_pair)
  have s1: "rd_sent c1 = rd_sent c" using sent_pull [of app_of cfg "re_pull env" c] by (simp add: p)
  obtain chunk h c2 where r: "ready_chunk app_of cfg env held pulled c1 = (chunk, h, c2)" by (metis surj_pair)
  have s2: "rd_sent c2 = rd_sent c" "e_id ` set chunk \<subseteq> s_ids (rd_spool c)" using ready_part [OF r] s1 pulled_held [OF p assms] by auto
  obtain err result es c3 where u: "publishRequestResult app_of cfg (re_publish env) chunk c2 = ((err, result), es, c3)" by (metis surj_pair)
  have "hands_out (s_ids (rd_spool c)) c2 c3"
    using hands_mono [OF publish_hands_out [of chunk c2 app_of cfg "re_publish env"] s2(2)] by (simp add: u)
  then have h3: "hands_out (s_ids (rd_spool c)) c c3" using s2(1) hands_trans [OF hands_refl] by blast
  show ?thesis
    using p s1 r s2(1) u
    by (auto simp: resend_turn_def Let_def intro: hands_refl h3 hands_trans [OF h3 hands_refl])
qed

lemma loop_hands_out: "rd_inv body c \<Longrightarrow> hands_out (s_ids (rd_spool c)) c (snd (snd (snd (resend_loop app_of cfg envs (held, p, c)))))"
proof (induction envs arbitrary: held p c)
  case Nil
  then show ?case by (simp add: hands_refl)
next
  case (Cons env envs)
  obtain r held' p' c' where t: "resend_turn app_of cfg env (held, p, c) = (r, held', p', c')" by (metis surj_pair)
  have h: "hands_out (s_ids (rd_spool c)) c c'" using turn_hands_out [OF Cons.prems, of app_of cfg env held p] by (simp add: t)
  show ?case
  proof (cases r)
    case TurnAgain
    note s = turn_shortens [OF t [unfolded TurnAgain] Cons.prems]
    have "hands_out (s_ids (rd_spool c)) c' (snd (snd (snd (resend_loop app_of cfg envs (held', p', c')))))"
      by (rule hands_mono [OF Cons.IH]) (use s in simp_all)
    then show ?thesis using hands_trans [OF h] by (simp add: t TurnAgain)
  qed (use h in \<open>simp add: t\<close>)
qed


section \<open>Pacing\<close>

lemma backoff_bounds:
  assumes "1 \<le> attempt" and "\<And>d. 0 \<le> d \<Longrightarrow> 0 \<le> jitter d \<and> jitter d \<le> d"
  shows "Second \<le> backoffDelay jitter attempt \<and> backoffDelay jitter attempt \<le> 60 * Second"
proof -
  have p: "1 \<le> (2::int) ^ n" for n by simp
  have c: "Second \<le> backoffCeiling attempt" "backoffCeiling attempt \<le> 60 * Second"
    using assms(1) p by (auto simp: backoffCeiling_def publishBackoffBase_def publishBackoffCap_def duration_defs Let_def)
  moreover have "0 < Second" by (simp add: duration_defs)
  ultimately show ?thesis using assms(2) [of "backoffCeiling attempt - Second"]
    by (simp add: backoffDelay_def publishBackoffBase_def Let_def)
qed

text \<open>The pacing of retries is bounded: a success lifts the deferral and resets the backoff; a permanent failure never
  defers; a failure that is waited out keeps the deferral; every other failure defers by at least a tenth of a second
  and at most a day, and when it counts as an attempt, which it does unless a \<open>Retry-After\<close> says when, by one second to
  one minute.\<close>

lemma pacing_bounded:
  assumes "\<And>d. 0 \<le> d \<Longrightarrow> 0 \<le> jitter d \<and> jitter d \<le> d" and "0 \<le> pc_backoffAttempt p"
    and "\<And>e. status_error err = Some e \<Longrightarrow> RetryAfter e \<le> maxRetryAfter"
  shows "let p' = applyRetryPacing jitter now successes err p in
    0 \<le> pc_backoffAttempt p' \<and> pc_backoffAttempt p' \<le> pc_backoffAttempt p + 1 \<and>
    (err = None \<longrightarrow> pc_deferUntil p' = None \<and> pc_backoffAttempt p' = 0) \<and>
    (err = Some ReceiptPending \<or> err = Some AgePending \<or> isPermanentPublishError err \<longrightarrow> pc_deferUntil p' = pc_deferUntil p) \<and>
    (err \<noteq> None \<and> err \<noteq> Some ReceiptPending \<and> err \<noteq> Some AgePending \<and> \<not> isPermanentPublishError err \<longrightarrow>
      (\<exists>t. pc_deferUntil p' = Some t \<and> now + 100 * Millisecond \<le> t \<and> t \<le> now + 24 * Hour \<and>
        (pc_backoffAttempt p' = pc_backoffAttempt p + 1 \<longrightarrow> now + Second \<le> t \<and> t \<le> now + 60 * Second)))"
proof -
  let ?d = "backoffDelay jitter (pc_backoffAttempt p + 1)"
  have b: "Second \<le> ?d" "?d \<le> 60 * Second" "0 < ?d"
    using backoff_bounds [of "pc_backoffAttempt p + 1" jitter] assms(1,2) by (auto simp: duration_defs)
  have r: "\<not> isPermanentPublishError err" if "status_error err = Some e" "Retryable e" for e
    using that by (auto simp: isPermanentPublishError_def isSchemaRevisionMismatch_def status_error_def Retryable_def
        split: option.splits publish_error.splits post_error.splits)
  show ?thesis
  proof (cases "err = None \<or> err = Some ReceiptPending \<or> err = Some AgePending \<or> isPermanentPublishError err")
    case True
    then show ?thesis using assms(2) r by (auto simp: applyRetryPacing_def isPermanentPublishError_def isSchemaRevisionMismatch_def
        status_error_def Let_def split: option.splits)
  next
    case False
    then have nd: "err \<noteq> Some DeniedError" by (auto simp: isPermanentPublishError_def)
    show ?thesis
    proof (cases "\<exists>e. status_error err = Some e \<and> Retryable e \<and> se_retryAfterPresent e")
      case True
      then show ?thesis using False assms(2) assms(3) by (auto simp: applyRetryPacing_def minRetryNowSpacing_def maxRetryAfter_def duration_defs Let_def)
    next
      case slow: False
      then have "applyRetryPacing jitter now successes err p = p\<lparr>pc_seenSuccesses := successes, pc_backoffAttempt := pc_backoffAttempt p + 1,
          pc_fromRestore := False, pc_deferUntil := Some (now + ?d)\<rparr>"
        using False nd b(3) by (cases "status_error err") (auto simp: applyRetryPacing_def Let_def)
      then show ?thesis using False b assms(2) by (simp add: Let_def duration_defs)
    qed
  qed
qed

section \<open>At a concrete input\<close>

text \<open>One stored event, a request the network fails to deliver.\<close>

definition sample_gate :: experiment_gate where
  "sample_gate = \<lparr>eg_enabled = False, eg_purgeEpoch = 0, eg_keyEpoch = 0, eg_keyWithdrawals = \<lambda>_ _. None, eg_declaring = {}, eg_ageConfirmed = {}\<rparr>"

definition sample_post :: attempt_post where
  "sample_post = \<lparr>at_now = 1700000001000000000, at_ended = False, at_error = Some SendFailed, at_result = zero_batch, at_undelivered = False\<rparr>"

definition sample_publish :: publish_env where
  "sample_publish = \<lparr>pe_gate = sample_gate, pe_denied = False, pe_cancelled = False, pe_posts = [sample_post], pe_text = ''refused''\<rparr>"

definition sample_resend_env :: resend_env where
  "sample_resend_env = \<lparr>re_pulledAt = 0, re_pull = 1700000001000000000, re_expire = 1700000001000000000, re_publish = sample_publish,
     re_after = 1700000002000000000, re_jitter = \<lambda>d. d div 2, re_abandoned = False\<rparr>"

definition sample_resend_config :: resend_config where
  "sample_resend_config = \<lparr>rf_BatchSize = 10, rf_OnSpoolDeadLetter = True, rf_OnBatchResult = True, rf_Logger = True,
     rf_RejectionHistory = 10, rf_secrets = []\<rparr>"

definition sample_resend_client :: resend_client where
  "sample_resend_client = \<lparr>rd_spool = resend_spool, rd_stats = empty_stats, rd_history = empty_history, rd_reported = {}, rd_successes = 0,
     rd_letters = [], rd_results = [], rd_sent = []\<rparr>"

definition sample_pacing :: pacing where
  "sample_pacing = \<lparr>pc_deferUntil = None, pc_backoffAttempt = 0, pc_seenSuccesses = 0, pc_fromRestore = False\<rparr>"

lemmas sample_resend_defs = sample_gate_def sample_post_def sample_publish_def sample_resend_env_def sample_resend_config_def
  sample_resend_client_def sample_pacing_def

lemma sample_resend_ok: "spool_inv (rd_spool sample_resend_client)" "bodies (\<lambda>i. e_raw (sample_entry i)) (rd_spool sample_resend_client)"
proof -
  show "spool_inv (rd_spool sample_resend_client)"
    using sample_spool_ok(1) [of "[]"]
    by (simp add: sample_resend_client_def resend_spool_def spool_inv_def mirror_ok_def caps_ok_def settled_ok_def)
  show "bodies (\<lambda>i. e_raw (sample_entry i)) (rd_spool sample_resend_client)"
    by (simp add: sample_resend_client_def resend_spool_def bodies_def sample_spool_def) (simp add: sample_entry_def)
qed

abbreviation "sample_resend \<equiv> resendSpooledChunks (\<lambda>_. None) sample_resend_config [sample_resend_env, sample_resend_env] (sample_pacing, sample_resend_client)"

lemma sample_fresh: "\<not> spoolEntryExpired (sample_entry ''a'') 1700000001000000000"
  by (simp add: spoolEntryExpired_def delivery_expired_def sample_entry_def unix_milli_def duration_ms_def spoolRetryAgeCap_def duration_defs)

lemma sample_pulled:
  "pull_chunk (\<lambda>_. None) sample_resend_config 1700000001000000000 sample_resend_client =
   ([sample_entry ''a''], sample_resend_client\<lparr>rd_spool := sample_spool []\<rparr>)"
  using sample_fresh
  by (simp add: pull_chunk_def with_spool_def pullResendChunk_def pull_loop.simps sample_resend_defs resend_spool_def sample_spool_def
      newDiskSpool_def sample_disk_def sample_entry_def recordSpoolExpired_def unreportedSpoolExpired_def drainSpoolCapacityDrops_def
      takeBecameDurable_def takeCapacityDrops_def persist_failure_if_def Let_def)

definition sample_marked :: spoolEntry where
  "sample_marked = (sample_entry ''a'')\<lparr>e_delivery := Some \<lparr>intakeMS = 1700000000000, ambiguousMS = 1700000001000\<rparr>\<rparr>"

lemma sample_ready: "ready_chunk (\<lambda>_. None) sample_resend_config sample_resend_env [] [sample_entry ''a''] c = ([sample_entry ''a''], [], c)"
proof -
  have "\<not> e_internalFact (sample_entry ''a'')" by (simp add: sample_entry_def)
  then show ?thesis using sample_fresh
    by (simp add: ready_chunk_def dropWithdrawnSpoolChunkMembers_def dropKeyWithdrawnSpoolChunkMembers_def expireResendChunk_def
        separateAgeHeldSpool_def age_held_def settleExpiredAnalytics_def sample_resend_defs Let_def)
qed

text \<open>What the sample's spool keeps through the turn.\<close>

definition sample_state :: "diskSpool \<Rightarrow> bool" where
  "sample_state s \<longleftrightarrow> s_ids s = {''a'', ''b''} \<and> s_resend s = [] \<and> s_retryAfterUntilMS s = 0 \<and> \<not> s_owed s \<and> s_disk s = sample_disk [] \<and>
     s_becameDurable s = 0 \<and> s_pendingCapacityDrops s = []"

lemma sample_start: "sample_state (sample_spool [])"
  by (simp add: sample_state_def sample_spool_def newDiskSpool_def sample_disk_def)

lemma sample_persist: "sample_state s \<Longrightarrow> fst (persistDelivery (\<lambda>_. None) es s) = None \<and> sample_state (snd (persistDelivery (\<lambda>_. None) es s))"
  by (simp add: sample_state_def persistDelivery_def readRecordBytesLocked_def on_disk_def bounded_read_def sample_disk_def next_outcome_def Let_def)

lemma sample_begin:
  assumes "sample_state (rd_spool c)"
  shows "\<exists>c1. begin_attempt (\<lambda>_. None) sample_gate 1700000001000000000 [sample_entry ''a''] c = (Inr ({''a''}, [sample_marked]), c1) \<and>
    rd_sent c1 = rd_sent c \<and> sample_state (rd_spool c1)"
proof -
  let ?c = "set_clocks {''a''} 1700000001000 c"
  have u: "unstarted [sample_entry ''a''] = {''a''}" by (simp add: unstarted_def sample_entry_def)
  have m: "set_clock {''a''} 1700000001000 (sample_entry ''a'') = sample_marked" by (simp add: set_clock_def sample_marked_def sample_entry_def)
  have t: "unix_milli 1700000001000000000 = 1700000001000" by (simp add: unix_milli_def duration_defs)
  have "sample_state (rd_spool ?c)" using assms by (simp add: sample_state_def set_clocks_def)
  note p = sample_persist [OF this, of "[sample_marked]"]
  have "\<not> age_held sample_gate (sample_entry ''a'')" by (simp add: age_held_def sample_entry_def)
  then show ?thesis using p sample_fresh
    by (simp add: begin_attempt_def u m t persist_clocks_def with_spool_def persist_failure_if_def Let_def case_prod_beta)
qed

lemma sample_published:
  assumes "sample_state (rd_spool c)"
  shows "\<exists>c1. publishRequestResult (\<lambda>_. None) sample_resend_config sample_publish [sample_entry ''a''] c =
      ((Some (TransportError SendFailed), zero_batch), [sample_marked], c1) \<and>
    rd_sent c1 = rd_sent c @ [(1700000001000000000, [sample_marked])] \<and> sample_state (rd_spool c1)"
proof -
  obtain c1 where b: "begin_attempt (\<lambda>_. None) sample_gate 1700000001000000000 [sample_entry ''a''] c = (Inr ({''a''}, [sample_marked]), c1)"
    "rd_sent c1 = rd_sent c" "sample_state (rd_spool c1)" using sample_begin [OF assms] by blast
  have "\<not> age_held sample_gate (sample_entry ''a'')" "\<not> e_application (sample_entry ''a'')" by (simp_all add: age_held_def sample_entry_def)
  then show ?thesis using b
    by (simp add: publishRequestResult_def sample_publish_def sample_post_def finish_attempt_def serverRefusedCompression_def count_def)
qed

lemma sample_turn:
  "\<exists>p c. resend_turn (\<lambda>_. None) sample_resend_config sample_resend_env ([], sample_pacing, sample_resend_client) = (TurnReturn False, [], p, c) \<and>
   rd_sent c = [(1700000001000000000, [sample_marked])] \<and> s_ids (rd_spool c) = {''a'', ''b''}"
proof -
  have "sample_state (rd_spool (sample_resend_client\<lparr>rd_spool := sample_spool []\<rparr>))" by (simp add: sample_start)
  from sample_published [OF this] obtain c1 where u:
    "publishRequestResult (\<lambda>_. None) sample_resend_config sample_publish [sample_entry ''a''] (sample_resend_client\<lparr>rd_spool := sample_spool []\<rparr>) =
      ((Some (TransportError SendFailed), zero_batch), [sample_marked], c1)"
    "rd_sent c1 = [(1700000001000000000, [sample_marked])]" "sample_state (rd_spool c1)"
    by (auto simp: sample_resend_client_def)
  have e: "re_pull sample_resend_env = 1700000001000000000" "re_publish sample_resend_env = sample_publish" by (simp_all add: sample_resend_env_def)
  have d: "spoolStoreResendDeadline (\<lambda>_. None) sample_resend_config now (Some (TransportError SendFailed)) c1 = c1" for now
    using u(3) by (cases c1) (simp add: spoolStoreResendDeadline_def spoolDeadlineFromError_def status_error_def clearRetryDeadline_def with_spool_def sample_state_def
        persist_failure_if_def drainSpoolCapacityDrops_def takeBecameDurable_def takeCapacityDrops_def Let_def)
  show ?thesis using u(2,3)
    by (simp add: resend_turn_def e sample_pulled sample_ready u(1) d isPermanentPublishError_def isSchemaRevisionMismatch_def status_error_def
        requeueResend_def sample_state_def Let_def)
qed

lemma sample_run: "rd_sent (snd (snd sample_resend)) = [(1700000001000000000, [sample_marked])] \<and> s_ids (rd_spool (snd (snd sample_resend))) = {''a'', ''b''}"
proof -
  obtain p c where t: "resend_turn (\<lambda>_. None) sample_resend_config sample_resend_env ([], sample_pacing, sample_resend_client) = (TurnReturn False, [], p, c)"
    "rd_sent c = [(1700000001000000000, [sample_marked])]" "s_ids (rd_spool c) = {''a'', ''b''}" using sample_turn by blast
  then show ?thesis by (simp add: resendSpooledChunks_def requeue_held_def)
qed

theorem resend_strands_nothing_witness: "fst sample_resend \<noteq> None \<and> ''a'' \<in> e_id ` set (s_resend (rd_spool (snd (snd sample_resend))))"
proof -
  obtain res p' c' where r: "sample_resend = (res, p', c')" by (metis surj_pair)
  have n: "length (s_resend (rd_spool sample_resend_client)) < length [sample_resend_env, sample_resend_env]"
    by (simp add: sample_resend_client_def resend_spool_def)
  have "\<forall>env \<in> set [sample_resend_env, sample_resend_env]. \<not> pe_denied (re_publish env) \<and> \<not> pe_cancelled (re_publish env)"
    by (simp add: sample_resend_env_def sample_publish_def)
  moreover have "s_resend (rd_spool sample_resend_client) = [sample_entry ''a'']" "\<not> e_internalFact (sample_entry ''a'')" "e_id (sample_entry ''a'') = ''a''"
    by (simp_all add: sample_resend_client_def resend_spool_def) (simp_all add: sample_entry_def)
  moreover have "''a'' \<in> s_ids (rd_spool c')" using sample_run by (simp add: r)
  ultimately show ?thesis using resend_strands_nothing [OF sample_resend_ok n r] by (simp add: r)
qed


text \<open>An event acknowledged while a chunk with it was in flight, put back afterwards.\<close>

definition sample_acked :: diskSpool where "sample_acked = snd (snd (ack (\<lambda>_. None) [''a''] (sample_spool [])))"


end
