(* ===== verification/Spec2Isabelle.thy ===== *)
theory Spec2Isabelle
  imports Identifiers Batch_Outcomes Event_Queue Consent_Actor Spool_Applications Plan_Roundtrip Remote_Config_Machine
    Consent_Startup Dispatch_Termination Resend_Guarantees
begin

text \<open>
  A model of the ShardPilot Go analytics client, with the theorems that make it correct.

  \<^bold>\<open>The program.\<close>  A game or a server links the client, hands it events and consent decisions, and the client
  delivers the events in batches, keeps what it could not deliver on disk, fetches remote configuration, and
  owes the server a receipt for every decision.  The parts meet in few places: the consent floor gates the
  spool and the remote configuration, the outbox of receipts gates the delivery of events, and everything
  that is kept on disk survives a crash at any point.

  \<^bold>\<open>Parts, sources and theories.\<close>
  \<^item> Go and its library: \<open>Go_Prelude\<close>, \<open>Go_Text\<close> (strings, bytes, UTF-8), \<open>Go_Time\<close> and \<open>Go_Time_Format\<close>
    (parsing and printing of RFC 3339), \<open>Go_Json\<close>, \<open>Json_Facts\<close>, \<open>Json_Strings\<close>, \<open>Json_Encode\<close>,
    \<open>Json_Members\<close> (\<open>encoding/json\<close>: the scanner with fuel, the encoder, and members of a struct).
  \<^item> \<open>Identifiers\<close>: \<open>ids.go\<close>, \<open>event_names.go\<close>, \<open>event_size.go\<close>, \<open>internal/uuidv7\<close>.
  \<^item> \<open>Batch_Outcomes\<close>: \<open>batch_result.go\<close>, \<open>metrics.go\<close>, \<open>rejection_history.go\<close>.  \<open>Event_Queue\<close>: \<open>queue.go\<close>.
  \<^item> The disk spool (\<open>spool.go\<close>, \<open>analytics_retry.go\<close>, \<open>experiment_applications.go\<close>): \<open>Spool_Format\<close> is the file,
    \<open>Spool_Disk\<close> the directory with its faults, \<open>Disk_Spool\<close> the operations of \<open>diskSpool\<close>;
    \<open>Spool_Format_Facts\<close>, \<open>Disk_Spool_Facts\<close>, \<open>Spool_Guarantees\<close>, \<open>Spool_Wipes\<close>, \<open>Spool_Delivery\<close>,
    \<open>Spool_Withdrawal\<close>, \<open>Spool_Applications\<close> are its theorems.  \<open>Spool_Resend\<close> is the client's side of it: the resend
    loop, the clocks of an attempt, and the pacing of retries (\<open>client.go\<close>); \<open>Resend_Steps\<close> and \<open>Resend_Guarantees\<close> are
    its theorems.
  \<^item> The consent policy (\<open>internal/consentpolicy\<close>): \<open>Plan_Schema\<close>, \<open>Plan_Parse\<close>, \<open>Plan_Verify\<close>,
    \<open>Plan_Roundtrip\<close>.
  \<^item> Remote configuration (\<open>remote_config.go\<close>, the attributes of \<open>experiments.go\<close>): \<open>Remote_Config\<close>,
    \<open>Remote_Config_State\<close>, \<open>Remote_Config_Facts\<close>, \<open>Remote_Config_Machine\<close>.  \<open>HTTP_Responses\<close>:
    \<open>transport.go\<close>, \<open>request_compression.go\<close>.  \<open>Private_File\<close>: \<open>writePrivateFileAtomic\<close>.
  \<^item> Consent: \<open>Consent_Actor\<close> (\<open>consent_actor.go\<close>), \<open>Consent_Record\<close> (\<open>consent_record.go\<close>, \<open>consent_notice.go\<close>),
    \<open>Consent_Outbox\<close> (the type \<open>consentOutbox\<close> of \<open>consent_outbox.go\<close>), \<open>Consent_Floor\<close> (start-up, minting, what is
    owed, \<open>applySpoolConsent\<close> of \<open>spool.go\<close>), \<open>Consent_Dispatch\<close> (the delivery of receipts, the backoff of \<open>client.go\<close>,
    \<open>applyConsentDecision\<close> of \<open>consent.go\<close>).  Their theorems are in \<open>Consent_Facts\<close>, \<open>Outbox_Invariant\<close>,
    \<open>Outbox_Machine\<close>, \<open>Outbox_Format\<close>, \<open>Outbox_Guarantees\<close>, \<open>Consent_Guarantees\<close>, \<open>Consent_Startup\<close>,
    \<open>Dispatch_Termination\<close>.

  \<^bold>\<open>How state and operations correspond.\<close>  A struct is a record with the source's field names (prefixed where two
  types share one), a method is a function from the old state to the new, and a section under a lock is one
  step.  Operations that may overlap are separate steps: a fetch of the remote configuration begins, asks and
  settles in three; a turn of the dispatch is one, with the clock, the decision lock and the server's answer as
  its environment; a decision has a fast and a slow half.  The machines \<open>spool_step\<close>, \<open>rc_reach\<close> and
  \<open>ob_reach\<close> put the operations in any order, with other processes rewriting the files in between.  A file
  system call takes its outcome from a list in the state, and one that reports a failure may have landed.  A Go
  string is a list of bytes, an instant an integer of nanoseconds, a counter a word of 64 bits that wraps; an
  error is a value.

  \<^bold>\<open>What the theorems show.\<close>
  \<^item> Consent: a forced minor is final and a denial holds at once; receipts leave in the order of the trail and a
    grant never past a denial, its record never precedes its receipt; a start-up takes the state an abstract rule
    gives of the record and the newest receipt; stamps increase; the dispatch ends; a close that reports success
    loses no decision, and the next start finds every receipt that is left.
  \<^item> The outbox: its invariant in every order of operations, saves that write the whole
    merge, given without its loops, or keep memory as it was; appends that are durable or reported; and a restart that
    reads back what was saved.
  \<^item> The spool: its invariant, what a save leaves in the file, the file format as an append log, fail-closed wipes,
    acknowledged events that no later pull hands out again and withdrawn events that do not come back.  The
    resend returns, strands no event of the host, and sends nothing past the windows of deduplication.
  \<^item> The policy: plans that parse are within their bounds and round-trip, and a gate that uses a plan only under
    every check.  Remote configuration: what a getter serves is the held record, a refused scope stays closed,
    settlements are ordered by the beginning of their fetches.
  \<^item> The rest: identifiers, the rejection ring against a bounded history, the queue against a bounded list, Retry-After
    bounds, when a batch certainly was not delivered.

  \<^bold>\<open>Interfaces.\<close>  \<open>atomic_file\<close> is the contract of a private state file, interpreted on \<open>pf_write\<close> and
  \<open>pf_read\<close>; \<open>bounded_buffer\<close> is the contract of the event queue, interpreted on \<open>enqueue\<close> and \<open>drainInto\<close>.

  \<^bold>\<open>Fuel and bounds.\<close>  The JSON parser takes the length of its text as fuel, which \<open>parse_value_fuel\<close> shows is
  enough.  The dispatch loop runs over a list of turns; \<open>dispatch_ends\<close> shows how many are enough, while the
  memory of 256 settled keys does not overflow and no other process adds receipts.  The resend runs over a list of
  turns; one more than the resend queue has entries is enough (\<open>resend_strands_nothing\<close>).

  \<^bold>\<open>Parameters.\<close>  The HTTP client (\<open>send\<close>), gzip, SHA-256, the parser of HTTP dates, the text of a stored
  application, random identifiers and the jitter of the backoff are arguments of the definitions that use
  them.

  \<^bold>\<open>Not modelled.\<close>  The select loop and life cycle of \<open>client.go\<close>, with the batches it builds and a failed batch's way into the
  spool; the callback \<open>removeMatchingAfter\<close> runs under its lock, which does not touch the spool; the experiments (\<open>experiments.go\<close>,
  \<open>experiment_facts.go\<close>, \<open>experiment_subject.go\<close>) beyond the attributes and the stored applications, whose state is
  large and interacts with every queue of the worker; the event envelope, which needs the float and map
  encoding of \<open>encoding/json\<close>; crash reporting (\<open>pkg/crash\<close>), a separate client; the bearer token and the
  anonymous identifier; configuration structs, log lines, examples and scripts.
\<close>

end
